(* ===== verification/Py_Text.thy ===== *)
theory Py_Text
  imports Prelude
begin

text \<open>
  The part of Python's text handling the program uses, on \<open>string\<close> (code points below 256):
  \<open>str.isspace\<close>, \<open>str.strip\<close>, \<open>str.isdecimal\<close>, \<open>str(int)\<close>, \<open>int(str, base)\<close>, \<open>str.replace\<close> with
  an empty replacement, \<open>str.split\<close> on one character, \<open>str.join\<close>, \<open>str(UUID)\<close> and \<open>UUID(str)\<close>.
  The round trips \<open>int(str(n)) = n\<close> and \<open>UUID(str(u)) = u\<close> are proved here; message encoding rests
  on them.
\<close>

section \<open>Characters and whitespace\<close>

definition code :: "char \<Rightarrow> nat" where
  "code c = of_char c"

definition is_space :: "char \<Rightarrow> bool" where
  "is_space c \<longleftrightarrow> (9 \<le> code c \<and> code c \<le> 13) \<or> (28 \<le> code c \<and> code c \<le> 32)
     \<or> code c = 133 \<or> code c = 160"

definition is_digit :: "char \<Rightarrow> bool" where
  "is_digit c \<longleftrightarrow> 48 \<le> code c \<and> code c \<le> 57"

definition is_letter :: "char \<Rightarrow> bool" where
  "is_letter c \<longleftrightarrow> (65 \<le> code c \<and> code c \<le> 90) \<or> (97 \<le> code c \<and> code c \<le> 122)"

definition py_lstrip :: "string \<Rightarrow> string" where
  "py_lstrip s = dropWhile is_space s"

definition py_rstrip :: "string \<Rightarrow> string" where
  "py_rstrip s = rev (dropWhile is_space (rev s))"

definition py_strip :: "string \<Rightarrow> string" where
  "py_strip s = py_rstrip (py_lstrip s)"

text \<open>\<open>not s.strip()\<close>: the string is empty or all whitespace.\<close>

definition blank :: "string \<Rightarrow> bool" where
  "blank s \<longleftrightarrow> py_strip s = []"

lemma blank_iff: "blank s \<longleftrightarrow> (\<forall>c \<in> set s. is_space c)"
proof -
  have "blank s \<longleftrightarrow> (\<forall>c \<in> set (dropWhile is_space s). is_space c)"
    by (simp add: blank_def py_strip_def py_rstrip_def py_lstrip_def)
  also have "\<dots> \<longleftrightarrow> (\<forall>c \<in> set s. is_space c)"
    by (induction s) auto
  finally show ?thesis .
qed

lemma py_strip_id:
  assumes "\<And>c. c \<in> set s \<Longrightarrow> \<not> is_space c"
  shows "py_strip s = s"
proof -
  have "dropWhile is_space s = s" and "dropWhile is_space (rev s) = rev s"
    using assms by (auto intro: dropWhile_id)
  then show ?thesis by (simp add: py_strip_def py_lstrip_def py_rstrip_def)
qed

lemma digit_not_space: "is_digit c \<Longrightarrow> \<not> is_space c"
  by (auto simp: is_digit_def is_space_def)

text \<open>\<open>str.isdecimal\<close>: non-empty and only decimal digits.\<close>

definition isdecimal :: "string \<Rightarrow> bool" where
  "isdecimal s \<longleftrightarrow> s \<noteq> [] \<and> list_all is_digit s"

section \<open>Decimal integers\<close>

definition digit_char :: "nat \<Rightarrow> char" where
  "digit_char d = char_of (48 + d)"

definition digit_val :: "char \<Rightarrow> nat" where
  "digit_val c = code c - 48"

lemma code_digit_char: "d < 10 \<Longrightarrow> code (digit_char d) = 48 + d"
  by (simp add: code_def digit_char_def)

lemma digit_char_props [simp]:
  "d < 10 \<Longrightarrow> is_digit (digit_char d)"
  "d < 10 \<Longrightarrow> digit_val (digit_char d) = d"
  by (simp_all add: is_digit_def digit_val_def code_digit_char)

fun nat_str :: "nat \<Rightarrow> string" where
  "nat_str n = (if n < 10 then [digit_char n] else nat_str (n div 10) @ [digit_char (n mod 10)])"

declare nat_str.simps [simp del]

definition int_str :: "int \<Rightarrow> string" where
  "int_str i = (if i < 0 then CHR ''-'' # nat_str (nat (- i)) else nat_str (nat i))"

definition digits_val :: "string \<Rightarrow> nat" where
  "digits_val s = foldl (\<lambda>a c. 10 * a + digit_val c) 0 s"

lemma digits_val_snoc [simp]: "digits_val (s @ [c]) = 10 * digits_val s + digit_val c"
  by (simp add: digits_val_def)

lemma nat_str_nonempty [simp]: "nat_str n \<noteq> []"
  by (subst nat_str.simps) simp

lemma nat_str_digits: "list_all is_digit (nat_str n)"
proof (induction n rule: nat_str.induct)
  case (1 n)
  then show ?case by (subst nat_str.simps) simp
qed

lemma nat_str_isdecimal [simp]: "isdecimal (nat_str n)"
  by (simp add: isdecimal_def nat_str_digits)

lemma nat_str_val [simp]: "digits_val (nat_str n) = n"
proof (induction n rule: nat_str.induct)
  case (1 n)
  show ?case
  proof (cases "n < 10")
    case True
    then show ?thesis by (subst nat_str.simps) (simp add: digits_val_def)
  next
    case False
    with 1 show ?thesis by (subst nat_str.simps) simp
  qed
qed

lemma nat_str_inject [simp]: "nat_str m = nat_str n \<longleftrightarrow> m = n"
  by (metis nat_str_val)

text \<open>
  \<open>int(text, base)\<close>: surrounding whitespace, a sign, for base 16 the prefix \<open>0x\<close>, then digits with
  single underscores between them.
\<close>

definition base_digit :: "nat \<Rightarrow> char \<Rightarrow> nat option" where
  "base_digit b c =
     (let v = (if is_digit c then Some (code c - 48)
               else if 97 \<le> code c \<and> code c \<le> 122 then Some (code c - 87)
               else if 65 \<le> code c \<and> code c \<le> 90 then Some (code c - 55) else None)
      in case v of None \<Rightarrow> None | Some d \<Rightarrow> if d < b then Some d else None)"

fun base_digits :: "nat \<Rightarrow> nat \<Rightarrow> string \<Rightarrow> nat option" where
  "base_digits b acc [] = Some acc"
| "base_digits b acc (c # cs) =
     (if c = CHR ''_'' then
        (case cs of [] \<Rightarrow> None
         | d # ds \<Rightarrow> (case base_digit b d of None \<Rightarrow> None
                      | Some v \<Rightarrow> base_digits b (b * acc + v) ds))
      else (case base_digit b c of None \<Rightarrow> None | Some v \<Rightarrow> base_digits b (b * acc + v) cs))"

definition unsigned_base :: "nat \<Rightarrow> string \<Rightarrow> nat option" where
  "unsigned_base b s =
     (case s of [] \<Rightarrow> None
      | c # cs \<Rightarrow> (if c = CHR ''_'' then None else base_digits b 0 s))"

definition drop_radix :: "nat \<Rightarrow> string \<Rightarrow> string" where
  "drop_radix b s =
     (case s of
        z # x # rest \<Rightarrow>
          (if b = 16 \<and> z = CHR ''0'' \<and> (x = CHR ''x'' \<or> x = CHR ''X'')
           then (case rest of u # rest' \<Rightarrow> if u = CHR ''_'' then rest' else rest | [] \<Rightarrow> [])
           else s)
      | _ \<Rightarrow> s)"

definition py_int_base :: "nat \<Rightarrow> string \<Rightarrow> int option" where
  "py_int_base b s =
     (case py_strip s of
        [] \<Rightarrow> None
      | c # cs \<Rightarrow>
          (if c = CHR ''-'' then map_option (\<lambda>n. - int n) (unsigned_base b (drop_radix b cs))
           else if c = CHR ''+'' then map_option int (unsigned_base b (drop_radix b cs))
           else map_option int (unsigned_base b (drop_radix b (c # cs)))))"

abbreviation py_int :: "string \<Rightarrow> int option" where
  "py_int \<equiv> py_int_base 10"

lemma base_digit_decimal: "is_digit c \<Longrightarrow> base_digit 10 c = Some (digit_val c)"
  by (auto simp: base_digit_def digit_val_def is_digit_def Let_def)

lemma digit_not_punct: "is_digit c \<Longrightarrow> c \<noteq> CHR ''_'' \<and> c \<noteq> CHR ''-'' \<and> c \<noteq> CHR ''+''"
  by (auto simp: is_digit_def code_def)

lemma base_digits_decimal:
  "list_all is_digit s \<Longrightarrow>
   base_digits 10 acc s = Some (foldl (\<lambda>a c. 10 * a + digit_val c) acc s)"
  by (induction s arbitrary: acc) (auto simp: base_digit_decimal dest: digit_not_punct)

lemma unsigned_base_decimal:
  assumes "isdecimal s"
  shows "unsigned_base 10 s = Some (digits_val s)"
proof -
  from assms have ne: "s \<noteq> []" and dig: "list_all is_digit s" by (simp_all add: isdecimal_def)
  from base_digits_decimal [OF dig] have "base_digits 10 0 s = Some (digits_val s)"
    by (simp add: digits_val_def)
  with ne dig show ?thesis
    by (cases s) (auto simp: unsigned_base_def dest: digit_not_punct)
qed

lemma drop_radix_10 [simp]: "drop_radix 10 s = s"
  by (auto simp: drop_radix_def split: list.splits)

lemma isdecimal_strip: "isdecimal s \<Longrightarrow> py_strip s = s"
  by (rule py_strip_id) (auto simp: isdecimal_def list_all_iff dest: digit_not_space)

theorem py_int_decimal: "isdecimal s \<Longrightarrow> py_int s = Some (int (digits_val s))"
proof -
  assume s: "isdecimal s"
  then obtain c cs where "s = c # cs" and "is_digit c"
    by (cases s) (auto simp: isdecimal_def)
  with isdecimal_strip [OF s] unsigned_base_decimal [OF s] digit_not_punct [of c] show ?thesis
    by (simp add: py_int_base_def)
qed

lemma dash_not_space: "\<not> is_space CHR ''-''"
  by (simp add: is_space_def code_def)

theorem py_int_int_str [simp]: "py_int (int_str i) = Some i"
proof (cases "i < 0")
  case True
  have "\<not> is_space c" if "c \<in> set (CHR ''-'' # nat_str (nat (- i)))" for c
    using that nat_str_digits [of "nat (- i)"] dash_not_space
    by (auto simp: list_all_iff dest: digit_not_space)
  then have "py_strip (int_str i) = CHR ''-'' # nat_str (nat (- i))"
    using True by (simp only: int_str_def if_True) (rule py_strip_id)
  with True show ?thesis
    by (simp add: py_int_base_def unsigned_base_decimal)
next
  case False
  then show ?thesis by (simp add: int_str_def py_int_decimal)
qed

lemma int_str_nonblank: "\<not> blank (int_str i)"
proof -
  have digit: "\<exists>c \<in> set (nat_str n). is_digit c" for n
    using nat_str_digits [of n] nat_str_nonempty [of n] by (cases "nat_str n") auto
  have "\<exists>c \<in> set (int_str i). is_digit c"
    using digit [of "nat i"] digit [of "nat (- i)"] by (auto simp: int_str_def)
  then show ?thesis by (auto simp: blank_iff dest: digit_not_space)
qed

section \<open>Splitting, joining, deleting\<close>

fun split_on :: "char \<Rightarrow> string \<Rightarrow> string list" where
  "split_on sep [] = [[]]"
| "split_on sep (c # cs) =
     (if c = sep then [] # split_on sep cs
      else (case split_on sep cs of [] \<Rightarrow> [[c]] | w # ws \<Rightarrow> (c # w) # ws))"

fun join :: "string \<Rightarrow> string list \<Rightarrow> string" where
  "join sep [] = []"
| "join sep [w] = w"
| "join sep (w # ws) = w @ sep @ join sep ws"

lemma split_on_nonempty [simp]: "split_on sep s \<noteq> []"
  by (cases s) (auto split: list.splits)

lemma join_Cons: "ws \<noteq> [] \<Longrightarrow> join sep (w # ws) = w @ sep @ join sep ws"
  by (cases ws) auto

lemma split_on_no_sep: "sep \<notin> set s \<Longrightarrow> split_on sep s = [s]"
  by (induction s) auto

lemma split_on_append:
  "sep \<notin> set w \<Longrightarrow> split_on sep (w @ sep # s) = w # split_on sep s"
  by (induction w) auto

theorem split_on_join:
  "ws \<noteq> [] \<Longrightarrow> (\<And>w. w \<in> set ws \<Longrightarrow> sep \<notin> set w) \<Longrightarrow> split_on sep (join [sep] ws) = ws"
proof (induction ws)
  case (Cons w ws)
  then show ?case
    by (cases "ws = []") (auto simp: join_Cons split_on_no_sep split_on_append)
qed simp

fun strip_prefix :: "string \<Rightarrow> string \<Rightarrow> string option" where
  "strip_prefix [] s = Some s"
| "strip_prefix (p # ps) [] = None"
| "strip_prefix (p # ps) (c # cs) = (if p = c then strip_prefix ps cs else None)"

lemma strip_prefix_Some_iff: "strip_prefix p s = Some r \<longleftrightarrow> s = p @ r"
  by (induction p s rule: strip_prefix.induct) auto

text \<open>\<open>text.replace(pat, "")\<close> for a non-empty pattern.\<close>

function delete_all :: "string \<Rightarrow> string \<Rightarrow> string" where
  "delete_all pat [] = []"
| "delete_all pat (c # cs) =
     (case strip_prefix pat (c # cs) of
        Some rest \<Rightarrow> if pat = [] then c # cs else delete_all pat rest
      | None \<Rightarrow> c # delete_all pat cs)"
  by pat_completeness auto
termination
  by (relation "measure (\<lambda>(pat, s). length s)")
     (auto simp: strip_prefix_Some_iff simp flip: length_greater_0_conv
       dest!: arg_cong [where f = length])

lemma delete_all_id: "p \<notin> set s \<Longrightarrow> delete_all (p # ps) s = s"
  by (induction s) auto

lemma delete_all_single: "delete_all [p] s = filter (\<lambda>c. c \<noteq> p) s"
  by (induction s) auto

definition strip_chars :: "char list \<Rightarrow> string \<Rightarrow> string" where
  "strip_chars cs s =
     rev (dropWhile (\<lambda>c. c \<in> set cs) (rev (dropWhile (\<lambda>c. c \<in> set cs) s)))"

lemma strip_chars_id: "(\<And>c. c \<in> set s \<Longrightarrow> c \<notin> set cs) \<Longrightarrow> strip_chars cs s = s"
  using dropWhile_id [of s "\<lambda>c. c \<in> set cs"] dropWhile_id [of "rev s" "\<lambda>c. c \<in> set cs"]
  by (simp add: strip_chars_def)

section \<open>UUIDs\<close>

type_synonym uuid = "128 word"

definition hex_char :: "nat \<Rightarrow> char" where
  "hex_char d = (if d < 10 then char_of (48 + d) else char_of (87 + d))"

fun hex_digits :: "nat \<Rightarrow> nat \<Rightarrow> string" where
  "hex_digits 0 x = []"
| "hex_digits (Suc n) x = hex_digits n (x div 16) @ [hex_char (x mod 16)]"

text \<open>\<open>str(uuid)\<close>: 32 lower-case hexadecimal digits grouped 8-4-4-4-12.\<close>

definition uuid_str :: "uuid \<Rightarrow> string" where
  "uuid_str u =
     (let h = hex_digits 32 (unat u) in
      take 8 h @ ''-'' @ take 4 (drop 8 h) @ ''-'' @ take 4 (drop 12 h) @ ''-'' @
      take 4 (drop 16 h) @ ''-'' @ drop 20 h)"

text \<open>\<open>UUID(text)\<close>, \<open>None\<close> where it raises \<open>ValueError\<close>.\<close>

definition uuid_parse :: "string \<Rightarrow> uuid option" where
  "uuid_parse s =
     (let h = delete_all ''-''
                (strip_chars ''{}'' (delete_all ''uuid:'' (delete_all ''urn:'' s)))
      in if length h \<noteq> 32 then None
         else (case py_int_base 16 h of
                 None \<Rightarrow> None
               | Some i \<Rightarrow> if 0 \<le> i \<and> i < 2 ^ 128 then Some (word_of_int i) else None))"

definition hex_text :: "string \<Rightarrow> bool" where
  "hex_text s \<longleftrightarrow> (\<forall>c \<in> set s. \<exists>d < 16. c = hex_char d)"

lemma code_hex_char: "d < 16 \<Longrightarrow> code (hex_char d) = (if d < 10 then 48 + d else 87 + d)"
  by (simp add: code_def hex_char_def)

lemma hex_text_digits: "hex_text (hex_digits n x)"
proof (induction n arbitrary: x)
  case (Suc n)
  have "x mod 16 < 16" by simp
  then have "\<exists>d < 16. hex_char (x mod 16) = hex_char d" by blast
  with Suc show ?case by (simp add: hex_text_def ball_Un)
qed (simp add: hex_text_def)

lemma length_hex_digits [simp]: "length (hex_digits n x) = n"
  by (induction n arbitrary: x) auto

lemma base_digit_hex: "d < 16 \<Longrightarrow> base_digit 16 (hex_char d) = Some d"
  by (auto simp: base_digit_def Let_def is_digit_def code_hex_char)

lemma hex_char_code_cases:
  assumes "d < 16"
  shows "(48 \<le> code (hex_char d) \<and> code (hex_char d) \<le> 57) \<or>
         (97 \<le> code (hex_char d) \<and> code (hex_char d) \<le> 102)"
  using assms by (auto simp: code_hex_char)

lemma hex_char_not:
  assumes "d < 16"
  shows "\<not> is_space (hex_char d)"
    and "hex_char d \<notin> {CHR ''-'', CHR ''+'', CHR ''_'', CHR ''x'', CHR ''X'', CHR ''u'', CHR ''{'', CHR ''}''}"
  using hex_char_code_cases [OF assms] by (auto simp: is_space_def code_def)

lemma hex_text_mem:
  assumes "hex_text s" and "c \<in> set s"
  shows "\<not> is_space c \<and> c \<noteq> CHR ''-'' \<and> c \<noteq> CHR ''+'' \<and> c \<noteq> CHR ''_'' \<and> c \<noteq> CHR ''x''
    \<and> c \<noteq> CHR ''X'' \<and> c \<noteq> CHR ''u'' \<and> c \<noteq> CHR ''{'' \<and> c \<noteq> CHR ''}''"
proof -
  from assms obtain d where "d < 16" and "c = hex_char d" by (auto simp: hex_text_def)
  with hex_char_not [of d] show ?thesis by simp
qed

lemma base_digits_append:
  assumes "hex_text s"
  shows "base_digits 16 acc (s @ t) = base_digits 16 (the (base_digits 16 acc s)) t"
    and "base_digits 16 acc s \<noteq> None"
  using assms
  by (induction s arbitrary: acc)
     (auto simp: hex_text_def base_digit_hex dest: hex_char_not(2))

lemma base_digits_hex:
  "base_digits 16 acc (hex_digits n x) = Some (16 ^ n * acc + x mod 16 ^ n)"
proof (induction n arbitrary: x)
  case (Suc n)
  have d: "x mod 16 < 16" by simp
  have "base_digits 16 acc (hex_digits (Suc n) x)
      = base_digits 16 (16 ^ n * acc + (x div 16) mod 16 ^ n) [hex_char (x mod 16)]"
    using Suc base_digits_append(1) [OF hex_text_digits, of acc n "x div 16"] by simp
  also have "\<dots> = Some (16 * (16 ^ n * acc + (x div 16) mod 16 ^ n) + x mod 16)"
    using hex_char_not(2) [OF d] by (simp add: base_digit_hex [OF d])
  also have "16 * (16 ^ n * acc + (x div 16) mod 16 ^ n) + x mod 16
      = 16 ^ Suc n * acc + x mod 16 ^ Suc n"
    by (simp add: mod_mult2_eq algebra_simps)
  finally show ?case .
qed simp

lemma drop_radix_hex: "hex_text s \<Longrightarrow> drop_radix 16 s = s"
  using hex_text_mem [of s "s ! 1"] by (auto simp: drop_radix_def split: list.splits)

lemma py_int_hex:
  assumes "0 < n" and "x < 16 ^ n"
  shows "py_int_base 16 (hex_digits n x) = Some (int x)"
proof -
  let ?h = "hex_digits n x"
  have hex: "hex_text ?h" by (rule hex_text_digits)
  have strip: "py_strip ?h = ?h"
    using hex by (intro py_strip_id) (auto simp: hex_text_def dest: hex_char_not(1))
  have "length ?h = n" by simp
  with assms(1) obtain c cs where cs: "?h = c # cs" by (cases ?h) auto
  with hex have c: "c \<notin> {CHR ''-'', CHR ''+'', CHR ''_''}"
    by (auto simp: hex_text_def dest: hex_char_not(2))
  have "unsigned_base 16 ?h = Some x"
    using c cs base_digits_hex [of 0 n x] assms(2) by (simp add: unsigned_base_def)
  with c cs strip drop_radix_hex [OF hex] show ?thesis
    by (simp add: py_int_base_def)
qed

lemma split_groups:
  "h = take 8 h @ take 4 (drop 8 h) @ take 4 (drop 12 h) @ take 4 (drop 16 h) @ drop 20 h"
proof -
  have join: "take 4 (drop n h) @ drop (n + 4) h = drop n h" for n
    by (metis add.commute append_take_drop_id drop_drop)
  show ?thesis
    using join [of 16] join [of 12] join [of 8] append_take_drop_id [of 8 h] by simp
qed

theorem uuid_parse_str [simp]: "uuid_parse (uuid_str u) = Some u"
proof -
  let ?h = "hex_digits 32 (unat u)"
  note hex = hex_text_mem [OF hex_text_digits [of 32 "unat u"]]
  have mem: "c \<in> set ?h \<or> c = CHR ''-''" if "c \<in> set (uuid_str u)" for c
    using that by (auto simp: uuid_str_def Let_def dest: in_set_takeD in_set_dropD)
  have noturn: "CHR ''u'' \<notin> set (uuid_str u)"
    using mem [of "CHR ''u''"] hex [of "CHR ''u''"] by auto
  have nobrace: "c \<notin> set ''{}''" if "c \<in> set (uuid_str u)" for c
    using mem [OF that] hex [of c] by auto
  have parts: "?h = take 8 ?h @ take 4 (drop 8 ?h) @ take 4 (drop 12 ?h) @ take 4 (drop 16 ?h) @ drop 20 ?h"
    by (rule split_groups)
  have nodash: "filter (\<lambda>c. c \<noteq> CHR ''-'') xs = xs" if "set xs \<subseteq> set ?h" for xs
    using that hex by (intro filter_True) blast
  have "delete_all ''-'' (uuid_str u) = ?h"
    by (subst parts)
       (simp add: delete_all_single uuid_str_def Let_def nodash set_take_subset set_drop_subset
         subset_trans [OF set_take_subset set_drop_subset])
  then have "delete_all ''-'' (strip_chars ''{}'' (delete_all ''uuid:'' (delete_all ''urn:'' (uuid_str u)))) = ?h"
    using noturn nobrace by (simp add: delete_all_id strip_chars_id)
  moreover have "unat u < 16 ^ 32"
    using unsigned_less [of u, where ?'a = nat] by simp
  then have "py_int_base 16 ?h = Some (int (unat u))"
    by (rule py_int_hex [rotated]) simp
  moreover have "int (unat u) < 2 ^ 128"
    using unsigned_less [of u, where ?'a = int] by simp
  ultimately show ?thesis by (simp add: uuid_parse_def)
qed

lemma uuid_str_inject [simp]: "uuid_str u = uuid_str v \<longleftrightarrow> u = v"
  by (metis option.inject uuid_parse_str)

lemma uuid_str_nonblank: "\<not> blank (uuid_str u)"
proof -
  have "CHR ''-'' \<in> set (uuid_str u)" by (simp add: uuid_str_def Let_def)
  with dash_not_space show ?thesis by (auto simp: blank_iff)
qed

end
