(* ===== verification/States.thy ===== *)
theory States
  imports Py_Text
begin

text \<open>
  The exceptions of \<open>app/domain/errors\<close> together with the built-in ones the services raise, the
  status enums of \<open>app/domain/state/states.py\<close> and the declarative lifecycle maps of
  \<open>app/domain/state/state_machine.py\<close>. The locale \<open>lifecycle\<close> states what both state machines
  promise (an initial status, terminal statuses with no way out, a bounded number of transitions)
  and is interpreted on the workflow map and on the node map.
\<close>

section \<open>Statuses\<close>

datatype WorkflowExecutionStatus = WPENDING | WRUNNING | WCOMPLETED | WFAILED

datatype NodeExecutionStatus = PENDING | RUNNING | COMPLETED | FAILED

primrec workflow_status_value :: "WorkflowExecutionStatus \<Rightarrow> string" where
  "workflow_status_value WPENDING = ''pending''"
| "workflow_status_value WRUNNING = ''running''"
| "workflow_status_value WCOMPLETED = ''completed''"
| "workflow_status_value WFAILED = ''failed''"

primrec node_status_value :: "NodeExecutionStatus \<Rightarrow> string" where
  "node_status_value PENDING = ''pending''"
| "node_status_value RUNNING = ''running''"
| "node_status_value COMPLETED = ''completed''"
| "node_status_value FAILED = ''failed''"

section \<open>Exceptions\<close>

record WorkflowValidationError =
  err_code :: string
  err_message :: string
  err_path :: string
  err_node_id :: "string option"
  err_dependency_id :: "string option"
  err_meta :: "(string \<times> string) list"

datatype error =
    InvalidWorkflowTransitionError WorkflowExecutionStatus WorkflowExecutionStatus
  | InvalidNodeTransitionError NodeExecutionStatus NodeExecutionStatus
  | WorkflowExecutionNotFoundError string
  | WorkflowExecutionNotTriggerableError string WorkflowExecutionStatus
  | InvalidWorkflowDefinitionError "WorkflowValidationError list"
  | WorkflowPersistenceError string
  | TemplateResolutionError string
  | UnknownNodeHandlerError string
  | PydanticValidationError string
  | RedisError string
  | ResponseError string
  | ValueError string
  | TypeError string
  | KeyError string
  | LookupError string
  | IndexError string
  | RuntimeError string
  | RedisBarrierTimeout string

definition quoted :: "string \<Rightarrow> string" where
  "quoted s = CHR 0x27 # s @ [CHR 0x27]"

text \<open>The messages of the exception classes.\<close>

fun error_message :: "error \<Rightarrow> string" where
  "error_message (InvalidWorkflowTransitionError c t) =
     ''Invalid workflow transition: '' @ workflow_status_value c @ '' -> '' @ workflow_status_value t"
| "error_message (InvalidNodeTransitionError c t) =
     ''Invalid node transition: '' @ node_status_value c @ '' -> '' @ node_status_value t"
| "error_message (WorkflowExecutionNotFoundError e) =
     ''Workflow execution '' @ quoted e @ '' was not found.''"
| "error_message (WorkflowExecutionNotTriggerableError e st) =
     ''Workflow execution cannot be triggered from status '' @
     quoted (workflow_status_value st) @ '' (execution_id='' @ e @ '').''"
| "error_message (InvalidWorkflowDefinitionError es) =
     ''Workflow definition contains '' @ nat_str (length es) @ '' validation error(s).''"
| "error_message (WorkflowPersistenceError m) = m"
| "error_message (TemplateResolutionError m) = m"
| "error_message (UnknownNodeHandlerError m) = m"
| "error_message (PydanticValidationError m) = m"
| "error_message (RedisError m) = m"
| "error_message (ResponseError m) = m"
| "error_message (ValueError m) = m"
| "error_message (TypeError m) = m"
| "error_message (KeyError m) = quoted m"
| "error_message (LookupError m) = m"
| "error_message (IndexError m) = m"
| "error_message (RuntimeError m) = m"
| "error_message (RedisBarrierTimeout m) = m"

text \<open>\<open>type(error).__name__\<close>.\<close>

fun error_type_name :: "error \<Rightarrow> string" where
  "error_type_name (InvalidWorkflowTransitionError _ _) = ''InvalidWorkflowTransitionError''"
| "error_type_name (InvalidNodeTransitionError _ _) = ''InvalidNodeTransitionError''"
| "error_type_name (WorkflowExecutionNotFoundError _) = ''WorkflowExecutionNotFoundError''"
| "error_type_name (WorkflowExecutionNotTriggerableError _ _) = ''WorkflowExecutionNotTriggerableError''"
| "error_type_name (InvalidWorkflowDefinitionError _) = ''InvalidWorkflowDefinitionError''"
| "error_type_name (WorkflowPersistenceError _) = ''WorkflowPersistenceError''"
| "error_type_name (TemplateResolutionError _) = ''TemplateResolutionError''"
| "error_type_name (UnknownNodeHandlerError _) = ''UnknownNodeHandlerError''"
| "error_type_name (PydanticValidationError _) = ''ValidationError''"
| "error_type_name (RedisError _) = ''RedisError''"
| "error_type_name (ResponseError _) = ''ResponseError''"
| "error_type_name (ValueError _) = ''ValueError''"
| "error_type_name (TypeError _) = ''TypeError''"
| "error_type_name (KeyError _) = ''KeyError''"
| "error_type_name (LookupError _) = ''LookupError''"
| "error_type_name (IndexError _) = ''IndexError''"
| "error_type_name (RuntimeError _) = ''RuntimeError''"
| "error_type_name (RedisBarrierTimeout _) = ''RedisBarrierTimeout''"

text \<open>\<open>isinstance(error, ValueError)\<close>: the classes that derive from it.\<close>

fun is_value_error :: "error \<Rightarrow> bool" where
  "is_value_error (InvalidWorkflowTransitionError _ _) = True"
| "is_value_error (InvalidNodeTransitionError _ _) = True"
| "is_value_error (WorkflowExecutionNotTriggerableError _ _) = True"
| "is_value_error (InvalidWorkflowDefinitionError _) = True"
| "is_value_error (TemplateResolutionError _) = True"
| "is_value_error (UnknownNodeHandlerError _) = True"
| "is_value_error (PydanticValidationError _) = True"
| "is_value_error (ValueError _) = True"
| "is_value_error _ = False"

section \<open>Lifecycle maps\<close>

primrec WORKFLOW_TRANSITIONS :: "WorkflowExecutionStatus \<Rightarrow> WorkflowExecutionStatus list" where
  "WORKFLOW_TRANSITIONS WPENDING = [WRUNNING]"
| "WORKFLOW_TRANSITIONS WRUNNING = [WCOMPLETED, WFAILED]"
| "WORKFLOW_TRANSITIONS WCOMPLETED = []"
| "WORKFLOW_TRANSITIONS WFAILED = []"

primrec NODE_TRANSITIONS :: "NodeExecutionStatus \<Rightarrow> NodeExecutionStatus list" where
  "NODE_TRANSITIONS PENDING = [RUNNING, FAILED]"
| "NODE_TRANSITIONS RUNNING = [COMPLETED, FAILED]"
| "NODE_TRANSITIONS COMPLETED = []"
| "NODE_TRANSITIONS FAILED = []"

definition validate_workflow_transition ::
    "WorkflowExecutionStatus \<Rightarrow> WorkflowExecutionStatus \<Rightarrow> error + unit" where
  "validate_workflow_transition current_status target_status =
     (if target_status \<notin> set (WORKFLOW_TRANSITIONS current_status)
      then Inl (InvalidWorkflowTransitionError current_status target_status) else Inr ())"

definition validate_node_transition ::
    "NodeExecutionStatus \<Rightarrow> NodeExecutionStatus \<Rightarrow> error + unit" where
  "validate_node_transition current_status target_status =
     (if target_status \<notin> set (NODE_TRANSITIONS current_status)
      then Inl (InvalidNodeTransitionError current_status target_status) else Inr ())"

section \<open>The contract of a lifecycle\<close>

text \<open>
  A lifecycle is a map from a status to the statuses it may move to, with a rank that every
  transition increases and that is bounded. What a client may rely on is proved once, here: no
  status is revisited, terminal statuses are absorbing and a run makes at most \<open>bound\<close> transitions.
\<close>

locale lifecycle =
  fixes transitions :: "'s \<Rightarrow> 's list"
    and initial :: 's
    and rank :: "'s \<Rightarrow> nat"
    and bound :: nat
  assumes rank_increases: "t \<in> set (transitions s) \<Longrightarrow> rank s < rank t"
    and rank_bounded: "rank s \<le> bound"
    and initial_source: "initial \<notin> set (transitions s)"
begin

definition moves :: "'s \<Rightarrow> 's \<Rightarrow> bool" where
  "moves s t \<longleftrightarrow> t \<in> set (transitions s)"

inductive run :: "'s \<Rightarrow> 's list \<Rightarrow> bool" where
  run_stop: "run s []"
| run_move: "moves s t \<Longrightarrow> run t ts \<Longrightarrow> run s (t # ts)"

definition terminal :: "'s \<Rightarrow> bool" where
  "terminal s \<longleftrightarrow> transitions s = []"

lemma run_rank: "run s ts \<Longrightarrow> t \<in> set ts \<Longrightarrow> rank s < rank t"
proof (induction rule: run.induct)
  case (run_move s u ts)
  then show ?case
    using rank_increases [of u s] by (auto simp: moves_def intro: less_trans)
qed simp

lemma run_no_return: "run s ts \<Longrightarrow> s \<notin> set ts"
  using run_rank by blast

lemma run_distinct: "run s ts \<Longrightarrow> distinct (s # ts)"
proof (induction rule: run.induct)
  case (run_move s t ts)
  then show ?case
    using run_no_return [OF run.run_move, of s t ts] by simp
qed simp

lemma run_length: "run s ts \<Longrightarrow> length ts + rank s \<le> bound"
proof (induction rule: run.induct)
  case (run_move s t ts)
  then show ?case
    using rank_increases [of t s] by (simp add: moves_def)
qed (simp add: rank_bounded)

lemma terminal_absorbing: "terminal s \<Longrightarrow> run s ts \<Longrightarrow> ts = []"
  by (erule run.cases) (auto simp: terminal_def moves_def)

lemma initial_never_reentered: "run s ts \<Longrightarrow> initial \<notin> set ts"
  by (induction rule: run.induct) (auto simp: moves_def initial_source)

end

primrec workflow_rank :: "WorkflowExecutionStatus \<Rightarrow> nat" where
  "workflow_rank WPENDING = 0"
| "workflow_rank WRUNNING = 1"
| "workflow_rank WCOMPLETED = 2"
| "workflow_rank WFAILED = 2"

primrec node_rank :: "NodeExecutionStatus \<Rightarrow> nat" where
  "node_rank PENDING = 0"
| "node_rank RUNNING = 1"
| "node_rank COMPLETED = 2"
| "node_rank FAILED = 2"

lemma workflow_rank_increases:
  "t \<in> set (WORKFLOW_TRANSITIONS s) \<Longrightarrow> workflow_rank s < workflow_rank t"
  by (cases s) auto

lemma node_rank_increases:
  "t \<in> set (NODE_TRANSITIONS s) \<Longrightarrow> node_rank s < node_rank t"
  by (cases s) auto

interpretation wf_life: lifecycle WORKFLOW_TRANSITIONS WPENDING workflow_rank 2
proof unfold_locales
  fix s t show "t \<in> set (WORKFLOW_TRANSITIONS s) \<Longrightarrow> workflow_rank s < workflow_rank t"
    by (rule workflow_rank_increases)
  show "workflow_rank s \<le> 2" by (cases s) auto
  show "WPENDING \<notin> set (WORKFLOW_TRANSITIONS s)" by (cases s) auto
qed

interpretation node_life: lifecycle NODE_TRANSITIONS PENDING node_rank 2
proof unfold_locales
  fix s t show "t \<in> set (NODE_TRANSITIONS s) \<Longrightarrow> node_rank s < node_rank t"
    by (rule node_rank_increases)
  show "node_rank s \<le> 2" by (cases s) auto
  show "PENDING \<notin> set (NODE_TRANSITIONS s)" by (cases s) auto
qed

lemma validate_node_transition_Inr [simp]:
  "validate_node_transition s t = Inr () \<longleftrightarrow> node_life.moves s t"
  by (simp add: validate_node_transition_def node_life.moves_def)

lemma validate_workflow_transition_Inr [simp]:
  "validate_workflow_transition s t = Inr () \<longleftrightarrow> wf_life.moves s t"
  by (simp add: validate_workflow_transition_def wf_life.moves_def)

end
