(* ===== verification/Py_Values.thy ===== *)
theory Py_Values
  imports States
begin

text \<open>
  The Python values that flow through definitions, configurations, inputs and outputs
  (\<open>JsonValue = object\<close> in \<open>app/domain/models/json.py\<close>), with the operations the program applies
  to them: \<open>dict.get\<close>, item assignment, truth value, \<open>str\<close>/\<open>repr\<close> and \<open>math.isfinite\<close>. A float is
  its IEEE binary64 pattern; its decimal text (CPython's shortest \<open>repr\<close>) is an argument
  \<open>float_repr\<close> of the functions that print it. A dict is an association list in insertion order.
  A value of a type outside JSON that is hashable and not iterable (a datetime, a UUID, \<dots>) is \<open>POther\<close> with its type name and text.
  \<open>is_json_value\<close> is the type guard of \<open>app/messaging/stream_fields.py\<close>.
\<close>

unbundle bit_operations_syntax

datatype pyval =
    PNone
  | PBool bool
  | PInt int
  | PFloat "64 word"
  | PStr string
  | PList "pyval list"
  | PDict "(pyval \<times> pyval) list"
  | POther string string

type_synonym pydict = "(pyval \<times> pyval) list"
type_synonym float_text = "64 word \<Rightarrow> string"

section \<open>Floats\<close>

text \<open>\<open>math.isfinite\<close>: the exponent field of the binary64 pattern is not all ones.\<close>

definition isfinite :: "64 word \<Rightarrow> bool" where
  "isfinite w \<longleftrightarrow> drop_bit 52 w AND 0x7FF \<noteq> 0x7FF"

definition float_is_zero :: "64 word \<Rightarrow> bool" where
  "float_is_zero w \<longleftrightarrow> w AND 0x7FFFFFFFFFFFFFFF = 0"

definition float_is_nan :: "64 word \<Rightarrow> bool" where
  "float_is_nan w \<longleftrightarrow> \<not> isfinite w \<and> w AND 0xFFFFFFFFFFFFF \<noteq> 0"

definition float_sign :: "64 word \<Rightarrow> bool" where
  "float_sign w \<longleftrightarrow> bit w 63"

definition float_nan :: "64 word" where "float_nan = 0x7FF8000000000000"
definition float_inf :: "64 word" where "float_inf = 0x7FF0000000000000"
definition float_neg_inf :: "64 word" where "float_neg_inf = 0xFFF0000000000000"

lemma special_floats_not_finite:
  "\<not> isfinite float_nan" "\<not> isfinite float_inf" "\<not> isfinite float_neg_inf"
  by (simp_all add: isfinite_def float_nan_def float_inf_def float_neg_inf_def)

section \<open>Dictionaries\<close>

definition dict_lookup :: "pydict \<Rightarrow> string \<Rightarrow> pyval option" where
  "dict_lookup d k = map_of d (PStr k)"

text \<open>\<open>d.get(k)\<close>.\<close>

definition dict_get :: "pydict \<Rightarrow> string \<Rightarrow> pyval" where
  "dict_get d k = (case dict_lookup d k of None \<Rightarrow> PNone | Some v \<Rightarrow> v)"

text \<open>\<open>d[k] = v\<close>: an existing key keeps its position, a new one goes to the end.\<close>

fun dict_set :: "('k \<times> 'v) list \<Rightarrow> 'k \<Rightarrow> 'v \<Rightarrow> ('k \<times> 'v) list" where
  "dict_set [] k v = [(k, v)]"
| "dict_set ((k', v') # d) k v = (if k' = k then (k', v) # d else (k', v') # dict_set d k v)"

definition dict_of_pairs :: "('k \<times> 'v) list \<Rightarrow> ('k \<times> 'v) list" where
  "dict_of_pairs ps = foldl (\<lambda>d p. dict_set d (fst p) (snd p)) [] ps"

lemma map_of_dict_set [simp]: "map_of (dict_set d k v) = (map_of d)(k \<mapsto> v)"
  by (induction d k v rule: dict_set.induct) (auto simp: fun_eq_iff)

lemma keys_dict_set: "fst ` set (dict_set d k v) = insert k (fst ` set d)"
  by (induction d k v rule: dict_set.induct) auto

lemma distinct_dict_set: "distinct (map fst d) \<Longrightarrow> distinct (map fst (dict_set d k v))"
  by (induction d k v rule: dict_set.induct) (auto simp: keys_dict_set)

lemma dict_set_fresh: "k \<notin> fst ` set d \<Longrightarrow> dict_set d k v = d @ [(k, v)]"
  by (induction d k v rule: dict_set.induct) auto

lemma dict_of_pairs_snoc: "dict_of_pairs (ps @ [(k, v)]) = dict_set (dict_of_pairs ps) k v"
  by (simp add: dict_of_pairs_def)

lemma keys_dict_of_pairs: "fst ` set (dict_of_pairs ps) = fst ` set ps"
  by (induction ps rule: rev_induct) (auto simp: dict_of_pairs_def keys_dict_set)

lemma distinct_dict_of_pairs: "distinct (map fst (dict_of_pairs ps))"
  by (induction ps rule: rev_induct) (auto simp: dict_of_pairs_def intro: distinct_dict_set)

lemma dict_of_pairs_distinct: "distinct (map fst ps) \<Longrightarrow> dict_of_pairs ps = ps"
proof (induction ps rule: rev_induct)
  case (snoc p ps)
  then show ?case by (cases p) (auto simp: dict_of_pairs_snoc dict_set_fresh)
qed (simp add: dict_of_pairs_def)

section \<open>Truth value and text\<close>

fun truthy :: "pyval \<Rightarrow> bool" where
  "truthy PNone = False"
| "truthy (PBool b) = b"
| "truthy (PInt i) = (i \<noteq> 0)"
| "truthy (PFloat w) = (\<not> float_is_zero w)"
| "truthy (PStr s) = (s \<noteq> [])"
| "truthy (PList xs) = (xs \<noteq> [])"
| "truthy (PDict d) = (d \<noteq> [])"
| "truthy (POther _ _) = True"

fun type_name :: "pyval \<Rightarrow> string" where
  "type_name PNone = ''NoneType''"
| "type_name (PBool _) = ''bool''"
| "type_name (PInt _) = ''int''"
| "type_name (PFloat _) = ''float''"
| "type_name (PStr _) = ''str''"
| "type_name (PList _) = ''list''"
| "type_name (PDict _) = ''dict''"
| "type_name (POther t _) = t"

definition printable :: "char \<Rightarrow> bool" where
  "printable c \<longleftrightarrow> (32 \<le> code c \<and> code c \<le> 126) \<or> (161 \<le> code c \<and> code c \<noteq> 173)"

definition repr_char :: "char \<Rightarrow> char \<Rightarrow> string" where
  "repr_char q c =
     (if c = q \<or> c = CHR 0x5C then [CHR 0x5C, c]
      else if c = CHR 0x0A then [CHR 0x5C, CHR ''n'']
      else if c = CHR 0x0D then [CHR 0x5C, CHR ''r'']
      else if c = CHR 0x09 then [CHR 0x5C, CHR ''t'']
      else if printable c then [c]
      else CHR 0x5C # CHR ''x'' # hex_digits 2 (code c))"

text \<open>\<open>repr\<close> of a string: single quotes, unless it holds a single quote and no double quote.\<close>

definition str_repr :: "string \<Rightarrow> string" where
  "str_repr s =
     (let q = (if CHR 0x27 \<in> set s \<and> CHR 0x22 \<notin> set s then CHR 0x22 else CHR 0x27)
      in q # concat (map (repr_char q) s) @ [q])"

fun py_repr :: "float_text \<Rightarrow> pyval \<Rightarrow> string" where
  "py_repr fr PNone = ''None''"
| "py_repr fr (PBool b) = (if b then ''True'' else ''False'')"
| "py_repr fr (PInt i) = int_str i"
| "py_repr fr (PFloat w) = fr w"
| "py_repr fr (PStr s) = str_repr s"
| "py_repr fr (PList xs) = ''['' @ join '', '' (map (py_repr fr) xs) @ '']''"
| "py_repr fr (PDict d) =
     ''{'' @ join '', '' (map (\<lambda>(k, v). py_repr fr k @ '': '' @ py_repr fr v) d) @ ''}''"
| "py_repr fr (POther t s) = s"

definition py_str :: "float_text \<Rightarrow> pyval \<Rightarrow> string" where
  "py_str fr v = (case v of PStr s \<Rightarrow> s | _ \<Rightarrow> py_repr fr v)"

section \<open>JSON-compatible values\<close>

fun is_json_value :: "pyval \<Rightarrow> bool" where
  "is_json_value PNone = True"
| "is_json_value (PBool _) = True"
| "is_json_value (PInt _) = True"
| "is_json_value (PFloat _) = True"
| "is_json_value (PStr _) = True"
| "is_json_value (PList xs) = list_all is_json_value xs"
| "is_json_value (PDict d) =
     list_all (\<lambda>(k, v). (case k of PStr _ \<Rightarrow> True | _ \<Rightarrow> False) \<and> is_json_value v) d"
| "is_json_value (POther _ _) = False"

text \<open>Every dict inside a value has pairwise different keys, as a Python dict has.\<close>

fun wf_value :: "pyval \<Rightarrow> bool" where
  "wf_value (PList xs) = list_all wf_value xs"
| "wf_value (PDict d) =
     (distinct (map fst d) \<and> list_all (\<lambda>(k, v). wf_value k \<and> wf_value v) d)"
| "wf_value _ = True"

abbreviation is_str :: "pyval \<Rightarrow> bool" where
  "is_str v \<equiv> (case v of PStr _ \<Rightarrow> True | _ \<Rightarrow> False)"

lemma is_str_iff: "is_str v \<longleftrightarrow> (\<exists>s. v = PStr s)"
  by (cases v) auto

lemma is_json_value_dictD:
  "is_json_value (PDict d) \<Longrightarrow> (k, v) \<in> set d \<Longrightarrow> (\<exists>s. k = PStr s) \<and> is_json_value v"
  by (auto simp: list_all_iff is_str_iff)

lemma dict_lookup_json:
  assumes "is_json_value (PDict d)" and "dict_lookup d k = Some v"
  shows "is_json_value v"
  using assms is_json_value_dictD [of d "PStr k" v] by (auto simp: dict_lookup_def dest: map_of_SomeD)

end
