(* ===== verification/Domain_Models.thy ===== *)
theory Domain_Models
  imports Py_Values
begin

text \<open>
  The domain models of \<open>app/domain/models\<close>: workflow definitions (\<open>node.py\<close>, \<open>workflow.py\<close>) and
  executions with their validated transitions (\<open>execution.py\<close>). Times are microseconds since the
  epoch. The second half states what a well-formed definition is (\<open>valid_dag\<close>): distinct node
  identifiers, dependencies that name nodes of the same definition, and no dependency cycle.
\<close>

type_synonym datetime = int

section \<open>Definitions\<close>

record WorkflowNode =
  wn_id :: string
  wn_handler :: string
  wn_dependencies :: "string list"
  wn_config :: pydict
  wn_created_at :: datetime
  wn_created_by :: "string option"

record NodeReference =
  nr_workflow_id :: uuid
  nr_node_id :: string

record WorkflowDag =
  nodes :: "WorkflowNode list"

record Workflow =
  wf_workflow_id :: uuid
  wf_name :: string
  wf_dag :: WorkflowDag
  wf_created_at :: datetime
  wf_created_by :: "string option"

abbreviation wf_nodes :: "Workflow \<Rightarrow> WorkflowNode list" where
  "wf_nodes workflow \<equiv> nodes (wf_dag workflow)"

section \<open>Executions\<close>

record WorkflowExecution =
  we_execution_id :: uuid
  we_workflow_id :: uuid
  we_status :: WorkflowExecutionStatus
  we_input_data :: pydict
  we_created_at :: datetime
  we_started_at :: "datetime option"
  we_completed_at :: "datetime option"

record NodeExecution =
  ne_workflow_execution_id :: uuid
  ne_node_id :: string
  ne_status :: NodeExecutionStatus
  ne_output_data :: pyval
  ne_error_message :: "string option"
  ne_error_type :: "string option"
  ne_created_at :: datetime
  ne_started_at :: "datetime option"
  ne_completed_at :: "datetime option"

text \<open>The constructors with the declared field defaults; the identifier and the clock are read
  by the default factories and passed in.\<close>

definition new_workflow_execution :: "uuid \<Rightarrow> uuid \<Rightarrow> datetime \<Rightarrow> WorkflowExecution" where
  "new_workflow_execution execution_id workflow_id now =
     \<lparr>we_execution_id = execution_id, we_workflow_id = workflow_id, we_status = WPENDING,
      we_input_data = [], we_created_at = now, we_started_at = None, we_completed_at = None\<rparr>"

definition new_node_execution :: "uuid \<Rightarrow> string \<Rightarrow> datetime \<Rightarrow> NodeExecution" where
  "new_node_execution execution_id node_id now =
     \<lparr>ne_workflow_execution_id = execution_id, ne_node_id = node_id, ne_status = PENDING,
      ne_output_data = PDict [], ne_error_message = None, ne_error_type = None,
      ne_created_at = now, ne_started_at = None, ne_completed_at = None\<rparr>"

definition workflow_transition_to ::
    "WorkflowExecution \<Rightarrow> WorkflowExecutionStatus \<Rightarrow> error + WorkflowExecution" where
  "workflow_transition_to self target_status =
     rbind (validate_workflow_transition (we_status self) target_status)
       (\<lambda>_. Inr (self\<lparr>we_status := target_status\<rparr>))"

definition node_transition_to ::
    "NodeExecution \<Rightarrow> NodeExecutionStatus \<Rightarrow> error + NodeExecution" where
  "node_transition_to self target_status =
     rbind (validate_node_transition (ne_status self) target_status)
       (\<lambda>_. Inr (self\<lparr>ne_status := target_status\<rparr>))"

text \<open>A sequence of \<open>transition_to\<close> calls, stopping at the first exception.\<close>

fun node_transitions :: "NodeExecution \<Rightarrow> NodeExecutionStatus list \<Rightarrow> error + NodeExecution" where
  "node_transitions n [] = Inr n"
| "node_transitions n (t # ts) = rbind (node_transition_to n t) (\<lambda>n'. node_transitions n' ts)"

fun workflow_transitions ::
    "WorkflowExecution \<Rightarrow> WorkflowExecutionStatus list \<Rightarrow> error + WorkflowExecution" where
  "workflow_transitions e [] = Inr e"
| "workflow_transitions e (t # ts) =
     rbind (workflow_transition_to e t) (\<lambda>e'. workflow_transitions e' ts)"

lemma node_transition_to_Inr:
  "node_transition_to n t = Inr n' \<longleftrightarrow> node_life.moves (ne_status n) t \<and> n' = n\<lparr>ne_status := t\<rparr>"
  by (auto simp: node_transition_to_def rbind_Inr_iff)

lemma workflow_transition_to_Inr:
  "workflow_transition_to e t = Inr e' \<longleftrightarrow> wf_life.moves (we_status e) t \<and> e' = e\<lparr>we_status := t\<rparr>"
  by (auto simp: workflow_transition_to_def rbind_Inr_iff)

lemma node_transitions_run:
  "node_transitions n ts = Inr n' \<Longrightarrow>
     node_life.run (ne_status n) ts \<and> n' = n\<lparr>ne_status := last (ne_status n # ts)\<rparr>"
proof (induction ts arbitrary: n)
  case Nil
  then show ?case by (auto intro: node_life.run.intros)
next
  case (Cons t ts)
  then obtain n1 where "node_life.moves (ne_status n) t" and n1: "n1 = n\<lparr>ne_status := t\<rparr>"
    and "node_transitions n1 ts = Inr n'"
    by (auto simp: rbind_Inr_iff node_transition_to_Inr)
  with Cons.IH [of n1] show ?case by (auto intro: node_life.run.intros)
qed

lemma workflow_transitions_run:
  "workflow_transitions e ts = Inr e' \<Longrightarrow>
     wf_life.run (we_status e) ts \<and> e' = e\<lparr>we_status := last (we_status e # ts)\<rparr>"
proof (induction ts arbitrary: e)
  case Nil
  then show ?case by (auto intro: wf_life.run.intros)
next
  case (Cons t ts)
  then obtain e1 where "wf_life.moves (we_status e) t" and e1: "e1 = e\<lparr>we_status := t\<rparr>"
    and "workflow_transitions e1 ts = Inr e'"
    by (auto simp: rbind_Inr_iff workflow_transition_to_Inr)
  with Cons.IH [of e1] show ?case by (auto intro: wf_life.run.intros)
qed

section \<open>Well-formed definitions\<close>

definition node_ids :: "Workflow \<Rightarrow> string list" where
  "node_ids workflow = map wn_id (wf_nodes workflow)"

text \<open>An edge leads from a node to one of its dependencies.\<close>

definition dep_edges :: "Workflow \<Rightarrow> (string \<times> string) set" where
  "dep_edges workflow =
     {(wn_id n, d) | n d. n \<in> set (wf_nodes workflow) \<and> d \<in> set (wn_dependencies n)}"

definition closed_dag :: "Workflow \<Rightarrow> bool" where
  "closed_dag workflow \<longleftrightarrow>
     (\<forall>n \<in> set (wf_nodes workflow). set (wn_dependencies n) \<subseteq> set (node_ids workflow))"

definition valid_dag :: "Workflow \<Rightarrow> bool" where
  "valid_dag workflow \<longleftrightarrow>
     distinct (node_ids workflow) \<and> closed_dag workflow \<and> acyclic (dep_edges workflow)"

lemma finite_dep_edges: "finite (dep_edges workflow)"
proof -
  have "dep_edges workflow =
      (\<Union>n \<in> set (wf_nodes workflow). (\<lambda>d. (wn_id n, d)) ` set (wn_dependencies n))"
    by (auto simp: dep_edges_def)
  then show ?thesis by simp
qed

lemma wf_dep_edges:
  assumes "acyclic (dep_edges workflow)"
  shows "wf ((dep_edges workflow)\<inverse>)"
  using finite_dep_edges assms by (rule finite_acyclic_wf_converse)

lemma valid_dag_node_unique:
  "valid_dag w \<Longrightarrow> m \<in> set (wf_nodes w) \<Longrightarrow> n \<in> set (wf_nodes w) \<Longrightarrow> wn_id m = wn_id n \<Longrightarrow> m = n"
  unfolding valid_dag_def node_ids_def by (blast dest: distinct_keyD)

lemma dep_edges_iff:
  "(a, d) \<in> dep_edges w \<longleftrightarrow> (\<exists>n \<in> set (wf_nodes w). a = wn_id n \<and> d \<in> set (wn_dependencies n))"
  by (auto simp: dep_edges_def)

lemma closed_dagD:
  "closed_dag w \<Longrightarrow> n \<in> set (wf_nodes w) \<Longrightarrow> d \<in> set (wn_dependencies n) \<Longrightarrow>
     \<exists>m \<in> set (wf_nodes w). wn_id m = d"
  by (fastforce simp: closed_dag_def node_ids_def)

text \<open>
  Descending along dependencies inside a valid definition always stops: from any node with
  property \<open>P\<close> one reaches a node with \<open>P\<close> none of whose dependencies has it.
\<close>

lemma valid_dag_minimal:
  assumes w: "valid_dag w" and n: "n \<in> set (wf_nodes w)" and P: "P (wn_id n)"
  obtains m where "m \<in> set (wf_nodes w)" and "P (wn_id m)"
    and "\<And>d. d \<in> set (wn_dependencies m) \<Longrightarrow> \<not> P d"
proof -
  let ?Q = "{i \<in> set (node_ids w). P i}"
  from w have wf: "wf ((dep_edges w)\<inverse>)" by (auto simp: valid_dag_def intro: wf_dep_edges)
  from n P have "wn_id n \<in> ?Q" by (auto simp: node_ids_def)
  with wf obtain i where i: "i \<in> ?Q" and min: "\<And>j. (j, i) \<in> (dep_edges w)\<inverse> \<Longrightarrow> j \<notin> ?Q"
    using wfE_min [of "(dep_edges w)\<inverse>" "wn_id n" ?Q] by metis
  from i obtain m where m: "m \<in> set (wf_nodes w)" "wn_id m = i" by (auto simp: node_ids_def)
  have "\<not> P d" if d: "d \<in> set (wn_dependencies m)" for d
  proof -
    from m d have "(d, i) \<in> (dep_edges w)\<inverse>" by (auto simp: dep_edges_iff)
    with min have "d \<notin> ?Q" by blast
    moreover have "d \<in> set (node_ids w)"
      using w m(1) d by (auto simp: valid_dag_def closed_dag_def)
    ultimately show ?thesis by blast
  qed
  with m i that show ?thesis by blast
qed

end
