(* ===== verification/Dag.thy ===== *)
theory Dag
  imports Domain_Models "HOL-Library.Sublist"
begin

text \<open>
  The pure graph layer of \<open>app/domain/dag\<close>: the internal graph built from a definition
  (\<open>graph.py\<close>), readiness of nodes (\<open>readiness.py\<close>) and propagation of failures (\<open>failure.py\<close>).
  Proved: the graph's adjacency is the inverse of the declared dependencies, and building it raises
  \<open>KeyError\<close> exactly when a dependency is unknown; readiness is the declarative predicate \<open>ready\<close>;
  the breadth-first failure propagation returns exactly the least set \<open>blocked\<close>; and a valid
  definition never gets stuck.
\<close>

section \<open>graph.py\<close>

record DAGNode =
  dn_id :: string
  dn_handler :: string
  dn_config :: pydict
  dn_dependencies :: "string list"
  dn_dependants :: "string list"

record DAG =
  nodes_by_id :: "(string \<times> DAGNode) list"
  root_node_ids :: "string list"
  terminal_node_ids :: "string list"

definition new_dag_node :: "WorkflowNode \<Rightarrow> DAGNode" where
  "new_dag_node node =
     \<lparr>dn_id = wn_id node, dn_handler = wn_handler node, dn_config = wn_config node,
      dn_dependencies = wn_dependencies node, dn_dependants = []\<rparr>"

definition get_node :: "DAG \<Rightarrow> string \<Rightarrow> error + DAGNode" where
  "get_node self node_id = of_option (KeyError node_id) (map_of (nodes_by_id self) node_id)"

definition get_dependencies :: "DAG \<Rightarrow> string \<Rightarrow> error + DAGNode list" where
  "get_dependencies self node_id =
     rbind (get_node self node_id) (\<lambda>node. res_map (get_node self) (dn_dependencies node))"

definition get_dependants :: "DAG \<Rightarrow> string \<Rightarrow> error + DAGNode list" where
  "get_dependants self node_id =
     rbind (get_node self node_id) (\<lambda>node. res_map (get_node self) (dn_dependants node))"

definition get_roots :: "DAG \<Rightarrow> error + DAGNode list" where
  "get_roots self = res_map (get_node self) (root_node_ids self)"

definition get_terminals :: "DAG \<Rightarrow> error + DAGNode list" where
  "get_terminals self = res_map (get_node self) (terminal_node_ids self)"

text \<open>The first loop of \<open>from_workflow\<close>: register every node with an empty list of dependants.\<close>

fun register_nodes ::
    "WorkflowNode list \<Rightarrow> (string \<times> DAGNode) list \<Rightarrow> (string \<times> string list) list \<Rightarrow>
     (string \<times> DAGNode) list \<times> (string \<times> string list) list" where
  "register_nodes [] by_id dependants = (by_id, dependants)"
| "register_nodes (node # rest) by_id dependants =
     register_nodes rest (dict_set by_id (wn_id node) (new_dag_node node))
       (dict_set dependants (wn_id node) [])"

text \<open>The second loop: \<open>dependants_by_id[dependency_id].append(node.id)\<close>.\<close>

fun append_dependant ::
    "string \<Rightarrow> string list \<Rightarrow> (string \<times> string list) list \<Rightarrow> error + (string \<times> string list) list" where
  "append_dependant node_id [] dependants = Inr dependants"
| "append_dependant node_id (dependency_id # rest) dependants =
     (case map_of dependants dependency_id of
        None \<Rightarrow> Inl (KeyError dependency_id)
      | Some xs \<Rightarrow> append_dependant node_id rest (dict_set dependants dependency_id (xs @ [node_id])))"

fun link_dependants ::
    "WorkflowNode list \<Rightarrow> (string \<times> string list) list \<Rightarrow> error + (string \<times> string list) list" where
  "link_dependants [] dependants = Inr dependants"
| "link_dependants (node # rest) dependants =
     rbind (append_dependant (wn_id node) (wn_dependencies node) dependants) (link_dependants rest)"

text \<open>The third loop: \<open>_set_dependants\<close> on every node.\<close>

definition set_dependants ::
    "(string \<times> string list) list \<Rightarrow> (string \<times> DAGNode) list \<Rightarrow> error + (string \<times> DAGNode) list" where
  "set_dependants dependants by_id =
     res_map (\<lambda>(node_id, dag_node).
       rbind (of_option (KeyError node_id) (map_of dependants node_id))
         (\<lambda>ds. Inr (node_id, dag_node\<lparr>dn_dependants := ds\<rparr>))) by_id"

definition from_workflow :: "Workflow \<Rightarrow> error + DAG" where
  "from_workflow workflow =
     (let (by_id, dependants) = register_nodes (wf_nodes workflow) [] [] in
      rbind (link_dependants (wf_nodes workflow) dependants) (\<lambda>linked.
      rbind (set_dependants linked by_id) (\<lambda>full.
      Inr \<lparr>nodes_by_id = full,
           root_node_ids = map fst (filter (\<lambda>(_, n). dn_dependencies n = []) full),
           terminal_node_ids = map fst (filter (\<lambda>(_, n). dn_dependants n = []) full)\<rparr>)))"

section \<open>readiness.py\<close>

type_synonym statuses = "string \<rightharpoonup> NodeExecutionStatus"

text \<open>\<open>statuses.get(node_id, NodeExecutionStatus.PENDING)\<close>\<close>

definition status_of :: "statuses \<Rightarrow> string \<Rightarrow> NodeExecutionStatus" where
  "status_of statuses node_id = (case statuses node_id of None \<Rightarrow> PENDING | Some s \<Rightarrow> s)"

definition NON_READY_STATUSES :: "NodeExecutionStatus list" where
  "NON_READY_STATUSES = [RUNNING, COMPLETED, FAILED]"

fun ready_loop :: "statuses \<Rightarrow> WorkflowNode list \<Rightarrow> string list \<Rightarrow> string list" where
  "ready_loop st [] ready_node_ids = ready_node_ids"
| "ready_loop st (node # rest) ready_node_ids =
     (if status_of st (wn_id node) \<in> set NON_READY_STATUSES then ready_loop st rest ready_node_ids
      else if list_all (\<lambda>d. status_of st d = COMPLETED) (wn_dependencies node)
      then ready_loop st rest (ready_node_ids @ [wn_id node])
      else ready_loop st rest ready_node_ids)"

definition evaluate_ready_node_ids :: "Workflow \<Rightarrow> statuses \<Rightarrow> string list" where
  "evaluate_ready_node_ids workflow node_statuses_by_id =
     ready_loop node_statuses_by_id (wf_nodes workflow) []"

section \<open>failure.py\<close>

definition SKIPPABLE_STATUSES :: "NodeExecutionStatus list" where
  "SKIPPABLE_STATUSES = [PENDING]"

definition BLOCKING_STATUSES :: "NodeExecutionStatus list" where
  "BLOCKING_STATUSES = [FAILED]"

text \<open>The inner \<open>for dependant in \<dots>\<close> loop, over the queue, the blocked ids and the statuses.\<close>

fun block_dependants ::
    "DAGNode list \<Rightarrow> string list \<Rightarrow> string list \<Rightarrow> statuses \<Rightarrow> string list \<times> string list \<times> statuses" where
  "block_dependants [] queue blocked st = (queue, blocked, st)"
| "block_dependants (dependant # rest) queue blocked st =
     (if status_of st (dn_id dependant) \<notin> set SKIPPABLE_STATUSES
      then block_dependants rest queue blocked st
      else if dn_id dependant \<in> set blocked then block_dependants rest queue blocked st
      else block_dependants rest (queue @ [dn_id dependant]) (blocked @ [dn_id dependant])
             (st(dn_id dependant \<mapsto> FAILED)))"

definition dag_ids :: "DAG \<Rightarrow> string set" where
  "dag_ids dag = dn_id ` snd ` set (nodes_by_id dag)"

lemma finite_dag_ids [simp]: "finite (dag_ids dag)"
  by (simp add: dag_ids_def)

lemma get_node_dag_ids: "get_node dag i = Inr n \<Longrightarrow> dn_id n \<in> dag_ids dag"
  by (auto simp: get_node_def dag_ids_def of_option_def image_iff split: option.splits
      dest: map_of_SomeD intro!: bexI)

lemma get_dependants_dag_ids:
  "get_dependants dag i = Inr ds \<Longrightarrow> dn_id ` set ds \<subseteq> dag_ids dag"
  by (fastforce simp: get_dependants_def rbind_Inr_iff res_map_Inr_iff list_all2_conv_all_nth
      in_set_conv_nth dest: get_node_dag_ids)

lemma block_dependants_blocked:
  assumes "block_dependants ds queue blocked st = (queue', blocked', st')"
    and "dn_id ` set ds \<subseteq> U" and "finite U"
  shows "(blocked' = blocked \<and> queue' = queue) \<or>
         (card (U - set blocked') < card (U - set blocked))"
  using assms
proof (induction ds arbitrary: queue blocked st)
  case (Cons d rest)
  show ?case
  proof (cases "status_of st (dn_id d) \<notin> set SKIPPABLE_STATUSES \<or> dn_id d \<in> set blocked")
    case True
    then have "block_dependants (d # rest) queue blocked st = block_dependants rest queue blocked st"
      by auto
    with Cons show ?thesis by simp
  next
    case False
    let ?i = "dn_id d"
    have "?i \<in> U - set blocked" using False Cons.prems by simp
    then have less: "card (U - set (blocked @ [?i])) < card (U - set blocked)"
      using Cons.prems by (intro psubset_card_mono) auto
    from False Cons.prems(1) have
      "block_dependants rest (queue @ [?i]) (blocked @ [?i]) (st(?i \<mapsto> FAILED)) = (queue', blocked', st')"
      by simp
    from Cons.IH [OF this] Cons.prems less show ?thesis by auto
  qed
qed simp

lemma block_dependants_measure:
  assumes "get_dependants dag i = Inr ds"
    and "block_dependants ds queue blocked st = (queue', blocked', st')"
  shows "card (dag_ids dag - set blocked') < card (dag_ids dag - set blocked) \<or>
         (blocked' = blocked \<and> queue' = queue)"
  using block_dependants_blocked [OF assms(2) get_dependants_dag_ids [OF assms(1)]] by auto

text \<open>The \<open>while queue\<close> loop. It terminates: a round either shortens the queue or blocks a node of
  the graph that was not blocked before.\<close>

function failure_loop ::
    "DAG \<Rightarrow> string list \<Rightarrow> string list \<Rightarrow> statuses \<Rightarrow> error + string list" where
  "failure_loop dag [] blocked st = Inr blocked"
| "failure_loop dag (blocked_node_id # queue) blocked st =
     (case get_dependants dag blocked_node_id of
        Inl e \<Rightarrow> Inl e
      | Inr dependants \<Rightarrow>
          (case block_dependants dependants queue blocked st of
             (queue', blocked', st') \<Rightarrow> failure_loop dag queue' blocked' st'))"
  by pat_completeness auto
termination
  by (relation "measures [\<lambda>(dag, q, b, st). card (dag_ids dag - set b), \<lambda>(dag, q, b, st). length q]")
     (auto split: prod.splits dest: block_dependants_measure)

definition evaluate_failed_dependency_node_ids :: "Workflow \<Rightarrow> statuses \<Rightarrow> error + string list" where
  "evaluate_failed_dependency_node_ids workflow node_statuses_by_id =
     rbind (from_workflow workflow) (\<lambda>dag.
     rbind (failure_loop dag
              (map wn_id (filter (\<lambda>n. status_of node_statuses_by_id (wn_id n) \<in> set BLOCKING_STATUSES)
                 (wf_nodes workflow)))
              [] node_statuses_by_id)
       (\<lambda>blocked_node_ids.
          Inr (map wn_id (filter (\<lambda>n. wn_id n \<in> set blocked_node_ids) (wf_nodes workflow)))))"

section \<open>The graph built from a definition\<close>

text \<open>The identifiers of the nodes that declare a dependency on \<open>k\<close>, in definition order.\<close>

definition dependants_in :: "WorkflowNode list \<Rightarrow> string \<Rightarrow> string list" where
  "dependants_in ns k =
     concat (map (\<lambda>n. map (\<lambda>_. wn_id n) (filter (\<lambda>d. d = k) (wn_dependencies n))) ns)"

definition dag_of :: "Workflow \<Rightarrow> DAG" where
  "dag_of w =
     \<lparr>nodes_by_id = map (\<lambda>n. (wn_id n, (new_dag_node n)\<lparr>dn_dependants := dependants_in (wf_nodes w) (wn_id n)\<rparr>))
        (wf_nodes w),
      root_node_ids = map wn_id (filter (\<lambda>n. wn_dependencies n = []) (wf_nodes w)),
      terminal_node_ids = map wn_id (filter (\<lambda>n. dependants_in (wf_nodes w) (wn_id n) = []) (wf_nodes w))\<rparr>"

lemma set_dependants_in:
  "set (dependants_in ns k) = {wn_id n | n. n \<in> set ns \<and> k \<in> set (wn_dependencies n)}"
  by (auto simp: dependants_in_def)

lemma map_fst_dict_set: "k \<in> fst ` set d \<Longrightarrow> map fst (dict_set d k v) = map fst d"
  by (induction d k v rule: dict_set.induct) auto

lemma register_nodes_distinct:
  assumes "distinct (map fst b @ map wn_id ns)" and "map fst d = map fst b"
  shows "register_nodes ns b d =
    (b @ map (\<lambda>n. (wn_id n, new_dag_node n)) ns, d @ map (\<lambda>n. (wn_id n, [])) ns)"
  using assms
proof (induction ns arbitrary: b d)
  case (Cons n ns)
  have "wn_id n \<notin> fst ` set b"
    using Cons.prems(1) by auto
  moreover have "wn_id n \<notin> fst ` set d"
    using calculation Cons.prems(2) by (metis set_map)
  ultimately show ?case
    using Cons by (simp add: dict_set_fresh)
qed simp

lemma register_nodes_keys:
  assumes "register_nodes ns b d = (b', d')"
  shows "fst ` set b' = fst ` set b \<union> wn_id ` set ns"
    and "fst ` set d' = fst ` set d \<union> wn_id ` set ns"
  using assms by (induction ns arbitrary: b d) (auto simp: keys_dict_set)

lemma append_dependant_ok:
  assumes "set deps \<subseteq> fst ` set D"
  obtains D' where "append_dependant i deps D = Inr D'" and "map fst D' = map fst D"
    and "\<And>k xs. map_of D k = Some xs \<Longrightarrow>
           map_of D' k = Some (xs @ map (\<lambda>_. i) (filter (\<lambda>d. d = k) deps))"
proof -
  have "\<exists>D'. append_dependant i deps D = Inr D' \<and> map fst D' = map fst D \<and>
     (\<forall>k xs. map_of D k = Some xs \<longrightarrow>
        map_of D' k = Some (xs @ map (\<lambda>_. i) (filter (\<lambda>d. d = k) deps)))"
    using assms
  proof (induction deps arbitrary: D)
    case (Cons a deps)
    then obtain ys where ys: "map_of D a = Some ys"
      by (metis insert_subset list.simps(15) map_of_eq_None_iff option.exhaust)
    let ?D = "dict_set D a (ys @ [i])"
    have keys: "map fst ?D = map fst D"
      using Cons.prems by (intro map_fst_dict_set) simp
    then have "set deps \<subseteq> fst ` set ?D"
      using Cons.prems by (metis insert_subset list.simps(15) set_map)
    from Cons.IH [OF this] obtain D' where D': "append_dependant i deps ?D = Inr D'"
      "map fst D' = map fst ?D"
      "\<And>k xs. map_of ?D k = Some xs \<Longrightarrow>
         map_of D' k = Some (xs @ map (\<lambda>_. i) (filter (\<lambda>d. d = k) deps))"
      by blast
    have "map_of D' k = Some (xs @ map (\<lambda>_. i) (filter (\<lambda>d. d = k) (a # deps)))"
      if "map_of D k = Some xs" for k xs
      using D'(3) [of k] that ys by (cases "k = a") auto
    with D' keys ys show ?case by auto
  qed simp
  then show ?thesis using that by blast
qed

lemma append_dependant_error:
  "\<not> set deps \<subseteq> fst ` set D \<Longrightarrow>
   \<exists>k \<in> set deps. k \<notin> fst ` set D \<and> append_dependant i deps D = Inl (KeyError k)"
proof (induction deps arbitrary: D)
  case (Cons a deps)
  show ?case
  proof (cases "map_of D a")
    case None
    then have "a \<notin> fst ` set D" by (simp add: map_of_eq_None_iff)
    with None show ?thesis by (intro bexI [of _ a]) auto
  next
    case (Some ys)
    then have a: "a \<in> fst ` set D" by (metis map_of_eq_None_iff option.distinct(1))
    then have keys: "fst ` set (dict_set D a (ys @ [i])) = fst ` set D"
      by (auto simp: keys_dict_set)
    with Cons.prems a have "\<not> set deps \<subseteq> fst ` set (dict_set D a (ys @ [i]))" by simp
    from Cons.IH [OF this] keys Some show ?thesis by auto
  qed
qed simp

lemma link_dependants_ok:
  assumes "\<And>n. n \<in> set ns \<Longrightarrow> set (wn_dependencies n) \<subseteq> fst ` set D"
  shows "\<exists>D'. link_dependants ns D = Inr D' \<and> map fst D' = map fst D \<and>
    (\<forall>k xs. map_of D k = Some xs \<longrightarrow> map_of D' k = Some (xs @ dependants_in ns k))"
  using assms
proof (induction ns arbitrary: D)
  case (Cons n ns)
  then obtain D1 where D1: "append_dependant (wn_id n) (wn_dependencies n) D = Inr D1"
    "map fst D1 = map fst D"
    "\<And>k xs. map_of D k = Some xs \<Longrightarrow>
       map_of D1 k = Some (xs @ map (\<lambda>_. wn_id n) (filter (\<lambda>d. d = k) (wn_dependencies n)))"
    using append_dependant_ok [of "wn_dependencies n" D "wn_id n"] by (metis list.set_intros(1))
  have "set (wn_dependencies m) \<subseteq> fst ` set D1" if "m \<in> set ns" for m
    using Cons.prems [of m] that D1(2) by (metis list.set_intros(2) set_map)
  from Cons.IH [OF this] D1 show ?case by (fastforce simp: dependants_in_def)
qed (simp add: dependants_in_def)

lemma link_dependants_error:
  assumes "\<exists>n \<in> set ns. \<not> set (wn_dependencies n) \<subseteq> fst ` set D"
  shows "\<exists>k. link_dependants ns D = Inl (KeyError k) \<and> k \<notin> fst ` set D \<and>
    (\<exists>n \<in> set ns. k \<in> set (wn_dependencies n))"
  using assms
proof (induction ns arbitrary: D)
  case (Cons n ns)
  show ?case
  proof (cases "set (wn_dependencies n) \<subseteq> fst ` set D")
    case True
    then obtain D1 where D1: "append_dependant (wn_id n) (wn_dependencies n) D = Inr D1"
      "map fst D1 = map fst D"
      by (rule append_dependant_ok)
    then have keys: "fst ` set D1 = fst ` set D" by (metis set_map)
    with Cons.prems True have "\<exists>m \<in> set ns. \<not> set (wn_dependencies m) \<subseteq> fst ` set D1" by auto
    from Cons.IH [OF this] D1 keys show ?thesis by auto
  next
    case False
    from append_dependant_error [OF this, of "wn_id n"] show ?thesis by fastforce
  qed
qed simp

lemma set_dependants_ok:
  assumes "fst ` set by_id \<subseteq> fst ` set D"
  shows "set_dependants D by_id =
    Inr (map (\<lambda>(i, n). (i, n\<lparr>dn_dependants := the (map_of D i)\<rparr>)) by_id)"
  unfolding set_dependants_def
proof (rule res_map_total)
  fix x assume x: "x \<in> set by_id"
  obtain i n where xin: "x = (i, n)" by (cases x)
  from x xin assms have "i \<in> fst ` set D" by force
  then obtain ds where "map_of D i = Some ds"
    by (metis map_of_eq_None_iff option.exhaust)
  with xin show "(case x of (node_id, dag_node) \<Rightarrow>
      rbind (of_option (KeyError node_id) (map_of D node_id))
        (\<lambda>ds. Inr (node_id, dag_node\<lparr>dn_dependants := ds\<rparr>))) =
    Inr (case x of (i, n) \<Rightarrow> (i, n\<lparr>dn_dependants := the (map_of D i)\<rparr>))"
    by simp
qed

lemma from_workflow_distinct:
  assumes dist: "distinct (node_ids w)" and closed: "closed_dag w"
  shows "from_workflow w = Inr (dag_of w)"
proof -
  let ?ns = "wf_nodes w"
  let ?D0 = "map (\<lambda>n. (wn_id n, [] :: string list)) ?ns"
  let ?B0 = "map (\<lambda>n. (wn_id n, new_dag_node n)) ?ns"
  have reg: "register_nodes ?ns [] [] = (?B0, ?D0)"
    using register_nodes_distinct [of "[]" ?ns "[]"] dist by (simp add: node_ids_def)
  have "set (wn_dependencies n) \<subseteq> fst ` set ?D0" if "n \<in> set ?ns" for n
    using closed that by (force simp: closed_dag_def node_ids_def)
  from link_dependants_ok [OF this] obtain D where D: "link_dependants ?ns ?D0 = Inr D"
    "map fst D = map fst ?D0"
    "\<And>k xs. map_of ?D0 k = Some xs \<Longrightarrow> map_of D k = Some (xs @ dependants_in ?ns k)"
    by blast
  have keys: "fst ` set ?B0 \<subseteq> fst ` set D"
    using arg_cong [OF D(2), of set] by force
  have dep: "the (map_of D (wn_id n)) = dependants_in ?ns (wn_id n)" if "n \<in> set ?ns" for n
  proof -
    have "map_of ?D0 (wn_id n) = Some []"
      using that dist by (simp add: node_ids_def map_of_map_key map_of_distinct_find)
    from D(3) [OF this] show ?thesis by simp
  qed
  have full: "set_dependants D ?B0 = Inr (nodes_by_id (dag_of w))"
    using dep by (simp add: set_dependants_ok [OF keys] dag_of_def comp_def)
  show ?thesis
    unfolding from_workflow_def reg
    by (simp add: D(1) full) (simp add: dag_of_def filter_map comp_def new_dag_node_def)
qed

lemma from_workflow_error:
  assumes "\<not> closed_dag w"
  shows "\<exists>k. from_workflow w = Inl (KeyError k) \<and> k \<notin> set (node_ids w) \<and>
    (\<exists>n \<in> set (wf_nodes w). k \<in> set (wn_dependencies n))"
proof -
  obtain b d where reg: "register_nodes (wf_nodes w) [] [] = (b, d)" by fastforce
  have keys: "fst ` set d = set (node_ids w)"
    using register_nodes_keys(2) [OF reg] by (simp add: node_ids_def)
  with assms have "\<exists>n \<in> set (wf_nodes w). \<not> set (wn_dependencies n) \<subseteq> fst ` set d"
    by (auto simp: closed_dag_def)
  from link_dependants_error [OF this] keys reg show ?thesis
    by (auto simp: from_workflow_def)
qed

lemma from_workflow_total: "closed_dag w \<Longrightarrow> \<exists>dag. from_workflow w = Inr dag"
proof -
  assume closed: "closed_dag w"
  obtain b d where reg: "register_nodes (wf_nodes w) [] [] = (b, d)" by fastforce
  have keys: "fst ` set d = set (node_ids w)" "fst ` set b = set (node_ids w)"
    using register_nodes_keys [OF reg] by (simp_all add: node_ids_def)
  with closed have "set (wn_dependencies n) \<subseteq> fst ` set d" if "n \<in> set (wf_nodes w)" for n
    using that by (auto simp: closed_dag_def)
  from link_dependants_ok [OF this] obtain D where D: "link_dependants (wf_nodes w) d = Inr D"
    "map fst D = map fst d" by blast
  have "fst ` set b \<subseteq> fst ` set D"
    using keys arg_cong [OF D(2), of set] by simp
  from set_dependants_ok [OF this] D(1) reg show ?thesis
    by (simp add: from_workflow_def)
qed

section \<open>Lookups in the graph\<close>

definition dag_node :: "Workflow \<Rightarrow> WorkflowNode \<Rightarrow> DAGNode" where
  "dag_node w n = (new_dag_node n)\<lparr>dn_dependants := dependants_in (wf_nodes w) (wn_id n)\<rparr>"

lemma dag_node_sel [simp]:
  "dn_id (dag_node w n) = wn_id n"
  "dn_handler (dag_node w n) = wn_handler n"
  "dn_config (dag_node w n) = wn_config n"
  "dn_dependencies (dag_node w n) = wn_dependencies n"
  "dn_dependants (dag_node w n) = dependants_in (wf_nodes w) (wn_id n)"
  by (simp_all add: dag_node_def new_dag_node_def)

lemma get_node_dag_of:
  assumes "distinct (node_ids w)" and "n \<in> set (wf_nodes w)"
  shows "get_node (dag_of w) (wn_id n) = Inr (dag_node w n)"
  using map_of_distinct_find [of wn_id "wf_nodes w" n] assms
  by (simp add: get_node_def dag_of_def map_of_map_key node_ids_def dag_node_def)

text \<open>The node of a definition with a given identifier.\<close>

definition the_node :: "Workflow \<Rightarrow> string \<Rightarrow> WorkflowNode" where
  "the_node w i = the (find (\<lambda>n. wn_id n = i) (wf_nodes w))"

lemma the_node_id:
  assumes "distinct (node_ids w)" and "n \<in> set (wf_nodes w)"
  shows "the_node w (wn_id n) = n"
  using map_of_distinct_find [of wn_id "wf_nodes w" n] assms by (simp add: the_node_def node_ids_def)

lemma get_nodes_dag_of:
  assumes dist: "distinct (node_ids w)" and ids: "set ids \<subseteq> set (node_ids w)"
  shows "res_map (get_node (dag_of w)) ids = Inr (map (\<lambda>i. dag_node w (the_node w i)) ids)"
proof (rule res_map_total)
  fix i assume "i \<in> set ids"
  with ids obtain n where n: "n \<in> set (wf_nodes w)" "i = wn_id n" by (auto simp: node_ids_def)
  then show "get_node (dag_of w) i = Inr (dag_node w (the_node w i))"
    using get_node_dag_of [OF dist n(1)] the_node_id [OF dist n(1)] by simp
qed

lemma get_dependants_dag_of:
  assumes dist: "distinct (node_ids w)" and i: "i \<in> set (node_ids w)"
  shows "get_dependants (dag_of w) i =
    Inr (map (\<lambda>j. dag_node w (the_node w j)) (dependants_in (wf_nodes w) i))"
proof -
  from i obtain n where n: "n \<in> set (wf_nodes w)" "i = wn_id n" by (auto simp: node_ids_def)
  have "set (dependants_in (wf_nodes w) i) \<subseteq> set (node_ids w)"
    by (auto simp: set_dependants_in node_ids_def)
  from get_nodes_dag_of [OF dist this] get_node_dag_of [OF dist n(1)] n(2)
  show ?thesis by (simp add: get_dependants_def)
qed

lemma dn_ids_dependants:
  assumes "distinct (node_ids w)"
  shows "map dn_id (map (\<lambda>j. dag_node w (the_node w j)) (dependants_in (wf_nodes w) i))
    = dependants_in (wf_nodes w) i"
proof -
  have "wn_id (the_node w j) = j" if "j \<in> set (dependants_in (wf_nodes w) i)" for j
    using that the_node_id [OF assms] by (auto simp: set_dependants_in)
  then show ?thesis by (simp add: comp_def map_idI)
qed

section \<open>Readiness\<close>

definition ready :: "statuses \<Rightarrow> WorkflowNode \<Rightarrow> bool" where
  "ready st n \<longleftrightarrow> status_of st (wn_id n) = PENDING \<and>
     (\<forall>d \<in> set (wn_dependencies n). status_of st d = COMPLETED)"

lemma non_ready_iff: "s \<in> set NON_READY_STATUSES \<longleftrightarrow> s \<noteq> PENDING"
  by (cases s) (auto simp: NON_READY_STATUSES_def)

lemma ready_loop_eq: "ready_loop st ns acc = acc @ map wn_id (filter (ready st) ns)"
  by (induction ns arbitrary: acc) (auto simp: ready_def non_ready_iff list_all_iff)

lemma evaluate_ready_eq:
  "evaluate_ready_node_ids w st = map wn_id (filter (ready st) (wf_nodes w))"
  by (simp add: evaluate_ready_node_ids_def ready_loop_eq)

section \<open>Failure propagation\<close>

inductive blocked_node :: "Workflow \<Rightarrow> statuses \<Rightarrow> string \<Rightarrow> bool" for w st where
  by_failed: "n \<in> set (wf_nodes w) \<Longrightarrow> status_of st (wn_id n) = PENDING \<Longrightarrow>
     d \<in> set (wn_dependencies n) \<Longrightarrow> status_of st d = FAILED \<Longrightarrow> blocked_node w st (wn_id n)"
| by_blocked: "n \<in> set (wf_nodes w) \<Longrightarrow> status_of st (wn_id n) = PENDING \<Longrightarrow>
     d \<in> set (wn_dependencies n) \<Longrightarrow> blocked_node w st d \<Longrightarrow> blocked_node w st (wn_id n)"

definition fail_all :: "statuses \<Rightarrow> string list \<Rightarrow> statuses" where
  "fail_all st ids = (\<lambda>i. if i \<in> set ids then Some FAILED else st i)"

lemma status_of_fail_all:
  "status_of (fail_all st ids) i = (if i \<in> set ids then FAILED else status_of st i)"
  by (simp add: status_of_def fail_all_def)

lemma fail_all_snoc: "(fail_all st ids)(i \<mapsto> FAILED) = fail_all st (ids @ [i])"
  by (auto simp: fail_all_def)

lemma skippable_iff: "s \<in> set SKIPPABLE_STATUSES \<longleftrightarrow> s = PENDING"
  by (auto simp: SKIPPABLE_STATUSES_def)

lemma blocking_iff: "s \<in> set BLOCKING_STATUSES \<longleftrightarrow> s = FAILED"
  by (auto simp: BLOCKING_STATUSES_def)

lemma block_dependants_spec:
  "\<exists>new. block_dependants ds queue blocked (fail_all st blocked) =
       (queue @ new, blocked @ new, fail_all st (blocked @ new)) \<and>
     set new = {i \<in> dn_id ` set ds. status_of st i = PENDING} - set blocked"
proof (induction ds arbitrary: queue blocked)
  case (Cons d ds)
  let ?i = "dn_id d"
  show ?case
  proof (cases "status_of st ?i = PENDING \<and> ?i \<notin> set blocked")
    case True
    from Cons.IH [of "queue @ [?i]" "blocked @ [?i]"] obtain new where
      "block_dependants ds (queue @ [?i]) (blocked @ [?i]) (fail_all st (blocked @ [?i])) =
         (queue @ [?i] @ new, blocked @ [?i] @ new, fail_all st (blocked @ [?i] @ new))"
      and "set new = {i \<in> dn_id ` set ds. status_of st i = PENDING} - set (blocked @ [?i])"
      by auto
    with True show ?thesis
      by (intro exI [of _ "?i # new"])
         (auto simp: status_of_fail_all skippable_iff fail_all_snoc)
  next
    case False
    then have skip: "block_dependants (d # ds) queue blocked (fail_all st blocked)
        = block_dependants ds queue blocked (fail_all st blocked)"
      by (auto simp: status_of_fail_all skippable_iff)
    from Cons.IH [of queue blocked] False show ?thesis unfolding skip by auto
  qed
qed simp

text \<open>What holds at the head of the \<open>while\<close> loop.\<close>

definition failure_inv :: "Workflow \<Rightarrow> statuses \<Rightarrow> string list \<Rightarrow> string list \<Rightarrow> bool" where
  "failure_inv w st queue blocked \<longleftrightarrow>
     (\<forall>b \<in> set blocked. blocked_node w st b) \<and>
     (\<forall>q \<in> set queue. q \<in> set (node_ids w) \<and> (status_of st q = FAILED \<or> q \<in> set blocked)) \<and>
     (\<forall>n \<in> set (wf_nodes w). \<forall>d \<in> set (wn_dependencies n).
        status_of st (wn_id n) = PENDING \<longrightarrow> (status_of st d = FAILED \<or> d \<in> set blocked) \<longrightarrow>
        d \<in> set queue \<or> wn_id n \<in> set blocked)"

lemma failure_inv_step:
  assumes inv: "failure_inv w st (i # queue) blocked"
    and new: "set new = {j \<in> set (dependants_in (wf_nodes w) i). status_of st j = PENDING} - set blocked"
  shows "failure_inv w st (queue @ new) (blocked @ new)"
proof -
  have i: "status_of st i = FAILED \<or> blocked_node w st i"
    using inv by (auto simp: failure_inv_def)
  have newb: "blocked_node w st j" if "j \<in> set new" for j
    using that new i by (auto simp: set_dependants_in intro: blocked_node.intros)
  have newids: "j \<in> set (node_ids w)" if "j \<in> set new" for j
    using that new by (auto simp: set_dependants_in node_ids_def)
  have closure: "d \<in> set (queue @ new) \<or> wn_id n \<in> set (blocked @ new)"
    if n: "n \<in> set (wf_nodes w)" "d \<in> set (wn_dependencies n)" "status_of st (wn_id n) = PENDING"
      and d: "status_of st d = FAILED \<or> d \<in> set (blocked @ new)" for n d
  proof (cases "d = i")
    case True
    with n new show ?thesis by (auto simp: set_dependants_in)
  next
    case False
    with inv n d show ?thesis by (auto simp: failure_inv_def)
  qed
  show ?thesis
    unfolding failure_inv_def using inv newb newids closure by (auto simp: failure_inv_def)
qed

lemma failure_inv_done:
  assumes inv: "failure_inv w st [] blocked" and closed: "closed_dag w"
  shows "set blocked = {i. blocked_node w st i}"
proof
  show "set blocked \<subseteq> {i. blocked_node w st i}" using inv by (auto simp: failure_inv_def)
  have "i \<in> set blocked" if "blocked_node w st i" for i
    using that
  proof induction
    case (by_failed n d)
    with inv show ?case by (auto simp: failure_inv_def)
  next
    case (by_blocked n d)
    with inv show ?case by (auto simp: failure_inv_def)
  qed
  then show "{i. blocked_node w st i} \<subseteq> set blocked" by blast
qed

lemma failure_loop_correct:
  assumes dist: "distinct (node_ids w)" and closed: "closed_dag w"
  shows "failure_inv w st queue blocked \<Longrightarrow>
    \<exists>res. failure_loop (dag_of w) queue blocked (fail_all st blocked) = Inr res \<and>
          set res = {i. blocked_node w st i}"
proof (induction "dag_of w" queue blocked "fail_all st blocked" rule: failure_loop.induct)
  case (1 blocked)
  then show ?case using failure_inv_done [OF _ closed] by simp
next
  case (2 i queue blocked)
  from 2(2) have i: "i \<in> set (node_ids w)" by (simp add: failure_inv_def)
  let ?ds = "map (\<lambda>j. dag_node w (the_node w j)) (dependants_in (wf_nodes w) i)"
  have ds: "get_dependants (dag_of w) i = Inr ?ds" by (rule get_dependants_dag_of [OF dist i])
  obtain new where new: "block_dependants ?ds queue blocked (fail_all st blocked) =
      (queue @ new, blocked @ new, fail_all st (blocked @ new))"
    and set_new: "set new = {j \<in> dn_id ` set ?ds. status_of st j = PENDING} - set blocked"
    using block_dependants_spec by blast
  have "dn_id ` set ?ds = set (dependants_in (wf_nodes w) i)"
    using arg_cong [OF dn_ids_dependants [OF dist, of i], of set] by (simp only: set_map)
  with set_new have "failure_inv w st (queue @ new) (blocked @ new)"
    using failure_inv_step [OF 2(2)] by simp
  from 2(1) [OF ds new [symmetric] refl this] ds new show ?case by simp
qed

lemma evaluate_failed_eq:
  assumes dist: "distinct (node_ids w)" and closed: "closed_dag w"
  shows "evaluate_failed_dependency_node_ids w st =
    Inr (map wn_id (filter (\<lambda>n. blocked_node w st (wn_id n)) (wf_nodes w)))"
proof -
  let ?q = "map wn_id (filter (\<lambda>n. status_of st (wn_id n) \<in> set BLOCKING_STATUSES) (wf_nodes w))"
  have "failure_inv w st ?q []"
    using closed closed_dagD [OF closed]
    by (fastforce simp: failure_inv_def blocking_iff node_ids_def)
  from failure_loop_correct [OF dist closed this] obtain res where
    "failure_loop (dag_of w) ?q [] st = Inr res" and "set res = {i. blocked_node w st i}"
    by (auto simp: fail_all_def)
  then show ?thesis
    by (simp add: evaluate_failed_dependency_node_ids_def from_workflow_distinct [OF dist closed])
qed

section \<open>Properties of the graph layer\<close>

text \<open>A definition with a shared dependency, used by the witnesses: \<open>b\<close> and \<open>c\<close> depend on \<open>a\<close>.\<close>

definition sample_node :: "string \<Rightarrow> string list \<Rightarrow> WorkflowNode" where
  "sample_node i deps =
     \<lparr>wn_id = i, wn_handler = ''input'', wn_dependencies = deps, wn_config = [],
      wn_created_at = 0, wn_created_by = None\<rparr>"

definition sample_workflow :: Workflow where
  "sample_workflow =
     \<lparr>wf_workflow_id = 1, wf_name = ''sample'',
      wf_dag = \<lparr>nodes = [sample_node ''a'' [], sample_node ''b'' [''a''], sample_node ''c'' [''a'', ''b'']]\<rparr>,
      wf_created_at = 0, wf_created_by = None\<rparr>"

lemma sample_nodes [simp]:
  "wf_nodes sample_workflow = [sample_node ''a'' [], sample_node ''b'' [''a''], sample_node ''c'' [''a'', ''b'']]"
  by (simp add: sample_workflow_def)

lemma sample_node_sel [simp]:
  "wn_id (sample_node i ds) = i" "wn_dependencies (sample_node i ds) = ds"
  "wn_handler (sample_node i ds) = ''input''" "wn_config (sample_node i ds) = []"
  by (simp_all add: sample_node_def)

lemma sample_ids [simp]: "node_ids sample_workflow = [''a'', ''b'', ''c'']"
  by (simp add: node_ids_def)

lemma acyclic_empty_rel: "acyclic {}"
  by (simp add: acyclic_def)

lemma sample_valid: "valid_dag sample_workflow"
proof -
  have edges: "dep_edges sample_workflow = {(''b'', ''a''), (''c'', ''a''), (''c'', ''b'')}"
    by (rule set_eqI) (auto simp: dep_edges_iff)
  have "acyclic (dep_edges sample_workflow)"
    unfolding edges by (auto simp: acyclic_insert rtrancl_insert acyclic_empty_rel)
  then show ?thesis by (simp add: valid_dag_def closed_dag_def)
qed

lemma dn_ids_of_nodes:
  assumes dist: "distinct (node_ids w)" and sub: "set xs \<subseteq> set (node_ids w)"
  shows "map dn_id (map (\<lambda>i. dag_node w (the_node w i)) xs) = xs"
proof -
  have "wn_id (the_node w i) = i" if "i \<in> set xs" for i
    using that sub the_node_id [OF dist] by (auto simp: node_ids_def)
  then show ?thesis by (simp add: comp_def map_idI)
qed

lemma terminal_ids_iff:
  "set (terminal_node_ids (dag_of w)) =
     {i \<in> set (node_ids w). \<forall>m \<in> set (wf_nodes w). i \<notin> set (wn_dependencies m)}"
  using set_dependants_in [of "wf_nodes w"]
  by (auto simp: dag_of_def node_ids_def simp flip: set_empty)

lemma from_workflow_valid: "valid_dag w \<Longrightarrow> from_workflow w = Inr (dag_of w)"
  by (simp add: valid_dag_def from_workflow_distinct)

text \<open>\<open>DAG.from_workflow\<close> builds a graph exactly for the definitions all of whose dependencies
  name a node of the definition; otherwise it raises \<open>KeyError\<close> for a dependency that some node
  declares and no node has as its identifier. No other exception is raised.\<close>

theorem from_workflow_outcome:
  "(closed_dag w \<longleftrightarrow> (\<exists>dag. from_workflow w = Inr dag)) \<and>
   (\<not> closed_dag w \<longleftrightarrow>
      (\<exists>k n. from_workflow w = Inl (KeyError k) \<and> k \<notin> set (node_ids w) \<and>
         n \<in> set (wf_nodes w) \<and> k \<in> set (wn_dependencies n)))"
  using from_workflow_total [of w] from_workflow_error [of w] by fastforce

text \<open>In the graph of a valid definition every node is found under its identifier with its
  declared dependencies, its dependants are exactly the nodes that declare it, the roots are the
  nodes without dependencies and the terminals the nodes nobody depends on.\<close>

theorem from_workflow_adjacency:
  assumes "valid_dag w"
  shows "\<exists>dag. from_workflow w = Inr dag \<and>
    (\<forall>n. n \<in> set (wf_nodes w) \<longrightarrow>
       (\<exists>ds us. get_dependencies dag (wn_id n) = Inr ds \<and> map dn_id ds = wn_dependencies n \<and>
          get_dependants dag (wn_id n) = Inr us \<and>
          set (map dn_id us) = {wn_id m | m. m \<in> set (wf_nodes w) \<and> wn_id n \<in> set (wn_dependencies m)})) \<and>
    (\<exists>rs ts. get_roots dag = Inr rs \<and>
       map dn_id rs = map wn_id (filter (\<lambda>n. wn_dependencies n = []) (wf_nodes w)) \<and>
       get_terminals dag = Inr ts \<and>
       set (map dn_id ts) = {i \<in> set (node_ids w). \<forall>m \<in> set (wf_nodes w). i \<notin> set (wn_dependencies m)})"
proof (intro exI [of _ "dag_of w"] conjI allI impI)
  have dist: "distinct (node_ids w)" and closed: "closed_dag w"
    using assms by (simp_all add: valid_dag_def)
  show "from_workflow w = Inr (dag_of w)" by (rule from_workflow_valid [OF assms])
  show "\<exists>ds us. get_dependencies (dag_of w) (wn_id n) = Inr ds \<and> map dn_id ds = wn_dependencies n \<and>
      get_dependants (dag_of w) (wn_id n) = Inr us \<and>
      set (map dn_id us) = {wn_id m | m. m \<in> set (wf_nodes w) \<and> wn_id n \<in> set (wn_dependencies m)}"
    if n: "n \<in> set (wf_nodes w)" for n
  proof -
    have deps: "set (wn_dependencies n) \<subseteq> set (node_ids w)"
      using closed n by (auto simp: closed_dag_def)
    have i: "wn_id n \<in> set (node_ids w)" using n by (simp add: node_ids_def)
    show ?thesis
      using get_dependants_dag_of [OF dist i] get_nodes_dag_of [OF dist deps] get_node_dag_of [OF dist n]
        dn_ids_of_nodes [OF dist deps] arg_cong [OF dn_ids_dependants [OF dist, of "wn_id n"], of set]
      by (simp only: get_dependencies_def rbind_simps dag_node_sel set_dependants_in) blast
  qed
  let ?rs = "root_node_ids (dag_of w)" and ?ts = "terminal_node_ids (dag_of w)"
  have sub: "set ?rs \<subseteq> set (node_ids w)" "set ?ts \<subseteq> set (node_ids w)"
    by (auto simp: dag_of_def node_ids_def)
  note rs = dn_ids_of_nodes [OF dist sub(1)] and ts = dn_ids_of_nodes [OF dist sub(2)]
  show "\<exists>rs ts. get_roots (dag_of w) = Inr rs \<and>
       map dn_id rs = map wn_id (filter (\<lambda>n. wn_dependencies n = []) (wf_nodes w)) \<and>
       get_terminals (dag_of w) = Inr ts \<and>
       set (map dn_id ts) = {i \<in> set (node_ids w). \<forall>m \<in> set (wf_nodes w). i \<notin> set (wn_dependencies m)}"
    unfolding get_roots_def get_terminals_def
      get_nodes_dag_of [OF dist sub(1)] get_nodes_dag_of [OF dist sub(2)]
  proof (intro exI conjI)
    show "map dn_id (map (\<lambda>i. dag_node w (the_node w i)) ?rs) =
        map wn_id (filter (\<lambda>n. wn_dependencies n = []) (wf_nodes w))"
      unfolding rs by (simp add: dag_of_def)
    show "set (map dn_id (map (\<lambda>i. dag_node w (the_node w i)) ?ts)) =
        {i \<in> set (node_ids w). \<forall>m \<in> set (wf_nodes w). i \<notin> set (wn_dependencies m)}"
      unfolding ts by (rule terminal_ids_iff)
  qed (rule refl)+
qed

theorem from_workflow_adjacency_witness:
  "valid_dag sample_workflow \<and> (\<exists>dag. from_workflow sample_workflow = Inr dag)"
  using from_workflow_adjacency [OF sample_valid] sample_valid by blast

text \<open>C26: \<open>evaluate_failed_dependency_node_ids\<close> terminates without an exception and returns, in
  definition order and without repetition, exactly the pending nodes from which a failed node can
  be reached through pending dependencies: the least set closed under the two rules of
  \<open>blocked_node\<close>.\<close>

theorem failed_dependencies_least:
  assumes "distinct (node_ids w)" and "closed_dag w"
  shows "\<exists>ids. evaluate_failed_dependency_node_ids w st = Inr ids \<and> distinct ids \<and>
    subseq ids (node_ids w) \<and> set ids = {i. blocked_node w st i}"
proof -
  let ?ids = "map wn_id (filter (\<lambda>n. blocked_node w st (wn_id n)) (wf_nodes w))"
  have "i \<in> set (node_ids w)" if "blocked_node w st i" for i
    using that by cases (auto simp: node_ids_def)
  then have "set ?ids = {i. blocked_node w st i}" by (auto simp: node_ids_def)
  moreover have "distinct ?ids"
    using assms(1) by (auto simp: node_ids_def intro: distinct_map_filter_key)
  moreover have "subseq ?ids (node_ids w)"
    by (simp add: node_ids_def subseq_map)
  ultimately show ?thesis using evaluate_failed_eq [OF assms] by blast
qed

theorem failed_dependencies_least_witness:
  "evaluate_failed_dependency_node_ids sample_workflow [''a'' \<mapsto> FAILED] = Inr [''b'', ''c''] \<and>
   {i. blocked_node sample_workflow [''a'' \<mapsto> FAILED] i} = {''b'', ''c''}"
proof -
  have "evaluate_failed_dependency_node_ids sample_workflow [''a'' \<mapsto> FAILED] = Inr [''b'', ''c'']"
    by code_simp
  with failed_dependencies_least [of sample_workflow "[''a'' \<mapsto> FAILED]"] sample_valid
  show ?thesis by (auto simp: valid_dag_def)
qed

text \<open>C38: a valid definition never gets stuck. As long as some node is pending and none is running,
  either readiness offers a node to dispatch or failure propagation offers a node to fail; and no
  node is offered by both.\<close>

theorem scheduler_progress:
  assumes "valid_dag w" and "n \<in> set (wf_nodes w)" and "status_of st (wn_id n) = PENDING"
    and "\<forall>m \<in> set (wf_nodes w). status_of st (wn_id m) \<noteq> RUNNING"
  shows "\<exists>failed. evaluate_failed_dependency_node_ids w st = Inr failed \<and>
    (evaluate_ready_node_ids w st \<noteq> [] \<or> failed \<noteq> []) \<and>
    set failed \<inter> set (evaluate_ready_node_ids w st) = {}"
proof -
  have dc: "distinct (node_ids w)" "closed_dag w" using assms(1) by (simp_all add: valid_dag_def)
  note failed = evaluate_failed_eq [OF dc, of st]
  obtain m where m: "m \<in> set (wf_nodes w)" "status_of st (wn_id m) = PENDING"
    and deps: "\<And>d. d \<in> set (wn_dependencies m) \<Longrightarrow> status_of st d \<noteq> PENDING"
    using valid_dag_minimal [OF assms(1,2), of "\<lambda>i. status_of st i = PENDING"] assms(3) by blast
  have settled: "status_of st d = COMPLETED \<or> status_of st d = FAILED" if "d \<in> set (wn_dependencies m)" for d
    using deps [OF that] closed_dagD [OF dc(2) m(1) that] assms(4) by (cases "status_of st d") auto
  have "ready st m \<or> blocked_node w st (wn_id m)"
    using settled m by (auto simp: ready_def intro: blocked_node.intros)
  moreover have "\<not> ready st k" if "k \<in> set (wf_nodes w)" "blocked_node w st (wn_id k)" for k
    using that(2)
  proof cases
    case (by_failed k' d)
    with that(1) distinct_keyD [of wn_id "wf_nodes w" k k'] dc(1) show ?thesis
      by (fastforce simp: ready_def node_ids_def)
  next
    case (by_blocked k' d)
    from by_blocked(5) have "status_of st d = PENDING" by cases auto
    with by_blocked that(1) distinct_keyD [of wn_id "wf_nodes w" k k'] dc(1) show ?thesis
      by (fastforce simp: ready_def node_ids_def)
  qed
  then have "set (map wn_id (filter (\<lambda>n. blocked_node w st (wn_id n)) (wf_nodes w)))
      \<inter> set (evaluate_ready_node_ids w st) = {}"
    using distinct_keyD [of wn_id "wf_nodes w"] dc(1)
    by (fastforce simp: evaluate_ready_eq node_ids_def)
  ultimately show ?thesis
    using m(1) unfolding failed by (auto simp: evaluate_ready_eq filter_empty_conv)
qed

theorem scheduler_progress_witness:
  "evaluate_ready_node_ids sample_workflow [''a'' \<mapsto> COMPLETED] = [''b''] \<and>
   (\<exists>failed. evaluate_failed_dependency_node_ids sample_workflow [''a'' \<mapsto> COMPLETED] = Inr failed \<and>
     (evaluate_ready_node_ids sample_workflow [''a'' \<mapsto> COMPLETED] \<noteq> [] \<or> failed \<noteq> []) \<and>
     set failed \<inter> set (evaluate_ready_node_ids sample_workflow [''a'' \<mapsto> COMPLETED]) = {})"
proof
  show "evaluate_ready_node_ids sample_workflow [''a'' \<mapsto> COMPLETED] = [''b'']" by code_simp
  show "\<exists>failed. evaluate_failed_dependency_node_ids sample_workflow [''a'' \<mapsto> COMPLETED] = Inr failed \<and>
     (evaluate_ready_node_ids sample_workflow [''a'' \<mapsto> COMPLETED] \<noteq> [] \<or> failed \<noteq> []) \<and>
     set failed \<inter> set (evaluate_ready_node_ids sample_workflow [''a'' \<mapsto> COMPLETED]) = {}"
    by (rule scheduler_progress [OF sample_valid, of "sample_node ''b'' [''a'']"]) (simp_all add: status_of_def)
qed

end
