(* ===== verification/Validation.thy ===== *)
theory Validation
  imports Dag "HOL-Library.List_Lexorder" "HOL-Library.Char_ord" "HOL-Library.Multiset"
begin

text \<open>
  The validation rules of \<open>app/domain/validation/rules\<close>, except cycle detection, which has a theory
  of its own. A rule is a function from the untrusted definition to the list of its errors; the
  result is a sum because two rules raise \<open>TypeError\<close> on some definitions. The locale
  \<open>validation_rule\<close> states the contract of a rule (it reports nothing exactly on the definitions it
  accepts) and is interpreted for every rule. Environment variables are the argument \<open>env\<close>, the
  text of floats in messages is the argument \<open>fr\<close>.
\<close>

type_synonym rule = "pydict \<Rightarrow> error + WorkflowValidationError list"
type_synonym environment = "string \<rightharpoonup> string"

section \<open>Inspecting a payload (\<open>_workflow.py\<close>)\<close>

definition nodes_from :: "pydict \<Rightarrow> (nat \<times> pydict) list" where
  "nodes_from workflow =
     (case dict_get workflow ''dag'' of
        PDict dag \<Rightarrow>
          (case dict_get dag ''nodes'' of
             PList items \<Rightarrow>
               concat (map (\<lambda>(index, node). case node of PDict n \<Rightarrow> [(index, n)] | _ \<Rightarrow> [])
                 (indexed items))
           | _ \<Rightarrow> [])
      | _ \<Rightarrow> [])"

definition valid_node_ids :: "pydict \<Rightarrow> string set" where
  "valid_node_ids workflow =
     set (concat (map (\<lambda>(_, node). case dict_get node ''id'' of
                                     PStr node_id \<Rightarrow> if blank node_id then [] else [node_id]
                                   | _ \<Rightarrow> []) (nodes_from workflow)))"

definition rule_error ::
    "string \<Rightarrow> string \<Rightarrow> string \<Rightarrow> string option \<Rightarrow> string option \<Rightarrow> WorkflowValidationError" where
  "rule_error kind message path node_id dependency_id =
     \<lparr>err_code = kind, err_message = message, err_path = path, err_node_id = node_id,
      err_dependency_id = dependency_id, err_meta = []\<rparr>"

text \<open>\<open>value if isinstance(value, str) else None\<close>\<close>

definition str_or_none :: "pyval \<Rightarrow> string option" where
  "str_or_none v = (case v of PStr s \<Rightarrow> Some s | _ \<Rightarrow> None)"

definition node_path :: "nat \<Rightarrow> string" where
  "node_path index = ''dag.nodes['' @ nat_str index @ '']''"

section \<open>Required fields (\<open>fields.py\<close>)\<close>

definition RequiredWorkflowFieldsRule :: rule where
  "RequiredWorkflowFieldsRule workflow =
     Inr ((if (case dict_get workflow ''name'' of PStr name \<Rightarrow> \<not> blank name | _ \<Rightarrow> False) then []
           else [rule_error ''required_workflow_name''
                   (''Workflow property '' @ quoted ''name'' @ '' must be a non-empty string.'')
                   ''name'' None None]) @
          (case dict_get workflow ''dag'' of
             PDict dag \<Rightarrow>
               (case dict_get dag ''nodes'' of
                  PList _ \<Rightarrow> []
                | _ \<Rightarrow> [rule_error ''required_workflow_nodes''
                          (''Workflow property '' @ quoted ''dag.nodes'' @ '' must be a list.'')
                          ''dag.nodes'' None None])
           | _ \<Rightarrow> [rule_error ''required_workflow_dag''
                     (''Workflow property '' @ quoted ''dag'' @ '' must be an object.'')
                     ''dag'' None None]))"

definition required_field_errors :: "nat \<Rightarrow> pydict \<Rightarrow> WorkflowValidationError list" where
  "required_field_errors index node =
     (let node_id = str_or_none (dict_get node ''id'') in
      concat (map (\<lambda>field_name.
        if dict_lookup node field_name = None
        then [rule_error (''required_node_'' @ field_name)
                (''Node property '' @ quoted field_name @ '' is required.'')
                (node_path index @ ''.'' @ field_name) node_id None]
        else []) [''id'', ''handler'', ''dependencies'']) @
      (case dict_lookup node ''dependencies'' of
         None \<Rightarrow> []
       | Some (PList _) \<Rightarrow> []
       | Some _ \<Rightarrow> [rule_error ''invalid_node_dependencies''
                      (''Node property '' @ quoted ''dependencies'' @ '' must be a list.'')
                      (node_path index @ ''.dependencies'') node_id None]))"

definition RequiredNodeFieldsRule :: rule where
  "RequiredNodeFieldsRule workflow =
     Inr (case dict_get workflow ''dag'' of
            PDict dag \<Rightarrow>
              (case dict_get dag ''nodes'' of
                 PList items \<Rightarrow>
                   concat (map (\<lambda>(index, node).
                     case node of
                       PDict n \<Rightarrow> required_field_errors index n
                     | _ \<Rightarrow> [rule_error ''invalid_node_definition'' ''Workflow node must be an object.''
                               (node_path index) None None]) (indexed items))
               | _ \<Rightarrow> [])
          | _ \<Rightarrow> [])"

section \<open>Node identifiers (\<open>node_ids.py\<close>)\<close>

definition identifier_char :: "char \<Rightarrow> bool" where
  "identifier_char c \<longleftrightarrow> is_letter c \<or> is_digit c \<or> c = CHR ''_'' \<or> c = CHR ''-''"

text \<open>\<open>NODE_ID_PATTERN.fullmatch\<close>\<close>

definition node_id_pattern :: "string \<Rightarrow> bool" where
  "node_id_pattern s = (case s of [] \<Rightarrow> False | c # cs \<Rightarrow> is_letter c \<and> list_all identifier_char cs)"

definition matching_ids :: "(nat \<times> pydict) list \<Rightarrow> string list" where
  "matching_ids found =
     concat (map (\<lambda>(_, node). case dict_get node ''id'' of
                                PStr node_id \<Rightarrow> if node_id_pattern node_id then [node_id] else []
                              | _ \<Rightarrow> []) found)"

definition NodeIdValidityRule :: rule where
  "NodeIdValidityRule workflow =
     Inr (concat (map (\<lambda>(index, node).
       let node_id = dict_get node ''id'' in
       if (case node_id of PStr s \<Rightarrow> node_id_pattern s | _ \<Rightarrow> False) then []
       else [rule_error ''invalid_node_id''
               (''Node property '' @ quoted ''id'' @ '' must start with a letter and contain only letters, numbers, underscores, or hyphens.'')
               (node_path index @ ''.id'') (str_or_none node_id) None]) (nodes_from workflow)))"

definition UniqueNodeIdsRule :: rule where
  "UniqueNodeIdsRule workflow =
     (let found = nodes_from workflow; counts = count_list (matching_ids found) in
      Inr (concat (map (\<lambda>(index, node).
        case dict_get node ''id'' of
          PStr node_id \<Rightarrow>
            if counts node_id > 1
            then [rule_error ''duplicate_node_id''
                    (''Node ID '' @ quoted node_id @ '' is defined more than once.'')
                    (node_path index @ ''.id'') (Some node_id) None]
            else []
        | _ \<Rightarrow> []) found)))"

section \<open>Handlers (\<open>handlers.py\<close>)\<close>

definition ALLOWED_HANDLERS :: "string list" where
  "ALLOWED_HANDLERS = [''input'', ''output'', ''call_external_service'', ''llm_service'']"

definition INTEGRATION_HANDLER :: string where
  "INTEGRATION_HANDLER = ''integration_barrier''"

definition allowed_handlers :: "environment \<Rightarrow> string list" where
  "allowed_handlers env =
     (if env ''INTEGRATION_TEST'' = Some ''1'' then ALLOWED_HANDLERS @ [INTEGRATION_HANDLER]
      else ALLOWED_HANDLERS)"

definition HandlerDefinitionRule :: "environment \<Rightarrow> rule" where
  "HandlerDefinitionRule env workflow =
     Inr (concat (map (\<lambda>(index, node).
       if (case dict_get node ''handler'' of PStr h \<Rightarrow> h \<in> set (allowed_handlers env) | _ \<Rightarrow> False)
       then []
       else [rule_error ''invalid_handler''
               (''Node property '' @ quoted ''handler'' @ '' must be one of: '' @
                join '', '' (sort (allowed_handlers env)) @ ''.'')
               (node_path index @ ''.handler'') (str_or_none (dict_get node ''id'')) None])
       (nodes_from workflow)))"

text \<open>\<open>isinstance(config, Mapping) and isinstance(config.get(key), str) and config[key].strip()\<close>\<close>

definition config_text :: "pyval \<Rightarrow> string \<Rightarrow> bool" where
  "config_text config key =
     (case config of
        PDict c \<Rightarrow> (case dict_get c key of PStr s \<Rightarrow> \<not> blank s | _ \<Rightarrow> False)
      | _ \<Rightarrow> False)"

text \<open>\<open>handler in {"input", "output"}\<close> hashes the handler, which raises for lists and dicts.\<close>

definition hashable :: "pyval \<Rightarrow> error + unit" where
  "hashable v =
     (case v of
        PList _ \<Rightarrow> Inl (TypeError (''unhashable type: '' @ quoted ''list''))
      | PDict _ \<Rightarrow> Inl (TypeError (''unhashable type: '' @ quoted ''dict''))
      | _ \<Rightarrow> Inr ())"

definition node_configuration :: "nat \<Rightarrow> pydict \<Rightarrow> error + WorkflowValidationError list" where
  "node_configuration index node =
     (let handler = dict_get node ''handler'';
          context = str_or_none (dict_get node ''id'');
          config = (case dict_lookup node ''config'' of None \<Rightarrow> PDict [] | Some c \<Rightarrow> c);
          path = node_path index @ ''.config''
      in if handler = PStr ''call_external_service'' then
           Inr (if config_text config ''url'' then []
                else [rule_error ''invalid_handler_config''
                  (''Handler '' @ quoted ''call_external_service'' @ '' requires a non-empty string '' @
                   quoted ''config.url'' @ ''.'') (path @ ''.url'') context None])
         else if handler = PStr ''llm_service'' then
           Inr (if config_text config ''prompt'' then []
                else [rule_error ''invalid_handler_config''
                  (''Handler '' @ quoted ''llm_service'' @ '' requires a non-empty string '' @
                   quoted ''config.prompt'' @ ''.'') (path @ ''.prompt'') context None])
         else rbind (hashable handler) (\<lambda>_.
           case handler of
             PStr h \<Rightarrow>
               Inr (if h \<in> {''input'', ''output''} \<and> truthy config
                    then [rule_error ''invalid_handler_config''
                            (''Handler '' @ quoted h @ '' does not accept configuration.'') path context None]
                    else [])
           | _ \<Rightarrow> Inr []))"

definition NodeConfigurationRule :: rule where
  "NodeConfigurationRule workflow =
     rbind (res_map (\<lambda>(index, node). node_configuration index node) (nodes_from workflow))
       (\<lambda>errors. Inr (concat errors))"

section \<open>Dependencies (\<open>dependencies.py\<close>)\<close>

text \<open>The inner loop over the dependencies of one node; \<open>node_context or index\<close> is \<open>label\<close>.\<close>

fun dependency_errors ::
    "float_text \<Rightarrow> string set \<Rightarrow> nat \<Rightarrow> string option \<Rightarrow> nat \<Rightarrow> pyval list \<Rightarrow> string set \<Rightarrow>
     WorkflowValidationError list" where
  "dependency_errors fr known_ids index node_context di [] seen = []"
| "dependency_errors fr known_ids index node_context di (dependency_id # rest) seen =
     (let path = node_path index @ ''.dependencies['' @ nat_str di @ '']'';
          label = (case node_context of None \<Rightarrow> nat_str index
                   | Some c \<Rightarrow> if c = [] then nat_str index else c);
          continue = dependency_errors fr known_ids index node_context (Suc di) rest
      in case dependency_id of
           PStr d \<Rightarrow>
             (if d \<notin> known_ids then
                rule_error ''unknown_dependency''
                  (''Node '' @ quoted label @ '' references unknown dependency '' @ quoted d @ ''.'')
                  path node_context (Some d) # continue seen
              else if node_context = Some d then
                rule_error ''self_dependency''
                  (''Node '' @ quoted d @ '' cannot depend on itself.'')
                  path node_context (Some d) # continue seen
              else if d \<in> seen then
                rule_error ''duplicate_dependency''
                  (''Node '' @ quoted label @ '' declares duplicate dependency '' @ quoted d @ ''.'')
                  path node_context (Some d) # continue seen
              else continue (insert d seen))
         | v \<Rightarrow>
             rule_error ''unknown_dependency''
               (''Node '' @ quoted label @ '' references unknown dependency '' @ quoted (py_str fr v) @ ''.'')
               path node_context None # continue seen)"

definition DependencyReferenceRule :: "float_text \<Rightarrow> rule" where
  "DependencyReferenceRule fr workflow =
     Inr (concat (map (\<lambda>(index, node).
       case dict_get node ''dependencies'' of
         PList deps \<Rightarrow>
           dependency_errors fr (valid_node_ids workflow) index (str_or_none (dict_get node ''id'')) 0 deps {}
       | _ \<Rightarrow> []) (nodes_from workflow)))"

section \<open>The validator (\<open>validator.py\<close>)\<close>

fun WorkflowValidator_validate :: "rule list \<Rightarrow> rule" where
  "WorkflowValidator_validate [] workflow = Inr []"
| "WorkflowValidator_validate (rule # rules) workflow =
     rbind (rule workflow) (\<lambda>errors.
     rbind (WorkflowValidator_validate rules workflow) (\<lambda>rest. Inr (errors @ rest)))"

definition collect_rules :: "(unit \<Rightarrow> rule list) list \<Rightarrow> rule list" where
  "collect_rules providers = concat (map (\<lambda>get_rules. get_rules ()) providers)"

lemma validator_silent_iff:
  "WorkflowValidator_validate rules w = Inr [] \<longleftrightarrow> (\<forall>r \<in> set rules. r w = Inr [])"
  by (induction rules) (auto simp: rbind_Inr_iff)

section \<open>What the rules accept\<close>

definition raw_nodes :: "pydict \<Rightarrow> pyval list option" where
  "raw_nodes w =
     (case dict_get w ''dag'' of
        PDict dag \<Rightarrow> (case dict_get dag ''nodes'' of PList items \<Rightarrow> Some items | _ \<Rightarrow> None)
      | _ \<Rightarrow> None)"

definition dicts_in :: "nat \<Rightarrow> pyval list \<Rightarrow> (nat \<times> pydict) list" where
  "dicts_in k items =
     concat (map (\<lambda>(index, node). case node of PDict n \<Rightarrow> [(index, n)] | _ \<Rightarrow> []) (enumerate k items))"

lemma nodes_from_raw:
  "nodes_from w = (case raw_nodes w of None \<Rightarrow> [] | Some items \<Rightarrow> dicts_in 0 items)"
  by (simp add: nodes_from_def raw_nodes_def dicts_in_def split: pyval.split)

lemma dicts_in_simps [simp]:
  "dicts_in k [] = []"
  "dicts_in k (v # vs) = (case v of PDict n \<Rightarrow> [(k, n)] | _ \<Rightarrow> []) @ dicts_in (Suc k) vs"
  by (simp_all add: dicts_in_def)

lemma snd_dicts_in: "snd ` set (dicts_in k items) = {n. PDict n \<in> set items}"
proof (induction items arbitrary: k)
  case (Cons v vs)
  then show ?case by (cases v) (auto simp: image_Un)
qed simp

lemma nodes_from_mem:
  "(\<exists>i. (i, n) \<in> set (nodes_from w)) \<longleftrightarrow> (\<exists>items. raw_nodes w = Some items \<and> PDict n \<in> set items)"
proof -
  have "(\<exists>i. (i, n) \<in> set (nodes_from w)) \<longleftrightarrow> n \<in> snd ` set (nodes_from w)" by force
  also have "\<dots> \<longleftrightarrow> (\<exists>items. raw_nodes w = Some items \<and> PDict n \<in> set items)"
    by (cases "raw_nodes w") (simp_all add: nodes_from_raw snd_dicts_in)
  finally show ?thesis .
qed

lemma dicts_in_all:
  "map snd (dicts_in k (map PDict ns)) = ns"
  by (induction ns arbitrary: k) auto

definition accepts_workflow_fields :: "pydict \<Rightarrow> bool" where
  "accepts_workflow_fields w \<longleftrightarrow>
     (\<exists>name. dict_get w ''name'' = PStr name \<and> \<not> blank name) \<and> raw_nodes w \<noteq> None"

definition has_node_fields :: "pydict \<Rightarrow> bool" where
  "has_node_fields n \<longleftrightarrow> dict_lookup n ''id'' \<noteq> None \<and> dict_lookup n ''handler'' \<noteq> None \<and>
     (\<exists>ds. dict_lookup n ''dependencies'' = Some (PList ds))"

definition accepts_node_fields :: "pydict \<Rightarrow> bool" where
  "accepts_node_fields w \<longleftrightarrow>
     (\<forall>items. raw_nodes w = Some items \<longrightarrow> (\<forall>v \<in> set items. \<exists>n. v = PDict n \<and> has_node_fields n))"

definition accepts_node_ids :: "pydict \<Rightarrow> bool" where
  "accepts_node_ids w \<longleftrightarrow>
     (\<forall>(_, n) \<in> set (nodes_from w). \<exists>s. dict_get n ''id'' = PStr s \<and> node_id_pattern s)"

definition accepts_unique_ids :: "pydict \<Rightarrow> bool" where
  "accepts_unique_ids w \<longleftrightarrow> distinct (matching_ids (nodes_from w))"

definition accepts_handlers :: "environment \<Rightarrow> pydict \<Rightarrow> bool" where
  "accepts_handlers env w \<longleftrightarrow>
     (\<forall>(_, n) \<in> set (nodes_from w). \<exists>h \<in> set (allowed_handlers env). dict_get n ''handler'' = PStr h)"

definition config_of :: "pydict \<Rightarrow> pyval" where
  "config_of n = (case dict_lookup n ''config'' of None \<Rightarrow> PDict [] | Some c \<Rightarrow> c)"

definition config_ok :: "pydict \<Rightarrow> bool" where
  "config_ok n \<longleftrightarrow>
     (case dict_get n ''handler'' of
        PStr h \<Rightarrow>
          (h = ''call_external_service'' \<longrightarrow> config_text (config_of n) ''url'') \<and>
          (h = ''llm_service'' \<longrightarrow> config_text (config_of n) ''prompt'') \<and>
          (h \<in> {''input'', ''output''} \<longrightarrow> \<not> truthy (config_of n))
      | PList _ \<Rightarrow> False
      | PDict _ \<Rightarrow> False
      | _ \<Rightarrow> True)"

definition accepts_config :: "pydict \<Rightarrow> bool" where
  "accepts_config w \<longleftrightarrow> (\<forall>(_, n) \<in> set (nodes_from w). config_ok n)"

definition deps_ok :: "string set \<Rightarrow> pydict \<Rightarrow> bool" where
  "deps_ok known n \<longleftrightarrow>
     (\<forall>ds. dict_get n ''dependencies'' = PList ds \<longrightarrow>
        (\<exists>ss. ds = map PStr ss \<and> set ss \<subseteq> known \<and> distinct ss \<and>
              (\<forall>s. dict_get n ''id'' = PStr s \<longrightarrow> s \<notin> set ss)))"

definition accepts_dependencies :: "pydict \<Rightarrow> bool" where
  "accepts_dependencies w \<longleftrightarrow> (\<forall>(_, n) \<in> set (nodes_from w). deps_ok (valid_node_ids w) n)"

section \<open>The contract of a rule\<close>

locale validation_rule =
  fixes validate :: rule
    and accepts :: "pydict \<Rightarrow> bool"
  assumes silent_iff: "validate w = Inr [] \<longleftrightarrow> accepts w"
begin

lemma reports:
  "\<not> accepts w \<Longrightarrow> validate w = Inr es \<Longrightarrow> es \<noteq> []"
  using silent_iff by auto

end

interpretation workflow_fields: validation_rule RequiredWorkflowFieldsRule accepts_workflow_fields
  by unfold_locales
     (auto simp: RequiredWorkflowFieldsRule_def accepts_workflow_fields_def raw_nodes_def split: pyval.splits)

lemma required_field_errors_Nil: "required_field_errors i n = [] \<longleftrightarrow> has_node_fields n"
  by (auto simp: required_field_errors_def has_node_fields_def Let_def split: option.splits pyval.splits)

lemma mem_indexed: "(\<forall>x \<in> set (enumerate k xs). P (snd x)) \<longleftrightarrow> (\<forall>v \<in> set xs. P v)"
  by (induction xs arbitrary: k) auto

interpretation node_fields: validation_rule RequiredNodeFieldsRule accepts_node_fields
proof unfold_locales
  fix w
  have "(case v of PDict n \<Rightarrow> required_field_errors i n
      | _ \<Rightarrow> [rule_error ''invalid_node_definition'' ''Workflow node must be an object.''
                (node_path i) None None]) = [] \<longleftrightarrow> (\<exists>n. v = PDict n \<and> has_node_fields n)" for i v
    by (cases v) (auto simp: required_field_errors_Nil)
  then show "RequiredNodeFieldsRule w = Inr [] \<longleftrightarrow> accepts_node_fields w"
    unfolding RequiredNodeFieldsRule_def accepts_node_fields_def raw_nodes_def
    by (simp add: concat_map_Nil_iff case_prod_unfold
        mem_indexed [of _ _ "\<lambda>v. \<exists>n. v = PDict n \<and> has_node_fields n"] split: pyval.split)
qed

interpretation node_ids_valid: validation_rule NodeIdValidityRule accepts_node_ids
proof unfold_locales
  fix w show "NodeIdValidityRule w = Inr [] \<longleftrightarrow> accepts_node_ids w"
    unfolding NodeIdValidityRule_def accepts_node_ids_def
    by (auto simp: concat_map_Nil_iff Let_def split: pyval.splits if_splits)
qed

lemma matching_ids_mem:
  "s \<in> set (matching_ids ns) \<longleftrightarrow> (\<exists>(_, n) \<in> set ns. dict_get n ''id'' = PStr s \<and> node_id_pattern s)"
  by (force simp: matching_ids_def split: pyval.splits)

lemma distinct_count_list: "distinct xs \<longleftrightarrow> (\<forall>x \<in> set xs. count_list xs x \<le> 1)"
proof (induction xs)
  case (Cons a xs)
  show ?case
  proof (cases "a \<in> set xs")
    case True
    then have "count_list xs a \<noteq> 0" by (simp add: count_list_0_iff)
    with True show ?thesis by auto
  next
    case False
    with Cons show ?thesis by (auto simp: count_list_0_iff)
  qed
qed simp

interpretation node_ids_unique: validation_rule UniqueNodeIdsRule accepts_unique_ids
proof unfold_locales
  fix w
  let ?m = "matching_ids (nodes_from w)"
  have "UniqueNodeIdsRule w = Inr [] \<longleftrightarrow>
      (\<forall>(i, n) \<in> set (nodes_from w). \<forall>s. dict_get n ''id'' = PStr s \<longrightarrow> count_list ?m s \<le> 1)"
    unfolding UniqueNodeIdsRule_def
    by (fastforce simp: concat_map_Nil_iff Let_def split: pyval.splits if_splits)
  also have "\<dots> \<longleftrightarrow> (\<forall>s \<in> set ?m. count_list ?m s \<le> 1)"
    by (force simp: matching_ids_mem count_list_0_iff)
  finally show "UniqueNodeIdsRule w = Inr [] \<longleftrightarrow> accepts_unique_ids w"
    by (simp add: accepts_unique_ids_def distinct_count_list)
qed

interpretation handlers: validation_rule "HandlerDefinitionRule env" "accepts_handlers env" for env
proof unfold_locales
  fix w show "HandlerDefinitionRule env w = Inr [] \<longleftrightarrow> accepts_handlers env w"
    unfolding HandlerDefinitionRule_def accepts_handlers_def
    by (auto simp: concat_map_Nil_iff split: pyval.splits if_splits)
qed

lemma node_configuration_Nil: "node_configuration i n = Inr [] \<longleftrightarrow> config_ok n"
  by (auto simp: node_configuration_def config_ok_def config_of_def hashable_def Let_def rbind_Inr_iff
      split: pyval.split)

lemma res_map_concat_Nil:
  "rbind (res_map f xs) (\<lambda>es. Inr (concat es)) = Inr [] \<longleftrightarrow> (\<forall>x \<in> set xs. f x = Inr [])"
  by (induction xs) (auto simp: rbind_Inr_iff)

interpretation node_config: validation_rule NodeConfigurationRule accepts_config
  by unfold_locales
     (auto simp: NodeConfigurationRule_def res_map_concat_Nil accepts_config_def node_configuration_Nil)

lemma dependency_errors_strings:
  "dependency_errors fr known i ctx di (map PStr ss) seen = [] \<longleftrightarrow>
     set ss \<subseteq> known \<and> distinct ss \<and> set ss \<inter> seen = {} \<and> (\<forall>s. ctx = Some s \<longrightarrow> s \<notin> set ss)"
  by (induction ss arbitrary: di seen) (auto simp: Let_def)

lemma dependency_errors_all_strings:
  "dependency_errors fr known i ctx di ds seen = [] \<Longrightarrow> \<exists>ss. ds = map PStr ss"
proof (induction ds arbitrary: di seen)
  case (Cons v ds)
  from Cons.prems obtain d where v: "v = PStr d" by (cases v) (auto simp: Let_def)
  with Cons.prems have "\<exists>di seen. dependency_errors fr known i ctx di ds seen = []"
    by (auto simp: Let_def split: if_splits)
  with Cons.IH obtain ss where "ds = map PStr ss" by blast
  with v show ?case by (intro exI [of _ "d # ss"]) simp
qed simp

lemma dependency_errors_Nil:
  "dependency_errors fr known i ctx di ds {} = [] \<longleftrightarrow>
     (\<exists>ss. ds = map PStr ss \<and> set ss \<subseteq> known \<and> distinct ss \<and> (\<forall>s. ctx = Some s \<longrightarrow> s \<notin> set ss))"
  using dependency_errors_all_strings [of fr known i ctx di ds "{}"]
  by (auto simp: dependency_errors_strings; blast)

interpretation dependencies: validation_rule "DependencyReferenceRule fr" accepts_dependencies for fr
proof unfold_locales
  fix w
  have "(case dict_get n ''dependencies'' of
         PList deps \<Rightarrow>
           dependency_errors fr (valid_node_ids w) i (str_or_none (dict_get n ''id'')) 0 deps {}
       | _ \<Rightarrow> []) = [] \<longleftrightarrow> deps_ok (valid_node_ids w) n" for i n
    by (auto simp: deps_ok_def dependency_errors_Nil str_or_none_def split: pyval.splits)
  then show "DependencyReferenceRule fr w = Inr [] \<longleftrightarrow> accepts_dependencies w"
    by (auto simp: DependencyReferenceRule_def accepts_dependencies_def concat_map_Nil_iff)
qed

end
