(* ===== verification/Template_Parser.thy ===== *)
theory Template_Parser
  imports Validation
begin

text \<open>
  \<open>app/domain/templates/parser.py\<close>: strings with embedded references \<open>{{ node.path }}\<close>. The
  delimiter pattern is modelled by the spans \<open>finditer\<close> yields, the reference pattern by splitting
  at dots; \<open>reference_language\<close> spells the regular expression out and the two are proved to agree.
  Printing a list of segments and parsing it again gives the segments back.
\<close>

record TemplateReference =
  tr_node_id :: string
  tr_path :: "string list"

datatype TemplateSegment = Text string | Ref TemplateReference

datatype ParsedTemplate =
    PlainString string
  | SingleReference TemplateReference
  | ParsedTemplateString "TemplateSegment list"

section \<open>Searching\<close>

text \<open>\<open>text.find(pat)\<close>\<close>

fun find_at :: "string \<Rightarrow> string \<Rightarrow> nat option" where
  "find_at pat [] = (if pat = [] then Some 0 else None)"
| "find_at pat (c # cs) =
     (if strip_prefix pat (c # cs) \<noteq> None then Some 0 else map_option Suc (find_at pat cs))"

lemma find_at_bound: "find_at pat s = Some k \<Longrightarrow> k + length pat \<le> length s"
proof (induction s arbitrary: k)
  case (Cons c cs)
  then show ?case by (auto simp: strip_prefix_Some_iff split: if_splits dest: arg_cong [where f = length])
qed (auto split: if_splits)

text \<open>The spans of \<open>_TEMPLATE_DELIMITER_PATTERN.finditer\<close>: at each opening the shortest text up to a
  closing, then on from its end.\<close>

function template_spans :: "nat \<Rightarrow> string \<Rightarrow> (nat \<times> nat) list" where
  "template_spans pos [] = []"
| "template_spans pos (c # cs) =
     (case strip_prefix ''{{'' (c # cs) of
        None \<Rightarrow> template_spans (Suc pos) cs
      | Some rest \<Rightarrow>
          (case find_at ''}}'' rest of
             None \<Rightarrow> template_spans (Suc pos) cs
           | Some k \<Rightarrow> (pos, pos + k + 4) # template_spans (pos + k + 4) (drop (k + 2) rest)))"
  by pat_completeness auto
termination
  by (relation "measure (\<lambda>(pos, s). length s)")
     (auto simp: strip_prefix_Some_iff simp del: strip_prefix.simps dest!: arg_cong [where f = length])

text \<open>The positions visited by the \<open>find\<close> loop of \<open>_validate_delimiters\<close>.\<close>

function delimiter_positions :: "string \<Rightarrow> nat \<Rightarrow> string \<Rightarrow> nat list" where
  "delimiter_positions d pos [] = []"
| "delimiter_positions d pos (c # cs) =
     (case strip_prefix d (c # cs) of
        None \<Rightarrow> delimiter_positions d (Suc pos) cs
      | Some rest \<Rightarrow> pos # (if d = [] then [] else delimiter_positions d (pos + length d) rest))"
  by pat_completeness auto
termination
  by (relation "measure (\<lambda>(d, pos, s). length s)")
     (auto simp: strip_prefix_Some_iff simp flip: length_greater_0_conv dest!: arg_cong [where f = length])

section \<open>Parsing\<close>

definition path_segment :: "string \<Rightarrow> bool" where
  "path_segment s \<longleftrightarrow> node_id_pattern s \<or> isdecimal s"

definition parse_expression :: "string \<Rightarrow> TemplateReference option" where
  "parse_expression e =
     (case map py_strip (split_on CHR ''.'' e) of
        node_id # p # ps \<Rightarrow>
          if node_id_pattern node_id \<and> list_all path_segment (p # ps)
          then Some \<lparr>tr_node_id = node_id, tr_path = p # ps\<rparr> else None
      | _ \<Rightarrow> None)"

definition parse_reference :: "string \<Rightarrow> error + TemplateReference" where
  "parse_reference template =
     (let expression = butlast (butlast (drop 2 template)) in
      of_option
        (TemplateResolutionError (''Malformed template expression '' @ str_repr template @
           ''; expected '' @ quoted ''{{ node_name.output.path }}'' @ ''.''))
        (parse_expression expression))"

definition validate_delimiters :: "string \<Rightarrow> (nat \<times> nat) list \<Rightarrow> error + unit" where
  "validate_delimiters value matches =
     (let covered = (\<lambda>position. list_ex (\<lambda>(start, stop). start \<le> position \<and> position < stop) matches)
      in case filter (\<lambda>d. \<not> list_all covered (delimiter_positions d 0 value)) [''{{'', ''}}''] of
           [] \<Rightarrow> Inr ()
         | d # _ \<Rightarrow> Inl (TemplateResolutionError
                          (''Malformed template expression: unmatched '' @ quoted d @ ''.'')))"

definition slice :: "string \<Rightarrow> nat \<Rightarrow> nat \<Rightarrow> string" where
  "slice value a b = take (b - a) (drop a value)"

fun template_segments :: "string \<Rightarrow> nat \<Rightarrow> (nat \<times> nat) list \<Rightarrow> error + TemplateSegment list" where
  "template_segments value cursor [] =
     Inr (if cursor < length value then [Text (drop cursor value)] else [])"
| "template_segments value cursor ((start, stop) # matches) =
     rbind (parse_reference (slice value start stop)) (\<lambda>reference.
     rbind (template_segments value stop matches) (\<lambda>rest.
     Inr ((if start > cursor then [Text (slice value cursor start)] else []) @ Ref reference # rest)))"

definition parse_template :: "string \<Rightarrow> error + ParsedTemplate" where
  "parse_template value =
     (if delimiter_positions ''{{'' 0 value = [] \<and> delimiter_positions ''}}'' 0 value = []
      then Inr (PlainString value)
      else (let matches = template_spans 0 value in
            rbind (validate_delimiters value matches) (\<lambda>_.
            if matches = [(0, length value)]
            then rbind (parse_reference value) (\<lambda>r. Inr (SingleReference r))
            else rbind (template_segments value 0 matches) (\<lambda>ss. Inr (ParsedTemplateString ss)))))"

section \<open>The language of references\<close>

abbreviation white :: "string \<Rightarrow> bool" where
  "white s \<equiv> list_all is_space s"

text \<open>\<open>\s*\.\s*SEGMENT\<close>\<close>

abbreviation dotted :: "string \<times> string \<times> string \<Rightarrow> string" where
  "dotted t \<equiv> (case t of (a, b, s) \<Rightarrow> a @ ''.'' @ b @ s)"

definition reference_language :: "string \<Rightarrow> TemplateReference \<Rightarrow> bool" where
  "reference_language e r \<longleftrightarrow>
     node_id_pattern (tr_node_id r) \<and>
     (\<exists>w0 wn segs. white w0 \<and> white wn \<and> segs \<noteq> [] \<and>
        (\<forall>(a, b, s) \<in> set segs. white a \<and> white b \<and> path_segment s) \<and>
        tr_path r = map (\<lambda>(a, b, s). s) segs \<and>
        e = w0 @ tr_node_id r @ concat (map dotted segs) @ wn)"

lemma identifier_char_plain:
  "identifier_char c \<Longrightarrow> \<not> is_space c \<and> c \<noteq> CHR ''.'' \<and> c \<noteq> CHR ''{'' \<and> c \<noteq> CHR ''}''"
  by (auto simp: identifier_char_def is_letter_def is_digit_def is_space_def code_def)

lemma path_segment_chars:
  assumes "path_segment s" and "c \<in> set s"
  shows "\<not> is_space c \<and> c \<noteq> CHR ''.'' \<and> c \<noteq> CHR ''{'' \<and> c \<noteq> CHR ''}''"
proof -
  have "identifier_char c"
    using assms by (auto simp: path_segment_def node_id_pattern_def isdecimal_def identifier_char_def
        list_all_iff split: list.splits)
  then show ?thesis by (rule identifier_char_plain)
qed

lemma node_id_path_segment: "node_id_pattern s \<Longrightarrow> path_segment s"
  by (simp add: path_segment_def)

lemma dropWhile_white: "white a \<Longrightarrow> dropWhile is_space (a @ s) = dropWhile is_space s"
  by (induction a) auto

lemma strip_padded:
  assumes "white a" and "white b" and "path_segment s"
  shows "py_strip (a @ s @ b) = s"
proof -
  from assms(3) have ne: "s \<noteq> []" by (auto simp: path_segment_def node_id_pattern_def isdecimal_def)
  have hd: "\<not> is_space (hd s)" "\<not> is_space (hd (rev s))"
    using path_segment_chars [OF assms(3)] ne by (auto simp: hd_rev)
  have "dropWhile is_space (s @ b) = s @ b" using hd(1) ne by (cases s) auto
  moreover have "dropWhile is_space (rev s) = rev s" using hd(2) ne by (cases "rev s") auto
  ultimately show ?thesis
    using assms(1,2) by (simp add: py_strip_def py_lstrip_def py_rstrip_def dropWhile_white list_all_rev)
qed

lemma strip_split:
  obtains a b where "white a" and "white b" and "s = a @ py_strip s @ b"
proof -
  let ?l = "dropWhile is_space s"
  have a: "s = takeWhile is_space s @ ?l" by simp
  have "rev ?l = takeWhile is_space (rev ?l) @ dropWhile is_space (rev ?l)" by simp
  then have "?l = rev (dropWhile is_space (rev ?l)) @ rev (takeWhile is_space (rev ?l))"
    by (metis rev_append rev_rev_ident)
  then have "s = takeWhile is_space s @ py_strip s @ rev (takeWhile is_space (rev ?l))"
    using a by (simp add: py_strip_def py_lstrip_def py_rstrip_def)
  then show ?thesis
    by (rule that [rotated 2]) (auto simp: list_all_iff dest: set_takeWhileD)
qed

lemma join_split_on: "join [sep] (split_on sep s) = s"
proof (induction s)
  case (Cons c s)
  obtain w ws where "split_on sep s = w # ws" by (cases "split_on sep s") auto
  with Cons show ?case by (cases ws) auto
qed simp

lemma no_dot_white: "white a \<Longrightarrow> CHR ''.'' \<notin> set a"
  by (auto simp: list_all_iff is_space_def code_def)

lemma split_dotted:
  assumes "\<forall>(a, b, s) \<in> set segs. white a \<and> white b \<and> path_segment s" and "white wn"
    and "white w" and "path_segment i"
  shows "map py_strip (split_on CHR ''.'' (w @ i @ concat (map dotted segs) @ wn))
    = i # map (\<lambda>(a, b, s). s) segs"
  using assms
proof (induction segs arbitrary: w i)
  case Nil
  then have "CHR ''.'' \<notin> set (w @ i @ wn)"
    using no_dot_white [of w] no_dot_white [of wn] path_segment_chars [of i] by auto
  with Nil show ?case by (simp add: split_on_no_sep strip_padded)
next
  case (Cons t segs)
  obtain a b s where t: "t = (a, b, s)" by (cases t)
  with Cons.prems have seg: "white a" "white b" "path_segment s" by auto
  have nodot: "CHR ''.'' \<notin> set (w @ i @ a)"
    using no_dot_white [of w] no_dot_white [of a] path_segment_chars [of i] Cons.prems seg by auto
  have "split_on CHR ''.'' (w @ i @ concat (map dotted (t # segs)) @ wn)
      = (w @ i @ a) # split_on CHR ''.'' (b @ s @ concat (map dotted segs) @ wn)"
    using split_on_append [OF nodot, of "b @ s @ concat (map dotted segs) @ wn"] by (simp add: t)
  with Cons.IH [of b s] Cons.prems seg show ?case by (simp add: t strip_padded)
qed

lemma join_dotted:
  assumes "\<forall>p \<in> set ps. path_segment (py_strip p)"
  shows "\<exists>segs wn. white wn \<and> (\<forall>(a, b, s) \<in> set segs. white a \<and> white b \<and> path_segment s) \<and>
    map (\<lambda>(a, b, s). s) segs = map py_strip ps \<and> (\<exists>w. white w \<and>
    join ''.'' (p # ps) = w @ py_strip p @ concat (map dotted segs) @ wn)"
  using assms
proof (induction ps arbitrary: p)
  case Nil
  obtain a b where "white a" "white b" "p = a @ py_strip p @ b" by (rule strip_split)
  then show ?case by (intro exI [of _ "[]"] exI [of _ b] conjI exI [of _ a]) simp_all
next
  case (Cons q ps)
  obtain a b where ab: "white a" "white b" "p = a @ py_strip p @ b" by (rule strip_split)
  from Cons.IH [of q] Cons.prems obtain segs wn w where
    IH: "white wn" "\<forall>(a, b, s) \<in> set segs. white a \<and> white b \<and> path_segment s"
      "map (\<lambda>(a, b, s). s) segs = map py_strip ps" "white w"
      "join ''.'' (q # ps) = w @ py_strip q @ concat (map dotted segs) @ wn" by auto
  have "join ''.'' (p # q # ps) = a @ py_strip p @ concat (map dotted ((b, w, py_strip q) # segs)) @ wn"
    using ab(3) IH(5) by simp
  with ab IH Cons.prems show ?case
    by (intro exI [of _ "(b, w, py_strip q) # segs"] exI [of _ wn] conjI exI [of _ a]) auto
qed

lemma parse_expression_language: "parse_expression e = Some r \<longleftrightarrow> reference_language e r"
proof
  assume "parse_expression e = Some r"
  then obtain p q ps where parts: "split_on CHR ''.'' e = p # q # ps"
    and pat: "node_id_pattern (py_strip p)" "\<forall>x \<in> set (q # ps). path_segment (py_strip x)"
    and r: "r = \<lparr>tr_node_id = py_strip p, tr_path = map py_strip (q # ps)\<rparr>"
    by (auto simp: parse_expression_def list_all_iff split: list.splits if_splits)
  have "e = join ''.'' (p # q # ps)" using join_split_on [of "CHR ''.''" e] parts by simp
  with join_dotted [OF pat(2), of p] obtain segs wn w where
    segs: "white wn" "\<forall>(a, b, s) \<in> set segs. white a \<and> white b \<and> path_segment s"
      "map (\<lambda>(a, b, s). s) segs = map py_strip (q # ps)" "white w"
      "e = w @ py_strip p @ concat (map dotted segs) @ wn" by blast
  moreover from segs(3) have "segs \<noteq> []" by auto
  ultimately show "reference_language e r"
    unfolding reference_language_def r TemplateReference.select_convs
    by (intro conjI exI [of _ w] exI [of _ wn] exI [of _ segs]) (use pat(1) in simp_all)
next
  assume "reference_language e r"
  then obtain w0 wn segs where l: "node_id_pattern (tr_node_id r)" "white w0" "white wn" "segs \<noteq> []"
    "\<forall>(a, b, s) \<in> set segs. white a \<and> white b \<and> path_segment s"
    "tr_path r = map (\<lambda>(a, b, s). s) segs"
    "e = w0 @ tr_node_id r @ concat (map dotted segs) @ wn"
    unfolding reference_language_def by blast
  have "map py_strip (split_on CHR ''.'' e) = tr_node_id r # tr_path r"
    unfolding l(6,7) by (rule split_dotted [OF l(5,3,2) node_id_path_segment [OF l(1)]])
  moreover have "list_all path_segment (tr_path r)" using l(5,6) by (auto simp: list_all_iff)
  moreover have "tr_path r \<noteq> []" using l(4,6) by simp
  ultimately show "parse_expression e = Some r"
    using l(1) by (cases r; cases "tr_path r") (auto simp: parse_expression_def)
qed

section \<open>Printing and parsing\<close>

definition expression_text :: "TemplateReference \<Rightarrow> string" where
  "expression_text r = '' '' @ tr_node_id r @ ''.'' @ join ''.'' (tr_path r) @ '' ''"

definition reference_text :: "TemplateReference \<Rightarrow> string" where
  "reference_text r = ''{{'' @ expression_text r @ ''}}''"

primrec segment_text :: "TemplateSegment \<Rightarrow> string" where
  "segment_text (Text t) = t"
| "segment_text (Ref r) = reference_text r"

abbreviation template_text :: "TemplateSegment list \<Rightarrow> string" where
  "template_text ss \<equiv> concat (map segment_text ss)"

definition valid_reference :: "TemplateReference \<Rightarrow> bool" where
  "valid_reference r \<longleftrightarrow> node_id_pattern (tr_node_id r) \<and> tr_path r \<noteq> [] \<and> list_all path_segment (tr_path r)"

definition braceless :: "string \<Rightarrow> bool" where
  "braceless s \<longleftrightarrow> CHR ''{'' \<notin> set s \<and> CHR ''}'' \<notin> set s"

fun good_segments :: "TemplateSegment list \<Rightarrow> bool" where
  "good_segments [] = True"
| "good_segments (Ref r # ss) = (valid_reference r \<and> good_segments ss)"
| "good_segments (Text t # ss) =
     (t \<noteq> [] \<and> braceless t \<and> good_segments ss \<and> (case ss of Text _ # _ \<Rightarrow> False | _ \<Rightarrow> True))"

lemma join_dots: "ps \<noteq> [] \<Longrightarrow> concat (map dotted (map (\<lambda>s. ([], [], s)) ps)) = ''.'' @ join ''.'' ps"
  by (induction ps rule: induct_list012) auto

lemma parse_expression_text:
  assumes "valid_reference r"
  shows "parse_expression (expression_text r) = Some r"
  unfolding parse_expression_language reference_language_def expression_text_def
  using assms join_dots [of "tr_path r"]
  by (intro conjI exI [of _ "'' ''"] exI [of _ "map (\<lambda>s. ([], [], s)) (tr_path r)"])
     (auto simp: valid_reference_def list_all_iff is_space_def code_def comp_def)

lemma set_join: "set (join sep ws) \<subseteq> set sep \<union> \<Union> (set ` set ws)"
  by (induction ws rule: induct_list012) auto

lemma braceless_expression:
  assumes "valid_reference r"
  shows "braceless (expression_text r)"
proof -
  have plain: "braceless s" if "path_segment s" for s
    using path_segment_chars [OF that] by (auto simp: braceless_def)
  have "braceless (tr_node_id r)" "\<forall>s \<in> set (tr_path r). braceless s"
    using assms plain by (auto simp: valid_reference_def list_all_iff path_segment_def)
  with set_join [of "''.''" "tr_path r"] show ?thesis
    by (auto simp: expression_text_def braceless_def)
qed

lemma parse_reference_text:
  assumes "valid_reference r"
  shows "parse_reference (reference_text r) = Inr r"
proof -
  have "butlast (butlast (drop 2 (reference_text r))) = expression_text r"
    by (simp add: reference_text_def butlast_append)
  with parse_expression_text [OF assms] show ?thesis by (simp add: parse_reference_def)
qed

fun spans_of :: "nat \<Rightarrow> TemplateSegment list \<Rightarrow> (nat \<times> nat) list" where
  "spans_of pos [] = []"
| "spans_of pos (Text t # ss) = spans_of (pos + length t) ss"
| "spans_of pos (Ref r # ss) =
     (pos, pos + length (reference_text r)) # spans_of (pos + length (reference_text r)) ss"

lemma template_spans_text:
  "CHR ''{'' \<notin> set t \<Longrightarrow> template_spans pos (t @ s) = template_spans (pos + length t) s"
  by (induction t arbitrary: pos) auto

lemma find_close: "CHR ''}'' \<notin> set e \<Longrightarrow> find_at ''}}'' (e @ ''}}'' @ s) = Some (length e)"
  by (induction e) auto

lemma template_spans_eq:
  "good_segments ss \<Longrightarrow> template_spans pos (template_text ss) = spans_of pos ss"
proof (induction ss arbitrary: pos)
  case (Cons x ss)
  show ?case
  proof (cases x)
    case (Text t)
    with Cons show ?thesis by (simp add: braceless_def template_spans_text)
  next
    case (Ref r)
    let ?e = "expression_text r"
    have e: "CHR ''}'' \<notin> set ?e" using braceless_expression Cons.prems Ref by (auto simp: braceless_def)
    have eq: "template_text (x # ss) = CHR ''{'' # CHR ''{'' # ?e @ ''}}'' @ template_text ss"
      by (simp add: Ref reference_text_def)
    show ?thesis
      unfolding eq using Cons Ref find_close [OF e, of "template_text ss"]
      by (simp add: reference_text_def ac_simps eval_nat_numeral)
  qed
qed simp

lemma delimiter_positions_text:
  "d \<notin> set t \<Longrightarrow> delimiter_positions [d, d] pos (t @ s) = delimiter_positions [d, d] (pos + length t) s"
  by (induction t arbitrary: pos) auto

lemma open_positions:
  "good_segments ss \<Longrightarrow> delimiter_positions ''{{'' pos (template_text ss) = map fst (spans_of pos ss)"
proof (induction ss arbitrary: pos)
  case (Cons x ss)
  show ?case
  proof (cases x)
    case (Text t)
    with Cons show ?thesis by (simp add: braceless_def delimiter_positions_text)
  next
    case (Ref r)
    let ?e = "expression_text r @ ''}}''"
    have e: "CHR ''{'' \<notin> set ?e" using braceless_expression Cons.prems Ref by (auto simp: braceless_def)
    have eq: "template_text (x # ss) = CHR ''{'' # CHR ''{'' # ?e @ template_text ss"
      by (simp add: Ref reference_text_def)
    show ?thesis
      unfolding eq using Cons Ref delimiter_positions_text [OF e, of "pos + 2" "template_text ss"]
      by (simp add: reference_text_def add.commute add.left_commute)
  qed
qed simp

lemma close_positions:
  "good_segments ss \<Longrightarrow>
     delimiter_positions ''}}'' pos (template_text ss) = map (\<lambda>(a, b). b - 2) (spans_of pos ss)"
proof (induction ss arbitrary: pos)
  case (Cons x ss)
  show ?case
  proof (cases x)
    case (Text t)
    with Cons show ?thesis by (simp add: braceless_def delimiter_positions_text)
  next
    case (Ref r)
    let ?e = "''{{'' @ expression_text r"
    have e: "CHR ''}'' \<notin> set ?e" using braceless_expression Cons.prems Ref by (auto simp: braceless_def)
    have eq: "template_text (x # ss) = ?e @ CHR ''}'' # CHR ''}'' # template_text ss"
      by (simp add: Ref reference_text_def)
    show ?thesis
      unfolding eq delimiter_positions_text [OF e] using Cons Ref
      by (simp add: reference_text_def add.commute add.left_commute)
  qed
qed simp

lemma spans_of_width: "(a, b) \<in> set (spans_of pos ss) \<Longrightarrow> a + 4 \<le> b"
  by (induction pos ss rule: spans_of.induct) (auto simp: reference_text_def)

lemma validate_delimiters_text:
  assumes "good_segments ss"
  shows "validate_delimiters (template_text ss) (spans_of 0 ss) = Inr ()"
proof -
  have "list_all (\<lambda>p. list_ex (\<lambda>(a, b). a \<le> p \<and> p < b) (spans_of 0 ss)) (delimiter_positions d 0 (template_text ss))"
    if "d \<in> {''{{'', ''}}''}" for d
  proof -
    have "\<exists>(a, b) \<in> set (spans_of 0 ss). a \<le> p \<and> p < b"
      if "(a, b) \<in> set (spans_of 0 ss)" "p = a \<or> p = b - 2" for a b p
      using that(2) spans_of_width [OF that(1)] by (intro bexI [OF _ that(1)]) auto
    then have "\<forall>p \<in> set (delimiter_positions d 0 (template_text ss)).
        \<exists>(a, b) \<in> set (spans_of 0 ss). a \<le> p \<and> p < b"
      using that open_positions [OF assms, of 0] close_positions [OF assms, of 0] by fastforce
    then show ?thesis unfolding list_all_iff list_ex_iff .
  qed
  then show ?thesis by (simp add: validate_delimiters_def)
qed

lemma template_segments_text:
  assumes "good_segments ss" and "drop cursor value = u @ template_text ss"
    and "cursor \<le> length value" and "u \<noteq> [] \<Longrightarrow> (case ss of Text _ # _ \<Rightarrow> False | _ \<Rightarrow> True)"
  shows "template_segments value cursor (spans_of (cursor + length u) ss)
    = Inr ((if u \<noteq> [] then [Text u] else []) @ ss)"
  using assms
proof (induction ss arbitrary: cursor u)
  case Nil
  then have "length value = cursor + length u"
    by (metis append_Nil2 concat.simps(1) le_add_diff_inverse length_drop list.simps(8))
  with Nil show ?case by auto
next
  case (Cons x ss)
  show ?case
  proof (cases x)
    case (Text t)
    with Cons have "u = []" by (cases u) auto
    with Text Cons.prems Cons.IH [of cursor t] show ?thesis by simp
  next
    case (Ref r)
    let ?a = "cursor + length u" and ?b = "cursor + length u + length (reference_text r)"
    have rest: "drop ?a value = reference_text r @ template_text ss" "drop ?b value = template_text ss"
      using arg_cong [OF Cons.prems(2), of "drop (length u)"]
        arg_cong [OF Cons.prems(2), of "drop (length u + length (reference_text r))"] Ref
      by (simp_all add: ac_simps)
    have len: "?b \<le> length value"
      using arg_cong [OF Cons.prems(2), of length] Cons.prems(3) Ref by simp
    have "slice value ?a ?b = reference_text r" "slice value cursor ?a = u"
      using rest(1) Cons.prems(2) by (simp_all add: slice_def)
    moreover have "template_segments value ?b (spans_of ?b ss) = Inr ss"
      using Cons.IH [of ?b "[]"] Cons.prems(1) Ref rest(2) len by simp
    moreover have "parse_reference (reference_text r) = Inr r"
      using parse_reference_text Cons.prems(1) Ref by simp
    ultimately show ?thesis by (simp add: Ref)
  qed
qed

lemma spans_of_start: "(a, b) \<in> set (spans_of pos ss) \<Longrightarrow> pos \<le> a"
  by (induction pos ss rule: spans_of.induct) force+

lemma spans_of_Nil: "spans_of pos ss = [] \<longleftrightarrow> (\<forall>r. Ref r \<notin> set ss)"
  by (induction pos ss rule: spans_of.induct) auto

lemma template_text_Nil: "good_segments ss \<Longrightarrow> template_text ss = [] \<longleftrightarrow> ss = []"
  by (induction ss rule: good_segments.induct) (auto simp: reference_text_def)

lemma single_span:
  assumes good: "good_segments ss" and "spans_of 0 ss = [(0, length (template_text ss))]"
  shows "\<exists>r. ss = [Ref r]"
proof (cases ss)
  case Nil
  with assms(2) show ?thesis by simp
next
  case (Cons x ss')
  show ?thesis
  proof (cases x)
    case (Text t)
    with assms Cons spans_of_start [of 0 _ "length t" ss'] show ?thesis by auto
  next
    case (Ref r)
    with assms Cons have "template_text ss' = []" "good_segments ss'" by auto
    with template_text_Nil Cons Ref show ?thesis by auto
  qed
qed

lemma parse_template_text:
  assumes good: "good_segments ss" and refs: "Ref r \<in> set ss"
  shows "parse_template (template_text ss) =
    Inr (if ss = [Ref r] then SingleReference r else ParsedTemplateString ss)"
proof -
  have "spans_of 0 ss \<noteq> []" using refs spans_of_Nil [of 0 ss] by auto
  then have opens: "delimiter_positions ''{{'' 0 (template_text ss) \<noteq> []"
    by (simp add: open_positions [OF good])
  have segs: "template_segments (template_text ss) 0 (spans_of 0 ss) = Inr ss"
    using template_segments_text [OF good, of 0 "template_text ss" "[]"] by simp
  show ?thesis
  proof (cases "ss = [Ref r]")
    case True
    then have "spans_of 0 ss = [(0, length (template_text ss))]" "parse_reference (template_text ss) = Inr r"
      using good parse_reference_text by simp_all
    with True opens show ?thesis
      unfolding parse_template_def Let_def template_spans_eq [OF good] validate_delimiters_text [OF good]
      by simp
  next
    case False
    with single_span [OF good] refs have "spans_of 0 ss \<noteq> [(0, length (template_text ss))]" by auto
    with False opens segs show ?thesis
      by (simp add: parse_template_def template_spans_eq [OF good] validate_delimiters_text [OF good] Let_def)
  qed
qed

lemma parse_template_plain:
  "delimiter_positions ''{{'' 0 s = [] \<Longrightarrow> delimiter_positions ''}}'' 0 s = [] \<Longrightarrow>
     parse_template s = Inr (PlainString s)"
  by (simp add: parse_template_def)

section \<open>Properties of the parser\<close>

text \<open>A delimited expression is accepted exactly when it is in the language of the reference
  pattern: whitespace, an identifier, and one or more dotted path segments (identifiers or decimal
  numbers) with optional whitespace around each dot; node id and path are the matched groups with the
  whitespace removed. Every other expression is a \<open>TemplateResolutionError\<close>.\<close>

theorem parse_reference_language:
  "(parse_reference (''{{'' @ e @ ''}}'') = Inr r \<longleftrightarrow> reference_language e r) \<and>
   ((\<exists>m. parse_reference (''{{'' @ e @ ''}}'') = Inl (TemplateResolutionError m)) \<longleftrightarrow>
      (\<nexists>r. reference_language e r))"
proof -
  have "butlast (butlast (drop 2 (''{{'' @ e @ ''}}''))) = e" by (simp add: butlast_append)
  then show ?thesis
    by (cases "parse_expression e") (auto simp: parse_reference_def simp flip: parse_expression_language)
qed

text \<open>C37: parsing inverts printing. The text of a list of segments, with at least one reference and no
  braces in its literal parts, parses to exactly these segments, and a text that is one reference
  parses to that reference.\<close>

theorem template_print_parse:
  assumes "good_segments ss" and "Ref r \<in> set ss"
  shows "parse_template (template_text ss) =
    Inr (if ss = [Ref r] then SingleReference r else ParsedTemplateString ss)"
  by (rule parse_template_text [OF assms])

theorem template_print_parse_witness:
  "template_text [Text ''id='', Ref \<lparr>tr_node_id = ''fetch'', tr_path = [''items'', ''0'']\<rparr>]
     = ''id={{ fetch.items.0 }}'' \<and>
   parse_template ''id={{ fetch.items.0 }}'' =
     Inr (ParsedTemplateString [Text ''id='', Ref \<lparr>tr_node_id = ''fetch'', tr_path = [''items'', ''0'']\<rparr>])"
proof -
  let ?r = "\<lparr>tr_node_id = ''fetch'', tr_path = [''items'', ''0'']\<rparr>"
  have printed: "template_text [Text ''id='', Ref ?r] = ''id={{ fetch.items.0 }}''" by code_simp
  have "good_segments [Text ''id='', Ref ?r]" by code_simp
  from template_print_parse [OF this, of ?r] printed show ?thesis by simp
qed

end
