(* ===== verification/Template_Resolver.thy ===== *)
theory Template_Resolver
  imports Template_Parser
begin

text \<open>
  \<open>NodeInputResolver\<close> (\<open>app/services/templates/resolver.py\<close>): the input of a worker task, built from
  the execution input, the outputs of the dependencies and the node's configuration. Dependency
  outputs are an association list; \<open>fr\<close> is the text of floats. Proved: a resolved input is JSON with
  finite numbers, a whole-string reference yields the referenced value itself, and an error is always
  a \<open>TemplateResolutionError\<close>.
\<close>

section \<open>Copying JSON values\<close>

fun copy_json_value :: "pyval \<Rightarrow> error + pyval" where
  "copy_json_value (PFloat w) =
     (if \<not> isfinite w then Inl (TemplateResolutionError ''Task input must contain only finite JSON numbers.'')
      else Inr (PFloat w))"
| "copy_json_value (PList xs) = rbind (res_map copy_json_value xs) (\<lambda>ys. Inr (PList ys))"
| "copy_json_value (PDict d) =
     (if \<not> list_all (\<lambda>(k, _). is_str k) d
      then Inl (TemplateResolutionError ''Task input objects must use string keys.'')
      else rbind (res_map (\<lambda>(k, v). rbind (copy_json_value v) (\<lambda>v'. Inr (k, v'))) d)
             (\<lambda>d'. Inr (PDict d')))"
| "copy_json_value (POther t s) =
     Inl (TemplateResolutionError (''Task input contains non-JSON-serializable value of type '' @
            quoted t @ ''.''))"
| "copy_json_value v = Inr v"

definition copy_object :: "pydict \<Rightarrow> error + pydict" where
  "copy_object d = res_map (\<lambda>(k, v). rbind (copy_json_value v) (\<lambda>v'. Inr (k, v'))) d"

section \<open>Looking up references\<close>

type_synonym outputs = "(string \<times> pyval) list"

definition reference_path :: "TemplateReference \<Rightarrow> string" where
  "reference_path r = tr_node_id r @ ''.'' @ join ''.'' (tr_path r)"

fun lookup_path :: "error \<Rightarrow> pyval \<Rightarrow> string list \<Rightarrow> error + pyval" where
  "lookup_path missing current [] = Inr current"
| "lookup_path missing (PDict d) (key # path) =
     (case dict_lookup d key of
        None \<Rightarrow> Inl missing
      | Some v \<Rightarrow> lookup_path missing v path)"
| "lookup_path missing (PList xs) (key # path) =
     (if \<not> isdecimal key \<or> digits_val key \<ge> length xs then Inl missing
      else lookup_path missing (xs ! digits_val key) path)"
| "lookup_path missing current (key # path) = Inl missing"

definition lookup_reference :: "outputs \<Rightarrow> TemplateReference \<Rightarrow> error + pyval" where
  "lookup_reference outputs r =
     (case map_of outputs (tr_node_id r) of
        None \<Rightarrow> Inl (TemplateResolutionError
                  (''Template references unavailable dependency output '' @ quoted (tr_node_id r) @ ''.''))
      | Some current \<Rightarrow>
          lookup_path (TemplateResolutionError
            (''Template references missing output '' @ quoted (reference_path r) @ ''.''))
            current (tr_path r))"

definition interpolate :: "float_text \<Rightarrow> outputs \<Rightarrow> TemplateReference \<Rightarrow> error + string" where
  "interpolate fr outputs r =
     rbind (lookup_reference outputs r) (\<lambda>resolved.
       case resolved of
         PStr s \<Rightarrow> Inr s
       | PNone \<Rightarrow> Inr ''null''
       | PBool b \<Rightarrow> Inr (if b then ''true'' else ''false'')
       | PInt i \<Rightarrow> Inr (int_str i)
       | PFloat w \<Rightarrow> Inr (fr w)
       | _ \<Rightarrow> Inl (TemplateResolutionError
                (''Embedded templates must resolve to scalar JSON values; '' @ quoted (reference_path r) @
                 '' resolved to a structured value.'')))"

definition interpolate_segments :: "float_text \<Rightarrow> outputs \<Rightarrow> TemplateSegment list \<Rightarrow> error + string" where
  "interpolate_segments fr outputs segments =
     rbind (res_map (\<lambda>s. case s of Text t \<Rightarrow> Inr t | Ref r \<Rightarrow> interpolate fr outputs r) segments)
       (\<lambda>parts. Inr (concat parts))"

section \<open>Resolving\<close>

definition resolve_string :: "float_text \<Rightarrow> outputs \<Rightarrow> string \<Rightarrow> error + pyval" where
  "resolve_string fr outputs value =
     rbind (parse_template value) (\<lambda>parsed.
       case parsed of
         PlainString s \<Rightarrow> Inr (PStr s)
       | SingleReference r \<Rightarrow> rbind (lookup_reference outputs r) copy_json_value
       | ParsedTemplateString ss \<Rightarrow>
           rbind (interpolate_segments fr outputs ss) (\<lambda>s. Inr (PStr s)))"

fun resolve_value :: "float_text \<Rightarrow> outputs \<Rightarrow> pyval \<Rightarrow> error + pyval" where
  "resolve_value fr outputs (PStr s) = resolve_string fr outputs s"
| "resolve_value fr outputs (PList xs) =
     rbind (res_map (resolve_value fr outputs) xs) (\<lambda>ys. Inr (PList ys))"
| "resolve_value fr outputs (PDict d) =
     (if \<not> list_all (\<lambda>(k, _). is_str k) d
      then Inl (TemplateResolutionError ''Task input objects must use string keys.'')
      else rbind (res_map (\<lambda>(k, v). rbind (resolve_value fr outputs v) (\<lambda>v'. Inr (k, v'))) d)
             (\<lambda>d'. Inr (PDict d')))"
| "resolve_value fr outputs v = copy_json_value v"

definition resolve_object :: "float_text \<Rightarrow> outputs \<Rightarrow> pydict \<Rightarrow> error + pydict" where
  "resolve_object fr outputs d =
     res_map (\<lambda>(k, v). rbind (resolve_value fr outputs v) (\<lambda>v'. Inr (k, v'))) d"

definition resolve :: "float_text \<Rightarrow> WorkflowNode \<Rightarrow> pydict \<Rightarrow> outputs \<Rightarrow> error + pydict" where
  "resolve fr node execution_input dependency_outputs =
     (if wn_handler node = ''input'' then copy_object execution_input
      else if wn_handler node = ''output''
      then copy_object (map (\<lambda>(k, v). (PStr k, v)) dependency_outputs)
      else resolve_object fr dependency_outputs (wn_config node))"

section \<open>Facts\<close>

fun json_finite :: "pyval \<Rightarrow> bool" where
  "json_finite (PFloat w) = isfinite w"
| "json_finite (PList xs) = list_all json_finite xs"
| "json_finite (PDict d) = list_all (\<lambda>(k, v). is_str k \<and> json_finite v) d"
| "json_finite (POther _ _) = False"
| "json_finite v = True"

lemma json_finite_json: "json_finite v \<Longrightarrow> is_json_value v"
  by (induction v rule: json_finite.induct) (auto simp: list_all_iff is_str_iff)

lemma res_map_id: "(\<And>x. x \<in> set xs \<Longrightarrow> f x = Inr x) \<Longrightarrow> res_map f xs = Inr xs"
  by (induction xs) auto

lemma copy_json_value_ok: "json_finite v \<Longrightarrow> copy_json_value v = Inr v"
proof (induction v rule: json_finite.induct)
  case (2 xs)
  then show ?case by (simp add: list_all_iff res_map_id)
next
  case (3 d)
  have "res_map (\<lambda>(k, v). rbind (copy_json_value v) (\<lambda>v'. Inr (k, v'))) d = Inr d"
    using 3 by (intro res_map_id) (auto simp: list_all_iff)
  with 3 show ?case by (auto simp: list_all_iff)
qed auto

definition is_template_error :: "error \<Rightarrow> bool" where
  "is_template_error e = (case e of TemplateResolutionError _ \<Rightarrow> True | _ \<Rightarrow> False)"

lemma is_template_error_simps [simp]: "is_template_error (TemplateResolutionError m)"
  by (simp add: is_template_error_def)

lemma res_map_first_error:
  assumes "res_map f xs = Inl e"
  shows "\<exists>x \<in> set xs. f x = Inl e"
  using assms by (induction xs) (auto simp: rbind_Inl_iff)

lemma copy_json_value_error: "\<not> json_finite v \<Longrightarrow> \<exists>e. copy_json_value v = Inl e \<and> is_template_error e"
proof (induction v rule: json_finite.induct)
  case (2 xs)
  then obtain x where "x \<in> set xs" "\<not> json_finite x" by (auto simp: list_all_iff)
  with 2 have "\<exists>x \<in> set xs. \<exists>e. copy_json_value x = Inl e" by blast
  then obtain e where e: "res_map copy_json_value xs = Inl e" using res_map_Inl_iff by metis
  then obtain y where y: "y \<in> set xs" "copy_json_value y = Inl e" using res_map_first_error by metis
  then have "\<not> json_finite y" using copy_json_value_ok by force
  with 2 y have "is_template_error e" by fastforce
  with e show ?case by simp
next
  case (3 d)
  show ?case
  proof (cases "list_all (\<lambda>(k, _). is_str k) d")
    case True
    let ?f = "\<lambda>(k, v). rbind (copy_json_value v) (\<lambda>v'. Inr (k, v'))"
    from True 3(2) obtain k v where kv: "(k, v) \<in> set d" "\<not> json_finite v" by (auto simp: list_all_iff)
    from 3(1) [OF kv(1) refl kv(2)] obtain e0 where "copy_json_value v = Inl e0" by blast
    then have "\<exists>x \<in> set d. \<exists>e. ?f x = Inl e" by (intro bexI [OF _ kv(1)]) simp
    then obtain e where e: "res_map ?f d = Inl e" using res_map_Inl_iff [of ?f d] by blast
    then obtain k' v' where y: "(k', v') \<in> set d" "copy_json_value v' = Inl e"
      using res_map_first_error [OF e] by (auto simp: rbind_Inl_iff)
    then have "\<not> json_finite v'" using copy_json_value_ok by force
    with 3(1) y have "is_template_error e" by fastforce
    with e True show ?thesis by simp
  qed (auto simp: is_template_error_def)
qed (auto simp: is_template_error_def)

lemma copy_json_value_Inr: "copy_json_value v = Inr v' \<longleftrightarrow> json_finite v \<and> v' = v"
  using copy_json_value_ok [of v] copy_json_value_error [of v] by (cases "json_finite v") auto

lemma copy_json_value_Inl: "copy_json_value v = Inl e \<Longrightarrow> is_template_error e \<and> \<not> json_finite v"
  using copy_json_value_ok [of v] copy_json_value_error [of v] by (cases "json_finite v") auto

lemma lookup_path_errors: "lookup_path m v ps = Inl e \<Longrightarrow> e = m"
  by (induction m v ps rule: lookup_path.induct) (auto split: option.splits if_splits)

lemma lookup_reference_errors: "lookup_reference outputs r = Inl e \<Longrightarrow> is_template_error e"
  by (auto simp: lookup_reference_def is_template_error_def split: option.splits dest: lookup_path_errors)

lemma parse_reference_errors: "parse_reference s = Inl e \<Longrightarrow> is_template_error e"
  by (auto simp: parse_reference_def Let_def of_option_def is_template_error_def split: option.splits)

lemma template_segments_errors: "template_segments s c ms = Inl e \<Longrightarrow> is_template_error e"
  by (induction s c ms rule: template_segments.induct) (auto simp: rbind_Inl_iff dest: parse_reference_errors)

lemma parse_template_errors: "parse_template s = Inl e \<Longrightarrow> is_template_error e"
  by (auto simp: parse_template_def Let_def rbind_Inl_iff validate_delimiters_def is_template_error_def
      split: if_splits list.splits
      dest: parse_reference_errors [unfolded is_template_error_def]
        template_segments_errors [unfolded is_template_error_def])

lemma interpolate_errors:
  assumes "interpolate fr outputs r = Inl e"
  shows "is_template_error e"
proof (cases "lookup_reference outputs r")
  case (Inl e')
  with assms lookup_reference_errors show ?thesis by (simp add: interpolate_def)
next
  case (Inr v)
  with assms show ?thesis by (cases v) (auto simp: interpolate_def)
qed

lemma interpolate_segments_errors: "interpolate_segments fr outputs ss = Inl e \<Longrightarrow> is_template_error e"
  by (auto simp: interpolate_segments_def rbind_Inl_iff split: TemplateSegment.splits
      dest!: res_map_first_error intro: interpolate_errors)

lemma resolve_string_errors:
  assumes "resolve_string fr outputs s = Inl e"
  shows "is_template_error e"
proof (cases "parse_template s")
  case (Inl e')
  with assms parse_template_errors show ?thesis by (simp add: resolve_string_def)
next
  case (Inr p)
  with assms show ?thesis
    by (cases p) (auto simp: resolve_string_def rbind_Inl_iff
        dest: lookup_reference_errors copy_json_value_Inl interpolate_segments_errors)
qed

lemma resolve_value_errors: "resolve_value fr outputs v = Inl e \<Longrightarrow> is_template_error e"
proof (induction fr outputs v arbitrary: e rule: resolve_value.induct)
  case (2 fr outputs xs)
  then show ?case by (auto simp: rbind_Inl_iff dest!: res_map_first_error)
next
  case (3 fr outputs d)
  then show ?case
    by (auto simp: rbind_Inl_iff is_template_error_def split: if_splits dest!: res_map_first_error)
qed (auto dest: resolve_string_errors split: if_splits)

lemma resolve_string_finite:
  assumes "resolve_string fr outputs s = Inr v"
  shows "json_finite v"
proof (cases "parse_template s")
  case (Inr p)
  with assms show ?thesis
    by (cases p) (auto simp: resolve_string_def rbind_Inr_iff copy_json_value_Inr)
qed (use assms in \<open>simp add: resolve_string_def\<close>)

lemma res_map_dict:
  assumes "res_map (\<lambda>(k, v). rbind (f v) (\<lambda>v'. Inr (k, v'))) d = Inr d'"
  shows "map fst d' = map fst d" and "(k, v') \<in> set d' \<Longrightarrow> \<exists>v. (k, v) \<in> set d \<and> f v = Inr v'"
proof -
  have rel: "list_all2 (\<lambda>(k, v) (k', v'). k' = k \<and> f v = Inr v') d d'"
    using assms unfolding res_map_Inr_iff
    by (rule list_all2_mono) (auto simp: rbind_Inr_iff)
  show "map fst d' = map fst d" using rel by (induction rule: list_all2_induct) auto
  show "(k, v') \<in> set d' \<Longrightarrow> \<exists>v. (k, v) \<in> set d \<and> f v = Inr v'"
    using rel by (induction rule: list_all2_induct) auto
qed

lemma res_map_dict_finite:
  assumes "res_map (\<lambda>(k, v). rbind (f v) (\<lambda>v'. Inr (k, v'))) d = Inr d'"
    and "list_all (\<lambda>(k, _). is_str k) d" and "\<And>k v v'. (k, v) \<in> set d \<Longrightarrow> f v = Inr v' \<Longrightarrow> json_finite v'"
  shows "json_finite (PDict d')"
  using assms res_map_dict(2) [OF assms(1)] by (fastforce simp: list_all_iff)

lemma resolve_value_finite: "resolve_value fr outputs v = Inr v' \<Longrightarrow> json_finite v'"
proof (induction fr outputs v arbitrary: v' rule: resolve_value.induct)
  case (2 fr outputs xs)
  then obtain ys where ys: "v' = PList ys" "list_all2 (\<lambda>x y. resolve_value fr outputs x = Inr y) xs ys"
    by (auto simp: rbind_Inr_iff res_map_Inr_iff)
  have "list_all2 (\<lambda>x y. json_finite y) xs ys"
    by (rule list.rel_mono_strong [OF ys(2)]) (use 2 in blast)
  then have "list_all json_finite ys" by (induction rule: list_all2_induct) auto
  with ys show ?case by simp
next
  case (3 fr outputs d)
  then obtain d' where d': "v' = PDict d'" "list_all (\<lambda>(k, _). is_str k) d"
    "res_map (\<lambda>(k, v). rbind (resolve_value fr outputs v) (\<lambda>v'. Inr (k, v'))) d = Inr d'"
    by (auto simp: rbind_Inr_iff split: if_splits)
  show ?case unfolding d'(1)
    by (rule res_map_dict_finite [OF d'(3,2)]) (use 3(1) d'(2) in blast)
qed (auto dest: resolve_string_finite simp: copy_json_value_Inr split: if_splits)

section \<open>Properties of the resolver\<close>

text \<open>C36: a resolved task input is an object with string keys that holds only JSON values with finite
  numbers, and its keys are those of the execution input, of the dependency outputs or of the
  configuration, by handler; when resolution fails the error is a \<open>TemplateResolutionError\<close>.\<close>

theorem resolve_sound:
  assumes "list_all (\<lambda>(k, _). is_str k) execution_input" and "list_all (\<lambda>(k, _). is_str k) (wn_config node)"
  shows "case resolve fr node execution_input outputs of
      Inr d \<Rightarrow> json_finite (PDict d) \<and> is_json_value (PDict d) \<and>
        map fst d = (if wn_handler node = ''input'' then map fst execution_input
                     else if wn_handler node = ''output'' then map (PStr \<circ> fst) outputs
                     else map fst (wn_config node))
    | Inl e \<Rightarrow> is_template_error e"
proof -
  let ?o = "map (\<lambda>(k, v). (PStr k, v)) outputs"
  have copy: "json_finite (PDict d')" if "copy_object d = Inr d'" "list_all (\<lambda>(k, _). is_str k) d" for d d'
    using that by (intro res_map_dict_finite [of copy_json_value d]) (auto simp: copy_object_def copy_json_value_Inr)
  have copy_err: "is_template_error e" if "copy_object d = Inl e" for d e
    using that by (auto simp: copy_object_def rbind_Inl_iff dest!: res_map_first_error copy_json_value_Inl)
  have keys: "map fst d' = map fst d" if "copy_object d = Inr d'" for d d'
    using that res_map_dict(1) unfolding copy_object_def by blast
  have obj: "json_finite (PDict d')" "map fst d' = map fst (wn_config node)"
    if "resolve_object fr outputs (wn_config node) = Inr d'" for d'
    using that assms(2) res_map_dict(1) resolve_value_finite
    unfolding resolve_object_def by (blast intro: res_map_dict_finite)+
  have obj_err: "is_template_error e" if "resolve_object fr outputs (wn_config node) = Inl e" for e
    using that by (auto simp: resolve_object_def rbind_Inl_iff dest!: res_map_first_error resolve_value_errors)
  have out: "list_all (\<lambda>(k, _). is_str k) ?o" "map fst ?o = map (PStr \<circ> fst) outputs"
    by (auto simp: list_all_iff)
  show ?thesis
  proof (cases "resolve fr node execution_input outputs")
    case (Inl e)
    then show ?thesis using copy_err obj_err by (auto simp: resolve_def split: if_splits)
  next
    case (Inr d)
    then have "json_finite (PDict d) \<and> map fst d = (if wn_handler node = ''input'' then map fst execution_input
        else if wn_handler node = ''output'' then map (PStr \<circ> fst) outputs else map fst (wn_config node))"
      using copy [OF _ assms(1)] copy [OF _ out(1)] keys [of execution_input d] keys [of ?o d] obj out(2)
      by (auto simp: resolve_def split: if_splits)
    with Inr json_finite_json [of "PDict d"] show ?thesis by (simp only: sum.case)
  qed
qed

definition sample_llm_node :: WorkflowNode where
  "sample_llm_node =
     \<lparr>wn_id = ''b'', wn_handler = ''llm_service'', wn_dependencies = [''a''],
      wn_config = [(PStr ''prompt'', PStr ''n={{ a.n }}''), (PStr ''raw'', PStr ''{{ a.xs.1 }}'')],
      wn_created_at = 0, wn_created_by = None\<rparr>"

theorem resolve_sound_witness:
  "resolve (\<lambda>_. []) sample_llm_node []
     [(''a'', PDict [(PStr ''n'', PInt 7), (PStr ''xs'', PList [PNone, PBool True])])]
     = Inr [(PStr ''prompt'', PStr ''n=7''), (PStr ''raw'', PBool True)] \<and>
   json_finite (PDict [(PStr ''prompt'', PStr ''n=7''), (PStr ''raw'', PBool True)])"
proof -
  let ?outputs = "[(''a'', PDict [(PStr ''n'', PInt 7), (PStr ''xs'', PList [PNone, PBool True])])]"
  have "resolve (\<lambda>_. []) sample_llm_node [] ?outputs
      = Inr [(PStr ''prompt'', PStr ''n=7''), (PStr ''raw'', PBool True)]" by code_simp
  with resolve_sound [where execution_input = "[]" and node = sample_llm_node and fr = "\<lambda>_. []" and outputs = ?outputs] show ?thesis
    by (simp add: sample_llm_node_def)
qed

lemma lookup_path_any: "lookup_path e base ps = Inr v \<Longrightarrow> lookup_path e' base ps = Inr v"
  by (induction e base ps rule: lookup_path.induct) (auto split: option.splits if_splits)

text \<open>A configuration string that is exactly one reference is replaced by the referenced value
  with its type kept: the value found by following the path through the dependency's output, provided
  it holds only finite JSON, and a \<open>TemplateResolutionError\<close> in every other case.\<close>

theorem resolve_whole_reference:
  assumes "valid_reference r"
  shows "resolve_value fr outputs (PStr (reference_text r)) = Inr v \<longleftrightarrow>
    (\<exists>base. map_of outputs (tr_node_id r) = Some base \<and> json_finite v \<and>
       (\<forall>e. lookup_path e base (tr_path r) = Inr v))"
proof -
  have "parse_template (reference_text r) = Inr (SingleReference r)"
    using parse_template_text [of "[Ref r]" r] assms by simp
  moreover have "lookup_reference outputs r = Inr v \<longleftrightarrow>
      (\<exists>base. map_of outputs (tr_node_id r) = Some base \<and> (\<forall>e. lookup_path e base (tr_path r) = Inr v))" for v
    by (cases "map_of outputs (tr_node_id r)") (auto simp: lookup_reference_def intro: lookup_path_any)
  ultimately show ?thesis
    by (auto simp: resolve_string_def rbind_Inr_iff copy_json_value_Inr)
qed

theorem resolve_whole_reference_witness:
  "resolve_value (\<lambda>_. []) [(''a'', PList [PInt 5])] (PStr ''{{ a.0 }}'') = Inr (PInt 5)"
proof -
  let ?r = "\<lparr>tr_node_id = ''a'', tr_path = [''0'']\<rparr>"
  have "valid_reference ?r" by code_simp
  moreover have "reference_text ?r = ''{{ a.0 }}''" by code_simp
  moreover have "digits_val ''0'' = 0" "isdecimal ''0''" by code_simp+
  ultimately show ?thesis
    using resolve_whole_reference [of ?r "\<lambda>_. []" "[(''a'', PList [PInt 5])]" "PInt 5"] by simp
qed

end
