(* ===== verification/Json_Codec.thy ===== *)
theory Json_Codec
  imports Template_Resolver
begin

text \<open>
  The part of Python's \<open>json\<close> module the messages use: \<open>dumps\<close> with \<open>separators=(",", ":")\<close> and
  \<open>sort_keys=True\<close> (ASCII output, sorted members) and \<open>loads\<close>. Object keys are strings, as
  everywhere in the program. The text of a finite float and its reading are the arguments \<open>fr\<close> and
  \<open>fp\<close>; \<open>float_codec\<close> states what is relied on: the text is a JSON number with a fraction or an
  exponent, and reads back as the same float. Proved: \<open>loads\<close> inverts \<open>dumps\<close> up to the order of
  object members.
\<close>

section \<open>\<open>dumps\<close>\<close>

definition escape_char :: "char \<Rightarrow> string" where
  "escape_char c =
     (if c = CHR 0x22 then [CHR 0x5C, CHR 0x22]
      else if c = CHR 0x5C then [CHR 0x5C, CHR 0x5C]
      else if c = CHR 0x0A then [CHR 0x5C, CHR ''n'']
      else if c = CHR 0x0D then [CHR 0x5C, CHR ''r'']
      else if c = CHR 0x09 then [CHR 0x5C, CHR ''t'']
      else if c = CHR 0x0C then [CHR 0x5C, CHR ''f'']
      else if c = CHR 0x08 then [CHR 0x5C, CHR ''b'']
      else if 32 \<le> code c \<and> code c \<le> 126 then [c]
      else CHR 0x5C # CHR ''u'' # hex_digits 4 (code c))"

definition dumps_str :: "string \<Rightarrow> string" where
  "dumps_str s = CHR 0x22 # concat (map escape_char s) @ [CHR 0x22]"

definition key_text :: "pyval \<Rightarrow> string" where
  "key_text k = (case k of PStr s \<Rightarrow> s | _ \<Rightarrow> [])"

definition dumps_float :: "float_text \<Rightarrow> 64 word \<Rightarrow> string" where
  "dumps_float fr w =
     (if isfinite w then fr w else if float_is_nan w then ''NaN''
      else if float_sign w then ''-Infinity'' else ''Infinity'')"

fun dumps :: "float_text \<Rightarrow> pyval \<Rightarrow> error + string" where
  "dumps fr PNone = Inr ''null''"
| "dumps fr (PBool b) = Inr (if b then ''true'' else ''false'')"
| "dumps fr (PInt i) = Inr (int_str i)"
| "dumps fr (PFloat w) = Inr (dumps_float fr w)"
| "dumps fr (PStr s) = Inr (dumps_str s)"
| "dumps fr (PList xs) = rbind (res_map (dumps fr) xs) (\<lambda>ts. Inr (''['' @ join '','' ts @ '']''))"
| "dumps fr (PDict d) =
     rbind (res_map snd (sort_key fst
        (map (\<lambda>(k, v). (key_text k, rbind (dumps fr v) (\<lambda>t. Inr (dumps_str (key_text k) @ '':'' @ t)))) d)))
       (\<lambda>ts. Inr (''{'' @ join '','' ts @ ''}''))"
| "dumps fr (POther t s) = Inl (TypeError (''Object of type '' @ t @ '' is not JSON serializable''))"

section \<open>\<open>loads\<close>\<close>

definition json_ws :: "char \<Rightarrow> bool" where
  "json_ws c \<longleftrightarrow> c = CHR '' '' \<or> c = CHR 0x09 \<or> c = CHR 0x0A \<or> c = CHR 0x0D"

definition skip_ws :: "string \<Rightarrow> string" where
  "skip_ws s = dropWhile json_ws s"

definition unescape :: "char \<Rightarrow> char option" where
  "unescape c =
     (if c = CHR 0x22 \<or> c = CHR 0x5C \<or> c = CHR ''/'' then Some c
      else if c = CHR ''n'' then Some (CHR 0x0A)
      else if c = CHR ''r'' then Some (CHR 0x0D)
      else if c = CHR ''t'' then Some (CHR 0x09)
      else if c = CHR ''f'' then Some (CHR 0x0C)
      else if c = CHR ''b'' then Some (CHR 0x08)
      else None)"

definition hex4 :: "string \<Rightarrow> nat option" where
  "hex4 s = (if length s = 4 \<and> list_all (\<lambda>c. base_digit 16 c \<noteq> None) s then base_digits 16 0 s else None)"

text \<open>The characters after an opening quote: the decoded string and the text after its closing
  quote. Code points from 256 on are outside the model.\<close>

fun scan_string :: "string \<Rightarrow> (string \<times> string) option" where
  "scan_string [] = None"
| "scan_string (c # s) =
     (if c = CHR 0x22 then Some ([], s)
      else if c = CHR 0x5C then
        (case s of
           [] \<Rightarrow> None
         | u # rest \<Rightarrow>
             if u = CHR ''u'' then
               (case hex4 (take 4 rest) of
                  None \<Rightarrow> None
                | Some n \<Rightarrow>
                    if n < 256 then map_option (apfst ((#) (char_of n))) (scan_string (drop 4 rest)) else None)
             else
               (case unescape u of
                  None \<Rightarrow> None
                | Some e \<Rightarrow> map_option (apfst ((#) e)) (scan_string rest)))
      else if code c < 32 then None
      else map_option (apfst ((#) c)) (scan_string s))"

text \<open>\<open>NUMBER_RE\<close>: integer part, then fraction and exponent (longest match).\<close>

definition scan_digits :: "string \<Rightarrow> string \<times> string" where
  "scan_digits s = (takeWhile is_digit s, dropWhile is_digit s)"

definition scan_int :: "string \<Rightarrow> (string \<times> string) option" where
  "scan_int s =
     (let (sign, r) = (case s of c # cs \<Rightarrow> if c = CHR ''-'' then ([c], cs) else ([], s) | [] \<Rightarrow> ([], []))
      in case r of
           [] \<Rightarrow> None
         | c # cs \<Rightarrow>
             if c = CHR ''0'' then Some (sign @ [c], cs)
             else if is_digit c then Some (sign @ takeWhile is_digit r, dropWhile is_digit r)
             else None)"

definition scan_frac :: "string \<Rightarrow> string \<times> string" where
  "scan_frac s =
     (case s of
        c # cs \<Rightarrow> if c = CHR ''.'' \<and> takeWhile is_digit cs \<noteq> []
                  then (c # takeWhile is_digit cs, dropWhile is_digit cs) else ([], s)
      | [] \<Rightarrow> ([], []))"

definition scan_exp :: "string \<Rightarrow> string \<times> string" where
  "scan_exp s =
     (case s of
        c # cs \<Rightarrow>
          if c = CHR ''e'' \<or> c = CHR ''E'' then
            (let (sign, r) = (case cs of d # ds \<Rightarrow> if d = CHR ''-'' \<or> d = CHR ''+'' then ([d], ds) else ([], cs)
                              | [] \<Rightarrow> ([], []))
             in if takeWhile is_digit r \<noteq> [] then (c # sign @ takeWhile is_digit r, dropWhile is_digit r)
                else ([], s))
          else ([], s)
      | [] \<Rightarrow> ([], []))"

definition scan_number :: "(string \<Rightarrow> 64 word) \<Rightarrow> string \<Rightarrow> (pyval \<times> string) option" where
  "scan_number fp s =
     (case scan_int s of
        None \<Rightarrow> None
      | Some (i, r) \<Rightarrow>
          (let (f, r1) = scan_frac r; (e, r2) = scan_exp r1 in
           if f = [] \<and> e = [] then map_option (\<lambda>n. (PInt n, r2)) (py_int i)
           else Some (PFloat (fp (i @ f @ e)), r2)))"

text \<open>\<open>null\<close>, \<open>true\<close>, \<open>false\<close>, \<open>NaN\<close>, \<open>Infinity\<close>, \<open>-Infinity\<close>, else a number.\<close>

definition scan_scalar :: "(string \<Rightarrow> 64 word) \<Rightarrow> string \<Rightarrow> (pyval \<times> string) option" where
  "scan_scalar fp s =
     (case strip_prefix ''null'' s of Some r \<Rightarrow> Some (PNone, r) | None \<Rightarrow>
      case strip_prefix ''true'' s of Some r \<Rightarrow> Some (PBool True, r) | None \<Rightarrow>
      case strip_prefix ''false'' s of Some r \<Rightarrow> Some (PBool False, r) | None \<Rightarrow>
      case scan_number fp s of Some x \<Rightarrow> Some x | None \<Rightarrow>
      case strip_prefix ''NaN'' s of Some r \<Rightarrow> Some (PFloat float_nan, r) | None \<Rightarrow>
      case strip_prefix ''Infinity'' s of Some r \<Rightarrow> Some (PFloat float_inf, r) | None \<Rightarrow>
      case strip_prefix ''-Infinity'' s of Some r \<Rightarrow> Some (PFloat float_neg_inf, r) | None \<Rightarrow> None)"

lemma length_skip_ws: "length (skip_ws s) \<le> length s"
  by (simp add: skip_ws_def length_dropWhile_le)

lemma skip_ws_Cons: "skip_ws s = c # r \<Longrightarrow> length r < length s"
  using length_skip_ws [of s] by simp

lemma skip_ws_double: "2 * length r < n \<Longrightarrow> 2 * length (skip_ws r) < n"
  "Suc (2 * length r) < n \<Longrightarrow> Suc (2 * length (skip_ws r)) < n"
  using length_skip_ws [of r] by simp_all

lemma length_skip_ws_less: "length r < n \<Longrightarrow> length (skip_ws r) < n"
  using length_skip_ws [of r] by simp

text \<open>The scanner. A value takes at least one character (\<open>json_value_shorter\<close> below), so the length
  tests, which make the recursion well-founded, never fail.\<close>

function (sequential)
  json_value :: "(string \<Rightarrow> 64 word) \<Rightarrow> string \<Rightarrow> (pyval \<times> string) option" and
  json_elements :: "(string \<Rightarrow> 64 word) \<Rightarrow> string \<Rightarrow> (pyval list \<times> string) option" and
  json_members :: "(string \<Rightarrow> 64 word) \<Rightarrow> string \<Rightarrow> ((pyval \<times> pyval) list \<times> string) option"
where
  "json_value fp [] = None"
| "json_value fp (c # s) =
     (if c = CHR 0x22 then map_option (apfst PStr) (scan_string s)
      else if c = CHR ''['' then
        (case skip_ws s of
           [] \<Rightarrow> None
         | x # r \<Rightarrow> if x = CHR '']'' then Some (PList [], r)
                    else map_option (apfst PList) (json_elements fp (x # r)))
      else if c = CHR ''{'' then
        (case skip_ws s of
           [] \<Rightarrow> None
         | x # r \<Rightarrow> if x = CHR ''}'' then Some (PDict [], r)
                    else map_option (apfst (PDict \<circ> dict_of_pairs)) (json_members fp (x # r)))
      else scan_scalar fp (c # s))"
| "json_elements fp s =
     (case json_value fp s of
        None \<Rightarrow> None
      | Some (v, rest) \<Rightarrow>
          if length rest < length s then
            (case skip_ws rest of
               [] \<Rightarrow> None
             | x # r \<Rightarrow> if x = CHR '','' then map_option (apfst ((#) v)) (json_elements fp (skip_ws r))
                        else if x = CHR '']'' then Some ([v], r) else None)
          else None)"
| "json_members fp [] = None"
| "json_members fp (q # s) =
     (if q \<noteq> CHR 0x22 then None
      else case scan_string s of
        None \<Rightarrow> None
      | Some (k, after_key) \<Rightarrow>
          (case skip_ws after_key of
             [] \<Rightarrow> None
           | x # r \<Rightarrow>
               if x = CHR '':'' \<and> length r < length s then
                 (case json_value fp (skip_ws r) of
                    None \<Rightarrow> None
                  | Some (v, rest) \<Rightarrow>
                      if length rest < length r then
                        (case skip_ws rest of
                           [] \<Rightarrow> None
                         | y # r' \<Rightarrow>
                             if y = CHR '','' then
                               map_option (apfst ((#) (PStr k, v))) (json_members fp (skip_ws r'))
                             else if y = CHR ''}'' then Some ([(PStr k, v)], r') else None)
                      else None)
               else None))"
  by pat_completeness auto
termination
  by (relation "measure (\<lambda>x. case x of Inl (fp, s) \<Rightarrow> 2 * length s
        | Inr (Inl (fp, s)) \<Rightarrow> 2 * length s + 1 | Inr (Inr (fp, s)) \<Rightarrow> 2 * length s + 1)")
     (auto dest!: skip_ws_Cons intro!: skip_ws_double length_skip_ws_less)

definition loads :: "(string \<Rightarrow> 64 word) \<Rightarrow> string \<Rightarrow> pyval option" where
  "loads fp s =
     (case json_value fp (skip_ws s) of
        None \<Rightarrow> None
      | Some (v, rest) \<Rightarrow> if skip_ws rest = [] then Some v else None)"

section \<open>Every scanner consumes text\<close>

lemma scan_string_shorter: "scan_string s = Some (k, r) \<Longrightarrow> length r < length s"
proof (induction s arbitrary: k r rule: scan_string.induct)
  case (2 c s)
  consider "c = CHR 0x22" | "c = CHR 0x5C" | "c \<noteq> CHR 0x22" "c \<noteq> CHR 0x5C" by blast
  then show ?case
  proof cases
    case 2
    then obtain u rest where s: "s = u # rest" using "2.prems" by (cases s) auto
    from 2 s "2.prems" obtain k' where
      "scan_string (drop 4 rest) = Some (k', r) \<and> u = CHR ''u'' \<or> scan_string rest = Some (k', r) \<and> u \<noteq> CHR ''u''"
      by (auto split: if_splits option.splits)
    then show ?thesis
      using "2.IH"(1) [of u rest] "2.IH"(2) [of u rest] 2 s "2.prems"
      by (fastforce split: if_splits option.splits)
  next
    case 1
    with "2.prems" show ?thesis by simp
  next
    case 3
    with "2.prems" obtain k' where "scan_string s = Some (k', r)" "\<not> code c < 32" by (auto split: if_splits)
    with "2.IH"(3) 3 show ?thesis by fastforce
  qed
qed simp

lemma scan_int_shorter: "scan_int s = Some (i, r) \<Longrightarrow> length r < length s"
proof -
  have "length (dropWhile is_digit cs) \<le> length cs" for cs by (rule length_dropWhile_le)
  then show "scan_int s = Some (i, r) \<Longrightarrow> length r < length s"
    by (auto simp: scan_int_def Let_def le_imp_less_Suc less_Suc_eq_le le_SucI split: list.splits if_splits)
qed

lemma scan_frac_exp_length: "length (snd (scan_frac s)) \<le> length s" "length (snd (scan_exp s)) \<le> length s"
  by (auto simp: scan_frac_def scan_exp_def Let_def length_dropWhile_le le_SucI split: list.splits)

lemma scan_number_shorter: "scan_number fp s = Some (v, r) \<Longrightarrow> length r < length s"
proof -
  assume "scan_number fp s = Some (v, r)"
  then obtain i r0 where "scan_int s = Some (i, r0)" "r = snd (scan_exp (snd (scan_frac r0)))"
    by (auto simp: scan_number_def Let_def case_prod_unfold split: option.splits if_splits)
  with scan_int_shorter [of s i r0] scan_frac_exp_length(1) [of r0] scan_frac_exp_length(2) [of "snd (scan_frac r0)"]
  show ?thesis by simp
qed

lemma strip_prefix_shorter: "strip_prefix p s = Some r \<Longrightarrow> p \<noteq> [] \<Longrightarrow> length r < length s"
  by (auto simp: strip_prefix_Some_iff)

lemma scan_scalar_shorter:
  assumes "scan_scalar fp s = Some (v, r)"
  shows "length r < length s"
proof -
  have "(\<exists>p. p \<noteq> [] \<and> strip_prefix p s = Some r) \<or> scan_number fp s = Some (v, r)"
    using assms unfolding scan_scalar_def
    by (auto split: option.splits simp del: strip_prefix.simps)
  with strip_prefix_shorter scan_number_shorter show ?thesis by blast
qed

declare json_elements.simps [simp del]

lemma json_elements_cases:
  assumes "json_elements fp s = Some (vs, r)"
  obtains v rest x r0 where "json_value fp s = Some (v, rest)" "length rest < length s" "skip_ws rest = x # r0"
    "x = CHR '','' \<and> (\<exists>vs'. json_elements fp (skip_ws r0) = Some (vs', r)) \<or> r0 = r"
  using assms
  by (subst (asm) json_elements.simps) (fastforce split: option.splits list.splits if_splits)

lemma json_members_cases:
  assumes "json_members fp s = Some (kvs, r)"
  obtains q s0 k a x r1 v rest y r2 where "s = q # s0" "scan_string s0 = Some (k, a)"
    "skip_ws a = x # r1" "length r1 < length s0" "json_value fp (skip_ws r1) = Some (v, rest)"
    "length rest < length r1" "skip_ws rest = y # r2"
    "y = CHR '','' \<and> (\<exists>kvs'. json_members fp (skip_ws r2) = Some (kvs', r)) \<or> r2 = r"
  using assms
  by (cases s) (auto split: option.splits list.splits if_splits)

lemma json_shorter:
  "json_value fp s = Some (v, r) \<Longrightarrow> length r < length s"
  "json_elements fp s = Some (vs, r) \<Longrightarrow> length r < length s"
  "json_members fp s = Some (kvs, r) \<Longrightarrow> length r < length s"
proof -
  have elements: "json_elements fp s = Some (vs, r) \<Longrightarrow> length r < length s" for s vs r
  proof (induction s arbitrary: vs rule: length_induct)
    case (1 s)
    from 1(2) show ?case
    proof (rule json_elements_cases)
      fix v rest x r0
      assume a: "length rest < length s" "skip_ws rest = x # r0"
        "x = CHR '','' \<and> (\<exists>vs'. json_elements fp (skip_ws r0) = Some (vs', r)) \<or> r0 = r"
      have "length r0 < length s" "length (skip_ws r0) < length s"
        using a(1) skip_ws_Cons [OF a(2)] length_skip_ws [of r0] by simp_all
      with 1(1) a(3) show ?thesis by fastforce
    qed
  qed
  have members: "json_members fp s = Some (kvs, r) \<Longrightarrow> length r < length s" for s kvs r
  proof (induction s arbitrary: kvs rule: length_induct)
    case (1 s)
    from 1(2) show ?case
    proof (rule json_members_cases)
      fix q s0 k a x r1 v rest y r2
      assume a: "s = q # s0" "length r1 < length s0" "length rest < length r1" "skip_ws rest = y # r2"
        "y = CHR '','' \<and> (\<exists>kvs'. json_members fp (skip_ws r2) = Some (kvs', r)) \<or> r2 = r"
      have "length r2 < length s" "length (skip_ws r2) < length s"
        using a(1-3) skip_ws_Cons [OF a(4)] length_skip_ws [of r2] by simp_all
      with 1(1) a(5) show ?thesis by fastforce
    qed
  qed
  show "json_elements fp s = Some (vs, r) \<Longrightarrow> length r < length s" by (rule elements)
  show "json_members fp s = Some (kvs, r) \<Longrightarrow> length r < length s" by (rule members)
  assume val: "json_value fp s = Some (v, r)"
  then obtain c s' where s: "s = c # s'" by (cases s) auto
  have len: "length (skip_ws s') \<le> length s'" by (rule length_skip_ws)
  from val s consider k where "scan_string s' = Some (k, r)"
    | x r0 where "skip_ws s' = x # r0" "r = r0 \<or> (\<exists>vs. json_elements fp (x # r0) = Some (vs, r)) \<or>
        (\<exists>kvs. json_members fp (x # r0) = Some (kvs, r))"
    | "scan_scalar fp s = Some (v, r)"
    by (fastforce split: if_splits list.splits)
  then show "length r < length s"
  proof cases
    case 2
    with len elements [of "x # r0" _ r] members [of "x # r0" _ r] s show ?thesis by fastforce
  qed (use s in \<open>auto dest: scan_string_shorter scan_scalar_shorter\<close>)
qed

section \<open>Strings and numbers read back\<close>

lemma scan_string_escape:
  assumes "u \<noteq> CHR ''u''" and "unescape u = Some e"
  shows "scan_string (CHR 0x5C # u # s) = map_option (apfst ((#) e)) (scan_string s)"
  using assms by simp

lemma hex4_digits: "n < 65536 \<Longrightarrow> hex4 (hex_digits 4 n) = Some n"
proof -
  assume n: "n < 65536"
  have "\<forall>c \<in> set (hex_digits 4 n). base_digit 16 c \<noteq> None"
    using hex_text_digits [of 4 n] by (auto simp: hex_text_def base_digit_hex)
  with n base_digits_hex [of 0 4 n] show ?thesis by (simp add: hex4_def list_all_iff)
qed

lemma scan_string_char: "scan_string (escape_char c @ s) = map_option (apfst ((#) c)) (scan_string s)"
proof -
  have n: "code c < 65536" "code c < 256" "char_of (code c) = c"
    using nat_of_char_less_256 [of c] by (simp_all add: code_def del: nat_of_char_less_256)
  have "scan_string (CHR 0x5C # CHR ''u'' # hex_digits 4 (code c) @ s) = map_option (apfst ((#) c)) (scan_string s)"
    using n hex4_digits [of "code c"] by simp
  then show ?thesis by (auto simp: escape_char_def unescape_def)
qed

lemma scan_string_dumps:
  "scan_string (concat (map escape_char k) @ CHR 0x22 # rest) = Some (k, rest)"
  by (induction k) (simp_all add: scan_string_char)

text \<open>What may follow a value inside a document.\<close>

definition delim :: "string \<Rightarrow> bool" where
  "delim rest = (case rest of [] \<Rightarrow> True | c # _ \<Rightarrow> c = CHR '','' \<or> c = CHR '']'' \<or> c = CHR ''}'')"

lemma delim_not: "delim (c # rest) \<Longrightarrow> \<not> is_digit c \<and> c \<noteq> CHR ''.'' \<and> c \<noteq> CHR ''e'' \<and> c \<noteq> CHR ''E''
    \<and> c \<noteq> CHR ''-'' \<and> c \<noteq> CHR ''+'' \<and> c \<noteq> CHR ''0''"
  by (auto simp: delim_def is_digit_def code_def)

lemma digits_delim:
  assumes "delim rest"
  shows "takeWhile is_digit (s @ rest) = takeWhile is_digit s"
    and "dropWhile is_digit (s @ rest) = dropWhile is_digit s @ rest"
  using assms by (induction s) (auto simp: delim_def is_digit_def code_def split: list.splits)

lemma scan_int_delim:
  assumes "delim rest"
  shows "scan_int (s @ rest) = map_option (apsnd (\<lambda>r. r @ rest)) (scan_int s)"
proof (cases s)
  case Nil
  with assms show ?thesis by (cases rest) (auto simp: scan_int_def Let_def dest: delim_not)
next
  case (Cons c cs)
  show ?thesis
  proof (cases "c = CHR ''-''")
    case True
    with Cons assms digits_delim [OF assms] show ?thesis
      by (cases cs; cases rest) (auto simp: scan_int_def Let_def dest: delim_not)
  next
    case False
    with Cons digits_delim [OF assms] show ?thesis by (auto simp: scan_int_def Let_def)
  qed
qed

lemma scan_frac_delim:
  assumes "delim rest"
  shows "scan_frac (s @ rest) = apsnd (\<lambda>r. r @ rest) (scan_frac s)"
proof (cases s)
  case Nil
  with assms show ?thesis by (cases rest) (auto simp: scan_frac_def dest: delim_not)
next
  case (Cons c cs)
  with digits_delim [OF assms] show ?thesis by (auto simp: scan_frac_def)
qed

lemma scan_exp_delim:
  assumes "delim rest"
  shows "scan_exp (s @ rest) = apsnd (\<lambda>r. r @ rest) (scan_exp s)"
proof (cases s)
  case Nil
  with assms show ?thesis by (cases rest) (auto simp: scan_exp_def dest: delim_not)
next
  case (Cons c cs)
  show ?thesis
  proof (cases cs)
    case Nil
    with Cons assms show ?thesis by (cases rest) (auto simp: scan_exp_def Let_def dest: delim_not)
  next
    case (Cons d ds)
    with \<open>s = c # cs\<close> digits_delim [OF assms, of ds] digits_delim [OF assms, of cs] show ?thesis
      by (auto simp: scan_exp_def Let_def)
  qed
qed

lemma scan_number_delim:
  assumes "delim rest"
  shows "scan_number fp (s @ rest) = map_option (apsnd (\<lambda>r. r @ rest)) (scan_number fp s)"
  by (auto simp: scan_number_def scan_int_delim [OF assms] scan_frac_delim [OF assms]
      scan_exp_delim [OF assms] Let_def case_prod_unfold option.map_comp comp_def split: option.splits)

lemma nat_str_zero: "nat_str n = CHR ''0'' # cs \<Longrightarrow> n = 0 \<and> cs = []"
proof (induction n arbitrary: cs rule: nat_str.induct)
  case (1 n)
  show ?case
  proof (cases "n < 10")
    case True
    with 1(2) have d: "digit_char n = CHR ''0''" and cs: "cs = []"
      by (subst (asm) nat_str.simps, simp)+
    from d have "code (digit_char n) = code CHR ''0''" by simp
    with True have "n = 0" by (simp add: code_digit_char) (simp add: code_def)
    with cs show ?thesis by simp
  next
    case False
    with 1(2) have "nat_str (n div 10) @ [digit_char (n mod 10)] = CHR ''0'' # cs"
      by (subst (asm) nat_str.simps) simp
    then obtain ds where "nat_str (n div 10) = CHR ''0'' # ds"
      by (cases "nat_str (n div 10)") auto
    with 1(1) [OF False] False show ?thesis by auto
  qed
qed

lemma scan_int_nat: "scan_int (nat_str n) = Some (nat_str n, [])"
proof -
  obtain c cs where cs: "nat_str n = c # cs" by (cases "nat_str n") auto
  have dig: "is_digit c" "list_all is_digit cs" using nat_str_digits [of n] cs by auto
  then have all: "takeWhile is_digit cs = cs" "dropWhile is_digit cs = []"
    by (auto simp: takeWhile_eq_all_conv list_all_iff)
  have "c \<noteq> CHR ''-''" using dig digit_not_punct by blast
  with cs dig all nat_str_zero [of n cs] show ?thesis by (auto simp: scan_int_def Let_def)
qed

lemma scan_int_minus: "scan_int s = Some (i, r) \<Longrightarrow> hd s \<noteq> CHR ''-'' \<Longrightarrow>
    scan_int (CHR ''-'' # s) = Some (CHR ''-'' # i, r)"
  by (auto simp: scan_int_def Let_def split: list.splits if_splits)

lemma scan_int_int: "scan_int (int_str i) = Some (int_str i, [])"
proof -
  have "hd (nat_str n) \<noteq> CHR ''-''" for n
    using nat_str_digits [of n] digit_not_punct by (cases "nat_str n") auto
  then show ?thesis
    using scan_int_nat scan_int_minus by (auto simp: int_str_def)
qed

lemma scan_number_int: "delim rest \<Longrightarrow> scan_number fp (int_str i @ rest) = Some (PInt i, rest)"
  by (simp add: scan_number_delim)
     (simp add: scan_number_def scan_int_int scan_frac_def scan_exp_def Let_def)

text \<open>What is relied on about the text of finite floats.\<close>

definition float_codec :: "float_text \<Rightarrow> (string \<Rightarrow> 64 word) \<Rightarrow> bool" where
  "float_codec fr fp \<longleftrightarrow> (\<forall>w. isfinite w \<longrightarrow> scan_number fp (fr w) = Some (PFloat w, []))"

lemma scan_number_head: "scan_number fp s \<noteq> None \<Longrightarrow> \<exists>c cs. s = c # cs \<and> (is_digit c \<or> c = CHR ''-'')"
  by (auto simp: scan_number_def scan_int_def Let_def is_digit_def code_def split: option.splits list.splits if_splits)

lemma scan_scalar_number:
  assumes "scan_number fp s = Some x"
  shows "scan_scalar fp s = Some x"
proof -
  from scan_number_head [of fp s] assms obtain c cs where s: "s = c # cs" "is_digit c \<or> c = CHR ''-''" by auto
  then have "c \<noteq> CHR ''n''" "c \<noteq> CHR ''t''" "c \<noteq> CHR ''f''" by (auto simp: is_digit_def code_def)
  with s assms show ?thesis by (simp add: scan_scalar_def)
qed

lemma json_value_number:
  assumes "scan_number fp s = Some x"
  shows "json_value fp s = Some x"
proof -
  from scan_number_head [of fp s] assms obtain c cs where s: "s = c # cs" "is_digit c \<or> c = CHR ''-''" by auto
  then have "c \<noteq> CHR 0x22" "c \<noteq> CHR ''[''" "c \<noteq> CHR ''{''" by (auto simp: is_digit_def code_def)
  with s scan_scalar_number [OF assms] show ?thesis by simp
qed

section \<open>Round trip\<close>

text \<open>The value a document stands for: members in key order, one representative of each special
  float.\<close>

fun canon :: "pyval \<Rightarrow> pyval" where
  "canon (PFloat w) =
     PFloat (if isfinite w then w else if float_is_nan w then float_nan
             else if float_sign w then float_neg_inf else float_inf)"
| "canon (PList xs) = PList (map canon xs)"
| "canon (PDict d) = PDict (sort_key (\<lambda>(k, v). key_text k) (map (\<lambda>(k, v). (k, canon v)) d))"
| "canon v = v"

text \<open>\<open>t\<close> reads back as \<open>v\<close> wherever a value may stand.\<close>

definition reads_as :: "(string \<Rightarrow> 64 word) \<Rightarrow> string \<Rightarrow> pyval \<Rightarrow> bool" where
  "reads_as fp t v \<longleftrightarrow>
     (\<exists>c cs. t = c # cs \<and> \<not> json_ws c \<and> \<not> is_space c \<and> c \<noteq> CHR '']'' \<and> c \<noteq> CHR ''}'') \<and>
     (\<forall>rest. delim rest \<longrightarrow> json_value fp (t @ rest) = Some (v, rest))"

lemma reads_as_head:
  assumes "reads_as fp t v"
  obtains c cs where "t = c # cs" "skip_ws (t @ s) = t @ s" "c \<noteq> CHR '']''" "c \<noteq> CHR ''}''"
  using assms by (auto simp: reads_as_def skip_ws_def)

lemma reads_as_value: "reads_as fp t v \<Longrightarrow> delim rest \<Longrightarrow> json_value fp (t @ rest) = Some (v, rest)"
  by (simp add: reads_as_def)

lemma skip_ws_plain: "\<not> json_ws c \<Longrightarrow> skip_ws (c # s) = c # s"
  by (simp add: skip_ws_def)

lemma json_ws_punct [simp]:
  "\<not> json_ws CHR '',''" "\<not> json_ws CHR '':''" "\<not> json_ws CHR '']''" "\<not> json_ws CHR ''}''" "\<not> json_ws CHR 0x22"
  by (simp_all add: json_ws_def)

lemma delim_punct [simp]: "delim (CHR '','' # s)" "delim (CHR '']'' # s)" "delim (CHR ''}'' # s)" "delim []"
  by (simp_all add: delim_def)

lemma json_elements_step:
  assumes "json_value fp s = Some (v, CHR '','' # r)" and "skip_ws r = r"
    and "json_elements fp r = Some (vs, rest)"
  shows "json_elements fp s = Some (v # vs, rest)"
  using assms json_shorter(1) [OF assms(1)] by (subst json_elements.simps) (simp add: skip_ws_plain)

lemma json_elements_text:
  assumes "list_all2 (reads_as fp) ts vs" and "ts \<noteq> []"
  shows "json_elements fp (join '','' ts @ '']'' @ rest) = Some (vs, rest)"
  using assms
proof (induction ts vs rule: list_all2_induct)
  case (Cons t ts v vs)
  obtain c cs where t: "t = c # cs" using Cons.hyps(1) by (rule reads_as_head)
  show ?case
  proof (cases "ts = []")
    case True
    with Cons.hyps have "vs = []" by auto
    with True t reads_as_value [OF Cons.hyps(1), of "CHR '']'' # rest"] show ?thesis
      by (subst json_elements.simps) (simp add: skip_ws_plain)
  next
    case False
    let ?r = "join '','' ts @ '']'' @ rest"
    obtain t' ts' where ts: "ts = t' # ts'" using False by (cases ts) auto
    then obtain s where s: "?r = t' @ s" by (cases ts') auto
    have "\<exists>v'. reads_as fp t' v'" using Cons.hyps(2) ts by (auto simp: list_all2_Cons1)
    then have "skip_ws ?r = ?r" unfolding s by (metis reads_as_head)
    moreover have "join '','' (t # ts) @ '']'' @ rest = t @ CHR '','' # ?r" using False by (simp add: join_Cons)
    ultimately show ?thesis
      using json_elements_step [OF reads_as_value [OF Cons.hyps(1)], of ?r] Cons.IH False by simp
  qed
qed simp

definition member_text :: "string \<Rightarrow> string \<Rightarrow> string" where
  "member_text k t = dumps_str k @ '':'' @ t"

lemma json_members_text:
  assumes "list_all2 (\<lambda>(k, t) (k', v). k' = PStr k \<and> reads_as fp t v) kts kvs" and "kts \<noteq> []"
  shows "json_members fp (join '','' (map (\<lambda>(k, t). member_text k t) kts) @ ''}'' @ rest) = Some (kvs, rest)"
  using assms
proof (induction kts kvs rule: list_all2_induct)
  case (Cons kt kts kv kvs)
  obtain k t where kt: "kt = (k, t)" by (cases kt)
  obtain v where v: "kv = (PStr k, v)" "reads_as fp t v" using Cons.hyps(1) kt by (cases kv) auto
  let ?q = "concat (map escape_char k)"
  obtain c cs where t: "t = c # cs" using v(2) by (rule reads_as_head)
  have skip: "skip_ws (t @ s) = t @ s" for s using v(2) by (metis reads_as_head)
  have m: "json_members fp (member_text k t @ s) =
      (case skip_ws s of [] \<Rightarrow> None | y # r' \<Rightarrow>
        if y = CHR '','' then map_option (apfst ((#) (PStr k, v))) (json_members fp (skip_ws r'))
        else if y = CHR ''}'' then Some ([(PStr k, v)], r') else None)" if "delim s" for s
    using scan_string_dumps [of k "CHR '':'' # t @ s"] skip [of s] reads_as_value [OF v(2) that] t
    by (simp add: member_text_def dumps_str_def skip_ws_plain)
  show ?case
  proof (cases "kts = []")
    case True
    with Cons.hyps have "kvs = []" by auto
    with True m [of "CHR ''}'' # rest"] show ?thesis by (simp add: kt v skip_ws_plain)
  next
    case False
    let ?r = "join '','' (map (\<lambda>(k, t). member_text k t) kts) @ ''}'' @ rest"
    have "\<exists>s. ?r = CHR 0x22 # s"
      using False by (cases kts; cases "tl kts") (auto simp: member_text_def dumps_str_def)
    then have "skip_ws ?r = ?r" by (auto simp: skip_ws_plain)
    moreover have "join '','' (map (\<lambda>(k, t). member_text k t) (kt # kts)) @ ''}'' @ rest
        = member_text k t @ CHR '','' # ?r" using False by (simp add: kt join_Cons)
    ultimately show ?thesis using Cons.IH False m [of "CHR '','' # ?r"] by (simp add: skip_ws_plain v)
  qed
qed simp

lemma insort_key_map: "insort_key f (g x) (map g xs) = map g (insort_key (f \<circ> g) x xs)"
  by (induction xs) auto

lemma sort_key_map: "sort_key f (map g xs) = map g (sort_key (f \<circ> g) xs)"
  by (induction xs) (simp_all add: insort_key_map comp_def)

lemma res_map_all2:
  "list_all2 (\<lambda>x y. f x = Inr y) xs ys \<Longrightarrow> res_map f xs = Inr ys"
  by (simp add: res_map_Inr_iff)

lemma reads_as_list:
  assumes "list_all2 (reads_as fp) ts vs"
  shows "reads_as fp (''['' @ join '','' ts @ '']'') (PList vs)"
proof (cases "ts = []")
  case True
  with assms show ?thesis by (auto simp: reads_as_def skip_ws_plain json_ws_def is_space_def code_def)
next
  case False
  then obtain t ts' where ts: "ts = t # ts'" by (cases ts) auto
  then obtain v where v: "reads_as fp t v" using assms by (auto simp: list_all2_Cons1)
  obtain c cs where c: "t = c # cs" "\<not> json_ws c" "c \<noteq> CHR '']''" using v by (auto simp: reads_as_def)
  have hd: "\<exists>r. join '','' ts @ s = c # r" for s using ts c by (cases ts') auto
  have "json_value fp ((''['' @ join '','' ts @ '']'') @ rest) = Some (PList vs, rest)" for rest
    using hd [of "'']'' @ rest"] json_elements_text [OF assms False, of rest] c
    by (auto simp: skip_ws_plain)
  then show ?thesis by (auto simp: reads_as_def json_ws_def is_space_def code_def)
qed

lemma reads_as_dict:
  assumes all: "list_all2 (\<lambda>(k, t) (k', v). k' = PStr k \<and> reads_as fp t v) kts kvs"
    and dist: "distinct (map fst kvs)"
  shows "reads_as fp (''{'' @ join '','' (map (\<lambda>(k, t). member_text k t) kts) @ ''}'') (PDict kvs)"
proof (cases "kts = []")
  case True
  with all show ?thesis by (auto simp: reads_as_def skip_ws_plain json_ws_def is_space_def code_def)
next
  case False
  have hd: "\<exists>r. join '','' (map (\<lambda>(k, t). member_text k t) kts) @ s = CHR 0x22 # r" for s
    using False by (cases kts; cases "tl kts") (auto simp: member_text_def dumps_str_def)
  have "json_value fp ((''{'' @ join '','' (map (\<lambda>(k, t). member_text k t) kts) @ ''}'') @ rest)
      = Some (PDict kvs, rest)" for rest
    using hd [of "''}'' @ rest"] json_members_text [OF all False, of rest] dist
    by (auto simp: skip_ws_plain dict_of_pairs_distinct)
  then show ?thesis by (auto simp: reads_as_def json_ws_def is_space_def code_def)
qed

lemma reads_as_scalar:
  assumes "\<And>rest. delim rest \<Longrightarrow> scan_scalar fp ((c # cs) @ rest) = Some (v, rest)"
    and "c \<noteq> CHR 0x22" "c \<noteq> CHR ''[''" "c \<noteq> CHR ''{''" "\<not> json_ws c" "\<not> is_space c" "c \<noteq> CHR '']''" "c \<noteq> CHR ''}''"
  shows "reads_as fp (c # cs) v"
  using assms by (simp add: reads_as_def)

lemma reads_as_number:
  assumes "scan_number fp t = Some (v, [])"
  shows "reads_as fp t v"
proof -
  from assms scan_number_head [of fp t] obtain c cs where t: "t = c # cs" "is_digit c \<or> c = CHR ''-''" by auto
  have "\<not> json_ws c \<and> \<not> is_space c \<and> c \<noteq> CHR '']'' \<and> c \<noteq> CHR ''}''"
    using t(2) by (auto simp: is_digit_def code_def json_ws_def is_space_def)
  moreover have "json_value fp (t @ rest) = Some (v, rest)" if "delim rest" for rest
    using assms scan_number_delim [OF that, of fp t] by (intro json_value_number) simp
  ultimately show ?thesis using t by (auto simp: reads_as_def)
qed

lemma scan_number_word: "scan_number fp (CHR ''N'' # s) = None" "scan_number fp (CHR ''I'' # s) = None"
  "scan_number fp (CHR ''-'' # CHR ''I'' # s) = None"
  by (simp_all add: scan_number_def scan_int_def is_digit_def code_def)

lemma reads_as_float:
  assumes "float_codec fr fp"
  shows "\<exists>x. canon (PFloat w) = PFloat x \<and> reads_as fp (dumps_float fr w) (PFloat x)"
proof (cases "isfinite w")
  case True
  with assms reads_as_number [of fp "fr w"] show ?thesis by (simp add: float_codec_def dumps_float_def)
next
  case False
  have "reads_as fp ''NaN'' (PFloat float_nan)" "reads_as fp ''Infinity'' (PFloat float_inf)"
    "reads_as fp ''-Infinity'' (PFloat float_neg_inf)"
    by (rule reads_as_scalar; simp add: scan_scalar_def scan_number_word json_ws_def is_space_def code_def)+
  with False show ?thesis by (simp add: dumps_float_def)
qed

lemma reads_as_string: "reads_as fp (dumps_str s) (PStr s)"
  using scan_string_dumps by (auto simp: reads_as_def dumps_str_def is_space_def code_def)

lemma reads_as_words:
  "reads_as fp ''null'' PNone" "reads_as fp ''true'' (PBool True)" "reads_as fp ''false'' (PBool False)"
  by (rule reads_as_scalar; simp add: scan_scalar_def json_ws_def is_space_def code_def)+

lemma distinct_sort_key_fst: "distinct (map fst d) \<Longrightarrow> distinct (map fst (sort_key f d))"
proof -
  assume "distinct (map fst d)"
  then have "distinct d" "inj_on fst (set d)" by (auto simp: distinct_map)
  then show ?thesis by (simp add: distinct_map)
qed

lemma dumps_reads_as:
  assumes codec: "float_codec fr fp"
  shows "is_json_value v \<Longrightarrow> wf_value v \<Longrightarrow> \<exists>t. dumps fr v = Inr t \<and> reads_as fp t (canon v)"
proof (induction v rule: canon.induct)
  case (1 w)
  then show ?case using reads_as_float [OF codec, of w] by (simp only: dumps.simps) metis
next
  case (2 xs)
  then have "\<forall>x \<in> set xs. \<exists>t. dumps fr x = Inr t \<and> reads_as fp t (canon x)" by (simp add: list_all_iff)
  then obtain f where f: "\<forall>x \<in> set xs. dumps fr x = Inr (f x) \<and> reads_as fp (f x) (canon x)" by metis
  then have "res_map (dumps fr) xs = Inr (map f xs)" by (intro res_map_total) blast
  moreover have "list_all2 (reads_as fp) (map f xs) (map canon xs)"
    using f by (simp add: list_all2_map1 list_all2_map2 list_all2_same)
  ultimately show ?case using reads_as_list by simp
next
  case (3 d)
  have "\<forall>x \<in> set d. \<exists>t. dumps fr (snd x) = Inr t \<and> reads_as fp t (canon (snd x))"
    using 3 by (fastforce simp: list_all_iff)
  then obtain f where f: "\<forall>x \<in> set d. dumps fr (snd x) = Inr (f x) \<and> reads_as fp (f x) (canon (snd x))" by metis
  let ?h = "\<lambda>(k, v :: pyval). key_text k"
  let ?s = "sort_key ?h d"
  let ?kts = "map (\<lambda>x. (key_text (fst x), f x)) ?s" and ?kvs = "map (\<lambda>(k, v). (k, canon v)) ?s"
  have "sort_key fst (map (\<lambda>(k, v). (key_text k, rbind (dumps fr v) (\<lambda>t. Inr (dumps_str (key_text k) @ '':'' @ t)))) d)
      = map (\<lambda>(k, v). (key_text k, rbind (dumps fr v) (\<lambda>t. Inr (dumps_str (key_text k) @ '':'' @ t)))) ?s"
    by (simp add: sort_key_map comp_def case_prod_unfold)
  moreover have "res_map snd (map (\<lambda>(k, v). (key_text k, rbind (dumps fr v) (\<lambda>t. Inr (dumps_str (key_text k) @ '':'' @ t)))) ?s)
      = Inr (map (\<lambda>(k, t). member_text k t) ?kts)"
    using f unfolding res_map_Inr_iff
    by (simp add: list_all2_map1 list_all2_map2 list_all2_same case_prod_unfold member_text_def)
  moreover have "canon (PDict d) = PDict ?kvs"
    by (simp add: sort_key_map comp_def case_prod_unfold)
  moreover have "list_all2 (\<lambda>(k, t) (k', v). k' = PStr k \<and> reads_as fp t v) ?kts ?kvs"
  proof -
    have "\<forall>x \<in> set d. fst x = PStr (key_text (fst x))"
      using 3 by (auto simp: list_all_iff key_text_def split: pyval.splits)
    with f show ?thesis by (simp add: list_all2_map1 list_all2_map2 list_all2_same case_prod_unfold)
  qed
  moreover have "distinct (map fst ?kvs)"
    using 3 distinct_sort_key_fst [of d ?h] by (simp add: comp_def case_prod_unfold)
  ultimately show ?case using reads_as_dict [of fp ?kts ?kvs] by simp
qed (use reads_as_words reads_as_string in \<open>auto simp: reads_as_number scan_number_int [of "[]", simplified]\<close>)

lemma loads_reads_as: "reads_as fp t v \<Longrightarrow> loads fp t = Some v"
  using reads_as_value [of fp t v "[]"] by (auto simp: loads_def skip_ws_def reads_as_def)

lemma reads_as_nonblank: "reads_as fp t v \<Longrightarrow> \<not> blank t"
  by (auto simp: reads_as_def blank_iff)

lemma loads_dumps:
  assumes "float_codec fr fp" and "is_json_value v" and "wf_value v"
  obtains t where "dumps fr v = Inr t" and "loads fp t = Some (canon v)" and "\<not> blank t"
  using dumps_reads_as [OF assms] loads_reads_as reads_as_nonblank by blast

lemma canon_json: "is_json_value v \<Longrightarrow> is_json_value (canon v)"
  by (induction v rule: canon.induct) (auto simp: list_all_iff)

lemma dict_lookup_canon:
  assumes "distinct (map fst d)"
  shows "map_of (sort_key (\<lambda>(k, v). key_text k) (map (\<lambda>(k, v). (k, canon v)) d)) k = map_option canon (map_of d k)"
proof -
  let ?m = "map (\<lambda>(k, v). (k, canon v)) d"
  have keys: "map fst ?m = map fst d" by (simp add: comp_def case_prod_unfold)
  then have "distinct (map fst ?m)" using assms by (simp only:)
  then have "map_of (sort_key (\<lambda>(k, v). key_text k) ?m) = map_of ?m"
    by (subst map_of_inject_set) (simp_all add: distinct_sort_key_fst)
  moreover have "map_of ?m k = map_option canon (map_of d k)"
    by (induction d) auto
  ultimately show ?thesis by simp
qed

section \<open>Property of the codec\<close>

text \<open>A float text that satisfies \<open>float_codec\<close>: the pattern in decimal with a zero fraction.\<close>

definition sample_float_text :: float_text where
  "sample_float_text w = nat_str (unat w) @ ''.0''"

definition sample_float_parse :: "string \<Rightarrow> 64 word" where
  "sample_float_parse s = word_of_nat (digits_val (takeWhile is_digit s))"

lemma sample_float_codec: "float_codec sample_float_text sample_float_parse"
  unfolding float_codec_def
proof (intro allI impI)
  fix w :: "64 word"
  have not_digit: "\<not> is_digit CHR ''.''" by (simp add: is_digit_def code_def)
  have zero: "is_digit CHR ''0''" by (simp add: is_digit_def code_def)
  obtain c cs where cs: "nat_str (unat w) = c # cs" by (cases "nat_str (unat w)") auto
  have dig: "is_digit c" "\<forall>x \<in> set cs. is_digit x"
    using nat_str_digits [of "unat w"] cs by (auto simp: list_all_iff)
  have split: "takeWhile is_digit (cs @ ''.0'') = cs" "dropWhile is_digit (cs @ ''.0'') = ''.0''"
    using dig not_digit by (simp_all add: takeWhile_append2 dropWhile_append2)
  have i: "scan_int (sample_float_text w) = Some (nat_str (unat w), ''.0'')"
    using cs dig split nat_str_zero [of "unat w" cs] digit_not_punct [of c]
    by (auto simp: sample_float_text_def scan_int_def Let_def)
  have "takeWhile is_digit (nat_str (unat w) @ ''.0'') = nat_str (unat w)"
    using cs dig split by simp
  then show "scan_number sample_float_parse (sample_float_text w) = Some (PFloat w, [])"
    by (simp add: scan_number_def i scan_frac_def scan_exp_def zero Let_def sample_float_parse_def)
qed

text \<open>A JSON value survives being written to a stream field and read back: \<open>dumps\<close> succeeds,
  its text is never blank, and \<open>loads\<close> returns the same value with the members of every object in
  key order. The only assumption is that the text of a finite float reads back as that float.\<close>

theorem json_roundtrip:
  assumes "float_codec fr fp" and "is_json_value v" and "wf_value v"
  shows "\<exists>t. dumps fr v = Inr t \<and> loads fp t = Some (canon v) \<and> \<not> blank t"
  using loads_dumps [OF assms] by blast

theorem json_roundtrip_witness:
  "\<exists>t. dumps sample_float_text (PDict [(PStr ''b'', PList [PInt (-3), PNone]), (PStr ''a'', PStr ''x'')]) = Inr t \<and>
     loads sample_float_parse t =
       Some (PDict [(PStr ''a'', PStr ''x''), (PStr ''b'', PList [PInt (-3), PNone])]) \<and> \<not> blank t"
proof -
  let ?v = "PDict [(PStr ''b'', PList [PInt (-3), PNone]), (PStr ''a'', PStr ''x'')]"
  have "canon ?v = PDict [(PStr ''a'', PStr ''x''), (PStr ''b'', PList [PInt (-3), PNone])]" by code_simp
  moreover have "is_json_value ?v" "wf_value ?v" by simp_all
  ultimately show ?thesis using json_roundtrip [OF sample_float_codec, of ?v] by simp
qed

end
