(* ===== verification/Messages.thy ===== *)
theory Messages
  imports Json_Codec
begin

text \<open>
  The flat stream messages of \<open>app/messaging\<close>: field validation (\<open>stream_fields.py\<close>), worker tasks
  (\<open>task_messages.py\<close>), completion events (\<open>task_completion.py\<close>), the outbox encoding
  (\<open>_stream_fields\<close> of \<open>outbox_publisher.py\<close>) and the stream names. The locale \<open>message_codec\<close>
  states what a codec promises; \<open>float_text_codec\<close> fixes the text of floats and provides the codec of
  completion events and of tasks as sublocales. \<open>NodeTaskMessage\<close> is a pydantic model: its conversion
  of UUID and integer fields from text is the pair of arguments \<open>to_uuid\<close> and \<open>to_int\<close>.
\<close>

type_synonym fields = "(string \<times> string) list"

section \<open>Streams (\<open>redis/streams.py\<close>)\<close>

definition WORKFLOW_TASKS_STREAM :: string where
  "WORKFLOW_TASKS_STREAM = ''workflow.tasks''"

definition WORKFLOW_EVENTS_STREAM :: string where
  "WORKFLOW_EVENTS_STREAM = ''workflow.events''"

definition WORKFLOW_TASK_COMPLETIONS_STREAM :: string where
  "WORKFLOW_TASK_COMPLETIONS_STREAM = ''workflow.task-completions''"

definition WORKFLOW_TASK_DEAD_LETTER_STREAM :: string where
  "WORKFLOW_TASK_DEAD_LETTER_STREAM = ''workflow.task-dead-letter''"

section \<open>Field validation (\<open>stream_fields.py\<close>)\<close>

definition required_field :: "fields \<Rightarrow> string \<Rightarrow> string \<Rightarrow> error + string" where
  "required_field fs field_name message_type =
     (case map_of fs field_name of
        Some value \<Rightarrow>
          if blank value
          then Inl (ValueError (message_type @ '' field '' @ quoted field_name @ '' is required.''))
          else Inr value
      | None \<Rightarrow> Inl (ValueError (message_type @ '' field '' @ quoted field_name @ '' is required.'')))"

definition json_value_field ::
    "(string \<Rightarrow> 64 word) \<Rightarrow> fields \<Rightarrow> string \<Rightarrow> string \<Rightarrow> error + pyval" where
  "json_value_field fp fs field_name message_type =
     rbind (required_field fs field_name message_type) (\<lambda>serialized_value.
       case loads fp serialized_value of
         None \<Rightarrow> Inl (ValueError (message_type @ '' field '' @ quoted field_name @ '' must contain JSON.''))
       | Some value \<Rightarrow>
           if \<not> is_json_value value
           then Inl (ValueError (message_type @ '' field '' @ quoted field_name @ '' must contain valid JSON.''))
           else Inr value)"

definition json_object_field ::
    "(string \<Rightarrow> 64 word) \<Rightarrow> fields \<Rightarrow> string \<Rightarrow> string \<Rightarrow> error + pydict" where
  "json_object_field fp fs field_name message_type =
     rbind (json_value_field fp fs field_name message_type) (\<lambda>value.
       case value of
         PDict d \<Rightarrow> Inr d
       | _ \<Rightarrow> Inl (ValueError (message_type @ '' field '' @ quoted field_name @ '' must contain a JSON object.'')))"

section \<open>Completion events (\<open>task_completion.py\<close>)\<close>

datatype TaskCompletionStatus = TASK_COMPLETED | TASK_FAILED

primrec completion_status_value :: "TaskCompletionStatus \<Rightarrow> string" where
  "completion_status_value TASK_COMPLETED = ''completed''"
| "completion_status_value TASK_FAILED = ''failed''"

definition parse_completion_status :: "string \<Rightarrow> error + TaskCompletionStatus" where
  "parse_completion_status s =
     (if s = ''completed'' then Inr TASK_COMPLETED
      else if s = ''failed'' then Inr TASK_FAILED
      else Inl (ValueError (str_repr s @ '' is not a valid TaskCompletionStatus'')))"

record TaskCompletionEvent =
  tc_event_id :: uuid
  tc_task_id :: string
  tc_execution_id :: uuid
  tc_node_id :: string
  tc_status :: TaskCompletionStatus
  tc_attempt_id :: uuid
  tc_attempt_number :: int
  tc_output_data :: pyval
  tc_error_message :: "string option"
  tc_error_type :: "string option"

definition completion_to_stream_fields :: "float_text \<Rightarrow> TaskCompletionEvent \<Rightarrow> error + fields" where
  "completion_to_stream_fields fr e =
     (let fs =
        [(''message_id'', uuid_str (tc_event_id e)),
         (''event_id'', uuid_str (tc_event_id e)),
         (''task_id'', tc_task_id e),
         (''attempt_id'', uuid_str (tc_attempt_id e)),
         (''attempt_number'', int_str (tc_attempt_number e)),
         (''execution_id'', uuid_str (tc_execution_id e)),
         (''node_id'', tc_node_id e),
         (''status'', completion_status_value (tc_status e))]
      in case tc_status e of
           TASK_COMPLETED \<Rightarrow>
             rbind (dumps fr (tc_output_data e)) (\<lambda>t. Inr (fs @ [(''output_data'', t)]))
         | TASK_FAILED \<Rightarrow>
             (case (tc_error_message e, tc_error_type e) of
                (Some m, Some t) \<Rightarrow> Inr (fs @ [(''error_message'', m), (''error_type'', t)])
              | _ \<Rightarrow> Inl (ValueError ''Failed task completion events require error information.'')))"

text \<open>\<open>UUID(text)\<close> and \<open>int(text)\<close> with the exceptions they raise.\<close>

definition parse_uuid :: "string \<Rightarrow> error + uuid" where
  "parse_uuid s = of_option (ValueError ''badly formed hexadecimal UUID string'') (uuid_parse s)"

definition parse_int :: "string \<Rightarrow> error + int" where
  "parse_int s = of_option (ValueError (''invalid literal for int() with base 10: '' @ str_repr s)) (py_int s)"

definition completion_from_stream_fields ::
    "(string \<Rightarrow> 64 word) \<Rightarrow> fields \<Rightarrow> error + TaskCompletionEvent" where
  "completion_from_stream_fields fp fs =
     (let mt = ''Task completion event'' in
      rbind (case map_of fs ''message_id'' of
               Some m \<Rightarrow> if m = [] then required_field fs ''event_id'' mt else Inr m
             | None \<Rightarrow> required_field fs ''event_id'' mt) (\<lambda>event_text.
      rbind (parse_uuid event_text) (\<lambda>event_id.
      rbind (required_field fs ''task_id'' mt) (\<lambda>task_id.
      rbind (rbind (required_field fs ''attempt_id'' mt) parse_uuid) (\<lambda>attempt_id.
      rbind (rbind (required_field fs ''attempt_number'' mt) parse_int) (\<lambda>attempt_number.
      rbind (rbind (required_field fs ''execution_id'' mt) parse_uuid) (\<lambda>execution_id.
      rbind (required_field fs ''node_id'' mt) (\<lambda>node_id.
      rbind (rbind (required_field fs ''status'' mt) parse_completion_status) (\<lambda>status.
      case status of
        TASK_COMPLETED \<Rightarrow>
          rbind (json_value_field fp fs ''output_data'' mt) (\<lambda>output_data.
          Inr \<lparr>tc_event_id = event_id, tc_task_id = task_id, tc_execution_id = execution_id,
               tc_node_id = node_id, tc_status = status, tc_attempt_id = attempt_id,
               tc_attempt_number = attempt_number, tc_output_data = output_data,
               tc_error_message = None, tc_error_type = None\<rparr>)
      | TASK_FAILED \<Rightarrow>
          rbind (required_field fs ''error_message'' mt) (\<lambda>error_message.
          rbind (required_field fs ''error_type'' mt) (\<lambda>error_type.
          Inr \<lparr>tc_event_id = event_id, tc_task_id = task_id, tc_execution_id = execution_id,
               tc_node_id = node_id, tc_status = status, tc_attempt_id = attempt_id,
               tc_attempt_number = attempt_number, tc_output_data = PNone,
               tc_error_message = Some error_message, tc_error_type = Some error_type\<rparr>)))))))))))"

section \<open>Tasks (\<open>task_messages.py\<close>)\<close>

record NodeTaskMessage =
  nt_message_id :: "uuid option"
  nt_task_id :: string
  nt_attempt_id :: uuid
  nt_attempt_number :: int
  nt_execution_id :: uuid
  nt_node_id :: string
  nt_handler :: string
  nt_handler_config :: pydict
  nt_resolved_input :: pydict

definition task_to_stream_fields :: "float_text \<Rightarrow> NodeTaskMessage \<Rightarrow> error + fields" where
  "task_to_stream_fields fr m =
     rbind (dumps fr (PDict (nt_handler_config m))) (\<lambda>handler_config.
     rbind (dumps fr (PDict (nt_resolved_input m))) (\<lambda>resolved_input.
     Inr ([(''task_id'', nt_task_id m),
           (''attempt_id'', uuid_str (nt_attempt_id m)),
           (''attempt_number'', int_str (nt_attempt_number m)),
           (''execution_id'', uuid_str (nt_execution_id m)),
           (''node_id'', nt_node_id m),
           (''handler'', nt_handler m),
           (''handler_config'', handler_config),
           (''resolved_input'', resolved_input)] @
          (case nt_message_id m of None \<Rightarrow> [] | Some i \<Rightarrow> [(''message_id'', uuid_str i)]))))"

text \<open>\<open>model_validate\<close> of the task model: conversions, then the declared constraints.\<close>

definition task_from_stream_fields ::
    "(string \<Rightarrow> uuid option) \<Rightarrow> (string \<Rightarrow> int option) \<Rightarrow> (string \<Rightarrow> 64 word) \<Rightarrow> fields \<Rightarrow>
     error + NodeTaskMessage" where
  "task_from_stream_fields to_uuid to_int fp fs =
     (let mt = ''Task message''; invalid = PydanticValidationError in
      rbind (required_field fs ''task_id'' mt) (\<lambda>task_id.
      rbind (required_field fs ''attempt_id'' mt) (\<lambda>attempt_text.
      rbind (required_field fs ''attempt_number'' mt) (\<lambda>number_text.
      rbind (required_field fs ''execution_id'' mt) (\<lambda>execution_text.
      rbind (required_field fs ''node_id'' mt) (\<lambda>node_id.
      rbind (required_field fs ''handler'' mt) (\<lambda>handler.
      rbind (json_object_field fp fs ''handler_config'' mt) (\<lambda>handler_config.
      rbind (json_object_field fp fs ''resolved_input'' mt) (\<lambda>resolved_input.
      rbind (case map_of fs ''message_id'' of
               None \<Rightarrow> Inr None
             | Some t \<Rightarrow> of_option (invalid ''message_id'') (map_option Some (to_uuid t))) (\<lambda>message_id.
      rbind (of_option (invalid ''attempt_id'') (to_uuid attempt_text)) (\<lambda>attempt_id.
      rbind (of_option (invalid ''attempt_number'') (to_int number_text)) (\<lambda>attempt_number.
      rbind (of_option (invalid ''execution_id'') (to_uuid execution_text)) (\<lambda>execution_id.
      if attempt_number < 1 then Inl (invalid ''attempt_number'')
      else Inr \<lparr>nt_message_id = message_id, nt_task_id = task_id, nt_attempt_id = attempt_id,
                nt_attempt_number = attempt_number, nt_execution_id = execution_id,
                nt_node_id = node_id, nt_handler = handler, nt_handler_config = handler_config,
                nt_resolved_input = resolved_input\<rparr>)))))))))))))"

section \<open>Outbox encoding (\<open>outbox_publisher.py\<close>)\<close>

definition redis_field_value :: "float_text \<Rightarrow> pyval \<Rightarrow> error + string" where
  "redis_field_value fr value = (case value of PStr s \<Rightarrow> Inr s | v \<Rightarrow> dumps fr v)"

definition outbox_stream_fields ::
    "float_text \<Rightarrow> uuid \<Rightarrow> string \<Rightarrow> string \<Rightarrow> uuid option \<Rightarrow> pydict \<Rightarrow> error + fields" where
  "outbox_stream_fields fr event_id event_type target_stream aggregate_id payload =
     (let target = (if target_stream = [] then WORKFLOW_EVENTS_STREAM else target_stream) in
      if target = WORKFLOW_EVENTS_STREAM then
        rbind (dumps fr (PDict payload)) (\<lambda>t.
        Inr ([(''message_id'', uuid_str event_id), (''event_id'', uuid_str event_id),
              (''event_type'', event_type), (''payload'', t)] @
             (case aggregate_id of None \<Rightarrow> [] | Some a \<Rightarrow> [(''aggregate_id'', uuid_str a)])))
      else
        rbind (res_map (\<lambda>(k, v). rbind (redis_field_value fr v) (\<lambda>t. Inr (key_text k, t))) payload)
          (\<lambda>kts. Inr (dict_of_pairs
             ([(''message_id'', uuid_str event_id), (''message_type'', event_type)] @ kts))))"

section \<open>The contract of a codec\<close>

locale message_codec =
  fixes encode :: "'m \<Rightarrow> error + fields"
    and decode :: "fields \<Rightarrow> error + 'm"
    and valid :: "'m \<Rightarrow> bool"
    and norm :: "'m \<Rightarrow> 'm"
  assumes decode_encode: "valid m \<Longrightarrow> \<exists>fs. encode m = Inr fs \<and> decode fs = Inr (norm m)"
begin

lemma delivered: "valid m \<Longrightarrow> encode m = Inr fs \<Longrightarrow> decode fs = Inr (norm m)"
  using decode_encode [of m] by auto

lemma encode_separates: "valid m \<Longrightarrow> valid m' \<Longrightarrow> encode m = encode m' \<Longrightarrow> norm m = norm m'"
  using decode_encode [of m] decode_encode [of m'] by auto

end

lemma required_field_ok: "map_of fs k = Some v \<Longrightarrow> \<not> blank v \<Longrightarrow> required_field fs k mt = Inr v"
  by (simp add: required_field_def)

lemma required_field_blank:
  "map_of fs k = Some v \<Longrightarrow> blank v \<Longrightarrow>
     required_field fs k mt = Inl (ValueError (mt @ '' field '' @ quoted k @ '' is required.''))"
  by (simp add: required_field_def)

lemma parse_uuid_str [simp]: "parse_uuid (uuid_str u) = Inr u"
  by (simp add: parse_uuid_def)

lemma parse_int_str [simp]: "parse_int (int_str i) = Inr i"
  by (simp add: parse_int_def)

lemma parse_completion_status_value [simp]: "parse_completion_status (completion_status_value s) = Inr s"
  by (cases s) (simp_all add: parse_completion_status_def)

lemma status_value_nonblank: "\<not> blank (completion_status_value s)"
  by (cases s) (simp_all add: blank_iff is_space_def code_def)

lemma uuid_str_nonempty [simp]: "uuid_str u \<noteq> []"
  using uuid_str_nonblank [of u] by (auto simp: blank_iff)

lemmas field_texts = uuid_str_nonblank int_str_nonblank status_value_nonblank

lemma json_value_field_ok:
  "map_of fs k = Some t \<Longrightarrow> \<not> blank t \<Longrightarrow> loads fp t = Some v \<Longrightarrow> is_json_value v \<Longrightarrow>
     json_value_field fp fs k mt = Inr v"
  by (simp add: json_value_field_def required_field_ok)

lemma json_object_field_ok:
  "map_of fs k = Some t \<Longrightarrow> \<not> blank t \<Longrightarrow> loads fp t = Some (PDict d) \<Longrightarrow> is_json_value (PDict d) \<Longrightarrow>
     json_object_field fp fs k mt = Inr d"
  by (simp add: json_object_field_def json_value_field_ok)

subsection \<open>Completion events\<close>

definition valid_event :: "TaskCompletionEvent \<Rightarrow> bool" where
  "valid_event e \<longleftrightarrow> \<not> blank (tc_task_id e) \<and> \<not> blank (tc_node_id e) \<and>
     (case tc_status e of
        TASK_COMPLETED \<Rightarrow> is_json_value (tc_output_data e) \<and> wf_value (tc_output_data e)
      | TASK_FAILED \<Rightarrow> (\<exists>m t. tc_error_message e = Some m \<and> tc_error_type e = Some t \<and> \<not> blank m \<and> \<not> blank t))"

definition norm_event :: "TaskCompletionEvent \<Rightarrow> TaskCompletionEvent" where
  "norm_event e =
     (case tc_status e of
        TASK_COMPLETED \<Rightarrow>
          e\<lparr>tc_output_data := canon (tc_output_data e), tc_error_message := None, tc_error_type := None\<rparr>
      | TASK_FAILED \<Rightarrow> e\<lparr>tc_output_data := PNone\<rparr>)"

definition event_header :: "TaskCompletionEvent \<Rightarrow> fields" where
  "event_header e =
     [(''message_id'', uuid_str (tc_event_id e)), (''event_id'', uuid_str (tc_event_id e)),
      (''task_id'', tc_task_id e), (''attempt_id'', uuid_str (tc_attempt_id e)),
      (''attempt_number'', int_str (tc_attempt_number e)),
      (''execution_id'', uuid_str (tc_execution_id e)), (''node_id'', tc_node_id e),
      (''status'', completion_status_value (tc_status e))]"

lemma event_rebuilt:
  "tc_status e = s \<Longrightarrow>
     \<lparr>tc_event_id = tc_event_id e, tc_task_id = tc_task_id e, tc_execution_id = tc_execution_id e,
      tc_node_id = tc_node_id e, tc_status = s, tc_attempt_id = tc_attempt_id e,
      tc_attempt_number = tc_attempt_number e, tc_output_data = v, tc_error_message = m, tc_error_type = t\<rparr>
     = e\<lparr>tc_output_data := v, tc_error_message := m, tc_error_type := t\<rparr>"
  by (cases e) simp

lemma completion_decode_header:
  assumes "\<not> blank (tc_task_id e)" and "\<not> blank (tc_node_id e)"
  shows "completion_from_stream_fields fp (event_header e @ tail) =
    (case tc_status e of
       TASK_COMPLETED \<Rightarrow>
         rbind (json_value_field fp (event_header e @ tail) ''output_data'' ''Task completion event'') (\<lambda>v.
           Inr (e\<lparr>tc_output_data := v, tc_error_message := None, tc_error_type := None\<rparr>))
     | TASK_FAILED \<Rightarrow>
         rbind (required_field (event_header e @ tail) ''error_message'' ''Task completion event'') (\<lambda>m.
         rbind (required_field (event_header e @ tail) ''error_type'' ''Task completion event'') (\<lambda>t.
           Inr (e\<lparr>tc_output_data := PNone, tc_error_message := Some m, tc_error_type := Some t\<rparr>))))"
proof -
  let ?fs = "event_header e @ tail"
  have "map_of ?fs ''message_id'' = Some (uuid_str (tc_event_id e))"
    "required_field ?fs ''task_id'' mt = Inr (tc_task_id e)"
    "required_field ?fs ''attempt_id'' mt = Inr (uuid_str (tc_attempt_id e))"
    "required_field ?fs ''attempt_number'' mt = Inr (int_str (tc_attempt_number e))"
    "required_field ?fs ''execution_id'' mt = Inr (uuid_str (tc_execution_id e))"
    "required_field ?fs ''node_id'' mt = Inr (tc_node_id e)"
    "required_field ?fs ''status'' mt = Inr (completion_status_value (tc_status e))" for mt
    using assms by (auto simp: event_header_def intro!: required_field_ok field_texts)
  then show ?thesis
    unfolding completion_from_stream_fields_def Let_def
    by (cases "tc_status e") (simp_all add: event_rebuilt parse_completion_status_def)
qed

lemma completion_encode:
  "completion_to_stream_fields fr e =
     (case tc_status e of
        TASK_COMPLETED \<Rightarrow> rbind (dumps fr (tc_output_data e)) (\<lambda>t. Inr (event_header e @ [(''output_data'', t)]))
      | TASK_FAILED \<Rightarrow>
          (case (tc_error_message e, tc_error_type e) of
             (Some m, Some t) \<Rightarrow> Inr (event_header e @ [(''error_message'', m), (''error_type'', t)])
           | _ \<Rightarrow> Inl (ValueError ''Failed task completion events require error information.'')))"
  unfolding completion_to_stream_fields_def event_header_def Let_def by (rule refl)

lemma header_keys: "k \<in> {''output_data'', ''error_message'', ''error_type''} \<Longrightarrow> map_of (event_header e) k = None"
  by (auto simp: event_header_def)

lemma completion_roundtrip:
  assumes "float_codec fr fp" and "valid_event e"
  shows "\<exists>fs. completion_to_stream_fields fr e = Inr fs \<and> completion_from_stream_fields fp fs = Inr (norm_event e)"
proof (cases "tc_status e")
  case TASK_COMPLETED
  with assms have v: "is_json_value (tc_output_data e)" "wf_value (tc_output_data e)"
    "\<not> blank (tc_task_id e)" "\<not> blank (tc_node_id e)" by (simp_all add: valid_event_def)
  obtain t where t: "dumps fr (tc_output_data e) = Inr t" "loads fp t = Some (canon (tc_output_data e))" "\<not> blank t"
    by (rule loads_dumps [OF assms(1) v(1,2)])
  have "json_value_field fp (event_header e @ [(''output_data'', t)]) ''output_data'' mt = Inr (canon (tc_output_data e))" for mt
    using t canon_json [OF v(1)] by (intro json_value_field_ok) (auto simp: header_keys map_add_def)
  with TASK_COMPLETED t show ?thesis
    by (simp add: completion_encode completion_decode_header [OF v(3,4)] norm_event_def)
next
  case TASK_FAILED
  with assms obtain m t where v: "tc_error_message e = Some m" "tc_error_type e = Some t" "\<not> blank m" "\<not> blank t"
    "\<not> blank (tc_task_id e)" "\<not> blank (tc_node_id e)" by (auto simp: valid_event_def)
  let ?fs = "event_header e @ [(''error_message'', m), (''error_type'', t)]"
  have "required_field ?fs ''error_message'' mt = Inr m" "required_field ?fs ''error_type'' mt = Inr t" for mt
    using v by (auto simp: header_keys map_add_def intro!: required_field_ok)
  with TASK_FAILED v show ?thesis
    by (cases e) (simp add: completion_encode completion_decode_header norm_event_def)
qed

subsection \<open>Tasks\<close>

definition json_object :: "pydict \<Rightarrow> bool" where
  "json_object d \<longleftrightarrow> is_json_value (PDict d) \<and> wf_value (PDict d)"

definition canon_object :: "pydict \<Rightarrow> pydict" where
  "canon_object d = sort_key (\<lambda>(k, v). key_text k) (map (\<lambda>(k, v). (k, canon v)) d)"

definition valid_task :: "NodeTaskMessage \<Rightarrow> bool" where
  "valid_task m \<longleftrightarrow> \<not> blank (nt_task_id m) \<and> \<not> blank (nt_node_id m) \<and> \<not> blank (nt_handler m) \<and>
     1 \<le> nt_attempt_number m \<and> json_object (nt_handler_config m) \<and> json_object (nt_resolved_input m)"

definition norm_task :: "NodeTaskMessage \<Rightarrow> NodeTaskMessage" where
  "norm_task m =
     m\<lparr>nt_handler_config := canon_object (nt_handler_config m),
       nt_resolved_input := canon_object (nt_resolved_input m)\<rparr>"

lemma loads_dumps_object:
  assumes "float_codec fr fp" and "json_object d"
  obtains t where "dumps fr (PDict d) = Inr t" and "loads fp t = Some (PDict (canon_object d))"
    and "\<not> blank t" and "is_json_value (PDict (canon_object d))"
proof -
  have v: "is_json_value (PDict d)" "wf_value (PDict d)" using assms(2) by (simp_all add: json_object_def)
  have c: "canon (PDict d) = PDict (canon_object d)" by (simp add: canon_object_def)
  show ?thesis
    using loads_dumps [OF assms(1) v] canon_json [OF v(1)] that unfolding c by blast
qed

text \<open>The conversions of the task model on the texts the program writes.\<close>

definition field_conversions :: "(string \<Rightarrow> uuid option) \<Rightarrow> (string \<Rightarrow> int option) \<Rightarrow> bool" where
  "field_conversions to_uuid to_int \<longleftrightarrow>
     (\<forall>u. to_uuid (uuid_str u) = Some u) \<and> (\<forall>i. to_int (int_str i) = Some i)"

lemma sample_conversions: "field_conversions uuid_parse py_int"
  by (simp add: field_conversions_def)

text \<open>Any field list with these entries decodes to the task.\<close>

definition carries_task :: "(string \<Rightarrow> 64 word) \<Rightarrow> fields \<Rightarrow> NodeTaskMessage \<Rightarrow> bool" where
  "carries_task fp fs m \<longleftrightarrow>
     map_of fs ''task_id'' = Some (nt_task_id m) \<and>
     map_of fs ''attempt_id'' = Some (uuid_str (nt_attempt_id m)) \<and>
     map_of fs ''attempt_number'' = Some (int_str (nt_attempt_number m)) \<and>
     map_of fs ''execution_id'' = Some (uuid_str (nt_execution_id m)) \<and>
     map_of fs ''node_id'' = Some (nt_node_id m) \<and>
     map_of fs ''handler'' = Some (nt_handler m) \<and>
     map_of fs ''message_id'' = map_option uuid_str (nt_message_id m) \<and>
     (\<exists>t. map_of fs ''handler_config'' = Some t \<and> \<not> blank t \<and>
          loads fp t = Some (PDict (canon_object (nt_handler_config m)))) \<and>
     (\<exists>t. map_of fs ''resolved_input'' = Some t \<and> \<not> blank t \<and>
          loads fp t = Some (PDict (canon_object (nt_resolved_input m))))"

lemma canon_object_json: "json_object d \<Longrightarrow> is_json_value (PDict (canon_object d))"
  using canon_json [of "PDict d"] by (simp add: json_object_def canon_object_def)

lemma task_decode:
  assumes conv: "field_conversions to_uuid to_int" and v: "valid_task m" and c: "carries_task fp fs m"
  shows "task_from_stream_fields to_uuid to_int fp fs = Inr (norm_task m)"
proof -
  have objects: "json_object_field fp fs ''handler_config'' mt = Inr (canon_object (nt_handler_config m))"
    "json_object_field fp fs ''resolved_input'' mt = Inr (canon_object (nt_resolved_input m))" for mt
    using c v canon_object_json json_object_field_ok by (auto simp: carries_task_def valid_task_def)
  have texts: "required_field fs ''task_id'' mt = Inr (nt_task_id m)"
    "required_field fs ''attempt_id'' mt = Inr (uuid_str (nt_attempt_id m))"
    "required_field fs ''attempt_number'' mt = Inr (int_str (nt_attempt_number m))"
    "required_field fs ''execution_id'' mt = Inr (uuid_str (nt_execution_id m))"
    "required_field fs ''node_id'' mt = Inr (nt_node_id m)"
    "required_field fs ''handler'' mt = Inr (nt_handler m)" for mt
    using c v by (auto simp: carries_task_def valid_task_def intro!: required_field_ok field_texts)
  have conversions: "to_uuid (uuid_str u) = Some u" "to_int (int_str i) = Some i" for u i
    using conv by (simp_all add: field_conversions_def)
  have mid: "map_of fs ''message_id'' = map_option uuid_str (nt_message_id m)"
    using c by (simp add: carries_task_def)
  have n: "\<not> nt_attempt_number m < 1" using v by (simp add: valid_task_def)
  show ?thesis
    unfolding task_from_stream_fields_def Let_def objects texts conversions mid norm_task_def
    using n by (cases m; cases "nt_message_id m") (simp_all add: conversions)
qed

lemma task_roundtrip:
  assumes "float_codec fr fp" and "field_conversions to_uuid to_int" and "valid_task m"
  shows "\<exists>fs. task_to_stream_fields fr m = Inr fs \<and> task_from_stream_fields to_uuid to_int fp fs = Inr (norm_task m)"
proof -
  have v: "json_object (nt_handler_config m)" "json_object (nt_resolved_input m)"
    using assms(3) by (simp_all add: valid_task_def)
  obtain c where c: "dumps fr (PDict (nt_handler_config m)) = Inr c"
    "loads fp c = Some (PDict (canon_object (nt_handler_config m)))" "\<not> blank c"
    using loads_dumps_object [OF assms(1) v(1)] by blast
  obtain r where r: "dumps fr (PDict (nt_resolved_input m)) = Inr r"
    "loads fp r = Some (PDict (canon_object (nt_resolved_input m)))" "\<not> blank r"
    using loads_dumps_object [OF assms(1) v(2)] by blast
  obtain fs where fs: "task_to_stream_fields fr m = Inr fs" unfolding task_to_stream_fields_def c r by simp
  then have "carries_task fp fs m"
    using c r by (auto simp: task_to_stream_fields_def carries_task_def split: option.splits)
  with fs task_decode [OF assms(2,3)] show ?thesis by blast
qed

subsection \<open>Tasks published through the outbox\<close>

text \<open>The payload \<open>RedisNodeTaskDispatcher.dispatch\<close> stores for a task.\<close>

definition task_payload :: "NodeTaskMessage \<Rightarrow> pydict" where
  "task_payload m =
     [(PStr ''task_id'', PStr (nt_task_id m)),
      (PStr ''attempt_id'', PStr (uuid_str (nt_attempt_id m))),
      (PStr ''attempt_number'', PInt (nt_attempt_number m)),
      (PStr ''execution_id'', PStr (uuid_str (nt_execution_id m))),
      (PStr ''node_id'', PStr (nt_node_id m)),
      (PStr ''handler'', PStr (nt_handler m)),
      (PStr ''handler_config'', PDict (nt_handler_config m)),
      (PStr ''resolved_input'', PDict (nt_resolved_input m))]"

lemma outbox_task_roundtrip:
  assumes "float_codec fr fp" and "field_conversions to_uuid to_int" and "valid_task m"
  shows "\<exists>fs. outbox_stream_fields fr event_id ''workflow.task'' WORKFLOW_TASKS_STREAM a (task_payload m) = Inr fs \<and>
    task_from_stream_fields to_uuid to_int fp fs = Inr (norm_task (m\<lparr>nt_message_id := Some event_id\<rparr>))"
proof -
  have v: "json_object (nt_handler_config m)" "json_object (nt_resolved_input m)"
    using assms(3) by (simp_all add: valid_task_def)
  obtain c where c: "dumps fr (PDict (nt_handler_config m)) = Inr c"
    "loads fp c = Some (PDict (canon_object (nt_handler_config m)))" "\<not> blank c"
    using loads_dumps_object [OF assms(1) v(1)] by blast
  obtain r where r: "dumps fr (PDict (nt_resolved_input m)) = Inr r"
    "loads fp r = Some (PDict (canon_object (nt_resolved_input m)))" "\<not> blank r"
    using loads_dumps_object [OF assms(1) v(2)] by blast
  let ?fs = "[(''message_id'', uuid_str event_id), (''message_type'', ''workflow.task''),
      (''task_id'', nt_task_id m), (''attempt_id'', uuid_str (nt_attempt_id m)),
      (''attempt_number'', int_str (nt_attempt_number m)), (''execution_id'', uuid_str (nt_execution_id m)),
      (''node_id'', nt_node_id m), (''handler'', nt_handler m), (''handler_config'', c), (''resolved_input'', r)]"
  have "outbox_stream_fields fr event_id ''workflow.task'' WORKFLOW_TASKS_STREAM a (task_payload m) = Inr ?fs"
    by (simp add: outbox_stream_fields_def WORKFLOW_TASKS_STREAM_def WORKFLOW_EVENTS_STREAM_def task_payload_def
        redis_field_value_def key_text_def c(1) r(1) dict_of_pairs_distinct del: dumps.simps(7))
  moreover have "carries_task fp ?fs (m\<lparr>nt_message_id := Some event_id\<rparr>)"
    using c r by (simp add: carries_task_def)
  moreover have "valid_task (m\<lparr>nt_message_id := Some event_id\<rparr>)"
    using assms(3) by (simp add: valid_task_def)
  ultimately show ?thesis using task_decode [OF assms(2)] by blast
qed

section \<open>The program's codecs\<close>

locale float_text_codec =
  fixes fr :: float_text and fp :: "string \<Rightarrow> 64 word"
  assumes floats: "float_codec fr fp"

locale task_text_codec = float_text_codec +
  fixes to_uuid :: "string \<Rightarrow> uuid option" and to_int :: "string \<Rightarrow> int option"
  assumes conversions: "field_conversions to_uuid to_int"

sublocale float_text_codec \<subseteq> completion_codec: message_codec "completion_to_stream_fields fr"
  "completion_from_stream_fields fp" valid_event norm_event
  by unfold_locales (rule completion_roundtrip [OF floats])

context float_text_codec
begin

lemma event_delivered:
  "valid_event e \<Longrightarrow>
     \<exists>fs. completion_to_stream_fields fr e = Inr fs \<and> completion_from_stream_fields fp fs = Inr (norm_event e)"
  by (rule completion_codec.decode_encode)

lemma events_distinguished:
  "valid_event e \<Longrightarrow> valid_event e' \<Longrightarrow>
     completion_to_stream_fields fr e = completion_to_stream_fields fr e' \<Longrightarrow> norm_event e = norm_event e'"
  by (rule completion_codec.encode_separates)

end

sublocale task_text_codec \<subseteq> task_codec: message_codec "task_to_stream_fields fr"
  "task_from_stream_fields to_uuid to_int fp" valid_task norm_task
  by unfold_locales (rule task_roundtrip [OF floats conversions])

interpretation sample_codec: task_text_codec sample_float_text sample_float_parse uuid_parse py_int
  by unfold_locales (rule sample_float_codec sample_conversions)+

section \<open>Properties of the messages\<close>

text \<open>C39: a completion event written by a worker is read back by the orchestrator as the same event
  (output data with object members in key order; the fields that do not belong to its status
  dropped), for every event with non-blank identifiers and JSON output, or with non-blank error
  information.\<close>

theorem completion_event_delivery:
  assumes "float_codec fr fp" and "valid_event e"
  shows "\<exists>fs. completion_to_stream_fields fr e = Inr fs \<and>
    completion_from_stream_fields fp fs = Inr (norm_event e)"
proof -
  have "float_text_codec fr fp" using assms(1) by unfold_locales
  from float_text_codec.event_delivered [OF this assms(2)] show ?thesis .
qed

definition sample_event :: TaskCompletionEvent where
  "sample_event =
     \<lparr>tc_event_id = 7, tc_task_id = ''t'', tc_execution_id = 3, tc_node_id = ''a'',
      tc_status = TASK_COMPLETED, tc_attempt_id = 9, tc_attempt_number = 1,
      tc_output_data = PDict [(PStr ''x'', PInt 1)], tc_error_message = None, tc_error_type = None\<rparr>"

lemma sample_event_valid: "valid_event sample_event"
  by (simp add: valid_event_def sample_event_def blank_iff is_space_def code_def)

theorem completion_event_delivery_witness:
  "\<exists>fs. completion_to_stream_fields sample_float_text sample_event = Inr fs \<and>
     completion_from_stream_fields sample_float_parse fs = Inr sample_event"
proof -
  have "norm_event sample_event = sample_event" by (simp add: norm_event_def sample_event_def)
  with completion_event_delivery [OF sample_float_codec sample_event_valid] show ?thesis by simp
qed

text \<open>A failed completion event with error information is always published, but it can be read
  back only if neither its error message nor its error type is blank: with a blank message (a handler
  configured with a blank failure message, for instance) every delivery is rejected.\<close>

theorem blank_error_undeliverable:
  assumes "tc_status e = TASK_FAILED" and "tc_error_message e = Some m" and "tc_error_type e = Some t"
    and "\<not> blank (tc_task_id e)" and "\<not> blank (tc_node_id e)"
  shows "\<exists>fs. completion_to_stream_fields fr e = Inr fs \<and>
    ((\<exists>e'. completion_from_stream_fields fp fs = Inr e') \<longleftrightarrow> \<not> blank m \<and> \<not> blank t)"
proof -
  let ?fs = "event_header e @ [(''error_message'', m), (''error_type'', t)]"
  have "required_field ?fs ''error_message'' mt = (if blank m then Inl (ValueError (mt @ '' field '' @ quoted ''error_message'' @ '' is required.'')) else Inr m)"
    "required_field ?fs ''error_type'' mt = (if blank t then Inl (ValueError (mt @ '' field '' @ quoted ''error_type'' @ '' is required.'')) else Inr t)" for mt
    by (simp_all add: required_field_def header_keys map_add_def)
  with assms show ?thesis
    by (simp add: completion_encode completion_decode_header)
qed

definition sample_blank_event :: TaskCompletionEvent where
  "sample_blank_event =
     sample_event\<lparr>tc_status := TASK_FAILED, tc_error_message := Some '' '', tc_error_type := Some ''RuntimeError''\<rparr>"

theorem blank_error_undeliverable_witness:
  "\<exists>fs. completion_to_stream_fields sample_float_text sample_blank_event = Inr fs \<and>
     (\<nexists>e'. completion_from_stream_fields sample_float_parse fs = Inr e')"
proof -
  have "blank '' ''" "\<not> blank ''t''" "\<not> blank ''a''" by (simp_all add: blank_iff is_space_def code_def)
  with blank_error_undeliverable [of sample_blank_event "'' ''" "''RuntimeError''" sample_float_text sample_float_parse]
  show ?thesis by (simp add: sample_blank_event_def sample_event_def)
qed

text \<open>C40: the task the dispatcher stores in the outbox reaches the worker unchanged: publishing its
  payload on the task stream and parsing the fields yields the task message with its configuration and
  input (members in key order), carrying the outbox identifier as its message id.\<close>

theorem outbox_task_delivery:
  assumes "float_codec fr fp" and "field_conversions to_uuid to_int" and "valid_task m"
  shows "\<exists>fs. outbox_stream_fields fr event_id ''workflow.task'' WORKFLOW_TASKS_STREAM a (task_payload m) = Inr fs \<and>
    task_from_stream_fields to_uuid to_int fp fs = Inr (norm_task (m\<lparr>nt_message_id := Some event_id\<rparr>))"
  by (rule outbox_task_roundtrip [OF assms])

definition sample_task :: NodeTaskMessage where
  "sample_task =
     \<lparr>nt_message_id = None, nt_task_id = ''t'', nt_attempt_id = 9, nt_attempt_number = 1,
      nt_execution_id = 3, nt_node_id = ''a'', nt_handler = ''input'', nt_handler_config = [],
      nt_resolved_input = [(PStr ''x'', PInt 1)]\<rparr>"

theorem outbox_task_delivery_witness:
  "\<exists>fs. outbox_stream_fields sample_float_text 5 ''workflow.task'' WORKFLOW_TASKS_STREAM None (task_payload sample_task) = Inr fs \<and>
     task_from_stream_fields uuid_parse py_int sample_float_parse fs = Inr (sample_task\<lparr>nt_message_id := Some 5\<rparr>)"
proof -
  have "valid_task sample_task"
    by (simp add: valid_task_def sample_task_def json_object_def blank_iff is_space_def code_def)
  moreover have "norm_task (sample_task\<lparr>nt_message_id := Some 5\<rparr>) = sample_task\<lparr>nt_message_id := Some 5\<rparr>"
    by (simp add: norm_task_def sample_task_def canon_object_def)
  ultimately show ?thesis
    using outbox_task_delivery [OF sample_float_codec sample_conversions, of sample_task 5 None] by simp
qed

end
