(* ===== verification/Tables.thy ===== *)
theory Tables
  imports States
begin

text \<open>
  Transactions and relational tables. A transaction is a function from the database state to an
  exception or a result with the new state; \<open>run_transaction\<close> is the unit of work of
  \<open>app/infrastructure/persistence/unit_of_work.py\<close>: it commits on success and rolls back on any
  exception. A table is a list of rows reached through the accessors \<open>get\<close> and \<open>upd\<close> of the database
  record; the statements of the repositories (select, conditional update with its returned rows,
  insert with a primary key) are functions over them. A violated primary key is the
  \<open>WorkflowPersistenceError\<close> the unit of work turns every database error into. The locale \<open>table\<close>
  states the accessor laws and carries the facts every repository shares.
\<close>

section \<open>Transactions\<close>

type_synonym ('d, 'a) tx = "'d \<Rightarrow> error + 'a \<times> 'd"

definition tx_return :: "'a \<Rightarrow> ('d, 'a) tx" where
  "tx_return x = (\<lambda>d. Inr (x, d))"

definition tx_raise :: "error \<Rightarrow> ('d, 'a) tx" where
  "tx_raise e = (\<lambda>d. Inl e)"

definition tx_bind :: "('d, 'a) tx \<Rightarrow> ('a \<Rightarrow> ('d, 'b) tx) \<Rightarrow> ('d, 'b) tx" where
  "tx_bind m f = (\<lambda>d. rbind (m d) (\<lambda>(x, d'). f x d'))"

definition tx_lift :: "error + 'a \<Rightarrow> ('d, 'a) tx" where
  "tx_lift m = (\<lambda>d. rbind m (\<lambda>x. Inr (x, d)))"

fun tx_each :: "('a \<Rightarrow> ('d, unit) tx) \<Rightarrow> 'a list \<Rightarrow> ('d, unit) tx" where
  "tx_each f [] = tx_return ()"
| "tx_each f (x # xs) = tx_bind (f x) (\<lambda>_. tx_each f xs)"

lemma tx_apply [simp]:
  "tx_return x d = Inr (x, d)"
  "tx_raise e d = Inl e"
  "tx_bind m f d = rbind (m d) (\<lambda>(x, d'). f x d')"
  "tx_lift r d = rbind r (\<lambda>x. Inr (x, d))"
  by (simp_all add: tx_return_def tx_raise_def tx_bind_def tx_lift_def)

text \<open>\<open>async with unit_of_work.transaction()\<close>: the outcome and the database afterwards.\<close>

definition run_transaction :: "('d, 'a) tx \<Rightarrow> 'd \<Rightarrow> (error + 'a) \<times> 'd" where
  "run_transaction m d = (case m d of Inl e \<Rightarrow> (Inl e, d) | Inr (x, d') \<Rightarrow> (Inr x, d'))"

lemma run_transaction_simps [simp]:
  "m d = Inl e \<Longrightarrow> run_transaction m d = (Inl e, d)"
  "m d = Inr (x, d') \<Longrightarrow> run_transaction m d = (Inr x, d')"
  by (simp_all add: run_transaction_def)

lemma run_transaction_Inl: "run_transaction m d = (Inl e, d') \<longleftrightarrow> m d = Inl e \<and> d' = d"
  by (auto simp: run_transaction_def split: sum.splits)

lemma run_transaction_Inr: "run_transaction m d = (Inr x, d') \<longleftrightarrow> m d = Inr (x, d')"
  by (auto simp: run_transaction_def split: sum.splits)

section \<open>Statements\<close>

definition integrity_error :: error where
  "integrity_error = WorkflowPersistenceError ''Unable to persist workflow data.''"

definition select_where :: "('d \<Rightarrow> 'r list) \<Rightarrow> ('r \<Rightarrow> bool) \<Rightarrow> ('d, 'r list) tx" where
  "select_where get p = (\<lambda>d. Inr (filter p (get d), d))"

text \<open>\<open>result.scalar_one_or_none()\<close>\<close>

definition scalar_one_or_none :: "'r list \<Rightarrow> ('d, 'r option) tx" where
  "scalar_one_or_none rows =
     (case rows of [] \<Rightarrow> tx_return None | [r] \<Rightarrow> tx_return (Some r) | _ \<Rightarrow> tx_raise integrity_error)"

definition select_one :: "('d \<Rightarrow> 'r list) \<Rightarrow> ('r \<Rightarrow> bool) \<Rightarrow> ('d, 'r option) tx" where
  "select_one get p = tx_bind (select_where get p) scalar_one_or_none"

definition update_rows :: "('r \<Rightarrow> bool) \<Rightarrow> ('r \<Rightarrow> 'r) \<Rightarrow> 'r list \<Rightarrow> 'r list" where
  "update_rows p f rows = map (\<lambda>r. if p r then f r else r) rows"

text \<open>\<open>UPDATE \<dots> WHERE p \<dots> RETURNING\<close>: the matched rows and the new state.\<close>

definition update_where ::
    "('d \<Rightarrow> 'r list) \<Rightarrow> (('r list \<Rightarrow> 'r list) \<Rightarrow> 'd \<Rightarrow> 'd) \<Rightarrow> ('r \<Rightarrow> bool) \<Rightarrow> ('r \<Rightarrow> 'r) \<Rightarrow> ('d, 'r list) tx" where
  "update_where get upd p f = (\<lambda>d. Inr (filter p (get d), upd (update_rows p f) d))"

definition insert_row ::
    "('d \<Rightarrow> 'r list) \<Rightarrow> (('r list \<Rightarrow> 'r list) \<Rightarrow> 'd \<Rightarrow> 'd) \<Rightarrow> ('r \<Rightarrow> 'k) \<Rightarrow> 'r \<Rightarrow> ('d, unit) tx" where
  "insert_row get upd key r =
     (\<lambda>d. if key r \<in> key ` set (get d) then Inl integrity_error
           else Inr ((), upd (\<lambda>rows. rows @ [r]) d))"

text \<open>\<open>INSERT \<dots> ON CONFLICT DO NOTHING\<close>: whether the row was inserted.\<close>

definition insert_ignore ::
    "('d \<Rightarrow> 'r list) \<Rightarrow> (('r list \<Rightarrow> 'r list) \<Rightarrow> 'd \<Rightarrow> 'd) \<Rightarrow> ('r \<Rightarrow> 'k) \<Rightarrow> 'r \<Rightarrow> ('d, bool) tx" where
  "insert_ignore get upd key r =
     (\<lambda>d. if key r \<in> key ` set (get d) then Inr (False, d)
           else Inr (True, upd (\<lambda>rows. rows @ [r]) d))"

text \<open>\<open>INSERT \<dots> ON CONFLICT DO UPDATE\<close>\<close>

definition upsert_row ::
    "('d \<Rightarrow> 'r list) \<Rightarrow> (('r list \<Rightarrow> 'r list) \<Rightarrow> 'd \<Rightarrow> 'd) \<Rightarrow> ('r \<Rightarrow> 'k) \<Rightarrow> 'r \<Rightarrow> ('r \<Rightarrow> 'r) \<Rightarrow> ('d, unit) tx" where
  "upsert_row get upd key r merge =
     (\<lambda>d. if key r \<in> key ` set (get d) then Inr ((), upd (update_rows (\<lambda>x. key x = key r) merge) d)
           else Inr ((), upd (\<lambda>rows. rows @ [r]) d))"

lemma statement_apply [table_simps]:
  "select_where get p d = Inr (filter p (get d), d)"
  "update_where get upd p f d = Inr (filter p (get d), upd (update_rows p f) d)"
  "insert_row get upd key r d =
     (if key r \<in> key ` set (get d) then Inl integrity_error else Inr ((), upd (\<lambda>rows. rows @ [r]) d))"
  "insert_ignore get upd key r d =
     (if key r \<in> key ` set (get d) then Inr (False, d) else Inr (True, upd (\<lambda>rows. rows @ [r]) d))"
  by (simp_all add: select_where_def update_where_def insert_row_def insert_ignore_def)

section \<open>Facts on rows\<close>

lemma update_rows_Nil [simp]: "update_rows p f [] = []"
  by (simp add: update_rows_def)

lemma update_rows_append [simp]: "update_rows p f (xs @ ys) = update_rows p f xs @ update_rows p f ys"
  by (simp add: update_rows_def)

lemma length_update_rows [simp]: "length (update_rows p f rows) = length rows"
  by (simp add: update_rows_def)

lemma update_rows_none: "\<forall>r \<in> set rows. \<not> p r \<Longrightarrow> update_rows p f rows = rows"
  by (induction rows) (auto simp: update_rows_def)

lemma map_update_rows: "(\<And>r. p r \<Longrightarrow> g (f r) = g r) \<Longrightarrow> map g (update_rows p f rows) = map g rows"
  by (auto simp: update_rows_def)

lemma image_update_rows:
  assumes "\<And>r. p r \<Longrightarrow> g (f r) = g r"
  shows "g ` set (update_rows p f rows) = g ` set rows"
  using map_update_rows [of p g f rows] assms by (metis list.set_map)

lemma set_update_rows: "set (update_rows p f rows) = {if p r then f r else r | r. r \<in> set rows}"
  by (auto simp: update_rows_def)

lemma find_update_rows:
  assumes "\<And>r. p r \<Longrightarrow> k (f r) = k r"
  shows "find (\<lambda>r. k r = a) (update_rows p f rows) =
    map_option (\<lambda>r. if p r then f r else r) (find (\<lambda>r. k r = a) rows)"
  using assms by (induction rows) (auto simp: update_rows_def)

lemma filter_key_find:
  assumes "distinct (map k rows)"
  shows "filter (\<lambda>r. k r = a) rows = (case find (\<lambda>r. k r = a) rows of None \<Rightarrow> [] | Some r \<Rightarrow> [r])"
  using assms
proof (induction rows)
  case (Cons r rows)
  show ?case
  proof (cases "k r = a")
    case True
    with Cons.prems have "filter (\<lambda>r. k r = a) rows = []" by (auto simp: filter_empty_conv image_iff)
    with True show ?thesis by simp
  qed (use Cons in simp)
qed simp

lemma find_append: "find p (xs @ ys) = (case find p xs of None \<Rightarrow> find p ys | Some x \<Rightarrow> Some x)"
  by (induction xs) auto

lemma find_key: "find (\<lambda>r. k r = a) rows = Some r \<Longrightarrow> k r = a \<and> r \<in> set rows"
  by (auto simp: find_Some_iff)

section \<open>Tables with a primary key\<close>

locale table =
  fixes get :: "'d \<Rightarrow> 'r list"
    and upd :: "('r list \<Rightarrow> 'r list) \<Rightarrow> 'd \<Rightarrow> 'd"
    and key :: "'r \<Rightarrow> 'k"
  assumes get_upd: "get (upd f d) = f (get d)"
begin

definition unique :: "'d \<Rightarrow> bool" where
  "unique d \<longleftrightarrow> distinct (map key (get d))"

definition row :: "'d \<Rightarrow> 'k \<Rightarrow> 'r option" where
  "row d a = find (\<lambda>r. key r = a) (get d)"

lemma row_key: "row d a = Some r \<Longrightarrow> key r = a"
  unfolding row_def by (rule find_key [THEN conjunct1])

lemma row_mem: "unique d \<Longrightarrow> r \<in> set (get d) \<longleftrightarrow> row d (key r) = Some r"
proof
  assume "unique d" and "r \<in> set (get d)"
  then show "row d (key r) = Some r" by (simp add: unique_def row_def map_of_distinct_find)
next
  assume "row d (key r) = Some r"
  then show "r \<in> set (get d)" unfolding row_def by (rule find_key [THEN conjunct2])
qed

lemma select_one_key:
  assumes "unique d"
  shows "select_one get (\<lambda>r. key r = a) d = Inr (row d a, d)"
  using filter_key_find [of key "get d" a] assms
  by (simp add: unique_def row_def select_one_def scalar_one_or_none_def table_simps split: option.splits)

lemma update_keeps_unique:
  assumes "unique d" and "\<And>r. p r \<Longrightarrow> key (f r) = key r"
  shows "unique (upd (update_rows p f) d)"
  using assms map_update_rows [of p key f "get d"] by (simp add: unique_def get_upd)

lemma row_update:
  assumes "\<And>r. p r \<Longrightarrow> key (f r) = key r"
  shows "row (upd (update_rows p f) d) a = map_option (\<lambda>r. if p r then f r else r) (row d a)"
  using find_update_rows [of p key f a "get d"] assms by (simp add: row_def get_upd)

lemma insert_keeps_unique:
  "unique d \<Longrightarrow> key r \<notin> key ` set (get d) \<Longrightarrow> unique (upd (\<lambda>rows. rows @ [r]) d)"
  by (auto simp: unique_def get_upd)

lemma row_insert:
  assumes "key r \<notin> key ` set (get d)"
  shows "row (upd (\<lambda>rows. rows @ [r]) d) a = (if a = key r then Some r else row d a)"
proof -
  have "find (\<lambda>x. key x = key r) (get d) = None" using assms by (auto simp: find_None_iff image_iff)
  then show ?thesis by (auto simp: row_def get_upd find_append split: option.splits)
qed

lemma row_absent: "key r \<in> key ` set (get d) \<longleftrightarrow> row d (key r) \<noteq> None"
  by (auto simp: row_def find_None_iff) (metis imageI)

lemma filter_key:
  "unique d \<Longrightarrow> filter (\<lambda>r. key r = a \<and> q r) (get d) =
     (case row d a of None \<Rightarrow> [] | Some r \<Rightarrow> if q r then [r] else [])"
proof -
  assume "unique d"
  then have "filter (\<lambda>r. key r = a) (get d) = (case row d a of None \<Rightarrow> [] | Some r \<Rightarrow> [r])"
    by (simp add: unique_def row_def filter_key_find)
  moreover have "filter (\<lambda>r. key r = a \<and> q r) (get d) = filter q (filter (\<lambda>r. key r = a) (get d))"
    by (simp add: conj_commute)
  ultimately show ?thesis by (simp split: option.splits)
qed

lemma row_update_key:
  assumes "\<And>r. key (f r) = key r"
  shows "row (upd (update_rows (\<lambda>r. key r = k \<and> q r) f) d) =
    (case row d k of Some r \<Rightarrow> if q r then (row d)(k \<mapsto> f r) else row d | None \<Rightarrow> row d)"
proof
  fix a
  have "row (upd (update_rows (\<lambda>r. key r = k \<and> q r) f) d) a =
      map_option (\<lambda>r. if key r = k \<and> q r then f r else r) (row d a)"
    using assms by (rule row_update)
  then show "row (upd (update_rows (\<lambda>r. key r = k \<and> q r) f) d) a =
      (case row d k of Some r \<Rightarrow> if q r then (row d)(k \<mapsto> f r) else row d | None \<Rightarrow> row d) a"
    using row_key [of d a] by (cases "row d a"; cases "a = k") (auto split: option.split)
qed

lemma update_where_key:
  assumes "unique d"
  shows "update_where get upd (\<lambda>r. key r = k \<and> q r) f d =
    Inr (case row d k of None \<Rightarrow> [] | Some r \<Rightarrow> if q r then [r] else [],
         upd (update_rows (\<lambda>r. key r = k \<and> q r) f) d)"
  using filter_key [OF assms] by (simp add: table_simps)

end

end
