(* ===== verification/Persistence.thy ===== *)
theory Persistence
  imports Messages Tables
begin

text \<open>
  The database of \<open>app/infrastructure/persistence\<close>: one row type per SQLAlchemy model, the record
  \<open>db\<close> of all tables, and the repositories for workflows, executions, node executions and the
  outbox. Status columns of executions hold the enumeration they are validated into, JSON columns
  the value they encode; \<open>updated_at\<close> columns, which the program never reads, are left out.
  \<open>func.now()\<close> is the server clock \<open>db_now\<close>. A workflow row holds the validated graph its JSON
  column is dumped from and re-validated into; \<open>created_by\<close> of a workflow is not stored.
\<close>

section \<open>Rows\<close>

record WorkflowRecord =
  wr_workflow_id :: uuid
  wr_name :: string
  wr_dag_definition :: WorkflowDag
  wr_created_at :: datetime

type_synonym WorkflowExecutionRecord = WorkflowExecution
type_synonym NodeExecutionRecord = NodeExecution

record OutboxEventRecord =
  ob_event_id :: uuid
  ob_event_type :: string
  ob_aggregate_id :: "uuid option"
  ob_target_stream :: string
  ob_payload :: pydict
  ob_status :: string
  ob_publish_attempts :: int
  ob_last_error :: "string option"
  ob_created_at :: datetime
  ob_published_at :: "datetime option"

record LogicalTaskRecord =
  lt_task_id :: string
  lt_execution_id :: uuid
  lt_node_id :: string
  lt_handler :: string
  lt_handler_config :: pydict
  lt_resolved_input :: pydict
  lt_status :: string
  lt_final_error_message :: "string option"
  lt_final_error_type :: "string option"
  lt_created_at :: datetime

record TaskAttemptRecord =
  ta_attempt_id :: uuid
  ta_task_id :: string
  ta_attempt_number :: int
  ta_status :: string
  ta_failure_event_id :: "uuid option"
  ta_completion_event_id :: "uuid option"
  ta_error_message :: "string option"
  ta_error_type :: "string option"
  ta_started_at :: "datetime option"
  ta_failed_at :: "datetime option"
  ta_scheduled_at :: "datetime option"
  ta_completed_at :: "datetime option"
  ta_claimed_by :: "string option"
  ta_claimed_at :: "datetime option"
  ta_claim_expires_at :: "datetime option"
  ta_result_data :: pyval
  ta_completion_published_at :: "datetime option"
  ta_created_at :: datetime

record TaskRetryDispatchRecord =
  rd_attempt_id :: uuid
  rd_available_at :: datetime
  rd_status :: string
  rd_published_at :: "datetime option"
  rd_created_at :: datetime

record TaskProcessingRecord =
  tp_task_id :: string
  tp_execution_id :: uuid
  tp_node_id :: string
  tp_status :: string
  tp_claimed_by :: "string option"
  tp_claimed_at :: datetime
  tp_claim_expires_at :: "datetime option"
  tp_result_data :: pyval
  tp_error_message :: "string option"
  tp_error_type :: "string option"
  tp_completion_event_id :: "uuid option"
  tp_completion_published_at :: "datetime option"
  tp_completed_at :: "datetime option"

record db =
  db_workflows :: "WorkflowRecord list"
  db_executions :: "WorkflowExecutionRecord list"
  db_nodes :: "NodeExecutionRecord list"
  db_outbox :: "OutboxEventRecord list"
  db_logical_tasks :: "LogicalTaskRecord list"
  db_attempts :: "TaskAttemptRecord list"
  db_retries :: "TaskRetryDispatchRecord list"
  db_processing :: "TaskProcessingRecord list"
  db_now :: datetime

abbreviation node_key :: "NodeExecution \<Rightarrow> uuid \<times> string" where
  "node_key n \<equiv> (ne_workflow_execution_id n, ne_node_id n)"

section \<open>Workflows (\<open>workflow_repository.py\<close>)\<close>

definition create_workflow :: "Workflow \<Rightarrow> (db, Workflow) tx" where
  "create_workflow workflow =
     tx_bind (insert_row db_workflows db_workflows_update wr_workflow_id
        \<lparr>wr_workflow_id = wf_workflow_id workflow, wr_name = wf_name workflow,
         wr_dag_definition = wf_dag workflow, wr_created_at = wf_created_at workflow\<rparr>)
       (\<lambda>_. tx_return workflow)"

definition get_workflow_by_id :: "uuid \<Rightarrow> (db, Workflow option) tx" where
  "get_workflow_by_id workflow_id =
     tx_bind (select_one db_workflows (\<lambda>r. wr_workflow_id r = workflow_id)) (\<lambda>record.
     tx_return (map_option (\<lambda>r.
       \<lparr>wf_workflow_id = wr_workflow_id r, wf_name = wr_name r, wf_dag = wr_dag_definition r,
        wf_created_at = wr_created_at r, wf_created_by = None\<rparr>) record))"

section \<open>Executions (\<open>workflow_execution_repository.py\<close>)\<close>

definition create_execution :: "WorkflowExecution \<Rightarrow> (db, WorkflowExecution) tx" where
  "create_execution execution =
     tx_bind (insert_row db_executions db_executions_update we_execution_id execution)
       (\<lambda>_. tx_return execution)"

definition get_execution_by_id :: "uuid \<Rightarrow> (db, WorkflowExecution option) tx" where
  "get_execution_by_id execution_id = select_one db_executions (\<lambda>r. we_execution_id r = execution_id)"

definition get_execution_by_id_for_update :: "uuid \<Rightarrow> (db, WorkflowExecution option) tx" where
  "get_execution_by_id_for_update execution_id =
     select_one db_executions (\<lambda>r. we_execution_id r = execution_id)"

definition keep_or :: "'a option \<Rightarrow> 'a option \<Rightarrow> 'a option" where
  "keep_or new old = (case new of None \<Rightarrow> old | Some x \<Rightarrow> Some x)"

definition update_execution_status_if_current ::
    "uuid \<Rightarrow> WorkflowExecutionStatus \<Rightarrow> WorkflowExecutionStatus \<Rightarrow> datetime option \<Rightarrow> datetime option \<Rightarrow>
     pydict option \<Rightarrow> (db, bool) tx" where
  "update_execution_status_if_current execution_id expected_current_status new_status
       started_at completed_at input_data =
     tx_bind (update_where db_executions db_executions_update
        (\<lambda>r. we_execution_id r = execution_id \<and> we_status r = expected_current_status)
        (\<lambda>r. r\<lparr>we_status := new_status, we_started_at := keep_or started_at (we_started_at r),
               we_completed_at := keep_or completed_at (we_completed_at r),
               we_input_data := (case input_data of None \<Rightarrow> we_input_data r | Some d \<Rightarrow> d)\<rparr>))
       (\<lambda>rows. tx_bind (scalar_one_or_none rows) (\<lambda>r. tx_return (r \<noteq> None)))"

section \<open>Node executions (\<open>node_execution_repository.py\<close>)\<close>

definition get_node_executions_for_execution :: "uuid \<Rightarrow> (db, NodeExecution list) tx" where
  "get_node_executions_for_execution execution_id =
     select_where db_nodes (\<lambda>r. ne_workflow_execution_id r = execution_id)"

definition upsert_node_execution :: "NodeExecution \<Rightarrow> (db, NodeExecution) tx" where
  "upsert_node_execution node_execution =
     tx_bind (upsert_row db_nodes db_nodes_update node_key node_execution
        (\<lambda>r. r\<lparr>ne_status := ne_status node_execution, ne_output_data := ne_output_data node_execution,
               ne_error_message := ne_error_message node_execution,
               ne_error_type := ne_error_type node_execution,
               ne_started_at := ne_started_at node_execution,
               ne_completed_at := ne_completed_at node_execution\<rparr>))
       (\<lambda>_. tx_return node_execution)"

text \<open>\<open>output_data\<close> is \<open>None\<close> for \<open>OUTPUT_DATA_NOT_PROVIDED\<close>.\<close>

definition update_node_status_if_current ::
    "uuid \<Rightarrow> string \<Rightarrow> NodeExecutionStatus \<Rightarrow> NodeExecutionStatus \<Rightarrow> pyval option \<Rightarrow> string option \<Rightarrow>
     string option \<Rightarrow> datetime option \<Rightarrow> datetime option \<Rightarrow> (db, bool) tx" where
  "update_node_status_if_current execution_id node_id expected_current_status new_status
       output_data message error_type started_at completed_at =
     tx_bind (update_where db_nodes db_nodes_update
        (\<lambda>r. node_key r = (execution_id, node_id) \<and> ne_status r = expected_current_status)
        (\<lambda>r. r\<lparr>ne_status := new_status,
               ne_output_data := (case output_data of None \<Rightarrow> ne_output_data r | Some v \<Rightarrow> v),
               ne_error_message := keep_or message (ne_error_message r),
               ne_error_type := keep_or error_type (ne_error_type r),
               ne_started_at := keep_or started_at (ne_started_at r),
               ne_completed_at := keep_or completed_at (ne_completed_at r)\<rparr>))
       (\<lambda>rows. tx_bind (scalar_one_or_none rows) (\<lambda>r. tx_return (r \<noteq> None)))"

definition claim_pending_nodes :: "uuid \<Rightarrow> string list \<Rightarrow> (db, string list) tx" where
  "claim_pending_nodes execution_id ids =
     (if ids = [] then tx_return []
      else (\<lambda>d. tx_bind (update_where db_nodes db_nodes_update
              (\<lambda>r. ne_workflow_execution_id r = execution_id \<and> ne_node_id r \<in> set ids \<and> ne_status r = PENDING)
              (\<lambda>r. r\<lparr>ne_status := RUNNING, ne_started_at := Some (db_now d)\<rparr>))
            (\<lambda>rows. tx_return (map ne_node_id rows)) d))"

definition fail_pending_nodes :: "uuid \<Rightarrow> string list \<Rightarrow> string \<Rightarrow> datetime \<Rightarrow> (db, string list) tx" where
  "fail_pending_nodes execution_id ids reason completed_at =
     (if ids = [] then tx_return []
      else tx_bind (update_where db_nodes db_nodes_update
             (\<lambda>r. ne_workflow_execution_id r = execution_id \<and> ne_node_id r \<in> set ids \<and> ne_status r = PENDING)
             (\<lambda>r. r\<lparr>ne_status := FAILED, ne_error_message := Some reason,
                    ne_error_type := Some ''FailedDependency'', ne_completed_at := Some completed_at\<rparr>))
           (\<lambda>rows. tx_return (map ne_node_id rows)))"

section \<open>Outbox (\<open>outbox_event_repository.py\<close>)\<close>

definition add_message ::
    "uuid \<Rightarrow> string \<Rightarrow> string \<Rightarrow> pydict \<Rightarrow> uuid option \<Rightarrow> (db, unit) tx" where
  "add_message message_id message_type target_stream payload aggregate_id =
     (\<lambda>d. insert_row db_outbox db_outbox_update ob_event_id
        \<lparr>ob_event_id = message_id, ob_event_type = message_type, ob_aggregate_id = aggregate_id,
         ob_target_stream = target_stream, ob_payload = payload, ob_status = ''pending'',
         ob_publish_attempts = 0, ob_last_error = None, ob_created_at = db_now d,
         ob_published_at = None\<rparr> d)"

definition add_execution_triggered :: "uuid \<Rightarrow> uuid \<Rightarrow> (db, unit) tx" where
  "add_execution_triggered fresh_id execution_id =
     add_message fresh_id ''workflow.execution.triggered'' ''workflow.events''
       [(PStr ''execution_id'', PStr (uuid_str execution_id))] (Some execution_id)"

definition add_task :: "uuid \<Rightarrow> pydict \<Rightarrow> uuid option \<Rightarrow> (db, unit) tx" where
  "add_task message_id payload aggregate_id =
     add_message message_id ''workflow.task'' ''workflow.tasks'' payload aggregate_id"

section \<open>The tables\<close>

interpretation workflows_t: table db_workflows db_workflows_update wr_workflow_id
  by unfold_locales simp
interpretation executions_t: table db_executions db_executions_update we_execution_id
  by unfold_locales simp
interpretation nodes_t: table db_nodes db_nodes_update node_key
  by unfold_locales simp
interpretation outbox_t: table db_outbox db_outbox_update ob_event_id
  by unfold_locales simp
interpretation logical_t: table db_logical_tasks db_logical_tasks_update lt_task_id
  by unfold_locales simp
interpretation attempts_t: table db_attempts db_attempts_update ta_attempt_id
  by unfold_locales simp
interpretation retries_t: table db_retries db_retries_update rd_attempt_id
  by unfold_locales simp
interpretation processing_t: table db_processing db_processing_update tp_task_id
  by unfold_locales simp

definition db_keys :: "db \<Rightarrow> bool" where
  "db_keys d \<longleftrightarrow> workflows_t.unique d \<and> executions_t.unique d \<and> nodes_t.unique d \<and> outbox_t.unique d \<and>
     logical_t.unique d \<and> attempts_t.unique d \<and> retries_t.unique d \<and> processing_t.unique d"

end
