(* ===== verification/Retry.thy ===== *)
theory Retry
  imports Persistence
begin

text \<open>
  Durable retry decisions: \<open>SqlAlchemyTaskRetryRepository\<close> of
  \<open>app/infrastructure/persistence/repositories/task_retry_repository.py\<close> over the tables of logical
  tasks, attempts and delayed retry publications. \<open>uuid4()\<close> of the next attempt is the argument
  \<open>fresh_id\<close>. \<open>retry_inv\<close> is what the operations keep of the tables: the unique constraints, attempt
  numbers that count from one without gaps, a recorded failure behind every further attempt, and an
  attempt row behind every retry publication.
\<close>

datatype RetryDecisionOutcome = RETRY_SCHEDULED | RETRY_EXHAUSTED | RETRY_DUPLICATE

record RetryDecision =
  rt_outcome :: RetryDecisionOutcome
  rt_next_attempt_id :: "uuid option"
  rt_next_attempt_number :: "int option"

record DueRetryTask =
  due_task_id :: string
  due_attempt_id :: uuid
  due_attempt_number :: int
  due_execution_id :: uuid
  due_node_id :: string
  due_handler :: string
  due_handler_config :: pydict
  due_resolved_input :: pydict

abbreviation attempt_slot :: "TaskAttemptRecord \<Rightarrow> string \<times> int" where
  "attempt_slot a \<equiv> (ta_task_id a, ta_attempt_number a)"

text \<open>An inserted attempt row: the columns the statements do not name are null.\<close>

definition attempt_row ::
    "uuid \<Rightarrow> string \<Rightarrow> int \<Rightarrow> string \<Rightarrow> datetime option \<Rightarrow> datetime option \<Rightarrow> datetime \<Rightarrow> TaskAttemptRecord" where
  "attempt_row attempt_id task_id attempt_number status started_at scheduled_at created_at =
     \<lparr>ta_attempt_id = attempt_id, ta_task_id = task_id, ta_attempt_number = attempt_number,
      ta_status = status, ta_failure_event_id = None, ta_completion_event_id = None,
      ta_error_message = None, ta_error_type = None, ta_started_at = started_at,
      ta_failed_at = None, ta_scheduled_at = scheduled_at, ta_completed_at = None,
      ta_claimed_by = None, ta_claimed_at = None, ta_claim_expires_at = None,
      ta_result_data = PNone, ta_completion_published_at = None, ta_created_at = created_at\<rparr>"

text \<open>The insert checks the primary key and the unique pair of task and attempt number.\<close>

definition insert_attempt :: "TaskAttemptRecord \<Rightarrow> (db, unit) tx" where
  "insert_attempt a = (\<lambda>d.
     if attempt_slot a \<in> attempt_slot ` set (db_attempts d) then Inl integrity_error
     else insert_row db_attempts db_attempts_update ta_attempt_id a d)"

definition get_logical_task :: "string \<Rightarrow> (db, LogicalTaskRecord option) tx" where
  "get_logical_task task_id = select_one db_logical_tasks (\<lambda>r. lt_task_id r = task_id)"

definition get_attempt :: "uuid \<Rightarrow> (db, TaskAttemptRecord option) tx" where
  "get_attempt attempt_id = select_one db_attempts (\<lambda>r. ta_attempt_id r = attempt_id)"

definition update_attempt :: "uuid \<Rightarrow> (TaskAttemptRecord \<Rightarrow> TaskAttemptRecord) \<Rightarrow> (db, unit) tx" where
  "update_attempt attempt_id f =
     tx_bind (update_where db_attempts db_attempts_update (\<lambda>r. ta_attempt_id r = attempt_id) f)
       (\<lambda>_. tx_return ())"

definition update_logical_task :: "string \<Rightarrow> (LogicalTaskRecord \<Rightarrow> LogicalTaskRecord) \<Rightarrow> (db, unit) tx" where
  "update_logical_task task_id f =
     tx_bind (update_where db_logical_tasks db_logical_tasks_update (\<lambda>r. lt_task_id r = task_id) f)
       (\<lambda>_. tx_return ())"

definition foreign_attempt :: "uuid \<Rightarrow> string \<Rightarrow> error" where
  "foreign_attempt attempt_id task_id = ValueError (''Attempt '' @ quoted (uuid_str attempt_id) @
     '' does not belong to task '' @ quoted task_id @ ''.'')"

definition record_success :: "string \<Rightarrow> uuid \<Rightarrow> uuid \<Rightarrow> datetime \<Rightarrow> (db, bool) tx" where
  "record_success task_id attempt_id completion_event_id completed_at =
     tx_bind (get_logical_task task_id) (\<lambda>logical_task.
       case logical_task of
         None \<Rightarrow> tx_return True
       | Some _ \<Rightarrow>
           tx_bind (get_attempt attempt_id) (\<lambda>attempt.
             case attempt of
               None \<Rightarrow> tx_raise (foreign_attempt attempt_id task_id)
             | Some a \<Rightarrow>
                 if ta_task_id a \<noteq> task_id then tx_raise (foreign_attempt attempt_id task_id)
                 else if ta_completion_event_id a = Some completion_event_id then tx_return False
                 else if ta_status a \<in> {''completed'', ''failed''} \<and> ta_completion_event_id a \<noteq> None
                 then tx_return False
                 else
                   tx_bind (update_attempt attempt_id (\<lambda>r. r\<lparr>ta_status := ''completed'',
                       ta_completion_event_id := Some completion_event_id,
                       ta_completed_at := Some completed_at\<rparr>)) (\<lambda>_.
                   tx_bind (update_logical_task task_id (\<lambda>r. r\<lparr>lt_status := ''completed''\<rparr>)) (\<lambda>_.
                   tx_return True))))"

definition decision :: "RetryDecisionOutcome \<Rightarrow> RetryDecision" where
  "decision outcome = \<lparr>rt_outcome = outcome, rt_next_attempt_id = None, rt_next_attempt_number = None\<rparr>"

definition exhaust_task :: "string \<Rightarrow> string \<Rightarrow> string \<Rightarrow> (db, RetryDecision) tx" where
  "exhaust_task task_id message error_type =
     tx_bind (update_logical_task task_id (\<lambda>r. r\<lparr>lt_status := ''failed'',
         lt_final_error_message := Some message, lt_final_error_type := Some error_type\<rparr>)) (\<lambda>_.
     tx_return (decision RETRY_EXHAUSTED))"

definition schedule_retry :: "uuid \<Rightarrow> string \<Rightarrow> int \<Rightarrow> datetime \<Rightarrow> datetime \<Rightarrow> (db, RetryDecision) tx" where
  "schedule_retry fresh_id task_id attempt_number failed_at retry_at =
     tx_bind (insert_attempt
         (attempt_row fresh_id task_id (attempt_number + 1) ''scheduled'' None (Some retry_at) failed_at)) (\<lambda>_.
     tx_bind (insert_row db_retries db_retries_update rd_attempt_id
         \<lparr>rd_attempt_id = fresh_id, rd_available_at = retry_at, rd_status = ''pending'',
          rd_published_at = None, rd_created_at = failed_at\<rparr>) (\<lambda>_.
     tx_bind (update_logical_task task_id (\<lambda>r. r\<lparr>lt_status := ''retry_scheduled''\<rparr>)) (\<lambda>_.
     tx_return \<lparr>rt_outcome = RETRY_SCHEDULED, rt_next_attempt_id = Some fresh_id,
                rt_next_attempt_number = Some (attempt_number + 1)\<rparr>)))"

definition record_failure ::
    "uuid \<Rightarrow> string \<Rightarrow> uuid \<Rightarrow> uuid \<Rightarrow> string \<Rightarrow> string \<Rightarrow> datetime \<Rightarrow> int \<Rightarrow> datetime \<Rightarrow>
     (db, RetryDecision) tx" where
  "record_failure fresh_id task_id attempt_id failure_event_id message error_type failed_at
       max_attempts retry_at =
     (if max_attempts < 1 then tx_raise (ValueError ''max_attempts must be at least one.'')
      else tx_bind (get_logical_task task_id) (\<lambda>logical_task.
        case logical_task of
          None \<Rightarrow> tx_return (decision RETRY_EXHAUSTED)
        | Some _ \<Rightarrow>
            tx_bind (select_one db_attempts (\<lambda>r. ta_failure_event_id r = Some failure_event_id)) (\<lambda>duplicate.
            if duplicate \<noteq> None then tx_return (decision RETRY_DUPLICATE)
            else tx_bind (get_attempt attempt_id) (\<lambda>attempt.
              case attempt of
                None \<Rightarrow> tx_raise (foreign_attempt attempt_id task_id)
              | Some a \<Rightarrow>
                  if ta_task_id a \<noteq> task_id then tx_raise (foreign_attempt attempt_id task_id)
                  else if ta_failure_event_id a \<noteq> None \<or>
                     ta_status a = ''completed'' \<and> ta_completion_event_id a \<noteq> Some failure_event_id
                  then tx_return (decision RETRY_DUPLICATE)
                  else
                    tx_bind (update_attempt attempt_id (\<lambda>r. r\<lparr>ta_status := ''failed'',
                        ta_failure_event_id := Some failure_event_id, ta_error_message := Some message,
                        ta_error_type := Some error_type, ta_failed_at := Some failed_at\<rparr>)) (\<lambda>_.
                    if ta_attempt_number a \<ge> max_attempts then exhaust_task task_id message error_type
                    else schedule_retry fresh_id task_id (ta_attempt_number a) failed_at retry_at)))))"

definition register_initial_task ::
    "string \<Rightarrow> uuid \<Rightarrow> string \<Rightarrow> string \<Rightarrow> pydict \<Rightarrow> pydict \<Rightarrow> uuid \<Rightarrow> datetime \<Rightarrow> (db, uuid) tx" where
  "register_initial_task task_id execution_id node_id handler handler_config resolved_input
       attempt_id started_at =
     tx_bind (insert_ignore db_logical_tasks db_logical_tasks_update lt_task_id
        \<lparr>lt_task_id = task_id, lt_execution_id = execution_id, lt_node_id = node_id,
         lt_handler = handler, lt_handler_config = handler_config, lt_resolved_input = resolved_input,
         lt_status = ''running'', lt_final_error_message = None, lt_final_error_type = None,
         lt_created_at = started_at\<rparr>) (\<lambda>_.
     tx_bind (select_one db_attempts (\<lambda>r. ta_task_id r = task_id \<and> ta_attempt_number r = 1)) (\<lambda>existing.
       case existing of
         Some a \<Rightarrow> tx_return (ta_attempt_id a)
       | None \<Rightarrow>
           tx_bind (insert_attempt
               (attempt_row attempt_id task_id 1 ''running'' (Some started_at) None started_at)) (\<lambda>_.
           tx_return attempt_id)))"

definition due_retry :: "LogicalTaskRecord \<Rightarrow> TaskAttemptRecord \<Rightarrow> DueRetryTask" where
  "due_retry logical_task attempt =
     \<lparr>due_task_id = lt_task_id logical_task, due_attempt_id = ta_attempt_id attempt,
      due_attempt_number = ta_attempt_number attempt, due_execution_id = lt_execution_id logical_task,
      due_node_id = lt_node_id logical_task, due_handler = lt_handler logical_task,
      due_handler_config = lt_handler_config logical_task,
      due_resolved_input = lt_resolved_input logical_task\<rparr>"

text \<open>The join of logical tasks, attempts and retry publications.\<close>

definition get_due_retries :: "datetime \<Rightarrow> (db, DueRetryTask list) tx" where
  "get_due_retries available_at = (\<lambda>d. Inr (
     [due_retry logical_task attempt. logical_task \<leftarrow> db_logical_tasks d, attempt \<leftarrow> db_attempts d,
        ta_task_id attempt = lt_task_id logical_task, dispatch \<leftarrow> db_retries d,
        rd_attempt_id dispatch = ta_attempt_id attempt \<and> rd_status dispatch = ''pending'' \<and>
        rd_available_at dispatch \<le> available_at \<and> ta_status attempt = ''scheduled''], d))"

definition mark_retry_published :: "uuid \<Rightarrow> datetime \<Rightarrow> (db, bool) tx" where
  "mark_retry_published attempt_id published_at =
     tx_bind (update_where db_retries db_retries_update
        (\<lambda>r. rd_attempt_id r = attempt_id \<and> rd_status r = ''pending'')
        (\<lambda>r. r\<lparr>rd_status := ''published'', rd_published_at := Some published_at\<rparr>)) (\<lambda>rows.
     tx_bind (scalar_one_or_none rows) (\<lambda>r.
       if r = None then tx_return False
       else tx_bind (update_where db_attempts db_attempts_update
              (\<lambda>r. ta_attempt_id r = attempt_id \<and> ta_status r = ''scheduled'')
              (\<lambda>r. r\<lparr>ta_status := ''queued''\<rparr>)) (\<lambda>_. tx_return True)))"

section \<open>The invariant of the attempt table\<close>

text \<open>What the retry decisions read of an attempt.\<close>

record attempt_view =
  av_id :: uuid
  av_task :: string
  av_number :: int
  av_failure :: "uuid option"

definition att_view :: "TaskAttemptRecord \<Rightarrow> attempt_view" where
  "att_view a = \<lparr>av_id = ta_attempt_id a, av_task = ta_task_id a, av_number = ta_attempt_number a,
     av_failure = ta_failure_event_id a\<rparr>"

definition av_slot :: "attempt_view \<Rightarrow> string \<times> int" where
  "av_slot v = (av_task v, av_number v)"

definition attempts_ok :: "attempt_view list \<Rightarrow> bool" where
  "attempts_ok vs \<longleftrightarrow>
     distinct (map av_id vs) \<and> distinct (map av_slot vs) \<and>
     (\<forall>v \<in> set vs. 1 \<le> av_number v \<and> (1 < av_number v \<longrightarrow>
        (\<exists>w \<in> set vs. av_slot w = (av_task v, av_number v - 1) \<and> av_failure w \<noteq> None))) \<and>
     (\<forall>v \<in> set vs. \<forall>w \<in> set vs. av_failure v = av_failure w \<longrightarrow> av_failure v \<noteq> None \<longrightarrow> v = w)"

definition retry_inv :: "db \<Rightarrow> bool" where
  "retry_inv d \<longleftrightarrow> logical_t.unique d \<and> retries_t.unique d \<and>
     attempts_ok (map att_view (db_attempts d)) \<and>
     rd_attempt_id ` set (db_retries d) \<subseteq> ta_attempt_id ` set (db_attempts d)"

lemma att_view_sel [simp]:
  "av_id (att_view a) = ta_attempt_id a" "av_task (att_view a) = ta_task_id a"
  "av_number (att_view a) = ta_attempt_number a" "av_failure (att_view a) = ta_failure_event_id a"
  "av_slot (att_view a) = attempt_slot a"
  by (simp_all add: att_view_def av_slot_def)

lemma attempt_row_sel [simp]:
  "ta_attempt_id (attempt_row i t n s st sc c) = i" "ta_task_id (attempt_row i t n s st sc c) = t"
  "ta_attempt_number (attempt_row i t n s st sc c) = n" "ta_status (attempt_row i t n s st sc c) = s"
  "ta_failure_event_id (attempt_row i t n s st sc c) = None"
  by (simp_all add: attempt_row_def)

lemma retry_inv_unique: "retry_inv d \<Longrightarrow> attempts_t.unique d"
  by (simp add: retry_inv_def attempts_ok_def attempts_t.unique_def comp_def)

lemma attempts_ok_next_free:
  assumes "attempts_ok vs" and "v \<in> set vs" and "av_failure v = None"
  shows "(av_task v, av_number v + 1) \<notin> av_slot ` set vs"
proof
  assume "(av_task v, av_number v + 1) \<in> av_slot ` set vs"
  then obtain w where w: "w \<in> set vs" "av_task w = av_task v" "av_number w = av_number v + 1"
    by (auto simp: av_slot_def)
  from assms(1,2) have "1 \<le> av_number v" by (auto simp: attempts_ok_def)
  with w assms(1) obtain u where "u \<in> set vs" "av_slot u = av_slot v" "av_failure u \<noteq> None"
    by (fastforce simp: attempts_ok_def av_slot_def)
  with assms show False by (metis attempts_ok_def distinct_keyD)
qed

lemma attempts_ok_append:
  assumes ok: "attempts_ok vs" and "i \<notin> av_id ` set vs" and "(t, n) \<notin> av_slot ` set vs"
    and "1 \<le> n" and prev: "1 < n \<Longrightarrow> \<exists>w \<in> set vs. av_slot w = (t, n - 1) \<and> av_failure w \<noteq> None"
  shows "attempts_ok (vs @ [\<lparr>av_id = i, av_task = t, av_number = n, av_failure = None\<rparr>])"
proof -
  let ?v = "\<lparr>av_id = i, av_task = t, av_number = n, av_failure = None\<rparr>"
  have "av_slot ?v = (t, n)" by (simp add: av_slot_def)
  then show ?thesis
    using assms unfolding attempts_ok_def by auto
qed

lemma attempts_ok_fail:
  assumes ok: "attempts_ok vs" and new: "\<forall>v \<in> set vs. av_failure v \<noteq> Some e"
  shows "attempts_ok (update_rows (\<lambda>v. av_id v = i) (av_failure_update (\<lambda>_. Some e)) vs)"
proof -
  let ?g = "\<lambda>v. if av_id v = i then v\<lparr>av_failure := Some e\<rparr> else v"
  let ?ws = "update_rows (\<lambda>v. av_id v = i) (av_failure_update (\<lambda>_. Some e)) vs"
  have ws: "?ws = map ?g vs" by (simp add: update_rows_def)
  have ids: "map av_id ?ws = map av_id vs" by (simp add: map_update_rows)
  have slots: "map av_slot ?ws = map av_slot vs" by (simp add: map_update_rows av_slot_def)
  have prev: "1 \<le> av_number v \<and> (1 < av_number v \<longrightarrow>
      (\<exists>w \<in> set ?ws. av_slot w = (av_task v, av_number v - 1) \<and> av_failure w \<noteq> None))"
    if "v \<in> set ?ws" for v
  proof -
    from that obtain u where u: "u \<in> set vs" "v = ?g u" unfolding ws by auto
    have same: "av_number v = av_number u" "av_task v = av_task u" using u(2) by simp_all
    from ok u(1) have "1 \<le> av_number u \<and> (1 < av_number u \<longrightarrow>
        (\<exists>w \<in> set vs. av_slot w = (av_task u, av_number u - 1) \<and> av_failure w \<noteq> None))"
      unfolding attempts_ok_def by blast
    moreover have "\<exists>w' \<in> set ?ws. av_slot w' = av_slot w \<and> av_failure w' \<noteq> None"
      if "w \<in> set vs" "av_failure w \<noteq> None" for w
      by (rule bexI [of _ "?g w"]) (use that in \<open>auto simp: ws av_slot_def\<close>)
    ultimately show ?thesis unfolding same by metis
  qed
  have uniq: "v = w" if "v \<in> set ?ws" "w \<in> set ?ws" "av_failure v = av_failure w" "av_failure v \<noteq> None"
    for v w
  proof -
    from that(1,2) obtain x y where xy: "x \<in> set vs" "y \<in> set vs" "v = ?g x" "w = ?g y"
      unfolding ws by auto
    from xy(1,2) new have "av_failure x \<noteq> Some e" "av_failure y \<noteq> Some e" by blast+
    with xy(3,4) that(3) have "av_id x = i \<longleftrightarrow> av_id y = i"
      by (cases "av_id x = i"; cases "av_id y = i") auto
    moreover have "av_id x = i \<Longrightarrow> av_id y = i \<Longrightarrow> x = y"
      using ok xy(1,2) by (metis attempts_ok_def distinct_keyD)
    moreover have "av_id x \<noteq> i \<Longrightarrow> av_id y \<noteq> i \<Longrightarrow> x = y"
      using ok xy that(3,4) unfolding attempts_ok_def by auto
    ultimately show ?thesis using xy by auto
  qed
  show ?thesis
    using ok prev uniq unfolding attempts_ok_def ids slots by blast
qed

lemma retry_inv_rows:
  assumes "retry_inv d"
  shows "distinct (map ta_attempt_id (db_attempts d))" and "distinct (map attempt_slot (db_attempts d))"
    and "a \<in> set (db_attempts d) \<Longrightarrow> b \<in> set (db_attempts d) \<Longrightarrow>
      ta_failure_event_id a = Some e \<Longrightarrow> ta_failure_event_id b = Some e \<Longrightarrow> a = b"
proof -
  from assms show ids: "distinct (map ta_attempt_id (db_attempts d))"
    using retry_inv_unique by (auto simp: attempts_t.unique_def)
  from assms show "distinct (map attempt_slot (db_attempts d))"
    by (simp add: retry_inv_def attempts_ok_def comp_def)
  assume "a \<in> set (db_attempts d)" "b \<in> set (db_attempts d)"
    "ta_failure_event_id a = Some e" "ta_failure_event_id b = Some e"
  moreover from assms have "\<forall>v \<in> att_view ` set (db_attempts d). \<forall>w \<in> att_view ` set (db_attempts d).
      av_failure v = av_failure w \<longrightarrow> av_failure v \<noteq> None \<longrightarrow> v = w"
    unfolding retry_inv_def attempts_ok_def set_map by (elim conjE)
  ultimately have "att_view a = att_view b"
    by (metis att_view_sel(4) imageI option.distinct(1))
  then have "ta_attempt_id a = ta_attempt_id b" by (metis att_view_sel(1))
  with ids \<open>a \<in> _\<close> \<open>b \<in> _\<close> show "a = b" by (rule distinct_keyD)
qed

lemma get_attempt_eq: "retry_inv d \<Longrightarrow> get_attempt i d = Inr (attempts_t.row d i, d)"
  by (simp add: get_attempt_def attempts_t.select_one_key retry_inv_unique)

lemma get_logical_task_eq: "retry_inv d \<Longrightarrow> get_logical_task t d = Inr (logical_t.row d t, d)"
  by (simp add: get_logical_task_def logical_t.select_one_key retry_inv_def)

lemma select_failure_eq:
  assumes "retry_inv d"
  shows "select_one db_attempts (\<lambda>r. ta_failure_event_id r = Some e) d =
    Inr (find (\<lambda>r. ta_failure_event_id r = Some e) (db_attempts d), d)"
proof (cases "find (\<lambda>r. ta_failure_event_id r = Some e) (db_attempts d)")
  case None
  then have "filter (\<lambda>r. ta_failure_event_id r = Some e) (db_attempts d) = []"
    by (simp add: find_None_iff filter_empty_conv)
  with None show ?thesis by (simp add: select_one_def table_simps scalar_one_or_none_def)
next
  case (Some r)
  then have r: "r \<in> set (db_attempts d)" "ta_failure_event_id r = Some e" by (auto simp: find_Some_iff)
  then have "filter (\<lambda>x. ta_failure_event_id x = Some e) (db_attempts d) =
      filter (\<lambda>x. ta_attempt_id x = ta_attempt_id r) (db_attempts d)"
    using retry_inv_rows(3) [OF assms] distinct_keyD [OF retry_inv_rows(1) [OF assms]]
    by (intro filter_cong) blast+
  also have "\<dots> = [r]" using filter_key_singleton retry_inv_rows(1) [OF assms] r(1) by fast
  finally show ?thesis using Some by (simp add: select_one_def table_simps scalar_one_or_none_def)
qed

lemma select_slot_eq:
  assumes "retry_inv d"
  shows "select_one db_attempts (\<lambda>r. ta_task_id r = t \<and> ta_attempt_number r = n) d =
    Inr (find (\<lambda>r. attempt_slot r = (t, n)) (db_attempts d), d)"
  using filter_key_find [OF retry_inv_rows(2) [OF assms], of "(t, n)"]
  by (simp add: select_one_def table_simps scalar_one_or_none_def split: option.splits)

lemma insert_attempt_eq:
  assumes "ta_attempt_id a \<notin> ta_attempt_id ` set (db_attempts d)"
    and "attempt_slot a \<notin> attempt_slot ` set (db_attempts d)"
  shows "insert_attempt a d = Inr ((), db_attempts_update (\<lambda>rows. rows @ [a]) d)"
  using assms by (simp add: insert_attempt_def table_simps)

text \<open>Updates that leave the identity and the failure of the attempts alone keep the invariant.\<close>

lemma retry_inv_cong:
  assumes "retry_inv d" and "map att_view (db_attempts d') = map att_view (db_attempts d)"
    and "db_retries d' = db_retries d" and "map lt_task_id (db_logical_tasks d') = map lt_task_id (db_logical_tasks d)"
  shows "retry_inv d'"
proof -
  have "map ta_attempt_id (db_attempts d') = map av_id (map att_view (db_attempts d'))" for d'
    by (simp add: comp_def)
  with assms(2) have "ta_attempt_id ` set (db_attempts d') = ta_attempt_id ` set (db_attempts d)"
    by (metis list.set_map)
  with assms show ?thesis
    by (simp add: retry_inv_def logical_t.unique_def retries_t.unique_def)
qed

lemma map_att_view_update:
  "(\<And>r. p r \<Longrightarrow> att_view (f r) = att_view r) \<Longrightarrow>
     map att_view (update_rows p f rows) = map att_view rows"
  by (rule map_update_rows)

section \<open>Recording a failure\<close>

definition fail_attempt ::
    "uuid \<Rightarrow> uuid \<Rightarrow> string \<Rightarrow> string \<Rightarrow> datetime \<Rightarrow> db \<Rightarrow> db" where
  "fail_attempt i e message error_type now =
     db_attempts_update (update_rows (\<lambda>r. ta_attempt_id r = i) (\<lambda>r. r\<lparr>ta_status := ''failed'',
       ta_failure_event_id := Some e, ta_error_message := Some message, ta_error_type := Some error_type,
       ta_failed_at := Some now\<rparr>))"

definition set_task :: "string \<Rightarrow> (LogicalTaskRecord \<Rightarrow> LogicalTaskRecord) \<Rightarrow> db \<Rightarrow> db" where
  "set_task t f = db_logical_tasks_update (update_rows (\<lambda>r. lt_task_id r = t) f)"

definition failure_is_duplicate :: "db \<Rightarrow> TaskAttemptRecord \<Rightarrow> uuid \<Rightarrow> bool" where
  "failure_is_duplicate d a e \<longleftrightarrow>
     (\<exists>b \<in> set (db_attempts d). ta_failure_event_id b = Some e) \<or> ta_failure_event_id a \<noteq> None \<or>
     ta_status a = ''completed'' \<and> ta_completion_event_id a \<noteq> Some e"

definition retried :: "uuid \<Rightarrow> string \<Rightarrow> int \<Rightarrow> datetime \<Rightarrow> datetime \<Rightarrow> db \<Rightarrow> db" where
  "retried fresh t n now later d =
     set_task t (\<lambda>r. r\<lparr>lt_status := ''retry_scheduled''\<rparr>)
       (db_retries_update (\<lambda>rows. rows @ [\<lparr>rd_attempt_id = fresh, rd_available_at = later,
           rd_status = ''pending'', rd_published_at = None, rd_created_at = now\<rparr>])
         (db_attempts_update (\<lambda>rows. rows @ [attempt_row fresh t (n + 1) ''scheduled'' None (Some later) now]) d))"

lemma map_att_view_fail_attempt:
  "map att_view (db_attempts (fail_attempt i e m ty now d)) =
     update_rows (\<lambda>v. av_id v = i) (av_failure_update (\<lambda>_. Some e)) (map att_view (db_attempts d))"
  by (simp add: fail_attempt_def update_rows_def att_view_def)

lemma fail_attempt_sel [simp]:
  "db_retries (fail_attempt i e m ty now d) = db_retries d"
  "db_logical_tasks (fail_attempt i e m ty now d) = db_logical_tasks d"
  by (simp_all add: fail_attempt_def)

lemma fail_attempt_ids:
  "ta_attempt_id ` set (db_attempts (fail_attempt i e m ty now d)) = ta_attempt_id ` set (db_attempts d)"
  "attempt_slot ` set (db_attempts (fail_attempt i e m ty now d)) = attempt_slot ` set (db_attempts d)"
  by (simp_all add: fail_attempt_def image_update_rows)

lemma retry_inv_fail_attempt:
  assumes "retry_inv d" and "\<forall>b \<in> set (db_attempts d). ta_failure_event_id b \<noteq> Some e"
  shows "retry_inv (fail_attempt i e m ty now d)"
proof -
  have "attempts_ok (map att_view (db_attempts (fail_attempt i e m ty now d)))"
    unfolding map_att_view_fail_attempt
    using assms by (intro attempts_ok_fail) (auto simp: retry_inv_def)
  with assms(1) show ?thesis
    by (simp add: retry_inv_def fail_attempt_ids retries_t.unique_def logical_t.unique_def)
qed

lemma retry_inv_set_task:
  "retry_inv d \<Longrightarrow> (\<And>r. lt_task_id (f r) = lt_task_id r) \<Longrightarrow> retry_inv (set_task t f d)"
  by (erule retry_inv_cong) (simp_all add: set_task_def map_update_rows)

lemma retry_inv_retried:
  assumes inv: "retry_inv d" and b: "b \<in> set (db_attempts d)" "ta_failure_event_id b \<noteq> None"
    and slot: "attempt_slot b = (t, n)"
    and free: "(t, n + 1) \<notin> attempt_slot ` set (db_attempts d)"
    and fresh: "fresh \<notin> ta_attempt_id ` set (db_attempts d)"
  shows "retry_inv (retried fresh t n now later d)"
proof -
  have view: "att_view (attempt_row fresh t (n + 1) ''scheduled'' None (Some later) now) =
      \<lparr>av_id = fresh, av_task = t, av_number = n + 1, av_failure = None\<rparr>"
    by (simp add: attempt_row_def att_view_def)
  have images: "av_id ` set (map att_view (db_attempts d)) = ta_attempt_id ` set (db_attempts d)"
    "av_slot ` set (map att_view (db_attempts d)) = attempt_slot ` set (db_attempts d)"
    by (simp_all add: image_image)
  have prev: "\<exists>w \<in> set (map att_view (db_attempts d)). av_slot w = (t, n + 1 - 1) \<and> av_failure w \<noteq> None"
    by (rule bexI [of _ "att_view b"]) (use b slot in auto)
  from inv b(1) have "1 \<le> ta_attempt_number b" unfolding retry_inv_def attempts_ok_def by fastforce
  with slot have "1 \<le> n + 1" by simp
  with inv prev free fresh have
    "attempts_ok (map att_view (db_attempts d) @ [\<lparr>av_id = fresh, av_task = t, av_number = n + 1, av_failure = None\<rparr>])"
    unfolding retry_inv_def by (intro attempts_ok_append) (simp_all only: images not_False_eq_True)
  moreover from inv fresh have "fresh \<notin> rd_attempt_id ` set (db_retries d)"
    by (auto simp: retry_inv_def)
  ultimately have "retry_inv (db_retries_update (\<lambda>rows. rows @ [\<lparr>rd_attempt_id = fresh, rd_available_at = later,
           rd_status = ''pending'', rd_published_at = None, rd_created_at = now\<rparr>])
         (db_attempts_update (\<lambda>rows. rows @ [attempt_row fresh t (n + 1) ''scheduled'' None (Some later) now]) d))"
    using inv by (auto simp: retry_inv_def retries_t.unique_def logical_t.unique_def view)
  then show ?thesis unfolding retried_def by (rule retry_inv_set_task) simp
qed

lemma record_failure_eq:
  assumes inv: "retry_inv d" and m: "1 \<le> m" and lt: "logical_t.row d t \<noteq> None"
    and a: "attempts_t.row d i = Some a" "ta_task_id a = t"
    and fresh: "fresh \<notin> ta_attempt_id ` set (db_attempts d)"
  shows "record_failure fresh t i e msg ty now m later d = Inr (
    if failure_is_duplicate d a e then (decision RETRY_DUPLICATE, d)
    else if m \<le> ta_attempt_number a
    then (decision RETRY_EXHAUSTED, set_task t (\<lambda>r. r\<lparr>lt_status := ''failed'',
           lt_final_error_message := Some msg, lt_final_error_type := Some ty\<rparr>)
           (fail_attempt i e msg ty now d))
    else (\<lparr>rt_outcome = RETRY_SCHEDULED, rt_next_attempt_id = Some fresh,
           rt_next_attempt_number = Some (ta_attempt_number a + 1)\<rparr>,
          retried fresh t (ta_attempt_number a) now later (fail_attempt i e msg ty now d)))"
proof -
  note gets = get_logical_task_eq [OF inv] select_failure_eq [OF inv] get_attempt_eq [OF inv]
  have found: "find (\<lambda>r. ta_failure_event_id r = Some e) (db_attempts d) \<noteq> None \<longleftrightarrow>
      (\<exists>b \<in> set (db_attempts d). ta_failure_event_id b = Some e)"
    by (simp only: find_None_iff not_not Bex_def)
  show ?thesis
  proof (cases "failure_is_duplicate d a e")
    case True
    then show ?thesis
      using m lt a by (auto simp: record_failure_def gets failure_is_duplicate_def found find_None_iff)
  next
    case False
    let ?d = "fail_attempt i e msg ty now d"
    let ?new = "attempt_row fresh t (ta_attempt_number a + 1) ''scheduled'' None (Some later) now"
    have amem: "a \<in> set (db_attempts d)"
      using a(1) find_key [of ta_attempt_id i "db_attempts d" a] by (simp add: attempts_t.row_def)
    have "att_view a \<in> set (map att_view (db_attempts d))" using amem by simp
    with inv False have "attempt_slot ?new \<notin> attempt_slot ` set (db_attempts d)"
      using attempts_ok_next_free [of "map att_view (db_attempts d)" "att_view a"] a(2)
      by (simp add: retry_inv_def failure_is_duplicate_def image_image)
    with fresh have ins: "insert_attempt ?new ?d = Inr ((), db_attempts_update (\<lambda>rows. rows @ [?new]) ?d)"
      by (intro insert_attempt_eq) (simp_all add: fail_attempt_ids)
    have "find (\<lambda>r. ta_failure_event_id r = Some e) (db_attempts d) = None"
      using False found by (auto simp: failure_is_duplicate_def)
    moreover have "fresh \<notin> rd_attempt_id ` set (db_retries d)" using inv fresh by (auto simp: retry_inv_def)
    ultimately show ?thesis
      using False m lt a ins
      by (auto simp: record_failure_def gets failure_is_duplicate_def update_attempt_def
          update_logical_task_def exhaust_task_def schedule_retry_def set_task_def retried_def table_simps
          fail_attempt_def [symmetric])
  qed
qed

lemma record_failure_seen:
  assumes "retry_inv d" and "1 \<le> m" and "logical_t.row d t \<noteq> None"
    and "b \<in> set (db_attempts d)" and "ta_failure_event_id b = Some e"
  shows "record_failure fresh t i e msg ty now m later d = Inr (decision RETRY_DUPLICATE, d)"
proof -
  have "find (\<lambda>r. ta_failure_event_id r = Some e) (db_attempts d) \<noteq> None"
    using assms(4,5) by (auto simp only: find_None_iff)
  with assms show ?thesis
    by (auto simp: record_failure_def get_logical_task_eq select_failure_eq)
qed

lemma record_failure_duplicate:
  assumes "retry_inv d" and "1 \<le> m" and "logical_t.row d t \<noteq> None" and "attempts_t.row d i = Some a"
    and "ta_task_id a = t" and "failure_is_duplicate d a e"
  shows "record_failure fresh t i e msg ty now m later d = Inr (decision RETRY_DUPLICATE, d)"
  using assms
  by (auto simp: record_failure_def get_logical_task_eq select_failure_eq get_attempt_eq
      failure_is_duplicate_def find_None_iff)

text \<open>A colliding identifier makes the insertion of the next attempt fail, so a decision to retry has a new one.\<close>

lemma record_failure_collides:
  assumes inv: "retry_inv d" and m: "1 \<le> m" and lt: "logical_t.row d t \<noteq> None"
    and a: "attempts_t.row d i = Some a" "ta_task_id a = t"
    and used: "fresh \<in> ta_attempt_id ` set (db_attempts d)"
  shows "record_failure fresh t i e msg ty now m later d =
    (if failure_is_duplicate d a e then Inr (decision RETRY_DUPLICATE, d)
     else if m \<le> ta_attempt_number a
     then Inr (decision RETRY_EXHAUSTED, set_task t (\<lambda>r. r\<lparr>lt_status := ''failed'',
           lt_final_error_message := Some msg, lt_final_error_type := Some ty\<rparr>)
           (fail_attempt i e msg ty now d))
     else Inl integrity_error)"
proof (cases "failure_is_duplicate d a e")
  case True
  with record_failure_duplicate [OF inv m lt a True] show ?thesis by simp
next
  case False
  note gets = get_logical_task_eq [OF inv] select_failure_eq [OF inv] get_attempt_eq [OF inv]
  have "insert_attempt (attempt_row fresh t n st x y z) (fail_attempt i e msg ty now d) = Inl integrity_error" for n st x y z
    using used by (simp add: insert_attempt_def table_simps fail_attempt_ids)
  moreover have "find (\<lambda>r. ta_failure_event_id r = Some e) (db_attempts d) = None"
    using False by (auto simp: failure_is_duplicate_def find_None_iff)
  ultimately show ?thesis
    using False m lt a
    by (auto simp: record_failure_def gets failure_is_duplicate_def update_attempt_def
        update_logical_task_def exhaust_task_def schedule_retry_def set_task_def table_simps fail_attempt_def [symmetric])
qed

lemma record_failure_own:
  assumes "retry_inv d" and "1 \<le> m" and "logical_t.row d t \<noteq> None" and "attempts_t.row d i = Some a" and "ta_task_id a = t"
    and "record_failure fresh t i e msg ty now m later d = Inr (x, d')"
  obtains (duplicate) "failure_is_duplicate d a e" "x = decision RETRY_DUPLICATE" "d' = d"
    | (exhausted) "\<not> failure_is_duplicate d a e" "m \<le> ta_attempt_number a" "x = decision RETRY_EXHAUSTED"
        "d' = set_task t (\<lambda>r. r\<lparr>lt_status := ''failed'', lt_final_error_message := Some msg, lt_final_error_type := Some ty\<rparr>)
           (fail_attempt i e msg ty now d)"
    | (scheduled) "\<not> failure_is_duplicate d a e" "ta_attempt_number a < m" "fresh \<notin> ta_attempt_id ` set (db_attempts d)"
        "d' = retried fresh t (ta_attempt_number a) now later (fail_attempt i e msg ty now d)"
proof (cases "fresh \<in> ta_attempt_id ` set (db_attempts d)")
  case True
  from record_failure_collides [OF assms(1-5) True, of e msg ty now later] assms(6) duplicate exhausted show thesis
    by (auto split: if_splits)
next
  case False
  from record_failure_eq [OF assms(1-5) False, of e msg ty now later] assms(6) duplicate exhausted scheduled False show thesis
    by (auto split: if_splits)
qed

text \<open>A decision changes the tables only for an attempt of the task.\<close>

lemma record_failure_inv:
  assumes inv: "retry_inv d" and run: "record_failure fresh t i e msg ty now m later d = Inr (x, d')"
  obtains (same) "d' = d" and "rt_outcome x = RETRY_EXHAUSTED" and "logical_t.row d t = None"
    | (dup) b where "d' = d" and "x = decision RETRY_DUPLICATE" and "logical_t.row d t \<noteq> None"
        and "b \<in> set (db_attempts d)" and "ta_failure_event_id b = Some e"
    | (own) a where "1 \<le> m" and "logical_t.row d t \<noteq> None" and "attempts_t.row d i = Some a"
        and "ta_task_id a = t"
proof -
  note gets = get_logical_task_eq [OF inv] select_failure_eq [OF inv] get_attempt_eq [OF inv]
  from run have m: "1 \<le> m" by (auto simp: record_failure_def split: if_splits)
  show thesis
  proof (cases "logical_t.row d t")
    case None
    with run m have "d' = d" "rt_outcome x = RETRY_EXHAUSTED"
      by (auto simp: record_failure_def gets decision_def)
    with None same show thesis by blast
  next
    case (Some l)
    show thesis
    proof (cases "find (\<lambda>r. ta_failure_event_id r = Some e) (db_attempts d)")
      case None
      with Some run m own show thesis
        by (auto simp: record_failure_def gets split: if_splits option.splits)
    next
      case (Some b)
      with \<open>logical_t.row d t = Some l\<close> run m have "d' = d" "x = decision RETRY_DUPLICATE"
        by (simp_all add: record_failure_def gets)
      moreover from Some have "b \<in> set (db_attempts d)" "ta_failure_event_id b = Some e"
        by (auto simp: find_Some_iff)
      ultimately show thesis using \<open>logical_t.row d t = Some l\<close> dup by blast
    qed
  qed
qed

lemma failure_not_duplicateD:
  assumes "retry_inv d" and "attempts_t.row d i = Some a" and "\<not> failure_is_duplicate d a e"
  shows "a \<in> set (db_attempts d)" and "ta_attempt_id a = i"
    and "\<forall>b \<in> set (db_attempts d). ta_failure_event_id b \<noteq> Some e"
    and "attempt_slot a = (ta_task_id a, n) \<Longrightarrow> (ta_task_id a, n + 1) \<notin> attempt_slot ` set (db_attempts d)"
proof -
  show mem: "a \<in> set (db_attempts d)" and "ta_attempt_id a = i"
    using assms(2) find_key [of ta_attempt_id i "db_attempts d" a] by (auto simp: attempts_t.row_def)
  show "\<forall>b \<in> set (db_attempts d). ta_failure_event_id b \<noteq> Some e"
    using assms(3) by (auto simp: failure_is_duplicate_def)
  assume "attempt_slot a = (ta_task_id a, n)"
  then show "(ta_task_id a, n + 1) \<notin> attempt_slot ` set (db_attempts d)"
    using attempts_ok_next_free [of "map att_view (db_attempts d)" "att_view a"] assms mem
    by (simp add: retry_inv_def failure_is_duplicate_def image_image)
qed

lemma record_failure_keeps_inv:
  assumes inv: "retry_inv d" and run: "record_failure fresh t i e msg ty now m later d = Inr (x, d')"
  shows "retry_inv d'"
  using inv run
proof (cases rule: record_failure_inv)
  case (own a)
  have inv': "retry_inv (fail_attempt i e msg ty now d)" if "\<not> failure_is_duplicate d a e"
    by (rule retry_inv_fail_attempt [OF inv failure_not_duplicateD(3) [OF inv own(3) that]])
  from inv own run show ?thesis
  proof (cases rule: record_failure_own)
    case duplicate
    with inv show ?thesis by simp
  next
    case exhausted
    then show ?thesis using retry_inv_set_task [OF inv'] by simp
  next
    case scheduled
    note f = failure_not_duplicateD [OF inv own(3) scheduled(1)]
    have "retry_inv (retried fresh t (ta_attempt_number a) now later (fail_attempt i e msg ty now d))"
    proof (rule retry_inv_retried [OF inv' [OF scheduled(1)], of "a\<lparr>ta_status := ''failed'', ta_failure_event_id := Some e,
        ta_error_message := Some msg, ta_error_type := Some ty, ta_failed_at := Some now\<rparr>"])
      show "a\<lparr>ta_status := ''failed'', ta_failure_event_id := Some e, ta_error_message := Some msg,
          ta_error_type := Some ty, ta_failed_at := Some now\<rparr> \<in> set (db_attempts (fail_attempt i e msg ty now d))"
        using f(1,2) by (auto simp: fail_attempt_def set_update_rows)
    qed (use own f(4) scheduled(3) in \<open>simp_all add: fail_attempt_ids\<close>)
    then show ?thesis by (simp add: scheduled(4))
  qed
qed (use inv in simp_all)

section \<open>Attempts within the limit\<close>

definition attempts_within :: "int \<Rightarrow> db \<Rightarrow> bool" where
  "attempts_within m d \<longleftrightarrow> (\<forall>a \<in> set (db_attempts d). ta_attempt_number a \<le> m)"

lemma attempts_within_count:
  assumes "retry_inv d" and "attempts_within m d"
  shows "int (length (filter (\<lambda>a. ta_task_id a = t) (db_attempts d))) \<le> max 0 m"
proof -
  let ?as = "filter (\<lambda>a. ta_task_id a = t) (db_attempts d)"
  have "distinct (map attempt_slot ?as)"
    using retry_inv_rows(2) [OF assms(1)] by (rule distinct_map_filter_key)
  then have "distinct (map ta_attempt_number ?as)"
    by (auto simp: distinct_map inj_on_def)
  then have "length ?as = card (ta_attempt_number ` set ?as)"
    using distinct_card [of "map ta_attempt_number ?as"] by simp
  also have "\<dots> \<le> card {1..m}"
  proof (rule card_mono)
    have "\<forall>v \<in> att_view ` set (db_attempts d). 1 \<le> av_number v"
      using assms(1) unfolding retry_inv_def attempts_ok_def set_map by blast
    then show "ta_attempt_number ` set ?as \<subseteq> {1..m}"
      using assms(2) by (auto simp: attempts_within_def)
  qed simp
  finally show ?thesis by simp
qed

lemma attempts_within_update:
  "attempts_within m d \<Longrightarrow> (\<And>r. p r \<Longrightarrow> ta_attempt_number (f r) = ta_attempt_number r) \<Longrightarrow>
     attempts_within m (db_attempts_update (update_rows p f) d)"
  by (auto simp: attempts_within_def set_update_rows)

lemma attempts_within_set_task [simp]: "attempts_within m (set_task t f d) = attempts_within m d"
  by (simp add: attempts_within_def set_task_def)

lemma attempts_within_fail_attempt:
  "attempts_within m d \<Longrightarrow> attempts_within m (fail_attempt i e msg ty now d)"
  unfolding fail_attempt_def by (rule attempts_within_update) simp_all

lemma record_failure_within:
  assumes inv: "retry_inv d" and within: "attempts_within m d"
    and run: "record_failure fresh t i e msg ty now m later d = Inr (x, d')"
  shows "attempts_within m d'"
  using inv run
proof (cases rule: record_failure_inv)
  case (own a)
  have "attempts_within m (retried fresh t n now later d'')" if "attempts_within m d''" "n < m" for n d''
    using that by (auto simp: retried_def attempts_within_def set_task_def)
  moreover have "attempts_within m (fail_attempt i e msg ty now d)"
    using within by (rule attempts_within_fail_attempt)
  moreover from inv own run have "d' = d \<or> d' = set_task t (\<lambda>r. r\<lparr>lt_status := ''failed'', lt_final_error_message := Some msg,
       lt_final_error_type := Some ty\<rparr>) (fail_attempt i e msg ty now d) \<or>
     ta_attempt_number a < m \<and> d' = retried fresh t (ta_attempt_number a) now later (fail_attempt i e msg ty now d)"
    by (cases rule: record_failure_own) simp_all
  ultimately show ?thesis using within by auto
qed (use within in simp_all)

lemma retry_inv_add_attempt:
  "retry_inv d \<Longrightarrow> attempts_ok (map att_view (db_attempts d) @ [att_view a]) \<Longrightarrow>
     retry_inv (db_attempts_update (\<lambda>rows. rows @ [a]) d)"
  by (auto simp: retry_inv_def logical_t.unique_def retries_t.unique_def)

lemma retry_inv_add_logical:
  "retry_inv d \<Longrightarrow> lt_task_id l \<notin> lt_task_id ` set (db_logical_tasks d) \<Longrightarrow>
     retry_inv (db_logical_tasks_update (\<lambda>rows. rows @ [l]) d)"
  by (simp add: retry_inv_def logical_t.unique_def retries_t.unique_def)

lemma register_initial_task_eq:
  fixes d :: db and i e :: uuid and t n h :: string and c rin :: pydict and now :: datetime
  assumes inv: "retry_inv d"
    and fresh: "find (\<lambda>r. attempt_slot r = (t, 1)) (db_attempts d) = None \<longrightarrow> i \<notin> ta_attempt_id ` set (db_attempts d)"
  defines "l \<equiv> \<lparr>lt_task_id = t, lt_execution_id = e, lt_node_id = n, lt_handler = h,
     lt_handler_config = c, lt_resolved_input = rin, lt_status = ''running'',
     lt_final_error_message = None, lt_final_error_type = None, lt_created_at = now\<rparr>"
  defines "d1 \<equiv> if t \<in> lt_task_id ` set (db_logical_tasks d) then d
     else db_logical_tasks_update (\<lambda>rows. rows @ [l]) d"
  shows "register_initial_task t e n h c rin i now d =
    Inr (case find (\<lambda>r. attempt_slot r = (t, 1)) (db_attempts d) of
      Some a \<Rightarrow> (ta_attempt_id a, d1)
    | None \<Rightarrow> (i, db_attempts_update (\<lambda>rows. rows @ [attempt_row i t 1 ''running'' (Some now) None now]) d1))"
proof -
  have inv1: "retry_inv d1"
    using inv retry_inv_add_logical [of d l] by (simp add: d1_def l_def)
  have atts: "db_attempts d1 = db_attempts d" by (simp add: d1_def)
  have ins: "insert_ignore db_logical_tasks db_logical_tasks_update lt_task_id l d = Inr (d1 \<noteq> d \<or> t \<notin> lt_task_id ` set (db_logical_tasks d), d1)"
    by (simp add: table_simps d1_def l_def)
  have new: "find (\<lambda>r. attempt_slot r = (t, 1)) (db_attempts d) = None \<Longrightarrow>
      attempt_slot (attempt_row i t 1 ''running'' (Some now) None now) \<notin> attempt_slot ` set (db_attempts d1)"
    by (force simp: find_None_iff atts)
  show ?thesis
    unfolding register_initial_task_def l_def [symmetric]
    using insert_attempt_eq [OF _ new] fresh
    by (auto simp: ins select_slot_eq [OF inv1] atts split: option.split)
qed

lemma register_initial_task_new:
  assumes inv: "retry_inv d" and run: "register_initial_task t e n h c rin i now d = Inr (x, d')"
    and "find (\<lambda>r. attempt_slot r = (t, 1)) (db_attempts d) = None"
  shows "i \<notin> ta_attempt_id ` set (db_attempts d)"
proof -
  let ?l = "\<lparr>lt_task_id = t, lt_execution_id = e, lt_node_id = n, lt_handler = h,
     lt_handler_config = c, lt_resolved_input = rin, lt_status = ''running'',
     lt_final_error_message = None, lt_final_error_type = None, lt_created_at = now\<rparr>"
  from run obtain u d1 where ins: "insert_ignore db_logical_tasks db_logical_tasks_update lt_task_id ?l d = Inr (u, d1)"
    and rest: "tx_bind (select_one db_attempts (\<lambda>r. ta_task_id r = t \<and> ta_attempt_number r = 1)) (\<lambda>existing.
       case existing of Some a \<Rightarrow> tx_return (ta_attempt_id a)
       | None \<Rightarrow> tx_bind (insert_attempt (attempt_row i t 1 ''running'' (Some now) None now)) (\<lambda>_. tx_return i)) d1 = Inr (x, d')"
    by (auto simp: register_initial_task_def rbind_Inr_iff)
  have atts: "db_attempts d1 = db_attempts d" and inv1: "retry_inv d1"
    using ins inv retry_inv_add_logical [of d ?l] by (auto simp: table_simps split: if_splits)
  from rest assms(3) have "insert_attempt (attempt_row i t 1 ''running'' (Some now) None now) d1 \<noteq> Inl integrity_error"
    by (auto simp: select_slot_eq [OF inv1] atts)
  then show ?thesis by (auto simp: insert_attempt_def table_simps atts split: if_splits)
qed

lemma register_initial_task_keeps:
  assumes inv: "retry_inv d" and run: "register_initial_task t e n h c rin i now d = Inr (x, d')"
  shows "retry_inv d'" and "1 \<le> m \<Longrightarrow> attempts_within m d \<Longrightarrow> attempts_within m d'"
proof -
  have fresh: "find (\<lambda>r. attempt_slot r = (t, 1)) (db_attempts d) = None \<longrightarrow> i \<notin> ta_attempt_id ` set (db_attempts d)"
    using register_initial_task_new [OF inv run] by blast
  let ?row = "attempt_row i t 1 ''running'' (Some now) None now"
  have view: "att_view ?row = \<lparr>av_id = i, av_task = t, av_number = 1, av_failure = None\<rparr>"
    by (simp add: attempt_row_def att_view_def)
  have app: "attempts_ok (map att_view (db_attempts d) @ [att_view ?row])"
    if "find (\<lambda>r. attempt_slot r = (t, 1)) (db_attempts d) = None"
    unfolding view using inv fresh that
    by (intro attempts_ok_append) (auto simp: retry_inv_def find_None_iff)
  show "retry_inv d'"
    using run inv app unfolding register_initial_task_eq [OF inv fresh]
    by (auto simp: retry_inv_add_logical retry_inv_add_attempt split: option.splits if_splits)
  show "attempts_within m d'" if "1 \<le> m" "attempts_within m d"
    using run that unfolding register_initial_task_eq [OF inv fresh]
    by (auto simp: attempts_within_def split: option.splits if_splits)
qed

lemma record_success_keeps:
  assumes inv: "retry_inv d" and run: "record_success t i e now d = Inr (x, d')"
  shows "retry_inv d'" and "attempts_within m d \<Longrightarrow> attempts_within m d'"
proof -
  let ?d = "set_task t (\<lambda>r. r\<lparr>lt_status := ''completed''\<rparr>)
    (db_attempts_update (update_rows (\<lambda>r. ta_attempt_id r = i) (\<lambda>r. r\<lparr>ta_status := ''completed'',
       ta_completion_event_id := Some e, ta_completed_at := Some now\<rparr>)) d)"
  have "d' = d \<or> d' = ?d"
    using run by (auto simp: record_success_def get_logical_task_eq [OF inv] get_attempt_eq [OF inv]
        update_attempt_def update_logical_task_def set_task_def table_simps split: option.splits if_splits)
  moreover have "retry_inv ?d"
    using inv by (rule retry_inv_cong) (simp_all add: set_task_def map_update_rows att_view_def)
  moreover have "attempts_within m d \<Longrightarrow> attempts_within m ?d"
    by (simp add: attempts_within_update)
  ultimately show "retry_inv d'" and "attempts_within m d \<Longrightarrow> attempts_within m d'"
    using inv by auto
qed

lemma mark_retry_published_eq:
  assumes "retries_t.unique d"
  shows "mark_retry_published i now d = Inr (
    case retries_t.row d i of
      None \<Rightarrow> (False, d)
    | Some r \<Rightarrow> if rd_status r \<noteq> ''pending'' then (False, d)
        else (True, db_attempts_update (update_rows (\<lambda>r. ta_attempt_id r = i \<and> ta_status r = ''scheduled'')
                (\<lambda>r. r\<lparr>ta_status := ''queued''\<rparr>))
              (db_retries_update (update_rows (\<lambda>r. rd_attempt_id r = i \<and> rd_status r = ''pending'')
                (\<lambda>r. r\<lparr>rd_status := ''published'', rd_published_at := Some now\<rparr>)) d)))"
proof -
  have none: "db_retries_update (update_rows (\<lambda>r. rd_attempt_id r = i \<and> rd_status r = ''pending'') f) d = d"
    if "filter (\<lambda>r. rd_attempt_id r = i \<and> rd_status r = ''pending'') (db_retries d) = []" for f
    using that by (simp add: filter_empty_conv update_rows_none)
  show ?thesis
    using retries_t.filter_key [OF assms, of i "\<lambda>r. rd_status r = ''pending''"] none
    by (auto simp: mark_retry_published_def scalar_one_or_none_def table_simps split: option.splits)
qed

lemma mark_retry_published_keeps:
  assumes inv: "retry_inv d" and run: "mark_retry_published i now d = Inr (x, d')"
  shows "retry_inv d'" and "attempts_within m d \<Longrightarrow> attempts_within m d'"
proof -
  from inv have u: "retries_t.unique d" by (simp add: retry_inv_def)
  let ?d = "db_attempts_update (update_rows (\<lambda>r. ta_attempt_id r = i \<and> ta_status r = ''scheduled'')
      (\<lambda>r. r\<lparr>ta_status := ''queued''\<rparr>))
    (db_retries_update (update_rows (\<lambda>r. rd_attempt_id r = i \<and> rd_status r = ''pending'')
      (\<lambda>r. r\<lparr>rd_status := ''published'', rd_published_at := Some now\<rparr>)) d)"
  have cases: "d' = d \<or> d' = ?d"
    using run unfolding mark_retry_published_eq [OF u] by (auto split: option.splits if_splits)
  have "retry_inv ?d"
    using inv by (simp add: retry_inv_def logical_t.unique_def retries_t.unique_def map_update_rows
        image_update_rows att_view_def)
  moreover have "attempts_within m d \<Longrightarrow> attempts_within m ?d"
    by (rule attempts_within_update) (simp_all add: attempts_within_def)
  ultimately show "retry_inv d'" and "attempts_within m d \<Longrightarrow> attempts_within m d'"
    using cases inv by auto
qed

lemma set_task_row:
  assumes "\<And>r. lt_task_id (f r) = lt_task_id r"
  shows "logical_t.row (set_task t f d) t = map_option f (logical_t.row d t)"
proof -
  have "logical_t.row (set_task t f d) t =
      map_option (\<lambda>r. if lt_task_id r = t then f r else r) (logical_t.row d t)"
    unfolding set_task_def using assms by (rule logical_t.row_update)
  then show ?thesis by (cases "logical_t.row d t") (auto dest: logical_t.row_key)
qed

lemma set_task_rows [simp]:
  "attempts_t.row (set_task t f d) i = attempts_t.row d i"
  "retries_t.row (set_task t f d) i = retries_t.row d i"
  "db_retries (set_task t f d) = db_retries d" "db_attempts (set_task t f d) = db_attempts d"
  by (simp_all add: set_task_def attempts_t.row_def retries_t.row_def)

lemma retried_rows:
  assumes "fresh \<notin> ta_attempt_id ` set (db_attempts d)" and "fresh \<notin> rd_attempt_id ` set (db_retries d)"
  shows "attempts_t.row (retried fresh t n now later d) i = (if i = fresh
      then Some (attempt_row fresh t (n + 1) ''scheduled'' None (Some later) now) else attempts_t.row d i)"
    and "retries_t.row (retried fresh t n now later d) fresh = Some \<lparr>rd_attempt_id = fresh,
      rd_available_at = later, rd_status = ''pending'', rd_published_at = None, rd_created_at = now\<rparr>"
    and "logical_t.row (retried fresh t n now later d) t =
      map_option (\<lambda>r. r\<lparr>lt_status := ''retry_scheduled''\<rparr>) (logical_t.row d t)"
proof -
  let ?a = "attempt_row fresh t (n + 1) ''scheduled'' None (Some later) now"
  show "attempts_t.row (retried fresh t n now later d) i = (if i = fresh then Some ?a else attempts_t.row d i)"
    using attempts_t.row_insert [of ?a d i] assms(1) by (simp add: retried_def attempts_t.row_def)
  show "retries_t.row (retried fresh t n now later d) fresh = Some \<lparr>rd_attempt_id = fresh,
      rd_available_at = later, rd_status = ''pending'', rd_published_at = None, rd_created_at = now\<rparr>"
    unfolding retried_def set_task_rows using assms(2) by (subst retries_t.row_insert) simp_all
  show "logical_t.row (retried fresh t n now later d) t =
      map_option (\<lambda>r. r\<lparr>lt_status := ''retry_scheduled''\<rparr>) (logical_t.row d t)"
    unfolding retried_def by (subst set_task_row) (simp_all add: logical_t.row_def)
qed

lemma fail_attempt_logical [simp]: "logical_t.row (fail_attempt i e msg ty now d) = logical_t.row d"
  by (simp add: logical_t.row_def fun_eq_iff)

lemma fail_attempt_row:
  assumes "attempts_t.row d i = Some a"
  shows "attempts_t.row (fail_attempt i e msg ty now d) i = Some (a\<lparr>ta_status := ''failed'',
    ta_failure_event_id := Some e, ta_error_message := Some msg, ta_error_type := Some ty,
    ta_failed_at := Some now\<rparr>)"
  unfolding fail_attempt_def using assms attempts_t.row_key [OF assms]
  by (subst attempts_t.row_update) simp_all

section \<open>Properties\<close>

text \<open>C27: the retry decision. For a failure event on an attempt of a known task, \<open>record_failure\<close> never
  fails and keeps the table invariant. It answers DUPLICATE and changes nothing exactly when the
  event was seen before, the attempt already has a failure or it was completed by another event;
  otherwise it marks the attempt failed and either, at the limit, marks the task failed with the
  final error and creates nothing, or creates one scheduled attempt with the next number, due at
  the retry time, still within the limit.\<close>

theorem retry_decision:
  assumes "retry_inv d" and "1 \<le> m" and "logical_t.row d t = Some l"
    and "attempts_t.row d i = Some a" and "ta_task_id a = t"
    and "fresh \<notin> ta_attempt_id ` set (db_attempts d)"
  shows "\<exists>x d'. run_transaction (record_failure fresh t i e msg ty now m later) d = (Inr x, d') \<and> retry_inv d' \<and>
    (if failure_is_duplicate d a e then rt_outcome x = RETRY_DUPLICATE \<and> d' = d
     else attempts_t.row d' i = Some (a\<lparr>ta_status := ''failed'', ta_failure_event_id := Some e,
            ta_error_message := Some msg, ta_error_type := Some ty, ta_failed_at := Some now\<rparr>) \<and>
       (if m \<le> ta_attempt_number a
        then rt_outcome x = RETRY_EXHAUSTED \<and> db_retries d' = db_retries d \<and>
          ta_attempt_id ` set (db_attempts d') = ta_attempt_id ` set (db_attempts d) \<and>
          logical_t.row d' t = Some (l\<lparr>lt_status := ''failed'', lt_final_error_message := Some msg,
            lt_final_error_type := Some ty\<rparr>)
        else rt_outcome x = RETRY_SCHEDULED \<and> rt_next_attempt_id x = Some fresh \<and>
          attempts_t.row d' fresh =
            Some (attempt_row fresh t (ta_attempt_number a + 1) ''scheduled'' None (Some later) now) \<and>
          ta_attempt_number a + 1 \<le> m \<and>
          retries_t.row d' fresh = Some \<lparr>rd_attempt_id = fresh, rd_available_at = later,
            rd_status = ''pending'', rd_published_at = None, rd_created_at = now\<rparr> \<and>
          logical_t.row d' t = Some (l\<lparr>lt_status := ''retry_scheduled''\<rparr>)))"
proof -
  note eq = record_failure_eq [OF assms(1,2) _ assms(4,5,6), of e msg ty now later]
  let ?d = "fail_attempt i e msg ty now d"
  have "fresh \<noteq> i" using assms(4,6) attempts_t.row_key [OF assms(4)]
    by (metis attempts_t.row_absent option.distinct(1))
  have fresh: "fresh \<notin> ta_attempt_id ` set (db_attempts ?d)" "fresh \<notin> rd_attempt_id ` set (db_retries ?d)"
    using assms(1,6) by (auto simp: retry_inv_def fail_attempt_ids)
  have logical: "logical_t.row ?d t = Some l" using assms(3) by simp
  note rows = retried_rows [OF fresh] fail_attempt_row [OF assms(4)] logical
  obtain x d' where run: "record_failure fresh t i e msg ty now m later d = Inr (x, d')"
    using eq assms(3) by (metis option.distinct(1) surj_pair)
  then have inv': "retry_inv d'" by (rule record_failure_keeps_inv [OF assms(1)])
  consider "failure_is_duplicate d a e" | "\<not> failure_is_duplicate d a e" "m \<le> ta_attempt_number a"
    | "\<not> failure_is_duplicate d a e" "\<not> m \<le> ta_attempt_number a" by blast
  then show ?thesis
  proof cases
    case 1
    then show ?thesis using run eq assms(1,3) by (auto simp: decision_def)
  next
    case 2
    with run eq assms(3) have "x = decision RETRY_EXHAUSTED" and
      "d' = set_task t (\<lambda>r. r\<lparr>lt_status := ''failed'', lt_final_error_message := Some msg,
         lt_final_error_type := Some ty\<rparr>) ?d" by simp_all
    with 2 show ?thesis using run inv' rows by (simp add: decision_def set_task_row fail_attempt_ids)
  next
    case 3
    with run eq assms(3) have "x = \<lparr>rt_outcome = RETRY_SCHEDULED, rt_next_attempt_id = Some fresh,
        rt_next_attempt_number = Some (ta_attempt_number a + 1)\<rparr>" and
      "d' = retried fresh t (ta_attempt_number a) now later ?d" by simp_all
    with 3 show ?thesis using run inv' rows \<open>fresh \<noteq> i\<close> by simp
  qed
qed

definition sample_attempt :: TaskAttemptRecord where
  "sample_attempt = attempt_row 7 ''t'' 1 ''running'' (Some 0) None 0"

definition sample_logical :: LogicalTaskRecord where
  "sample_logical = \<lparr>lt_task_id = ''t'', lt_execution_id = 1, lt_node_id = ''a'', lt_handler = ''mock_llm'',
     lt_handler_config = [], lt_resolved_input = [], lt_status = ''running'',
     lt_final_error_message = None, lt_final_error_type = None, lt_created_at = 0\<rparr>"

definition empty_db :: db where
  "empty_db = \<lparr>db_workflows = [], db_executions = [], db_nodes = [], db_outbox = [],
     db_logical_tasks = [], db_attempts = [], db_retries = [], db_processing = [], db_now = 0\<rparr>"

definition retry_db :: db where
  "retry_db = empty_db\<lparr>db_logical_tasks := [sample_logical], db_attempts := [sample_attempt]\<rparr>"

lemma retry_db_rows:
  "attempts_t.row retry_db 7 = Some sample_attempt" "logical_t.row retry_db ''t'' = Some sample_logical"
  "db_attempts retry_db = [sample_attempt]" "ta_attempt_id sample_attempt = 7"
  "ta_task_id sample_attempt = ''t''"
  by (simp_all add: retry_db_def sample_attempt_def sample_logical_def attempts_t.row_def logical_t.row_def)

lemma retry_db_inv: "retry_inv retry_db"
  by (simp add: retry_inv_def attempts_ok_def logical_t.unique_def retries_t.unique_def retry_db_def
      empty_db_def sample_attempt_def)

theorem retry_decision_witness:
  "\<exists>x d'. run_transaction (record_failure 8 ''t'' 7 9 ''boom'' ''ValueError'' 5 3 15) retry_db = (Inr x, d') \<and>
     rt_outcome x = RETRY_SCHEDULED \<and> rt_next_attempt_id x = Some 8"
proof -
  have "\<not> failure_is_duplicate retry_db sample_attempt 9"
    by (simp add: failure_is_duplicate_def retry_db_rows) (simp add: sample_attempt_def)
  moreover have "ta_attempt_number sample_attempt = 1" by (simp add: sample_attempt_def)
  ultimately show ?thesis
    using retry_decision [OF retry_db_inv, of 3 "''t''" sample_logical 7 sample_attempt 8 9 "''boom''" "''ValueError''" 5 15]
    by (auto simp: retry_db_rows)
qed

text \<open>Recording an event again, on a database with the same tasks and attempts.\<close>

lemma record_failure_again:
  assumes "retry_inv d" and "logical_t.row d t \<noteq> None"
    and run: "record_failure fresh t i e msg ty now m later d = Inr (x, d')" and m: "1 \<le> m'"
    and same: "db_logical_tasks d1 = db_logical_tasks d'" "db_attempts d1 = db_attempts d'" "db_retries d1 = db_retries d'"
  shows "record_failure fresh' t i e msg' ty' now' m' later' d1 = Inr (decision RETRY_DUPLICATE, d1)"
proof -
  have "retry_inv d'" by (rule record_failure_keeps_inv [OF assms(1) run])
  then have inv1: "retry_inv d1" by (rule retry_inv_cong) (simp_all add: same)
  have rows: "logical_t.row d1 = logical_t.row d'" "attempts_t.row d1 = attempts_t.row d'"
    by (simp_all add: fun_eq_iff logical_t.row_def attempts_t.row_def same)
  show ?thesis
    using assms(1) run
  proof (cases rule: record_failure_inv)
    case (dup b)
    then show ?thesis using record_failure_seen [OF inv1 m] rows same by simp
  next
    case (own a)
    let ?d = "fail_attempt i e msg ty now d"
    let ?a = "a\<lparr>ta_status := ''failed'', ta_failure_event_id := Some e, ta_error_message := Some msg,
      ta_error_type := Some ty, ta_failed_at := Some now\<rparr>"
    have seen: ?thesis if "attempts_t.row d' i = Some ?a" "logical_t.row d' t \<noteq> None"
    proof -
      from that(1) have "?a \<in> set (db_attempts d1)"
        unfolding attempts_t.row_def same(2) by (rule find_key [THEN conjunct2])
      then show ?thesis using record_failure_seen [OF inv1 m] that(2) rows by simp
    qed
    from assms(1) own run show ?thesis
    proof (cases rule: record_failure_own)
      case duplicate
      then show ?thesis using record_failure_duplicate [OF inv1 m] own rows same by (simp add: failure_is_duplicate_def)
    next
      case exhausted
      then show ?thesis using seen own(2) fail_attempt_row [OF own(3)] by (auto simp: set_task_row)
    next
      case scheduled
      have fresh: "fresh \<notin> ta_attempt_id ` set (db_attempts ?d)" "fresh \<notin> rd_attempt_id ` set (db_retries ?d)"
        using assms(1) scheduled(3) by (auto simp: retry_inv_def fail_attempt_ids)
      have "fresh \<noteq> i" using own(3) scheduled(3) attempts_t.row_key [OF own(3)]
        by (metis attempts_t.row_absent option.distinct(1))
      then show ?thesis using seen own(2) retried_rows [OF fresh] fail_attempt_row [OF own(3)] scheduled(4) by auto
    qed
  qed (use assms(2) in simp)
qed

lemma record_success_again:
  assumes inv: "retry_inv d" and task: "logical_t.row d t \<noteq> None"
    and run: "record_success t i e now d = Inr (x, d')"
    and same: "db_logical_tasks d1 = db_logical_tasks d'" "db_attempts d1 = db_attempts d'" "db_retries d1 = db_retries d'"
  shows "record_success t i e now' d1 = Inr (False, d1)"
proof -
  have "retry_inv d'" using record_success_keeps(1) [OF inv run] .
  then have inv1: "retry_inv d1" by (rule retry_inv_cong) (simp_all add: same)
  note gets = get_logical_task_eq [OF inv] get_attempt_eq [OF inv]
  note gets1 = get_logical_task_eq [OF inv1] get_attempt_eq [OF inv1]
  have rows: "logical_t.row d1 = logical_t.row d'" "attempts_t.row d1 = attempts_t.row d'"
    by (simp_all add: fun_eq_iff logical_t.row_def attempts_t.row_def same)
  from run task obtain a where a: "attempts_t.row d i = Some a" "ta_task_id a = t"
    by (auto simp: record_success_def gets split: option.splits if_splits)
  show ?thesis
  proof (cases "ta_completion_event_id a = Some e \<or> ta_status a \<in> {''completed'', ''failed''} \<and> ta_completion_event_id a \<noteq> None")
    case True
    with run task a have "d' = d" by (auto simp: record_success_def gets split: if_splits)
    with True task a show ?thesis by (auto simp: record_success_def gets1 rows)
  next
    case False
    let ?f = "\<lambda>r. r\<lparr>ta_status := ''completed'', ta_completion_event_id := Some e, ta_completed_at := Some now\<rparr>"
    from False run task a have d': "d' = db_logical_tasks_update (update_rows (\<lambda>r. lt_task_id r = t) (\<lambda>r. r\<lparr>lt_status := ''completed''\<rparr>))
        (db_attempts_update (update_rows (\<lambda>r. ta_attempt_id r = i) ?f) d)"
      by (auto simp: record_success_def gets update_attempt_def update_logical_task_def table_simps split: if_splits)
    have "attempts_t.row d' i = Some (?f a)"
      using find_update_rows [of "\<lambda>r. ta_attempt_id r = i" ta_attempt_id ?f i "db_attempts d"] a attempts_t.row_key [OF a(1)]
      by (simp add: d' attempts_t.row_def)
    moreover have "logical_t.row d' t \<noteq> None"
      using find_update_rows [of "\<lambda>r. lt_task_id r = t" lt_task_id "\<lambda>r. r\<lparr>lt_status := ''completed''\<rparr>" t "db_logical_tasks d"] task
      by (simp add: d' logical_t.row_def)
    ultimately show ?thesis using a(2) by (auto simp: record_success_def gets1 rows)
  qed
qed

text \<open>Failure events are idempotent. Once \<open>record_failure\<close> has decided on an event of a known task,
  recording the same event for that attempt again, at any later time and under any limit, answers
  DUPLICATE and leaves the database as it is.\<close>

theorem failure_event_idempotent:
  assumes "retry_inv d" and "logical_t.row d t \<noteq> None"
    and "run_transaction (record_failure fresh t i e msg ty now m later) d = (Inr x, d')"
    and "1 \<le> m'"
  shows "run_transaction (record_failure fresh' t i e msg' ty' now' m' later') d' =
    (Inr (decision RETRY_DUPLICATE), d')"
  using record_failure_again [OF assms(1,2) _ assms(4) refl refl refl] assms(3) by (simp add: run_transaction_Inr)

theorem failure_event_idempotent_witness:
  "\<exists>x d'. run_transaction (record_failure 8 ''t'' 7 9 ''boom'' ''ValueError'' 5 3 15) retry_db = (Inr x, d') \<and>
     run_transaction (record_failure 8 ''t'' 7 9 ''boom'' ''ValueError'' 6 3 16) d' = (Inr (decision RETRY_DUPLICATE), d')"
proof -
  have "\<exists>x d'. record_failure 8 ''t'' 7 9 ''boom'' ''ValueError'' 5 3 15 retry_db = Inr (x, d')"
    using record_failure_eq [OF retry_db_inv, of 3 "''t''" 7 sample_attempt 8 9] by (simp add: retry_db_rows)
  then obtain x d' where
    run: "run_transaction (record_failure 8 ''t'' 7 9 ''boom'' ''ValueError'' 5 3 15) retry_db = (Inr x, d')"
    by (auto simp: run_transaction_Inr)
  then show ?thesis
    using failure_event_idempotent [OF retry_db_inv _ run] by (auto simp: retry_db_rows)
qed

definition due_ids :: "datetime \<Rightarrow> db \<Rightarrow> uuid list" where
  "due_ids available_at d = (case get_due_retries available_at d of
     Inl _ \<Rightarrow> [] | Inr (xs, _) \<Rightarrow> map due_attempt_id xs)"

lemma set_due_ids:
  "i \<in> set (due_ids now d) \<longleftrightarrow> (\<exists>l \<in> set (db_logical_tasks d). \<exists>a \<in> set (db_attempts d). \<exists>r \<in> set (db_retries d).
     ta_task_id a = lt_task_id l \<and> ta_attempt_id a = i \<and> rd_attempt_id r = i \<and> rd_status r = ''pending'' \<and>
     rd_available_at r \<le> now \<and> ta_status a = ''scheduled'')"
proof -
  have "due_attempt_id (due_retry l a) = ta_attempt_id a" for l a by (simp add: due_retry_def)
  then show ?thesis by (auto simp: due_ids_def get_due_retries_def image_UN)
qed

lemma due_ids_rows:
  assumes inv: "retry_inv d" and a: "attempts_t.row d i = Some a" and r: "retries_t.row d i = Some r"
    and l: "logical_t.row d (ta_task_id a) \<noteq> None"
  shows "i \<in> set (due_ids now d) \<longleftrightarrow>
    rd_status r = ''pending'' \<and> rd_available_at r \<le> now \<and> ta_status a = ''scheduled''"
proof -
  have u: "attempts_t.unique d" "retries_t.unique d"
    using inv retry_inv_unique by (auto simp: retry_inv_def)
  have "b \<in> set (db_attempts d) \<Longrightarrow> ta_attempt_id b = i \<Longrightarrow> b = a" for b
    using attempts_t.row_mem [OF u(1), of b] a by simp
  moreover have "q \<in> set (db_retries d) \<Longrightarrow> rd_attempt_id q = i \<Longrightarrow> q = r" for q
    using retries_t.row_mem [OF u(2), of q] r by simp
  moreover have "a \<in> set (db_attempts d)" "ta_attempt_id a = i"
    using a attempts_t.row_mem [OF u(1), of a] attempts_t.row_key [OF a] by simp_all
  moreover have "r \<in> set (db_retries d)" "rd_attempt_id r = i"
    using r retries_t.row_mem [OF u(2), of r] retries_t.row_key [OF r] by simp_all
  moreover have "\<exists>l \<in> set (db_logical_tasks d). lt_task_id l = ta_task_id a"
  proof -
    from l obtain q where q: "logical_t.row d (ta_task_id a) = Some q" by auto
    then have "lt_task_id q = ta_task_id a \<and> q \<in> set (db_logical_tasks d)"
      unfolding logical_t.row_def by (rule find_key)
    then show ?thesis by blast
  qed
  ultimately show ?thesis unfolding set_due_ids by metis
qed

text \<open>Delayed publication. A retry scheduled by \<open>record_failure\<close> is returned by \<open>get_due_retries\<close>
  exactly from its retry time on; \<open>mark_retry_published\<close> succeeds on it once, after which it is never
  due again and marking it again answers false and changes nothing.\<close>

theorem retry_published_once:
  assumes "retry_inv d" and "logical_t.row d t \<noteq> None"
    and "run_transaction (record_failure fresh t i e msg ty now m later) d = (Inr x, d')"
    and "rt_outcome x = RETRY_SCHEDULED"
  shows "(fresh \<in> set (due_ids at d') \<longleftrightarrow> later \<le> at) \<and>
    (\<exists>d''. run_transaction (mark_retry_published fresh now') d' = (Inr True, d'') \<and>
      fresh \<notin> set (due_ids at d'') \<and>
      run_transaction (mark_retry_published fresh now'') d'' = (Inr False, d''))"
proof -
  from assms(3) have run: "record_failure fresh t i e msg ty now m later d = Inr (x, d')"
    by (simp add: run_transaction_Inr)
  have inv': "retry_inv d'" by (rule record_failure_keeps_inv [OF assms(1) run])
  let ?a = "\<lambda>n. attempt_row fresh t n ''scheduled'' None (Some later) now"
  let ?r = "\<lparr>rd_attempt_id = fresh, rd_available_at = later, rd_status = ''pending'', rd_published_at = None,
     rd_created_at = now\<rparr>"
  have "\<exists>n. attempts_t.row d' fresh = Some (?a n) \<and> retries_t.row d' fresh = Some ?r \<and>
      logical_t.row d' t \<noteq> None"
    using assms(1) run
  proof (cases rule: record_failure_inv)
    case (own a)
    let ?d = "fail_attempt i e msg ty now d"
    from assms(1) own run show ?thesis
    proof (cases rule: record_failure_own)
      case scheduled
      have fresh: "fresh \<notin> ta_attempt_id ` set (db_attempts ?d)" "fresh \<notin> rd_attempt_id ` set (db_retries ?d)"
        using assms(1) scheduled(3) by (auto simp: retry_inv_def fail_attempt_ids)
      show ?thesis
        using retried_rows [OF fresh] own(2) unfolding scheduled(4) by (intro exI [of _ "ta_attempt_number a + 1"]) auto
    qed (use assms(4) in \<open>simp_all add: decision_def\<close>)
  qed (use assms(2,4) in \<open>simp_all add: decision_def\<close>)
  then obtain n where a: "attempts_t.row d' fresh = Some (?a n)" and r: "retries_t.row d' fresh = Some ?r"
    and l: "logical_t.row d' t \<noteq> None" by blast
  have due: "fresh \<in> set (due_ids at d') \<longleftrightarrow> later \<le> at" using due_ids_rows [OF inv' a r] l by simp
  have u: "retries_t.unique d'" using inv' by (simp add: retry_inv_def)
  obtain d'' where d'': "mark_retry_published fresh now' d' = Inr (True, d'')"
    using mark_retry_published_eq [OF u, of fresh now'] r by simp
  then have inv'': "retry_inv d''" by (rule mark_retry_published_keeps(1) [OF inv'])
  then have u'': "retries_t.unique d''" by (simp add: retry_inv_def)
  have r'': "retries_t.row d'' fresh = Some (?r\<lparr>rd_status := ''published'', rd_published_at := Some now'\<rparr>)"
    using d'' r unfolding mark_retry_published_eq [OF u]
    by (auto simp: retries_t.row_def find_update_rows)
  have "fresh \<notin> set (due_ids at d'')"
    using retries_t.row_mem [OF u''] r'' by (auto simp: set_due_ids)
  moreover have "mark_retry_published fresh now'' d'' = Inr (False, d'')"
    using r'' by (simp add: mark_retry_published_eq [OF u''])
  ultimately show ?thesis using d'' due by (auto simp: run_transaction_Inr)
qed

theorem retry_published_once_witness:
  "\<exists>x d'. run_transaction (record_failure 8 ''t'' 7 9 ''boom'' ''ValueError'' 5 3 15) retry_db = (Inr x, d') \<and>
     8 \<in> set (due_ids 20 d') \<and> 8 \<notin> set (due_ids 10 d')"
proof -
  have "record_failure 8 ''t'' 7 9 ''boom'' ''ValueError'' 5 3 15 retry_db =
      Inr (\<lparr>rt_outcome = RETRY_SCHEDULED, rt_next_attempt_id = Some 8, rt_next_attempt_number = Some 2\<rparr>,
        retried 8 ''t'' 1 5 15 (fail_attempt 7 9 ''boom'' ''ValueError'' 5 retry_db))"
    using record_failure_eq [OF retry_db_inv, of 3 "''t''" 7 sample_attempt 8 9 "''boom''" "''ValueError''" 5 15]
    by (simp add: retry_db_rows failure_is_duplicate_def) (simp add: sample_attempt_def)
  then have run: "run_transaction (record_failure 8 ''t'' 7 9 ''boom'' ''ValueError'' 5 3 15) retry_db =
      (Inr \<lparr>rt_outcome = RETRY_SCHEDULED, rt_next_attempt_id = Some 8, rt_next_attempt_number = Some 2\<rparr>,
        retried 8 ''t'' 1 5 15 (fail_attempt 7 9 ''boom'' ''ValueError'' 5 retry_db))"
    by (simp add: run_transaction_Inr)
  then show ?thesis
    using retry_published_once [OF retry_db_inv _ run, of 20]
      retry_published_once [OF retry_db_inv _ run, of 10]
    by (simp add: retry_db_rows)
qed

end
