(* ===== verification/Processing.thy ===== *)
theory Processing
  imports Retry
begin

text \<open>
  Worker claims: \<open>SqlAlchemyTaskAttemptProcessingRepository\<close> (one row per attempt) and
  \<open>SqlAlchemyTaskProcessingRepository\<close> (one row per task) of
  \<open>app/infrastructure/persistence/repositories\<close>. Both implement the same contract, stated as the
  locale \<open>claim_repository\<close> over an abstract claim state per key: a lease that excludes other workers
  until it expires, a result that is recorded once by a holder and replayed until the task is
  closed. The locale is interpreted on both repositories.
\<close>

datatype TaskClaimOutcome = CLAIMED | ALREADY_COMPLETED | CURRENTLY_CLAIMED | RESULT_RECORDED

record TaskProcessingResult =
  pr_event_id :: uuid
  pr_result_data :: pyval
  pr_error_message :: "string option"
  pr_error_type :: "string option"

text \<open>\<open>result.scalar_one()\<close>\<close>

definition scalar_one :: "'r list \<Rightarrow> ('d, 'r) tx" where
  "scalar_one rows = (case rows of [r] \<Rightarrow> tx_return r | _ \<Rightarrow> tx_raise integrity_error)"

text \<open>An update that must return a row.\<close>

definition require_row :: "error \<Rightarrow> 'r list \<Rightarrow> ('d, unit) tx" where
  "require_row e rows = tx_bind (scalar_one_or_none rows) (\<lambda>r.
     if r = None then tx_raise e else tx_return ())"

section \<open>Claims on attempts\<close>

definition claim_attempt ::
    "uuid \<Rightarrow> string \<Rightarrow> uuid \<Rightarrow> string \<Rightarrow> string \<Rightarrow> datetime \<Rightarrow> datetime \<Rightarrow> (db, TaskClaimOutcome) tx" where
  "claim_attempt attempt_id task_id execution_id node_id worker_id claimed_at claim_expires_at =
     tx_bind (select_one db_attempts (\<lambda>r. ta_attempt_id r = attempt_id)) (\<lambda>attempt.
       case attempt of
         None \<Rightarrow> tx_raise (ValueError (''Attempt '' @ quoted (uuid_str attempt_id) @ '' was not found.''))
       | Some a \<Rightarrow>
           tx_bind (select_one db_logical_tasks (\<lambda>r. lt_task_id r = task_id)) (\<lambda>logical_task.
             if (case logical_task of None \<Rightarrow> True
                 | Some l \<Rightarrow> ta_task_id a \<noteq> task_id \<or> lt_execution_id l \<noteq> execution_id \<or> lt_node_id l \<noteq> node_id)
             then tx_raise (ValueError (''Attempt '' @ quoted (uuid_str attempt_id) @
                    '' does not match task '' @ quoted task_id @ ''.''))
             else if ta_status a = ''completed'' then tx_return ALREADY_COMPLETED
             else if ta_status a = ''result_recorded'' then tx_return RESULT_RECORDED
             else if ta_claimed_by a \<noteq> None \<and>
                (case ta_claim_expires_at a of None \<Rightarrow> True | Some expires \<Rightarrow> claimed_at < expires)
             then tx_return CURRENTLY_CLAIMED
             else tx_bind (update_attempt attempt_id (\<lambda>r. r\<lparr>ta_status := ''claimed'',
                      ta_claimed_by := Some worker_id, ta_claimed_at := Some claimed_at,
                      ta_claim_expires_at := Some claim_expires_at\<rparr>)) (\<lambda>_. tx_return CLAIMED)))"

definition record_attempt_result ::
    "uuid \<Rightarrow> uuid \<Rightarrow> pyval \<Rightarrow> string option \<Rightarrow> string option \<Rightarrow> (db, unit) tx" where
  "record_attempt_result attempt_id event_id result_data message error_type =
     tx_bind (update_where db_attempts db_attempts_update
        (\<lambda>r. ta_attempt_id r = attempt_id \<and> ta_status r = ''claimed'')
        (\<lambda>r. r\<lparr>ta_status := ''result_recorded'', ta_result_data := result_data, ta_error_message := message,
               ta_error_type := error_type, ta_completion_event_id := Some event_id\<rparr>))
       (require_row (ValueError (''Attempt '' @ quoted (uuid_str attempt_id) @
          '' is not available to record a result.'')))"

definition get_attempt_result :: "uuid \<Rightarrow> (db, TaskProcessingResult) tx" where
  "get_attempt_result attempt_id =
     tx_bind (select_where db_attempts (\<lambda>r. ta_attempt_id r = attempt_id)) (\<lambda>rows.
     tx_bind (scalar_one rows) (\<lambda>a.
       case ta_completion_event_id a of
         None \<Rightarrow> tx_raise (ValueError (''Attempt '' @ quoted (uuid_str attempt_id) @
                   '' has no completion event to replay.''))
       | Some e \<Rightarrow> tx_return \<lparr>pr_event_id = e, pr_result_data = ta_result_data a,
                   pr_error_message = ta_error_message a, pr_error_type = ta_error_type a\<rparr>))"

definition mark_attempt_completed :: "uuid \<Rightarrow> datetime \<Rightarrow> (db, unit) tx" where
  "mark_attempt_completed attempt_id completed_at =
     tx_bind (update_where db_attempts db_attempts_update
        (\<lambda>r. ta_attempt_id r = attempt_id \<and> ta_status r = ''result_recorded'')
        (\<lambda>r. r\<lparr>ta_status := ''completed'', ta_completed_at := Some completed_at,
               ta_completion_published_at := Some completed_at, ta_claim_expires_at := None\<rparr>))
       (require_row (ValueError (''Attempt '' @ quoted (uuid_str attempt_id) @
          '' is not available to mark completed.'')))"

definition renew_attempt_claim :: "uuid \<Rightarrow> string \<Rightarrow> datetime \<Rightarrow> (db, bool) tx" where
  "renew_attempt_claim attempt_id worker_id claim_expires_at =
     tx_bind (update_where db_attempts db_attempts_update
        (\<lambda>r. ta_attempt_id r = attempt_id \<and> ta_status r = ''claimed'' \<and> ta_claimed_by r = Some worker_id)
        (\<lambda>r. r\<lparr>ta_claim_expires_at := Some claim_expires_at\<rparr>))
       (\<lambda>rows. tx_bind (scalar_one_or_none rows) (\<lambda>r. tx_return (r \<noteq> None)))"

section \<open>Claims on tasks\<close>

definition claim_task ::
    "string \<Rightarrow> uuid \<Rightarrow> string \<Rightarrow> string \<Rightarrow> datetime \<Rightarrow> datetime \<Rightarrow> (db, TaskClaimOutcome) tx" where
  "claim_task task_id execution_id node_id worker_id claimed_at claim_expires_at =
     tx_bind (insert_ignore db_processing db_processing_update tp_task_id
        \<lparr>tp_task_id = task_id, tp_execution_id = execution_id, tp_node_id = node_id,
         tp_status = ''claimed'', tp_claimed_by = Some worker_id, tp_claimed_at = claimed_at,
         tp_claim_expires_at = Some claim_expires_at, tp_result_data = PNone, tp_error_message = None,
         tp_error_type = None, tp_completion_event_id = None, tp_completion_published_at = None,
         tp_completed_at = None\<rparr>) (\<lambda>inserted.
     if inserted then tx_return CLAIMED
     else
       tx_bind (select_where db_processing (\<lambda>r. tp_task_id r = task_id)) (\<lambda>rows.
       tx_bind (scalar_one rows) (\<lambda>existing.
         if tp_execution_id existing \<noteq> execution_id \<or> tp_node_id existing \<noteq> node_id
         then tx_raise (ValueError (''Task '' @ quoted task_id @
                '' does not match its existing execution and node identity.''))
         else if tp_status existing = ''completed'' then tx_return ALREADY_COMPLETED
         else if tp_status existing = ''result_recorded'' then tx_return RESULT_RECORDED
         else
           tx_bind (update_where db_processing db_processing_update
              (\<lambda>r. tp_task_id r = task_id \<and> tp_status r \<noteq> ''completed'' \<and> tp_status r = ''claimed'' \<and>
                 (case tp_claim_expires_at r of None \<Rightarrow> False | Some expires \<Rightarrow> expires \<le> claimed_at))
              (\<lambda>r. r\<lparr>tp_execution_id := execution_id, tp_node_id := node_id, tp_claimed_by := Some worker_id,
                     tp_claimed_at := claimed_at, tp_claim_expires_at := Some claim_expires_at\<rparr>)) (\<lambda>reclaimed.
           tx_bind (scalar_one_or_none reclaimed) (\<lambda>r.
             tx_return (if r \<noteq> None then CLAIMED else CURRENTLY_CLAIMED))))))"

definition record_task_result ::
    "string \<Rightarrow> uuid \<Rightarrow> pyval \<Rightarrow> string option \<Rightarrow> string option \<Rightarrow> (db, unit) tx" where
  "record_task_result task_id event_id result_data message error_type =
     tx_bind (update_where db_processing db_processing_update
        (\<lambda>r. tp_task_id r = task_id \<and> tp_status r = ''claimed'')
        (\<lambda>r. r\<lparr>tp_status := ''result_recorded'', tp_result_data := result_data, tp_error_message := message,
               tp_error_type := error_type, tp_completion_event_id := Some event_id\<rparr>))
       (require_row (ValueError (''Task '' @ quoted task_id @ '' is not available to record a result.'')))"

definition get_task_result :: "string \<Rightarrow> (db, TaskProcessingResult) tx" where
  "get_task_result task_id =
     tx_bind (select_where db_processing (\<lambda>r. tp_task_id r = task_id)) (\<lambda>rows.
     tx_bind (scalar_one rows) (\<lambda>t.
       case tp_completion_event_id t of
         None \<Rightarrow> tx_raise (ValueError (''Task '' @ quoted task_id @ '' has no completion event to replay.''))
       | Some e \<Rightarrow> tx_return \<lparr>pr_event_id = e, pr_result_data = tp_result_data t,
                   pr_error_message = tp_error_message t, pr_error_type = tp_error_type t\<rparr>))"

definition mark_task_completed :: "string \<Rightarrow> datetime \<Rightarrow> (db, unit) tx" where
  "mark_task_completed task_id completed_at =
     tx_bind (update_where db_processing db_processing_update
        (\<lambda>r. tp_task_id r = task_id \<and> tp_status r = ''result_recorded'')
        (\<lambda>r. r\<lparr>tp_status := ''completed'', tp_completed_at := Some completed_at,
               tp_completion_published_at := Some completed_at, tp_claim_expires_at := None\<rparr>))
       (require_row (ValueError (''Task '' @ quoted task_id @ '' is not available to mark completed.'')))"

definition renew_task_claim :: "string \<Rightarrow> string \<Rightarrow> datetime \<Rightarrow> (db, bool) tx" where
  "renew_task_claim task_id worker_id claim_expires_at =
     tx_bind (update_where db_processing db_processing_update
        (\<lambda>r. tp_task_id r = task_id \<and> tp_status r = ''claimed'' \<and> tp_claimed_by r = Some worker_id)
        (\<lambda>r. r\<lparr>tp_claim_expires_at := Some claim_expires_at\<rparr>))
       (\<lambda>rows. tx_bind (scalar_one_or_none rows) (\<lambda>r. tx_return (r \<noteq> None)))"

section \<open>The contract of a claim repository\<close>

datatype claim_state =
    Waiting "string option" "datetime option"
  | Held string "datetime option"
  | Recorded TaskProcessingResult
  | Closed

definition leased :: "datetime option \<Rightarrow> datetime \<Rightarrow> bool" where
  "leased expires now \<longleftrightarrow> (case expires of None \<Rightarrow> True | Some t \<Rightarrow> now < t)"

definition claim_spec ::
    "claim_state \<Rightarrow> string \<Rightarrow> datetime \<Rightarrow> datetime \<Rightarrow> TaskClaimOutcome \<times> claim_state" where
  "claim_spec s worker now expires = (case s of
     Closed \<Rightarrow> (ALREADY_COMPLETED, s)
   | Recorded _ \<Rightarrow> (RESULT_RECORDED, s)
   | Held _ e \<Rightarrow> if leased e now then (CURRENTLY_CLAIMED, s) else (CLAIMED, Held worker (Some expires))
   | Waiting holder e \<Rightarrow> if holder \<noteq> None \<and> leased e now then (CURRENTLY_CLAIMED, s)
       else (CLAIMED, Held worker (Some expires)))"

text \<open>
  The laws name the abstract effect of every operation. A claim may raise for an identity that does
  not match; \<open>known\<close> says when it does not.
\<close>

locale claim_repository =
  fixes abs :: "'d \<Rightarrow> 'k \<Rightarrow> claim_state"
    and ok :: "'d \<Rightarrow> bool"
    and known :: "'d \<Rightarrow> 'k \<Rightarrow> 'i \<Rightarrow> bool"
    and claim :: "'k \<Rightarrow> 'i \<Rightarrow> string \<Rightarrow> datetime \<Rightarrow> datetime \<Rightarrow> ('d, TaskClaimOutcome) tx"
    and record_result :: "'k \<Rightarrow> uuid \<Rightarrow> pyval \<Rightarrow> string option \<Rightarrow> string option \<Rightarrow> ('d, unit) tx"
    and get_result :: "'k \<Rightarrow> ('d, TaskProcessingResult) tx"
    and mark_completed :: "'k \<Rightarrow> datetime \<Rightarrow> ('d, unit) tx"
    and renew :: "'k \<Rightarrow> string \<Rightarrow> datetime \<Rightarrow> ('d, bool) tx"
  assumes claim_refines: "ok d \<Longrightarrow> claim k i w now expires d = Inr (out, d') \<Longrightarrow>
      ok d' \<and> out = fst (claim_spec (abs d k) w now expires) \<and>
      abs d' = (abs d)(k := snd (claim_spec (abs d k) w now expires))"
    and claim_total: "ok d \<Longrightarrow> known d k i \<Longrightarrow> \<exists>out d'. claim k i w now expires d = Inr (out, d')"
    and record_refines: "ok d \<Longrightarrow> record_result k e v m ty d = Inr (u, d') \<Longrightarrow>
      ok d' \<and> (\<exists>w t. abs d k = Held w t) \<and>
      abs d' = (abs d)(k := Recorded \<lparr>pr_event_id = e, pr_result_data = v, pr_error_message = m, pr_error_type = ty\<rparr>)"
    and record_total: "ok d \<Longrightarrow> abs d k = Held w t \<Longrightarrow> \<exists>d'. record_result k e v m ty d = Inr ((), d')"
    and get_refines: "ok d \<Longrightarrow> abs d k = Recorded r \<Longrightarrow> get_result k d = Inr (r, d)"
    and mark_refines: "ok d \<Longrightarrow> mark_completed k now d = Inr (u, d') \<Longrightarrow>
      ok d' \<and> (\<exists>r. abs d k = Recorded r) \<and> abs d' = (abs d)(k := Closed)"
    and mark_total: "ok d \<Longrightarrow> abs d k = Recorded r \<Longrightarrow> \<exists>d'. mark_completed k now d = Inr ((), d')"
    and renew_refines: "ok d \<Longrightarrow> renew k w expires d = Inr (b, d') \<Longrightarrow>
      ok d' \<and> (b \<longleftrightarrow> (\<exists>t. abs d k = Held w t)) \<and>
      abs d' = (if b then (abs d)(k := Held w (Some expires)) else abs d)"
begin

text \<open>Committed operations of any workers on any keys, with every clock reading of a claim before
  \<open>T\<close> and every renewal up to \<open>T\<close> at least.\<close>

inductive activity :: "datetime \<Rightarrow> 'd \<Rightarrow> 'd \<Rightarrow> bool" for T where
  idle: "activity T d d"
| claimed: "activity T d d1 \<Longrightarrow> claim k i w now expires d1 = Inr (out, d2) \<Longrightarrow> now < T \<Longrightarrow> activity T d d2"
| recorded: "activity T d d1 \<Longrightarrow> record_result k e v m ty d1 = Inr (u, d2) \<Longrightarrow> activity T d d2"
| marked: "activity T d d1 \<Longrightarrow> mark_completed k now d1 = Inr (u, d2) \<Longrightarrow> activity T d d2"
| renewed: "activity T d d1 \<Longrightarrow> renew k w expires d1 = Inr (b, d2) \<Longrightarrow> T \<le> expires \<Longrightarrow> activity T d d2"

lemma activity_ok: "activity T d d' \<Longrightarrow> ok d \<Longrightarrow> ok d'"
  by (induction rule: activity.induct) (blast dest: claim_refines record_refines mark_refines renew_refines)+

text \<open>While the lease lasts, the key stays with its holder until the holder's result is recorded.\<close>

definition owned :: "datetime \<Rightarrow> string \<Rightarrow> claim_state \<Rightarrow> bool" where
  "owned T w s \<longleftrightarrow> (\<exists>t \<ge> T. s = Held w (Some t)) \<or> (\<exists>r. s = Recorded r) \<or> s = Closed"

lemma lease_excludes:
  assumes "activity T d d'" and "ok d" and "owned T w (abs d k)"
  shows "owned T w (abs d' k)"
  using assms
proof (induction rule: activity.induct)
  case (claimed d d1 k' i w' now expires out d2)
  then have "ok d1" "owned T w (abs d1 k)" by (auto intro: activity_ok)
  with claim_refines [OF _ claimed(2)] \<open>now < T\<close> show ?case
    by (cases "k' = k") (auto simp: owned_def claim_spec_def leased_def)
next
  case (recorded d d1 k' e v m ty u d2)
  then show ?case using record_refines [OF activity_ok [OF recorded(1)] recorded(2)]
    by (cases "k' = k") (auto simp: owned_def)
next
  case (marked d d1 k' now u d2)
  then show ?case using mark_refines [OF activity_ok [OF marked(1)] marked(2)]
    by (cases "k' = k") (auto simp: owned_def)
next
  case (renewed d d1 k' w' expires b d2)
  then show ?case using renew_refines [OF activity_ok [OF renewed(1)] renewed(2)]
    by (cases "k' = k"; cases b) (auto simp: owned_def)
qed simp

lemma exclusive:
  assumes "ok d" and "claim k i w now expires d = Inr (CLAIMED, d1)" and "T \<le> expires"
    and "activity T d1 d2" and "claim k i' w' now' expires' d2 = Inr (out, d3)" and "now' < T"
  shows "out \<noteq> CLAIMED"
proof -
  from claim_refines [OF assms(1,2)] have "ok d1" and "owned T w (abs d1 k)"
    using assms(3) by (auto simp: claim_spec_def owned_def split: claim_state.splits if_splits)
  with assms(4) have "ok d2" "owned T w (abs d2 k)" by (auto intro: activity_ok lease_excludes)
  with claim_refines [OF _ assms(5)] assms(6) show ?thesis
    by (auto simp: owned_def claim_spec_def leased_def)
qed

lemma result_final:
  assumes "activity T d d'" and "ok d" and "abs d k = Recorded r \<or> abs d k = Closed"
  shows "abs d' k = Closed \<or> abs d k = Recorded r \<and> abs d' k = Recorded r"
  using assms
proof (induction rule: activity.induct)
  case (claimed d d1 k' i w' now expires out d2)
  then show ?case using claim_refines [OF activity_ok [OF claimed(1)] claimed(2)]
    by (cases "k' = k") (auto simp: claim_spec_def)
next
  case (recorded d d1 k' e v m ty u d2)
  then show ?case using record_refines [OF activity_ok [OF recorded(1)] recorded(2)]
    by (cases "k' = k") auto
next
  case (marked d d1 k' now u d2)
  then show ?case using mark_refines [OF activity_ok [OF marked(1)] marked(2)]
    by (cases "k' = k") auto
next
  case (renewed d d1 k' w' expires b d2)
  then show ?case using renew_refines [OF activity_ok [OF renewed(1)] renewed(2)]
    by (cases "k' = k"; cases b) auto
qed auto

lemma recorded_once:
  assumes "ok d" and "record_result k e v m ty d = Inr (u, d1)" and "activity T d1 d2"
  shows "record_result k e' v' m' ty' d2 \<noteq> Inr (u', d3)"
    and "abs d2 k \<noteq> Closed \<Longrightarrow> get_result k d2 =
      Inr (\<lparr>pr_event_id = e, pr_result_data = v, pr_error_message = m, pr_error_type = ty\<rparr>, d2)"
proof -
  let ?r = "\<lparr>pr_event_id = e, pr_result_data = v, pr_error_message = m, pr_error_type = ty\<rparr>"
  from record_refines [OF assms(1,2)] have 1: "ok d1" "abs d1 k = Recorded ?r" by auto
  then have ok: "ok d2" using assms(3) by (auto intro: activity_ok)
  have st: "abs d2 k = Closed \<or> abs d2 k = Recorded ?r" using result_final [OF assms(3)] 1 by blast
  then show "record_result k e' v' m' ty' d2 \<noteq> Inr (u', d3)" using record_refines [OF ok] by fastforce
  show "get_result k d2 = Inr (?r, d2)" if "abs d2 k \<noteq> Closed"
    using get_refines [OF ok] st that by blast
qed

end

section \<open>Attempts meet the contract\<close>

definition attempt_state :: "TaskAttemptRecord \<Rightarrow> claim_state" where
  "attempt_state a =
     (if ta_status a = ''completed'' then Closed
      else if ta_status a = ''result_recorded'' then
        Recorded \<lparr>pr_event_id = (case ta_completion_event_id a of None \<Rightarrow> 0 | Some e \<Rightarrow> e),
          pr_result_data = ta_result_data a, pr_error_message = ta_error_message a,
          pr_error_type = ta_error_type a\<rparr>
      else if ta_status a = ''claimed'' then
        Held (case ta_claimed_by a of None \<Rightarrow> [] | Some w \<Rightarrow> w) (ta_claim_expires_at a)
      else Waiting (ta_claimed_by a) (ta_claim_expires_at a))"

definition attempt_abs :: "db \<Rightarrow> uuid \<Rightarrow> claim_state" where
  "attempt_abs d i = (case attempts_t.row d i of None \<Rightarrow> Waiting None None | Some a \<Rightarrow> attempt_state a)"

definition attempt_row_ok :: "TaskAttemptRecord \<Rightarrow> bool" where
  "attempt_row_ok a \<longleftrightarrow> (ta_status a = ''claimed'' \<longrightarrow> ta_claimed_by a \<noteq> None) \<and>
     (ta_status a = ''result_recorded'' \<longrightarrow> ta_completion_event_id a \<noteq> None)"

definition attempts_claim_ok :: "db \<Rightarrow> bool" where
  "attempts_claim_ok d \<longleftrightarrow> attempts_t.unique d \<and> logical_t.unique d \<and>
     (\<forall>a \<in> set (db_attempts d). attempt_row_ok a)"

type_synonym task_identity = "string \<times> uuid \<times> string"

definition attempt_known :: "db \<Rightarrow> uuid \<Rightarrow> task_identity \<Rightarrow> bool" where
  "attempt_known d i ident = (case ident of (task_id, execution_id, node_id) \<Rightarrow>
     (\<exists>a l. attempts_t.row d i = Some a \<and> ta_task_id a = task_id \<and> logical_t.row d task_id = Some l \<and>
        lt_execution_id l = execution_id \<and> lt_node_id l = node_id))"

definition claim_attempt_as ::
    "uuid \<Rightarrow> task_identity \<Rightarrow> string \<Rightarrow> datetime \<Rightarrow> datetime \<Rightarrow> (db, TaskClaimOutcome) tx" where
  "claim_attempt_as i ident = (case ident of (task_id, execution_id, node_id) \<Rightarrow>
     claim_attempt i task_id execution_id node_id)"

lemma attempts_claim_okD:
  assumes "attempts_claim_ok d"
  shows "attempts_t.unique d" and "logical_t.unique d"
    and "attempts_t.row d i = Some a \<Longrightarrow> attempt_row_ok a"
  using assms attempts_t.row_mem [of d] attempts_t.row_key [of d i a]
  by (auto simp: attempts_claim_ok_def)

lemma attempts_claim_ok_update:
  assumes "attempts_claim_ok d"
    and "\<And>r. ta_attempt_id (f r) = ta_attempt_id r"
    and "\<And>r. p r \<Longrightarrow> attempt_row_ok r \<Longrightarrow> attempt_row_ok (f r)"
  shows "attempts_claim_ok (db_attempts_update (update_rows p f) d)"
proof -
  from assms(1,2) have "attempts_t.unique (db_attempts_update (update_rows p f) d)"
    by (intro attempts_t.update_keeps_unique) (auto simp: attempts_claim_ok_def)
  with assms(1,3) show ?thesis
    by (auto simp: attempts_claim_ok_def logical_t.unique_def set_update_rows)
qed

text \<open>The abstract effect of an update of one attempt under a condition on its row.\<close>

lemma attempt_abs_update:
  assumes "\<And>r. ta_attempt_id (f r) = ta_attempt_id r"
  shows "attempt_abs (db_attempts_update (update_rows (\<lambda>r. ta_attempt_id r = i \<and> q r) f) d) =
    (case attempts_t.row d i of
       Some a \<Rightarrow> if q a then (attempt_abs d)(i := attempt_state (f a)) else attempt_abs d
     | None \<Rightarrow> attempt_abs d)"
  unfolding fun_eq_iff attempt_abs_def attempts_t.row_update_key [of f, OF assms]
  by (auto split: option.split)

lemma require_row_apply [simp]:
  "require_row e [] d = Inl e" "require_row e [r] d = Inr ((), d)"
  by (simp_all add: require_row_def scalar_one_or_none_def)

lemma scalar_apply [simp]:
  "scalar_one [r] d = Inr (r, d)" "scalar_one_or_none [r] d = Inr (Some r, d)"
  "scalar_one_or_none [] d = Inr (None, d)"
  by (simp_all add: scalar_one_def scalar_one_or_none_def)

lemmas attempt_updates = attempts_t.update_where_key [OF attempts_claim_okD(1)]

lemma claim_attempt_refines:
  assumes "attempts_claim_ok d" and "claim_attempt_as i ident w now expires d = Inr (out, d')"
  shows "attempts_claim_ok d' \<and> out = fst (claim_spec (attempt_abs d i) w now expires) \<and>
    attempt_abs d' = (attempt_abs d)(i := snd (claim_spec (attempt_abs d i) w now expires))"
proof -
  obtain t e n where ident: "ident = (t, e, n)" by (cases ident)
  let ?f = "\<lambda>r. r\<lparr>ta_status := ''claimed'', ta_claimed_by := Some w, ta_claimed_at := Some now,
    ta_claim_expires_at := Some expires\<rparr>"
  let ?d = "db_attempts_update (update_rows (\<lambda>r. ta_attempt_id r = i) ?f) d"
  note sel = attempts_t.select_one_key [OF attempts_claim_okD(1) [OF assms(1)]]
    logical_t.select_one_key [OF attempts_claim_okD(2) [OF assms(1)]]
  from assms(2) obtain a where a: "attempts_t.row d i = Some a"
    and run: "(out, d') = (if ta_status a = ''completed'' then (ALREADY_COMPLETED, d)
      else if ta_status a = ''result_recorded'' then (RESULT_RECORDED, d)
      else if ta_claimed_by a \<noteq> None \<and> leased (ta_claim_expires_at a) now then (CURRENTLY_CLAIMED, d)
      else (CLAIMED, ?d))"
    by (auto simp: claim_attempt_as_def claim_attempt_def ident sel update_attempt_def table_simps leased_def
        split: option.splits if_splits)
  have ok: "attempts_claim_ok ?d"
    by (rule attempts_claim_ok_update [OF assms(1)]) (simp_all add: attempt_row_ok_def)
  have abs: "attempt_abs ?d = (attempt_abs d)(i := Held w (Some expires))"
    using attempt_abs_update [of ?f i "\<lambda>_. True" d] a by (simp add: attempt_state_def)
  have here: "attempt_abs d i = attempt_state a" by (simp add: attempt_abs_def a)
  have "attempt_row_ok a" using attempts_claim_okD(3) [OF assms(1) a] .
  then show ?thesis
    using run assms(1) ok abs here
    by (auto simp: claim_spec_def attempt_state_def attempt_row_ok_def fun_upd_idem split: if_splits)
qed

lemma record_attempt_refines:
  assumes "attempts_claim_ok d"
  shows "record_attempt_result i e v m ty d = Inr (u, d') \<Longrightarrow>
      attempts_claim_ok d' \<and> (\<exists>w t. attempt_abs d i = Held w t) \<and> attempt_abs d' = (attempt_abs d)(i :=
        Recorded \<lparr>pr_event_id = e, pr_result_data = v, pr_error_message = m, pr_error_type = ty\<rparr>)"
    and "attempt_abs d i = Held w t \<Longrightarrow> \<exists>d'. record_attempt_result i e v m ty d = Inr ((), d')"
proof -
  let ?f = "\<lambda>r. r\<lparr>ta_status := ''result_recorded'', ta_result_data := v, ta_error_message := m,
    ta_error_type := ty, ta_completion_event_id := Some e\<rparr>"
  let ?d = "db_attempts_update (update_rows (\<lambda>r. ta_attempt_id r = i \<and> ta_status r = ''claimed'') ?f) d"
  note run = record_attempt_result_def attempt_updates [OF assms]
  show "\<exists>d'. record_attempt_result i e v m ty d = Inr ((), d')" if "attempt_abs d i = Held w t"
    using that by (auto simp: run attempt_abs_def attempt_state_def split: option.splits if_splits)
  assume ok: "record_attempt_result i e v m ty d = Inr (u, d')"
  then obtain a where a: "attempts_t.row d i = Some a" "ta_status a = ''claimed''" and d': "d' = ?d"
    by (auto simp: run split: option.splits if_splits)
  have "attempts_claim_ok ?d"
    by (rule attempts_claim_ok_update [OF assms]) (simp_all add: attempt_row_ok_def)
  moreover have "attempt_abs d i = Held (case ta_claimed_by a of None \<Rightarrow> [] | Some w \<Rightarrow> w) (ta_claim_expires_at a)"
    using a by (simp add: attempt_abs_def attempt_state_def)
  moreover have "attempt_abs ?d = (attempt_abs d)(i :=
      Recorded \<lparr>pr_event_id = e, pr_result_data = v, pr_error_message = m, pr_error_type = ty\<rparr>)"
    using a by (subst attempt_abs_update) (simp_all add: attempt_state_def)
  ultimately show "attempts_claim_ok d' \<and> (\<exists>w t. attempt_abs d i = Held w t) \<and> attempt_abs d' = (attempt_abs d)(i :=
        Recorded \<lparr>pr_event_id = e, pr_result_data = v, pr_error_message = m, pr_error_type = ty\<rparr>)"
    unfolding d' by blast
qed

lemma get_attempt_refines:
  assumes "attempts_claim_ok d" and "attempt_abs d i = Recorded r"
  shows "get_attempt_result i d = Inr (r, d)"
proof -
  from assms(2) obtain a where a: "attempts_t.row d i = Some a" "ta_status a = ''result_recorded''"
    by (auto simp: attempt_abs_def attempt_state_def split: option.splits if_splits)
  with attempts_claim_okD(3) [OF assms(1)] obtain e where e: "ta_completion_event_id a = Some e"
    by (auto simp: attempt_row_ok_def)
  have "filter (\<lambda>r. ta_attempt_id r = i) (db_attempts d) = [a]"
    using attempts_t.filter_key [OF attempts_claim_okD(1) [OF assms(1)], of i "\<lambda>_. True"] a by simp
  then show ?thesis
    using assms(2) a e by (auto simp: get_attempt_result_def table_simps attempt_abs_def attempt_state_def)
qed

lemma mark_attempt_refines:
  assumes "attempts_claim_ok d"
  shows "mark_attempt_completed i now d = Inr (u, d') \<Longrightarrow>
      attempts_claim_ok d' \<and> (\<exists>r. attempt_abs d i = Recorded r) \<and> attempt_abs d' = (attempt_abs d)(i := Closed)"
    and "attempt_abs d i = Recorded r \<Longrightarrow> \<exists>d'. mark_attempt_completed i now d = Inr ((), d')"
proof -
  let ?f = "\<lambda>r. r\<lparr>ta_status := ''completed'', ta_completed_at := Some now,
               ta_completion_published_at := Some now, ta_claim_expires_at := None\<rparr>"
  let ?d = "db_attempts_update (update_rows (\<lambda>r. ta_attempt_id r = i \<and> ta_status r = ''result_recorded'') ?f) d"
  note run = mark_attempt_completed_def attempt_updates [OF assms]
  show "\<exists>d'. mark_attempt_completed i now d = Inr ((), d')" if "attempt_abs d i = Recorded r"
    using that by (auto simp: run attempt_abs_def attempt_state_def split: option.splits if_splits)
  assume ok: "mark_attempt_completed i now d = Inr (u, d')"
  then obtain a where a: "attempts_t.row d i = Some a" "ta_status a = ''result_recorded''" and d': "d' = ?d"
    by (auto simp: run split: option.splits if_splits)
  have "attempts_claim_ok ?d"
    by (rule attempts_claim_ok_update [OF assms]) (simp_all add: attempt_row_ok_def)
  moreover have "\<exists>r. attempt_abs d i = Recorded r"
    using a by (simp add: attempt_abs_def attempt_state_def)
  moreover have "attempt_abs ?d = (attempt_abs d)(i := Closed)"
    using a by (subst attempt_abs_update) (simp_all add: attempt_state_def)
  ultimately show "attempts_claim_ok d' \<and> (\<exists>r. attempt_abs d i = Recorded r) \<and>
      attempt_abs d' = (attempt_abs d)(i := Closed)"
    unfolding d' by blast
qed

lemma renew_attempt_refines:
  assumes "attempts_claim_ok d" and "renew_attempt_claim i w expires d = Inr (b, d')"
  shows "attempts_claim_ok d' \<and> (b \<longleftrightarrow> (\<exists>t. attempt_abs d i = Held w t)) \<and>
    attempt_abs d' = (if b then (attempt_abs d)(i := Held w (Some expires)) else attempt_abs d)"
proof -
  let ?q = "\<lambda>r. ta_status r = ''claimed'' \<and> ta_claimed_by r = Some w"
  let ?f = "\<lambda>r. r\<lparr>ta_claim_expires_at := Some expires\<rparr>"
  let ?d = "db_attempts_update (update_rows (\<lambda>r. ta_attempt_id r = i \<and> ?q r) ?f) d"
  have run: "d' = ?d \<and> (b \<longleftrightarrow> (\<exists>a. attempts_t.row d i = Some a \<and> ?q a))"
    using assms(2) by (auto simp: renew_attempt_claim_def attempt_updates [OF assms(1)]
        split: option.splits if_splits)
  have "attempts_claim_ok ?d"
    by (rule attempts_claim_ok_update [OF assms(1)]) (simp_all add: attempt_row_ok_def)
  moreover have "(\<exists>a. attempts_t.row d i = Some a \<and> ?q a) \<longleftrightarrow> (\<exists>t. attempt_abs d i = Held w t)"
    using attempts_claim_okD(3) [OF assms(1), of i]
    by (auto simp: attempt_abs_def attempt_state_def attempt_row_ok_def split: option.splits)
  moreover have "attempt_abs ?d = (if b then (attempt_abs d)(i := Held w (Some expires)) else attempt_abs d)"
    using run attempt_abs_update [of ?f i ?q d] by (auto simp: attempt_state_def split: option.splits)
  ultimately show ?thesis using run by blast
qed

interpretation attempt_claims: claim_repository attempt_abs attempts_claim_ok attempt_known
  claim_attempt_as record_attempt_result get_attempt_result mark_attempt_completed renew_attempt_claim
proof unfold_locales
  fix d k i w now expires
  assume ok: "attempts_claim_ok d" and known: "attempt_known d k i"
  note sel = attempts_t.select_one_key [OF attempts_claim_okD(1) [OF ok]]
    logical_t.select_one_key [OF attempts_claim_okD(2) [OF ok]]
  obtain t e n where "i = (t, e, n)" by (cases i)
  with known show "\<exists>out d'. claim_attempt_as k i w now expires d = Inr (out, d')"
    by (auto simp: claim_attempt_as_def claim_attempt_def attempt_known_def sel update_attempt_def table_simps)
qed (blast dest: claim_attempt_refines record_attempt_refines get_attempt_refines mark_attempt_refines
  renew_attempt_refines)+

section \<open>Tasks meet the contract\<close>

definition task_state :: "TaskProcessingRecord \<Rightarrow> claim_state" where
  "task_state t =
     (if tp_status t = ''completed'' then Closed
      else if tp_status t = ''result_recorded'' then
        Recorded \<lparr>pr_event_id = (case tp_completion_event_id t of None \<Rightarrow> 0 | Some e \<Rightarrow> e),
          pr_result_data = tp_result_data t, pr_error_message = tp_error_message t,
          pr_error_type = tp_error_type t\<rparr>
      else Held (case tp_claimed_by t of None \<Rightarrow> [] | Some w \<Rightarrow> w) (tp_claim_expires_at t))"

definition task_abs :: "db \<Rightarrow> string \<Rightarrow> claim_state" where
  "task_abs d i = (case processing_t.row d i of None \<Rightarrow> Waiting None None | Some t \<Rightarrow> task_state t)"

definition task_row_ok :: "TaskProcessingRecord \<Rightarrow> bool" where
  "task_row_ok t \<longleftrightarrow> tp_status t = ''completed'' \<or>
     tp_status t = ''result_recorded'' \<and> tp_completion_event_id t \<noteq> None \<or>
     tp_status t = ''claimed'' \<and> tp_claimed_by t \<noteq> None"

definition tasks_claim_ok :: "db \<Rightarrow> bool" where
  "tasks_claim_ok d \<longleftrightarrow> processing_t.unique d \<and> (\<forall>t \<in> set (db_processing d). task_row_ok t)"

definition task_known :: "db \<Rightarrow> string \<Rightarrow> uuid \<times> string \<Rightarrow> bool" where
  "task_known d k ident \<longleftrightarrow> (case processing_t.row d k of None \<Rightarrow> True
     | Some t \<Rightarrow> (tp_execution_id t, tp_node_id t) = ident)"

definition claim_task_as ::
    "string \<Rightarrow> uuid \<times> string \<Rightarrow> string \<Rightarrow> datetime \<Rightarrow> datetime \<Rightarrow> (db, TaskClaimOutcome) tx" where
  "claim_task_as k ident = claim_task k (fst ident) (snd ident)"

lemma tasks_claim_okD:
  assumes "tasks_claim_ok d"
  shows "processing_t.unique d" and "processing_t.row d i = Some t \<Longrightarrow> task_row_ok t"
  using assms processing_t.row_mem [of d] processing_t.row_key [of d i t] by (auto simp: tasks_claim_ok_def)

lemma tasks_claim_ok_update:
  assumes "tasks_claim_ok d" and "\<And>r. tp_task_id (f r) = tp_task_id r"
    and "\<And>r. p r \<Longrightarrow> task_row_ok r \<Longrightarrow> task_row_ok (f r)"
  shows "tasks_claim_ok (db_processing_update (update_rows p f) d)"
proof -
  from assms(1,2) have "processing_t.unique (db_processing_update (update_rows p f) d)"
    by (intro processing_t.update_keeps_unique) (auto simp: tasks_claim_ok_def)
  with assms(1,3) show ?thesis by (auto simp: tasks_claim_ok_def set_update_rows)
qed

lemma task_abs_update:
  assumes "\<And>r. tp_task_id (f r) = tp_task_id r"
  shows "task_abs (db_processing_update (update_rows (\<lambda>r. tp_task_id r = i \<and> q r) f) d) =
    (case processing_t.row d i of
       Some t \<Rightarrow> if q t then (task_abs d)(i := task_state (f t)) else task_abs d
     | None \<Rightarrow> task_abs d)"
  unfolding fun_eq_iff task_abs_def processing_t.row_update_key [of f, OF assms]
  by (auto split: option.split)

lemmas task_updates = processing_t.update_where_key [OF tasks_claim_okD(1)]

lemma select_task:
  "tasks_claim_ok d \<Longrightarrow> filter (\<lambda>r. tp_task_id r = k) (db_processing d) =
     (case processing_t.row d k of None \<Rightarrow> [] | Some t \<Rightarrow> [t])"
  using processing_t.filter_key [of d k "\<lambda>_. True"] by (auto simp: tasks_claim_ok_def split: option.splits)

definition claim_row :: "string \<Rightarrow> uuid \<Rightarrow> string \<Rightarrow> string \<Rightarrow> datetime \<Rightarrow> datetime \<Rightarrow> TaskProcessingRecord" where
  "claim_row k e n w now expires = \<lparr>tp_task_id = k, tp_execution_id = e, tp_node_id = n,
     tp_status = ''claimed'', tp_claimed_by = Some w, tp_claimed_at = now,
     tp_claim_expires_at = Some expires, tp_result_data = PNone, tp_error_message = None,
     tp_error_type = None, tp_completion_event_id = None, tp_completion_published_at = None,
     tp_completed_at = None\<rparr>"

lemma claim_row_id [simp]: "tp_task_id (claim_row k e n w now expires) = k"
  by (simp add: claim_row_def)

definition reclaimable :: "datetime \<Rightarrow> TaskProcessingRecord \<Rightarrow> bool" where
  "reclaimable now r \<longleftrightarrow> tp_status r \<noteq> ''completed'' \<and> tp_status r = ''claimed'' \<and>
     (case tp_claim_expires_at r of None \<Rightarrow> False | Some t \<Rightarrow> t \<le> now)"

definition reclaim :: "uuid \<Rightarrow> string \<Rightarrow> string \<Rightarrow> datetime \<Rightarrow> datetime \<Rightarrow> TaskProcessingRecord \<Rightarrow> TaskProcessingRecord" where
  "reclaim e n w now expires r = r\<lparr>tp_execution_id := e, tp_node_id := n, tp_claimed_by := Some w,
     tp_claimed_at := now, tp_claim_expires_at := Some expires\<rparr>"

lemma reclaim_id [simp]: "tp_task_id (reclaim e n w now expires r) = tp_task_id r"
  by (simp add: reclaim_def)

lemma claim_task_new:
  assumes "processing_t.row d k = None"
  shows "claim_task k e n w now expires d =
    Inr (CLAIMED, db_processing_update (\<lambda>rows. rows @ [claim_row k e n w now expires]) d)"
  using processing_t.row_absent [of "claim_row k e n w now expires" d] assms
  by (simp add: claim_task_def claim_row_def [symmetric] statement_apply(4))

lemma claim_task_old:
  assumes "tasks_claim_ok d" and "processing_t.row d k = Some t"
  shows "claim_task k e n w now expires d =
    (if tp_execution_id t \<noteq> e \<or> tp_node_id t \<noteq> n
     then Inl (ValueError (''Task '' @ quoted k @ '' does not match its existing execution and node identity.''))
     else Inr (if tp_status t = ''completed'' then (ALREADY_COMPLETED, d)
       else if tp_status t = ''result_recorded'' then (RESULT_RECORDED, d)
       else (if reclaimable now t then CLAIMED else CURRENTLY_CLAIMED,
             db_processing_update (update_rows (\<lambda>r. tp_task_id r = k \<and> reclaimable now r)
               (reclaim e n w now expires)) d)))"
proof -
  have "k \<in> tp_task_id ` set (db_processing d)"
    using processing_t.row_absent [of t d] processing_t.row_key [OF assms(2)] assms(2) by simp
  then show ?thesis
    using assms(2)
    by (simp add: claim_task_def statement_apply(1,4) select_task [OF assms(1)] task_updates [OF assms(1)]
        reclaimable_def [symmetric] reclaim_def [symmetric])
qed

lemma claim_task_refines:
  assumes ok: "tasks_claim_ok d" and claim: "claim_task_as k ident w now expires d = Inr (out, d')"
  shows "tasks_claim_ok d' \<and> out = fst (claim_spec (task_abs d k) w now expires) \<and>
    task_abs d' = (task_abs d)(k := snd (claim_spec (task_abs d k) w now expires))"
proof (cases "processing_t.row d k")
  case None
  let ?r = "claim_row k (fst ident) (snd ident) w now expires"
  have new: "tp_task_id ?r \<notin> tp_task_id ` set (db_processing d)"
    unfolding processing_t.row_absent using None by simp
  let ?d = "db_processing_update (\<lambda>rows. rows @ [?r]) d"
  have "out = CLAIMED" "d' = ?d"
    using claim by (simp_all add: claim_task_as_def claim_task_new [OF None])
  moreover have "task_row_ok ?r" by (simp add: task_row_ok_def claim_row_def)
  then have "tasks_claim_ok ?d"
    using ok processing_t.insert_keeps_unique [OF _ new] by (auto simp: tasks_claim_ok_def)
  moreover have "task_abs ?d = (task_abs d)(k := Held w (Some expires))"
    unfolding fun_eq_iff task_abs_def processing_t.row_insert [OF new] by (simp add: task_state_def claim_row_def)
  ultimately show ?thesis using None by (simp add: claim_spec_def task_abs_def)
next
  case (Some t)
  let ?f = "reclaim (fst ident) (snd ident) w now expires"
  let ?d = "db_processing_update (update_rows (\<lambda>r. tp_task_id r = k \<and> reclaimable now r) ?f) d"
  have run: "(out, d') = (if tp_status t = ''completed'' then (ALREADY_COMPLETED, d)
      else if tp_status t = ''result_recorded'' then (RESULT_RECORDED, d)
      else (if reclaimable now t then CLAIMED else CURRENTLY_CLAIMED, ?d))"
    using claim by (auto simp: claim_task_as_def claim_task_old [OF ok Some] split: if_splits)
  have ok': "tasks_claim_ok ?d"
    by (rule tasks_claim_ok_update [OF ok]) (auto simp: task_row_ok_def reclaim_def)
  have abs: "task_abs ?d = (if reclaimable now t then (task_abs d)(k := task_state (?f t)) else task_abs d)"
    using task_abs_update [of ?f k "reclaimable now" d] Some by simp
  have "task_row_ok t" using tasks_claim_okD(2) [OF ok Some] .
  then consider "tp_status t = ''completed''" | "tp_status t = ''result_recorded''" | "tp_status t = ''claimed''"
    by (auto simp: task_row_ok_def)
  then show ?thesis
  proof cases
    case 3
    then have "reclaimable now t \<longleftrightarrow> \<not> leased (tp_claim_expires_at t) now"
      by (auto simp: leased_def reclaimable_def split: option.splits)
    then show ?thesis using run ok' abs Some 3
      by (auto simp: claim_spec_def task_abs_def task_state_def reclaim_def fun_upd_idem)
  qed (use run ok Some in \<open>auto simp: claim_spec_def task_abs_def task_state_def fun_upd_idem\<close>)
qed

lemma record_task_refines:
  assumes "tasks_claim_ok d"
  shows "record_task_result i e v m ty d = Inr (u, d') \<Longrightarrow>
      tasks_claim_ok d' \<and> (\<exists>w t. task_abs d i = Held w t) \<and> task_abs d' = (task_abs d)(i :=
        Recorded \<lparr>pr_event_id = e, pr_result_data = v, pr_error_message = m, pr_error_type = ty\<rparr>)"
    and "task_abs d i = Held w t \<Longrightarrow> \<exists>d'. record_task_result i e v m ty d = Inr ((), d')"
proof -
  let ?f = "\<lambda>r. r\<lparr>tp_status := ''result_recorded'', tp_result_data := v, tp_error_message := m,
    tp_error_type := ty, tp_completion_event_id := Some e\<rparr>"
  let ?d = "db_processing_update (update_rows (\<lambda>r. tp_task_id r = i \<and> tp_status r = ''claimed'') ?f) d"
  note run = record_task_result_def task_updates [OF assms]
  show "\<exists>d'. record_task_result i e v m ty d = Inr ((), d')" if "task_abs d i = Held w t"
    using that tasks_claim_okD(2) [OF assms, of i]
    by (auto simp: run task_abs_def task_state_def task_row_ok_def split: option.splits if_splits)
  assume ok: "record_task_result i e v m ty d = Inr (u, d')"
  then obtain t where t: "processing_t.row d i = Some t" "tp_status t = ''claimed''" and d': "d' = ?d"
    by (auto simp: run split: option.splits if_splits)
  have "tasks_claim_ok ?d"
    by (rule tasks_claim_ok_update [OF assms]) (simp_all add: task_row_ok_def)
  moreover have "\<exists>w x. task_abs d i = Held w x" using t by (simp add: task_abs_def task_state_def)
  moreover have "task_abs ?d = (task_abs d)(i :=
      Recorded \<lparr>pr_event_id = e, pr_result_data = v, pr_error_message = m, pr_error_type = ty\<rparr>)"
    using t by (subst task_abs_update) (simp_all add: task_state_def)
  ultimately show "tasks_claim_ok d' \<and> (\<exists>w t. task_abs d i = Held w t) \<and> task_abs d' = (task_abs d)(i :=
        Recorded \<lparr>pr_event_id = e, pr_result_data = v, pr_error_message = m, pr_error_type = ty\<rparr>)"
    unfolding d' by blast
qed

lemma get_task_refines:
  assumes "tasks_claim_ok d" and "task_abs d i = Recorded r"
  shows "get_task_result i d = Inr (r, d)"
proof -
  from assms(2) obtain t where t: "processing_t.row d i = Some t" "tp_status t = ''result_recorded''"
    by (auto simp: task_abs_def task_state_def split: option.splits if_splits)
  with tasks_claim_okD(2) [OF assms(1)] obtain e where e: "tp_completion_event_id t = Some e"
    by (fastforce simp: task_row_ok_def)
  show ?thesis
    using assms(2) t e
    by (auto simp: get_task_result_def table_simps select_task [OF assms(1)] task_abs_def task_state_def)
qed

lemma mark_task_refines:
  assumes "tasks_claim_ok d"
  shows "mark_task_completed i now d = Inr (u, d') \<Longrightarrow>
      tasks_claim_ok d' \<and> (\<exists>r. task_abs d i = Recorded r) \<and> task_abs d' = (task_abs d)(i := Closed)"
    and "task_abs d i = Recorded r \<Longrightarrow> \<exists>d'. mark_task_completed i now d = Inr ((), d')"
proof -
  let ?f = "\<lambda>r. r\<lparr>tp_status := ''completed'', tp_completed_at := Some now,
               tp_completion_published_at := Some now, tp_claim_expires_at := None\<rparr>"
  let ?d = "db_processing_update (update_rows (\<lambda>r. tp_task_id r = i \<and> tp_status r = ''result_recorded'') ?f) d"
  note run = mark_task_completed_def task_updates [OF assms]
  show "\<exists>d'. mark_task_completed i now d = Inr ((), d')" if "task_abs d i = Recorded r"
    using that by (auto simp: run task_abs_def task_state_def split: option.splits if_splits)
  assume ok: "mark_task_completed i now d = Inr (u, d')"
  then obtain t where t: "processing_t.row d i = Some t" "tp_status t = ''result_recorded''" and d': "d' = ?d"
    by (auto simp: run split: option.splits if_splits)
  have "tasks_claim_ok ?d"
    by (rule tasks_claim_ok_update [OF assms]) (simp_all add: task_row_ok_def)
  moreover have "\<exists>r. task_abs d i = Recorded r" using t by (simp add: task_abs_def task_state_def)
  moreover have "task_abs ?d = (task_abs d)(i := Closed)"
    using t by (subst task_abs_update) (simp_all add: task_state_def)
  ultimately show "tasks_claim_ok d' \<and> (\<exists>r. task_abs d i = Recorded r) \<and>
      task_abs d' = (task_abs d)(i := Closed)"
    unfolding d' by blast
qed

lemma renew_task_refines:
  assumes "tasks_claim_ok d" and "renew_task_claim i w expires d = Inr (b, d')"
  shows "tasks_claim_ok d' \<and> (b \<longleftrightarrow> (\<exists>t. task_abs d i = Held w t)) \<and>
    task_abs d' = (if b then (task_abs d)(i := Held w (Some expires)) else task_abs d)"
proof -
  let ?q = "\<lambda>r. tp_status r = ''claimed'' \<and> tp_claimed_by r = Some w"
  let ?f = "\<lambda>r. r\<lparr>tp_claim_expires_at := Some expires\<rparr>"
  let ?d = "db_processing_update (update_rows (\<lambda>r. tp_task_id r = i \<and> ?q r) ?f) d"
  have run: "d' = ?d \<and> (b \<longleftrightarrow> (\<exists>a. processing_t.row d i = Some a \<and> ?q a))"
    using assms(2) by (auto simp: renew_task_claim_def task_updates [OF assms(1)]
        split: option.splits if_splits)
  have "tasks_claim_ok ?d"
    by (rule tasks_claim_ok_update [OF assms(1)]) (auto simp: task_row_ok_def)
  moreover have "(\<exists>a. processing_t.row d i = Some a \<and> ?q a) \<longleftrightarrow> (\<exists>t. task_abs d i = Held w t)"
    using tasks_claim_okD(2) [OF assms(1), of i]
    by (auto simp: task_abs_def task_state_def task_row_ok_def split: option.splits)
  moreover have "task_abs ?d = (if b then (task_abs d)(i := Held w (Some expires)) else task_abs d)"
    using run task_abs_update [of ?f i ?q d] by (auto simp: task_state_def split: option.splits)
  ultimately show ?thesis using run by blast
qed

interpretation task_claims: claim_repository task_abs tasks_claim_ok task_known
  claim_task_as record_task_result get_task_result mark_task_completed renew_task_claim
proof unfold_locales
  fix d k i w now expires
  assume ok: "tasks_claim_ok d" and known: "task_known d k i"
  show "\<exists>out d'. claim_task_as k i w now expires d = Inr (out, d')"
  proof (cases "processing_t.row d k")
    case None
    then show ?thesis by (simp add: claim_task_as_def claim_task_new)
  next
    case (Some t)
    with known have "tp_execution_id t = fst i" "tp_node_id t = snd i" by (auto simp: task_known_def)
    then show ?thesis by (simp add: claim_task_as_def claim_task_old [OF ok Some])
  qed
qed (blast dest: claim_task_refines record_task_refines get_task_refines mark_task_refines
  renew_task_refines)+

section \<open>Properties\<close>

lemma claim_attempt_as_tuple: "claim_attempt_as i (t, e, n) = claim_attempt i t e n"
  by (simp add: claim_attempt_as_def)

lemma retry_db_claims:
  "attempts_claim_ok retry_db" "attempt_known retry_db 7 (''t'', 1, ''a'')" "attempt_abs retry_db 7 = Waiting None None"
  by (simp_all add: attempts_claim_ok_def attempts_t.unique_def logical_t.unique_def attempt_row_ok_def
      attempt_known_def attempt_abs_def attempt_state_def retry_db_rows)
    (simp_all add: retry_db_def empty_db_def sample_attempt_def sample_logical_def attempt_row_def)

lemma sample_values:
  "ta_status sample_attempt = ''running''" "ta_claimed_by sample_attempt = None"
  "lt_execution_id sample_logical = 1" "lt_node_id sample_logical = ''a''"
  by (simp_all add: sample_attempt_def sample_logical_def attempt_row_def)

lemma retry_db_claimed:
  obtains d1 where "claim_attempt 7 ''t'' 1 ''a'' w now expires retry_db = Inr (CLAIMED, d1)"
    and "attempts_claim_ok d1" and "attempt_abs d1 7 = Held w (Some expires)"
    and "\<And>w' now' e'. \<exists>out d2. claim_attempt 7 ''t'' 1 ''a'' w' now' e' d1 = Inr (out, d2)"
proof -
  let ?f = "\<lambda>r. r\<lparr>ta_status := ''claimed'', ta_claimed_by := Some w, ta_claimed_at := Some now,
    ta_claim_expires_at := Some expires\<rparr>"
  let ?d = "db_attempts_update (update_rows (\<lambda>r. ta_attempt_id r = 7) ?f) retry_db"
  have c: "claim_attempt 7 ''t'' 1 ''a'' w now expires retry_db = Inr (CLAIMED, ?d)"
    using attempts_claim_okD(1,2) [OF retry_db_claims(1)]
    by (simp add: claim_attempt_def attempts_t.select_one_key logical_t.select_one_key statement_apply
        retry_db_rows update_attempt_def sample_values)
  have c': "claim_attempt_as 7 (''t'', 1, ''a'') w now expires retry_db = Inr (CLAIMED, ?d)"
    using c by (simp add: claim_attempt_as_tuple)
  have ok: "attempts_claim_ok ?d" and held: "attempt_abs ?d 7 = Held w (Some expires)"
    using attempt_claims.claim_refines [OF retry_db_claims(1) c'] retry_db_claims(3)
    by (simp_all add: claim_spec_def)
  have "attempt_known ?d 7 (''t'', 1, ''a'')"
    by (simp add: attempt_known_def attempts_t.row_update retry_db_rows)
      (simp add: logical_t.row_def retry_db_def sample_logical_def)
  from attempt_claims.claim_total [OF ok this] that [OF c ok held] show ?thesis
    by (simp add: claim_attempt_as_tuple)
qed

text \<open>C28: a claimed attempt is executed by one worker at a time. After a worker's claim succeeded, no
  claim of that attempt by any worker succeeds before the lease runs out, whatever claims, recorded
  results, completions and renewals of any workers are committed in between.\<close>

theorem attempt_lease_exclusive:
  assumes "attempts_claim_ok d" and "claim_attempt i t e n w now expires d = Inr (CLAIMED, d1)"
    and "T \<le> expires" and "attempt_claims.activity T d1 d2"
    and "claim_attempt i t' e' n' w' now' expires' d2 = Inr (out, d3)" and "now' < T"
  shows "out \<noteq> CLAIMED"
  using attempt_claims.exclusive [of d i "(t, e, n)" w now expires d1 T d2 "(t', e', n')" w' now' expires' out d3] assms
  by (simp add: claim_attempt_as_tuple)

theorem attempt_lease_exclusive_witness:
  "\<exists>d1 out d3. claim_attempt 7 ''t'' 1 ''a'' ''w1'' 0 20 retry_db = Inr (CLAIMED, d1) \<and>
     claim_attempt 7 ''t'' 1 ''a'' ''w2'' 10 30 d1 = Inr (out, d3) \<and> out \<noteq> CLAIMED"
proof -
  obtain d1 where c: "claim_attempt 7 ''t'' 1 ''a'' ''w1'' 0 20 retry_db = Inr (CLAIMED, d1)"
    and t: "\<And>w now e. \<exists>out d2. claim_attempt 7 ''t'' 1 ''a'' w now e d1 = Inr (out, d2)"
    by (rule retry_db_claimed) blast
  from t obtain out d3 where c2: "claim_attempt 7 ''t'' 1 ''a'' ''w2'' 10 30 d1 = Inr (out, d3)" by blast
  have "out \<noteq> CLAIMED"
    using attempt_lease_exclusive [OF retry_db_claims(1) c order_refl attempt_claims.activity.idle c2] by simp
  with c c2 show ?thesis by blast
qed

text \<open>The same exclusion for the claims kept per task.\<close>

theorem task_lease_exclusive:
  assumes "tasks_claim_ok d" and "claim_task k e n w now expires d = Inr (CLAIMED, d1)"
    and "T \<le> expires" and "task_claims.activity T d1 d2"
    and "claim_task k e' n' w' now' expires' d2 = Inr (out, d3)" and "now' < T"
  shows "out \<noteq> CLAIMED"
  using task_claims.exclusive [of d k "(e, n)" w now expires d1 T d2 "(e', n')" w' now' expires' out d3] assms
  by (simp add: claim_task_as_def)

theorem task_lease_exclusive_witness:
  "\<exists>d1 out d3. claim_task ''t'' 1 ''a'' ''w1'' 0 20 empty_db = Inr (CLAIMED, d1) \<and>
     claim_task ''t'' 1 ''a'' ''w2'' 10 30 d1 = Inr (out, d3) \<and> out \<noteq> CLAIMED"
proof -
  have ok: "tasks_claim_ok empty_db" by (simp add: tasks_claim_ok_def processing_t.unique_def empty_db_def)
  have none: "processing_t.row empty_db ''t'' = None" by (simp add: processing_t.row_def empty_db_def)
  let ?d1 = "db_processing_update (\<lambda>rows. rows @ [claim_row ''t'' 1 ''a'' ''w1'' 0 20]) empty_db"
  have c: "claim_task ''t'' 1 ''a'' ''w1'' 0 20 empty_db = Inr (CLAIMED, ?d1)"
    by (rule claim_task_new [OF none])
  then have ok1: "tasks_claim_ok ?d1"
    using task_claims.claim_refines [OF ok, of "''t''" "(1, ''a'')"] by (simp add: claim_task_as_def)
  have "task_known ?d1 ''t'' (1, ''a'')" by (simp add: task_known_def processing_t.row_def empty_db_def claim_row_def)
  from task_claims.claim_total [OF ok1 this, of "''w2''" 10 30] obtain out d3
    where c2: "claim_task ''t'' 1 ''a'' ''w2'' 10 30 ?d1 = Inr (out, d3)" by (auto simp: claim_task_as_def)
  have "out \<noteq> CLAIMED"
    using task_lease_exclusive [OF ok c order_refl task_claims.activity.idle c2] by simp
  with c c2 show ?thesis by blast
qed

text \<open>The normal course of an attempt. A known attempt that nobody holds can be claimed, its result
  recorded, replayed and marked completed; from then on every claim of it answers
  ALREADY_COMPLETED.\<close>

theorem attempt_lifecycle:
  assumes ok: "attempts_claim_ok d" and known: "attempt_known d i (t, e, n)"
    and free: "attempt_abs d i = Waiting None x"
  shows "\<exists>d1 d2 d3. claim_attempt i t e n w now expires d = Inr (CLAIMED, d1) \<and>
    record_attempt_result i ev v m ty d1 = Inr ((), d2) \<and>
    get_attempt_result i d2 =
      Inr (\<lparr>pr_event_id = ev, pr_result_data = v, pr_error_message = m, pr_error_type = ty\<rparr>, d2) \<and>
    mark_attempt_completed i now' d2 = Inr ((), d3) \<and>
    (\<forall>w' now'' expires' out d4. claim_attempt i t e n w' now'' expires' d3 = Inr (out, d4) \<longrightarrow>
       out = ALREADY_COMPLETED)"
proof -
  from attempt_claims.claim_total [OF ok known, of w now expires] obtain out d1
    where c: "claim_attempt_as i (t, e, n) w now expires d = Inr (out, d1)" by blast
  with attempt_claims.claim_refines [OF ok c] free
  have 1: "out = CLAIMED" "attempts_claim_ok d1" "attempt_abs d1 i = Held w (Some expires)"
    by (simp_all add: claim_spec_def)
  from attempt_claims.record_total [OF 1(2,3), of ev v m ty] obtain d2
    where r: "record_attempt_result i ev v m ty d1 = Inr ((), d2)" by blast
  with attempt_claims.record_refines [OF 1(2) r] have 2: "attempts_claim_ok d2" "attempt_abs d2 i =
      Recorded \<lparr>pr_event_id = ev, pr_result_data = v, pr_error_message = m, pr_error_type = ty\<rparr>" by simp_all
  from attempt_claims.mark_total [OF 2, of now'] obtain d3
    where k: "mark_attempt_completed i now' d2 = Inr ((), d3)" by blast
  with attempt_claims.mark_refines [OF 2(1) k] have 3: "attempts_claim_ok d3" "attempt_abs d3 i = Closed"
    by simp_all
  have "out' = ALREADY_COMPLETED" if "claim_attempt i t e n w' now'' expires' d3 = Inr (out', d4)"
    for w' now'' expires' out' d4
    using attempt_claims.claim_refines [OF 3(1), of i "(t, e, n)" w' now'' expires' out' d4] that 3(2)
    by (simp add: claim_attempt_as_tuple claim_spec_def)
  with c 1(1) r k attempt_claims.get_refines [OF 2] show ?thesis
    by (auto simp: claim_attempt_as_tuple)
qed

theorem attempt_lifecycle_witness:
  "\<exists>d1 d2 d3. claim_attempt 7 ''t'' 1 ''a'' ''w1'' 0 20 retry_db = Inr (CLAIMED, d1) \<and>
     record_attempt_result 7 9 (PInt 1) None None d1 = Inr ((), d2) \<and>
     mark_attempt_completed 7 5 d2 = Inr ((), d3)"
  using attempt_lifecycle [OF retry_db_claims, of "''w1''" 0 20 9 "PInt 1" None None 5] by blast

text \<open>C30: a recorded failure reopens the attempt. When the orchestrator records the failure event of
  an attempt whose worker has recorded its result but not yet marked it completed, marking it
  completed raises, and as soon as the old lease has run out the attempt can be claimed and executed
  again.\<close>

theorem failure_reopens_attempt:
  assumes inv: "retry_inv d" and m: "1 \<le> m" and l: "logical_t.row d t = Some l"
    and a: "attempts_t.row d i = Some a" "ta_task_id a = t" "ta_status a = ''result_recorded''"
      "ta_failure_event_id a = None" "ta_claim_expires_at a = Some x"
    and new: "\<forall>b \<in> set (db_attempts d). ta_failure_event_id b \<noteq> Some e"
    and fresh: "fresh \<notin> ta_attempt_id ` set (db_attempts d)"
    and run: "run_transaction (record_failure fresh t i e msg ty now m later) d = (Inr r, d')"
  shows "(\<exists>err. mark_attempt_completed i now' d' = Inl (ValueError err)) \<and>
    (\<forall>now''. x \<le> now'' \<longrightarrow> (\<exists>d''. claim_attempt i t (lt_execution_id l) (lt_node_id l) w now'' expires d' =
       Inr (CLAIMED, d'')))"
proof -
  from run have run': "record_failure fresh t i e msg ty now m later d = Inr (r, d')"
    by (simp add: run_transaction_Inr)
  have lnone: "logical_t.row d t \<noteq> None" using l by simp
  note eq = record_failure_eq [OF inv m lnone a(1,2) fresh, of e msg ty now later]
  have "\<not> failure_is_duplicate d a e" using a new by (auto simp: failure_is_duplicate_def)
  with eq run' have d': "d' = set_task t (\<lambda>r. r\<lparr>lt_status := ''failed'', lt_final_error_message := Some msg,
        lt_final_error_type := Some ty\<rparr>) (fail_attempt i e msg ty now d) \<or>
      d' = retried fresh t (ta_attempt_number a) now later (fail_attempt i e msg ty now d)"
    by (auto split: if_splits)
  have inv': "retry_inv d'" by (rule record_failure_keeps_inv [OF inv run'])
  have un: "attempts_t.unique d'" "logical_t.unique d'"
    using inv' retry_inv_unique by (auto simp: retry_inv_def)
  let ?b = "a\<lparr>ta_status := ''failed'', ta_failure_event_id := Some e, ta_error_message := Some msg,
    ta_error_type := Some ty, ta_failed_at := Some now\<rparr>"
  have fresh': "fresh \<notin> ta_attempt_id ` set (db_attempts (fail_attempt i e msg ty now d))"
    "fresh \<notin> rd_attempt_id ` set (db_retries (fail_attempt i e msg ty now d))"
    using inv fresh by (auto simp: retry_inv_def fail_attempt_ids)
  have "fresh \<noteq> i" using a(1) fresh attempts_t.row_key [OF a(1)]
    by (metis attempts_t.row_absent option.distinct(1))
  with d' have row: "attempts_t.row d' i = Some ?b"
    using retried_rows(1) [OF fresh'] fail_attempt_row [OF a(1)] by auto
  have "map_option (\<lambda>l. (lt_execution_id l, lt_node_id l)) (logical_t.row d' t) =
      Some (lt_execution_id l, lt_node_id l)"
    using d' l retried_rows(3) [OF fresh'] by (auto simp: set_task_row)
  then obtain l' where l': "logical_t.row d' t = Some l'" "lt_execution_id l' = lt_execution_id l"
    "lt_node_id l' = lt_node_id l" by auto
  have "\<exists>err. mark_attempt_completed i now' d' = Inl (ValueError err)"
    by (simp add: mark_attempt_completed_def attempts_t.update_where_key [OF un(1)] row)
  moreover have "\<exists>d''. claim_attempt i t (lt_execution_id l) (lt_node_id l) w now'' expires d' = Inr (CLAIMED, d'')"
    if "x \<le> now''" for now''
    using that a l' by (simp add: claim_attempt_def attempts_t.select_one_key [OF un(1)] row
        logical_t.select_one_key [OF un(2)] update_attempt_def table_simps)
  ultimately show ?thesis by blast
qed

definition recorded_db :: db where
  "recorded_db = empty_db\<lparr>db_logical_tasks := [sample_logical],
     db_attempts := [sample_attempt\<lparr>ta_status := ''result_recorded'', ta_claimed_by := Some ''w1'',
       ta_claim_expires_at := Some 20, ta_completion_event_id := Some 9\<rparr>]\<rparr>"

theorem failure_reopens_attempt_witness:
  "\<exists>r d' d''. run_transaction (record_failure 8 ''t'' 7 9 ''boom'' ''ValueError'' 5 3 15) recorded_db = (Inr r, d') \<and>
     claim_attempt 7 ''t'' 1 ''a'' ''w2'' 30 50 d' = Inr (CLAIMED, d'')"
proof -
  let ?a = "sample_attempt\<lparr>ta_status := ''result_recorded'', ta_claimed_by := Some ''w1'',
       ta_claim_expires_at := Some 20, ta_completion_event_id := Some 9\<rparr>"
  have inv: "retry_inv recorded_db"
    by (rule retry_inv_cong [OF retry_db_inv])
      (simp_all add: recorded_db_def retry_db_def att_view_def)
  have rows: "attempts_t.row recorded_db 7 = Some ?a" "logical_t.row recorded_db ''t'' = Some sample_logical"
    "db_attempts recorded_db = [?a]" "ta_attempt_id ?a = 7" "ta_task_id ?a = ''t''"
    "ta_failure_event_id ?a = None" "lt_execution_id sample_logical = 1" "lt_node_id sample_logical = ''a''"
    by (simp_all add: recorded_db_def attempts_t.row_def logical_t.row_def sample_attempt_def sample_logical_def)
  have "\<exists>r d'. record_failure 8 ''t'' 7 9 ''boom'' ''ValueError'' 5 3 15 recorded_db = Inr (r, d')"
    using record_failure_eq [OF inv, of 3 "''t''" 7 ?a 8 9] rows by simp
  then obtain r d' where
    run: "run_transaction (record_failure 8 ''t'' 7 9 ''boom'' ''ValueError'' 5 3 15) recorded_db = (Inr r, d')"
    by (auto simp: run_transaction_Inr)
  have "\<forall>now''\<ge>20. \<exists>d''. claim_attempt 7 ''t'' 1 ''a'' ''w2'' now'' 50 d' = Inr (CLAIMED, d'')"
    using failure_reopens_attempt [OF inv _ rows(2,1,5) _ _ _ _ _ run, of 20 _ "''w2''" 50] rows by simp
  then have "\<exists>d''. claim_attempt 7 ''t'' 1 ''a'' ''w2'' 30 50 d' = Inr (CLAIMED, d'')" by simp
  with run show ?thesis by blast
qed

end
