(* ===== verification/Outbox.thy ===== *)
theory Outbox
  imports Processing
begin

text \<open>
  The transactional outbox: \<open>app/messaging/outbox_publisher.py\<close> with its orchestrator entry points
  (\<open>app/orchestrator/outbox.py\<close>) and the publication of due retries
  (\<open>RedisNodeTaskDispatcher.publish_due_retries\<close>). The Redis call behind
  \<open>app.messaging.redis.streams.publish\<close> is an argument: it maps a stream, the fields and the state
  \<open>'b\<close> of the broker to the message identifier or the raised exception and the new state. What is
  relied on of it is stated by \<open>accepts_to_log\<close> and \<open>reliable_log\<close>.
\<close>

section \<open>Publishing pending rows\<close>

type_synonym 'b publish_call = "string \<Rightarrow> fields \<Rightarrow> 'b \<Rightarrow> (error + string) \<times> 'b"

fun is_redis_error :: "error \<Rightarrow> bool" where
  "is_redis_error (RedisError _) = True"
| "is_redis_error (ResponseError _) = True"
| "is_redis_error _ = False"

definition target_stream_of :: "OutboxEventRecord \<Rightarrow> string" where
  "target_stream_of row = (if ob_target_stream row = [] then WORKFLOW_EVENTS_STREAM else ob_target_stream row)"

definition stream_fields :: "float_text \<Rightarrow> OutboxEventRecord \<Rightarrow> error + fields" where
  "stream_fields fr row =
     outbox_stream_fields fr (ob_event_id row) (ob_event_type row) (ob_target_stream row)
       (ob_aggregate_id row) (ob_payload row)"

definition set_outbox_row :: "uuid \<Rightarrow> (OutboxEventRecord \<Rightarrow> OutboxEventRecord) \<Rightarrow> db \<Rightarrow> db" where
  "set_outbox_row i f = db_outbox_update (update_rows (\<lambda>r. ob_event_id r = i) f)"

definition mark_failed_publish :: "error \<Rightarrow> OutboxEventRecord \<Rightarrow> OutboxEventRecord" where
  "mark_failed_publish e row =
     row\<lparr>ob_publish_attempts := ob_publish_attempts row + 1, ob_last_error := Some (error_message e)\<rparr>"

definition mark_published :: "datetime \<Rightarrow> OutboxEventRecord \<Rightarrow> OutboxEventRecord" where
  "mark_published now row =
     row\<lparr>ob_status := ''published'', ob_published_at := Some now,
         ob_publish_attempts := ob_publish_attempts row + 1, ob_last_error := None\<rparr>"

text \<open>The loop over the selected rows: the number published, or the exception and whether the session
  was committed before it was raised.\<close>

fun publish_rows ::
    "float_text \<Rightarrow> 'b publish_call \<Rightarrow> datetime \<Rightarrow> OutboxEventRecord list \<Rightarrow> nat \<Rightarrow> db \<Rightarrow> 'b \<Rightarrow>
     (error \<times> bool + nat) \<times> db \<times> 'b" where
  "publish_rows fr publish now [] published d b = (Inr published, d, b)"
| "publish_rows fr publish now (row # rows) published d b =
     (case stream_fields fr row of
        Inl e \<Rightarrow> (Inl (e, False), d, b)
      | Inr fs \<Rightarrow>
          (case publish (target_stream_of row) fs b of
             (Inl e, b1) \<Rightarrow>
               if is_redis_error e
               then (Inl (e, True), set_outbox_row (ob_event_id row) (mark_failed_publish e) d, b1)
               else (Inl (e, False), d, b1)
           | (Inr _, b1) \<Rightarrow>
               publish_rows fr publish now rows (published + 1)
                 (set_outbox_row (ob_event_id row) (mark_published now) d) b1))"

definition pending_batch :: "db \<Rightarrow> OutboxEventRecord list" where
  "pending_batch d = take 100 (sort_key ob_created_at (filter (\<lambda>r. ob_status r = ''pending'') (db_outbox d)))"

text \<open>Leaving the session by an exception discards what was not committed.\<close>

definition publish_pending ::
    "float_text \<Rightarrow> 'b publish_call \<Rightarrow> datetime \<Rightarrow> db \<Rightarrow> 'b \<Rightarrow> (error + nat) \<times> db \<times> 'b" where
  "publish_pending fr publish now d b =
     (case publish_rows fr publish now (pending_batch d) 0 d b of
        (Inr n, d', b') \<Rightarrow> (Inr n, d', b')
      | (Inl (e, committed), d', b') \<Rightarrow> (Inl e, if committed then d' else d, b'))"

section \<open>Cleanup\<close>

definition expired_rows :: "datetime \<Rightarrow> db \<Rightarrow> OutboxEventRecord list" where
  "expired_rows cutoff d =
     sort_key (\<lambda>r. the (ob_published_at r)) (filter (\<lambda>r. ob_status r = ''published'' \<and>
       (case ob_published_at r of None \<Rightarrow> False | Some t \<Rightarrow> t \<le> cutoff)) (db_outbox d))"

definition cleanup_published :: "datetime \<Rightarrow> int \<Rightarrow> int \<Rightarrow> db \<Rightarrow> (error + nat) \<times> db" where
  "cleanup_published now retention batch_size d =
     (if retention < 0 then (Inl (ValueError ''retention must not be negative.''), d)
      else if batch_size < 1 then (Inl (ValueError ''batch_size must be at least one.''), d)
      else
        (let message_ids = map ob_event_id (take (nat batch_size) (expired_rows (now - retention) d)) in
         if message_ids = [] then (Inr 0, d)
         else (Inr (length message_ids),
               db_outbox_update (filter (\<lambda>r. ob_event_id r \<notin> set message_ids)) d)))"

text \<open>\<open>orchestrator/outbox.py\<close>: the default batch and a retention in seconds, converted by the platform.\<close>

definition cleanup_published_outbox ::
    "('f \<Rightarrow> error + int) \<Rightarrow> 'f \<Rightarrow> datetime \<Rightarrow> db \<Rightarrow> (error + nat) \<times> db" where
  "cleanup_published_outbox timedelta retention_seconds now d =
     (case timedelta retention_seconds of
        Inl e \<Rightarrow> (Inl e, d)
      | Inr retention \<Rightarrow> cleanup_published now retention 100 d)"

section \<open>Due retries\<close>

definition retry_message :: "DueRetryTask \<Rightarrow> NodeTaskMessage" where
  "retry_message retry =
     \<lparr>nt_message_id = None, nt_task_id = due_task_id retry, nt_attempt_id = due_attempt_id retry,
      nt_attempt_number = due_attempt_number retry, nt_execution_id = due_execution_id retry,
      nt_node_id = due_node_id retry, nt_handler = due_handler retry,
      nt_handler_config = due_handler_config retry, nt_resolved_input = due_resolved_input retry\<rparr>"

fun publish_retries ::
    "float_text \<Rightarrow> 'b publish_call \<Rightarrow> datetime \<Rightarrow> DueRetryTask list \<Rightarrow> nat \<Rightarrow> db \<Rightarrow> 'b \<Rightarrow>
     (error + nat) \<times> db \<times> 'b" where
  "publish_retries fr publish available_at [] published d b = (Inr published, d, b)"
| "publish_retries fr publish available_at (retry # rest) published d b =
     (case task_to_stream_fields fr (retry_message retry) of
        Inl e \<Rightarrow> (Inl e, d, b)
      | Inr fs \<Rightarrow>
          (case publish WORKFLOW_TASKS_STREAM fs b of
             (Inl e, b1) \<Rightarrow> (Inl e, d, b1)
           | (Inr _, b1) \<Rightarrow>
               (case run_transaction (mark_retry_published (due_attempt_id retry) available_at) d of
                  (Inl e, d1) \<Rightarrow> (Inl e, d1, b1)
                | (Inr marked, d1) \<Rightarrow>
                    publish_retries fr publish available_at rest (if marked then published + 1 else published) d1 b1)))"

definition publish_due_retries ::
    "float_text \<Rightarrow> 'b publish_call \<Rightarrow> datetime \<Rightarrow> db \<Rightarrow> 'b \<Rightarrow> (error + nat) \<times> db \<times> 'b" where
  "publish_due_retries fr publish available_at d b =
     (case run_transaction (get_due_retries available_at) d of
        (Inl e, d1) \<Rightarrow> (Inl e, d1, b)
      | (Inr due_retries, d1) \<Rightarrow> publish_retries fr publish available_at due_retries 0 d1 b)"

section \<open>What is relied on of the broker\<close>

text \<open>\<open>log b\<close> is the set of the stream entries of broker state \<open>b\<close>: a call adds at most its own entry,
  and an accepted call adds it.\<close>

definition accepts_to_log :: "'b publish_call \<Rightarrow> ('b \<Rightarrow> (string \<times> fields) set) \<Rightarrow> bool" where
  "accepts_to_log publish log \<longleftrightarrow> (\<forall>s f b r b'. publish s f b = (r, b') \<longrightarrow>
     log b \<subseteq> log b' \<and> log b' \<subseteq> insert (s, f) (log b) \<and> (\<forall>i. r = Inr i \<longrightarrow> (s, f) \<in> log b'))"

text \<open>While Redis is reachable, a call is accepted and appended to the stream.\<close>

definition reliable_log :: "'b publish_call \<Rightarrow> ('b \<Rightarrow> (string \<times> fields) list) \<Rightarrow> bool" where
  "reliable_log publish log \<longleftrightarrow> (\<forall>s f b. \<exists>i b'. publish s f b = (Inr i, b') \<and> log b' = log b @ [(s, f)])"

lemma accepts_to_logD:
  assumes "accepts_to_log publish log" and "publish s f b = (r, b')"
  shows "log b \<subseteq> log b'" "log b' \<subseteq> insert (s, f) (log b)" "r = Inr i \<Longrightarrow> (s, f) \<in> log b'"
  using assms unfolding accepts_to_log_def by blast+

text \<open>The part of a row that is fixed when it is written, and the entry it is published as.\<close>

definition ob_core :: "OutboxEventRecord \<Rightarrow> uuid \<times> string \<times> string \<times> pydict \<times> uuid option" where
  "ob_core r = (ob_event_id r, ob_event_type r, ob_target_stream r, ob_payload r, ob_aggregate_id r)"

definition published_as :: "float_text \<Rightarrow> OutboxEventRecord \<Rightarrow> string \<times> fields \<Rightarrow> bool" where
  "published_as fr r x \<longleftrightarrow> fst x = target_stream_of r \<and> stream_fields fr r = Inr (snd x)"

lemma mark_sel [simp]:
  "ob_core (mark_published now r) = ob_core r" "ob_core (mark_failed_publish e r) = ob_core r"
  "ob_event_id (mark_published now r) = ob_event_id r" "ob_event_id (mark_failed_publish e r) = ob_event_id r"
  "ob_status (mark_published now r) = ''published''" "ob_status (mark_failed_publish e r) = ob_status r"
  by (simp_all add: mark_published_def mark_failed_publish_def ob_core_def)

lemma published_as_core: "ob_core r = ob_core r' \<Longrightarrow> published_as fr r = published_as fr r'"
  by (auto simp: published_as_def ob_core_def stream_fields_def target_stream_of_def fun_eq_iff)

text \<open>A change of the outbox that keeps the written part of the rows.\<close>

definition same_messages :: "db \<Rightarrow> db \<Rightarrow> bool" where
  "same_messages d d' \<longleftrightarrow> map ob_core (db_outbox d') = map ob_core (db_outbox d) \<and>
     d' = db_outbox_update (\<lambda>_. db_outbox d') d"

lemma same_messages_refl [simp]: "same_messages d d"
  by (simp add: same_messages_def)

lemma same_messages_trans: "same_messages d d1 \<Longrightarrow> same_messages d1 d2 \<Longrightarrow> same_messages d d2"
  unfolding same_messages_def by (metis db.surjective db.update_convs(4))

lemma same_messages_set:
  "(\<And>r. ob_core (f r) = ob_core r) \<Longrightarrow> same_messages d (set_outbox_row i f d)"
  unfolding same_messages_def set_outbox_row_def by (simp add: map_update_rows)

text \<open>Where the rows of a later outbox come from: a row has kept its status, or was among \<open>rows\<close> and is marked
  published with its entry in \<open>L\<close>.\<close>

definition marked_from :: "float_text \<Rightarrow> OutboxEventRecord list \<Rightarrow> (string \<times> fields) set \<Rightarrow> db \<Rightarrow> db \<Rightarrow> bool" where
  "marked_from fr rows L d d' \<longleftrightarrow> (\<forall>r' \<in> set (db_outbox d'). \<exists>r0 \<in> set (db_outbox d). ob_core r' = ob_core r0 \<and>
     (ob_status r' = ob_status r0 \<or> ob_status r' = ''published'' \<and>
       (\<exists>r \<in> set rows. ob_event_id r = ob_event_id r0 \<and> (\<exists>x \<in> L. published_as fr r x))))"

lemma marked_from_refl: "marked_from fr rows L d d"
  by (auto simp: marked_from_def)

lemma marked_from_failed: "marked_from fr rows L d (set_outbox_row i (mark_failed_publish e) d)"
  by (fastforce simp: marked_from_def set_outbox_row_def set_update_rows split: if_splits)

lemma marked_from_published:
  assumes rest: "marked_from fr rows L (set_outbox_row (ob_event_id r) (mark_published now) d) d'"
    and x: "x \<in> L" "published_as fr r x"
  shows "marked_from fr (r # rows) L d d'"
  unfolding marked_from_def
proof
  fix r' assume "r' \<in> set (db_outbox d')"
  with rest obtain r1 where r1: "r1 \<in> set (db_outbox (set_outbox_row (ob_event_id r) (mark_published now) d))" "ob_core r' = ob_core r1"
    "ob_status r' = ob_status r1 \<or> ob_status r' = ''published'' \<and>
       (\<exists>q \<in> set rows. ob_event_id q = ob_event_id r1 \<and> (\<exists>x \<in> L. published_as fr q x))"
    unfolding marked_from_def by blast
  from r1(1) obtain r0 where r0: "r0 \<in> set (db_outbox d)"
    and eq: "r1 = (if ob_event_id r0 = ob_event_id r then mark_published now r0 else r0)"
    by (auto simp: set_outbox_row_def set_update_rows)
  from eq have core: "ob_core r1 = ob_core r0" "ob_event_id r1 = ob_event_id r0" by auto
  from r1(3) have "ob_status r' = ob_status r0 \<or> ob_status r' = ''published'' \<and>
      (\<exists>q \<in> set (r # rows). ob_event_id q = ob_event_id r0 \<and> (\<exists>x \<in> L. published_as fr q x))"
    using eq core x by (auto split: if_splits)
  with r1(2) core(1) r0 show "\<exists>r0 \<in> set (db_outbox d). ob_core r' = ob_core r0 \<and>
      (ob_status r' = ob_status r0 \<or> ob_status r' = ''published'' \<and>
        (\<exists>q \<in> set (r # rows). ob_event_id q = ob_event_id r0 \<and> (\<exists>x \<in> L. published_as fr q x)))" by auto
qed

lemma publish_rows_effect:
  assumes log: "accepts_to_log publish log" and run: "publish_rows fr publish now rows n d b = (res, d', b')"
  shows "same_messages d d' \<and> log b \<subseteq> log b' \<and>
    (\<forall>x \<in> log b'. x \<in> log b \<or> (\<exists>r \<in> set rows. published_as fr r x)) \<and> marked_from fr rows (log b') d d'"
  using run
proof (induction rows arbitrary: n d b)
  case Nil
  then show ?case by (auto simp: marked_from_refl)
next
  case (Cons r rows)
  show ?case
  proof (cases "stream_fields fr r")
    case (Inl e)
    with Cons.prems show ?thesis by (auto simp: marked_from_refl)
  next
    case (Inr fs)
    obtain x b1 where pub: "publish (target_stream_of r) fs b = (x, b1)" by fastforce
    note l = accepts_to_logD [OF log pub]
    have as: "published_as fr r (target_stream_of r, fs)" using Inr by (simp add: published_as_def)
    show ?thesis
    proof (cases x)
      case (Inl e)
      have eq: "b' = b1" "d' = set_outbox_row (ob_event_id r) (mark_failed_publish e) d \<or> d' = d"
        using Cons.prems Inr pub Inl by (auto split: if_splits)
      have "same_messages d (set_outbox_row (ob_event_id r) (mark_failed_publish e) d)" by (rule same_messages_set) simp
      then have "same_messages d d'" "marked_from fr (r # rows) (log b1) d d'"
        using eq(2) by (auto simp: marked_from_refl marked_from_failed)
      moreover have "y \<in> log b \<or> published_as fr r y" if "y \<in> log b1" for y using that l(2) as by auto
      ultimately show ?thesis using l(1) unfolding eq(1) by (meson list.set_intros(1))
    next
      case (Inr i)
      let ?d = "set_outbox_row (ob_event_id r) (mark_published now) d"
      have rest: "publish_rows fr publish now rows (n + 1) ?d b1 = (res, d', b')"
        using Cons.prems \<open>stream_fields fr r = Inr fs\<close> pub Inr by simp
      note IH = Cons.IH [OF rest]
      have sm: "same_messages d ?d" by (rule same_messages_set) simp
      have logs: "log b \<subseteq> log b'" "(target_stream_of r, fs) \<in> log b'" using IH l(1) l(3) [OF Inr] by blast+
      moreover have "y \<in> log b \<or> (\<exists>r \<in> set (r # rows). published_as fr r y)" if "y \<in> log b'" for y
        using IH that l(2) as by auto
      moreover have "marked_from fr (r # rows) (log b') d d'" using marked_from_published [OF _ logs(2) as] IH by blast
      ultimately show ?thesis using same_messages_trans [OF sm] IH by blast
    qed
  qed
qed

lemma publish_pending_effect:
  assumes log: "accepts_to_log publish log" and run: "publish_pending fr publish now d b = (res, d', b')"
  shows "same_messages d d'" "log b \<subseteq> log b'"
    "\<And>x. x \<in> log b' \<Longrightarrow> x \<in> log b \<or> (\<exists>r \<in> set (pending_batch d). published_as fr r x)"
    "\<And>r'. r' \<in> set (db_outbox d') \<Longrightarrow> \<exists>r0 \<in> set (db_outbox d). ob_core r' = ob_core r0 \<and>
       (ob_status r' = ob_status r0 \<or> ob_status r' = ''published'' \<and>
         (\<exists>r \<in> set (pending_batch d). ob_event_id r = ob_event_id r0 \<and> (\<exists>x \<in> log b'. published_as fr r x)))"
proof -
  obtain r1 d1 b1 where rows: "publish_rows fr publish now (pending_batch d) 0 d b = (r1, d1, b1)"
    by (metis prod_cases3)
  note eff = publish_rows_effect [OF log rows, unfolded marked_from_def]
  have b1: "b1 = b'" and d': "d' = d1 \<or> d' = d"
    using run rows by (auto simp: publish_pending_def split: sum.splits prod.splits if_splits)
  show "same_messages d d'" "log b \<subseteq> log b'"
    "\<And>x. x \<in> log b' \<Longrightarrow> x \<in> log b \<or> (\<exists>r \<in> set (pending_batch d). published_as fr r x)"
    using eff d' unfolding b1 by auto
  fix r' assume r': "r' \<in> set (db_outbox d')"
  show "\<exists>r0 \<in> set (db_outbox d). ob_core r' = ob_core r0 \<and>
       (ob_status r' = ob_status r0 \<or> ob_status r' = ''published'' \<and>
         (\<exists>r \<in> set (pending_batch d). ob_event_id r = ob_event_id r0 \<and> (\<exists>x \<in> log b'. published_as fr r x)))"
  proof (cases "d' = d")
    case True
    with r' show ?thesis by blast
  next
    case False
    with d' r' eff show ?thesis unfolding b1 by blast
  qed
qed

lemma publish_rows_reliable:
  assumes log: "reliable_log publish log" and enc: "\<And>r. r \<in> set rows \<Longrightarrow> stream_fields fr r = Inr (enc r)"
  shows "\<exists>b'. publish_rows fr publish now rows n d b =
      (Inr (n + length rows), fold (\<lambda>r. set_outbox_row (ob_event_id r) (mark_published now)) rows d, b') \<and>
    log b' = log b @ map (\<lambda>r. (target_stream_of r, enc r)) rows"
  using enc
proof (induction rows arbitrary: n d b)
  case Nil
  then show ?case by simp
next
  case (Cons r rows)
  obtain i b1 where pub: "publish (target_stream_of r) (enc r) b = (Inr i, b1)"
    and b1: "log b1 = log b @ [(target_stream_of r, enc r)]"
    using log unfolding reliable_log_def by meson
  obtain b' where "publish_rows fr publish now rows (n + 1) (set_outbox_row (ob_event_id r) (mark_published now) d) b1 =
      (Inr (n + 1 + length rows), fold (\<lambda>r. set_outbox_row (ob_event_id r) (mark_published now)) rows
        (set_outbox_row (ob_event_id r) (mark_published now) d), b')"
    "log b' = log b1 @ map (\<lambda>r. (target_stream_of r, enc r)) rows"
    using Cons.IH [of "n + 1" "set_outbox_row (ob_event_id r) (mark_published now) d" b1] Cons.prems by auto
  with Cons.prems pub b1 show ?case by auto
qed

text \<open>Marking the rows of a batch one after the other is one update of them.\<close>

lemma mark_batch:
  "distinct (map ob_event_id rows) \<Longrightarrow> fold (\<lambda>r. set_outbox_row (ob_event_id r) (mark_published now)) rows d =
     db_outbox_update (map (\<lambda>r. if ob_event_id r \<in> ob_event_id ` set rows then mark_published now r else r)) d"
proof (induction rows arbitrary: d)
  case Nil
  then show ?case by (simp add: map_idI)
next
  case (Cons r rows)
  let ?f = "\<lambda>x. if ob_event_id x = ob_event_id r then mark_published now x else x"
  let ?g = "\<lambda>x. if ob_event_id x \<in> ob_event_id ` set rows then mark_published now x else x"
  have "(\<lambda>x. ?g (?f x)) = (\<lambda>x. if ob_event_id x \<in> ob_event_id ` set (r # rows) then mark_published now x else x)"
    using Cons.prems by (auto simp: fun_eq_iff)
  with Cons show ?case by (simp add: set_outbox_row_def update_rows_def comp_def)
qed

text \<open>The first \<open>n\<close> elements by increasing key.\<close>

lemma take_oldest:
  fixes key :: "'a \<Rightarrow> 'k::linorder"
  defines "oldest \<equiv> \<lambda>n xs. take n (sort_key key xs)"
  shows "set (oldest n xs) \<subseteq> set xs" and "sorted (map key (oldest n xs))" and "length (oldest n xs) = min n (length xs)"
    and "distinct (map f xs) \<Longrightarrow> distinct (map f (oldest n xs))"
    and "x \<in> set (oldest n xs) \<Longrightarrow> y \<in> set xs \<Longrightarrow> y \<notin> set (oldest n xs) \<Longrightarrow> key x \<le> key y"
proof -
  let ?s = "sort_key key xs"
  show "set (oldest n xs) \<subseteq> set xs" using set_take_subset [of n ?s] by (simp add: oldest_def)
  show "sorted (map key (oldest n xs))" using sorted_wrt_take [of "(\<le>)" "map key ?s" n] by (simp add: oldest_def take_map)
  show "length (oldest n xs) = min n (length xs)" by (simp add: oldest_def min.commute)
  have "mset (map f ?s) = mset (map f xs)" by simp
  then show "distinct (map f (oldest n xs))" if "distinct (map f xs)"
    using that mset_eq_imp_distinct_iff [of "map f ?s" "map f xs"] unfolding oldest_def take_map [symmetric] by (simp add: distinct_take)
  assume x: "x \<in> set (oldest n xs)" and y: "y \<in> set xs" "y \<notin> set (oldest n xs)"
  have "sorted (map key (take n ?s @ drop n ?s))" by simp
  moreover have "y \<in> set (drop n ?s)" using y append_take_drop_id [of n ?s] unfolding oldest_def
    by (metis Un_iff set_append set_sort)
  ultimately show "key x \<le> key y" using x unfolding map_append sorted_append oldest_def by auto
qed

lemma pending_batch_subset: "r \<in> set (pending_batch d) \<Longrightarrow> r \<in> set (db_outbox d) \<and> ob_status r = ''pending''"
  unfolding pending_batch_def by (auto dest!: in_set_takeD)

text \<open>C13: while Redis accepts calls and the payloads can be encoded, one pass of the publisher takes a batch of
  pending rows: 100 of them, or all when there are fewer, in the order of their creation, none of them younger than a
  pending row that is left out. It sends each with its own fields to its own stream, in that order, returns their
  number, and marks exactly them as published now, with one more attempt and no error; every other row and every
  other table stays as it was.\<close>

theorem outbox_batch_published:
  assumes "reliable_log publish log" and "outbox_t.unique d" and "\<forall>r \<in> set (db_outbox d). \<exists>fs. stream_fields fr r = Inr fs"
  shows "\<exists>batch b' sent. publish_pending fr publish now d b = (Inr (length batch),
      db_outbox_update (map (\<lambda>r. if r \<in> set batch then r\<lparr>ob_status := ''published'', ob_published_at := Some now,
        ob_publish_attempts := ob_publish_attempts r + 1, ob_last_error := None\<rparr> else r)) d, b') \<and>
    log b' = log b @ sent \<and> list_all2 (published_as fr) batch sent \<and>
    set batch \<subseteq> {r \<in> set (db_outbox d). ob_status r = ''pending''} \<and> distinct batch \<and>
    length batch = min 100 (length (filter (\<lambda>r. ob_status r = ''pending'') (db_outbox d))) \<and>
    sorted (map ob_created_at batch) \<and>
    (\<forall>r \<in> set batch. \<forall>q \<in> set (db_outbox d). ob_status q = ''pending'' \<longrightarrow> q \<notin> set batch \<longrightarrow> ob_created_at r \<le> ob_created_at q)"
proof -
  let ?pending = "filter (\<lambda>r. ob_status r = ''pending'') (db_outbox d)" and ?batch = "pending_batch d"
  let ?enc = "\<lambda>r. projr (stream_fields fr r)" and ?sent = "map (\<lambda>r. (target_stream_of r, projr (stream_fields fr r))) (pending_batch d)"
  have enc: "stream_fields fr r = Inr (?enc r)" if "r \<in> set ?batch" for r
    using assms(3) pending_batch_subset [OF that] by force
  obtain b' where run: "publish_rows fr publish now ?batch 0 d b = (Inr (0 + length ?batch),
      fold (\<lambda>r. set_outbox_row (ob_event_id r) (mark_published now)) ?batch d, b')"
    and b': "log b' = log b @ ?sent"
    using publish_rows_reliable [OF assms(1) enc, of ?batch now 0 d b] by blast
  have sent: "list_all2 (published_as fr) ?batch ?sent"
    unfolding list.rel_map by (rule list.rel_refl_strong) (use enc in \<open>simp add: published_as_def\<close>)
  have ids: "distinct (map ob_event_id ?pending)" using assms(2) by (simp add: outbox_t.unique_def distinct_map_filter)
  note old = take_oldest [where key = ob_created_at and n = 100 and xs = ?pending, folded pending_batch_def]
  have key: "ob_event_id r \<in> ob_event_id ` set ?batch \<longleftrightarrow> r \<in> set ?batch" if "r \<in> set (db_outbox d)" for r
    using that assms(2) pending_batch_subset unfolding outbox_t.unique_def by (auto dest: distinct_keyD)
  have "fold (\<lambda>r. set_outbox_row (ob_event_id r) (mark_published now)) ?batch d =
      db_outbox_update (\<lambda>rows. map (\<lambda>r. if ob_event_id r \<in> ob_event_id ` set ?batch then mark_published now r else r) rows) d"
    by (rule mark_batch [OF old(4) [OF ids]])
  also have "\<dots> = db_outbox_update (\<lambda>rows. map (\<lambda>r. if r \<in> set ?batch then mark_published now r else r) rows) d"
    using key by (simp cong: map_cong)
  finally have marked: "publish_pending fr publish now d b = (Inr (length ?batch),
      db_outbox_update (map (\<lambda>r. if r \<in> set ?batch then mark_published now r else r)) d, b')"
    using run by (simp add: publish_pending_def)
  have "distinct ?batch" using old(4) [OF ids] by (simp add: distinct_map)
  with marked b' sent old(2,3,5) pending_batch_subset show ?thesis
    by (intro exI [of _ ?batch] exI [of _ b'] exI [of _ ?sent]) (auto simp: mark_published_def)
qed

text \<open>A broker that keeps a list of entries, and an outbox with one pending event.\<close>

definition list_publish :: "(string \<times> fields) list publish_call" where
  "list_publish s f b = (Inr ''0-1'', b @ [(s, f)])"

definition sample_event_row :: OutboxEventRecord where
  "sample_event_row = \<lparr>ob_event_id = 7, ob_event_type = ''workflow.execution.triggered'', ob_aggregate_id = None,
     ob_target_stream = WORKFLOW_EVENTS_STREAM, ob_payload = [(PStr ''execution_id'', PStr ''e'')],
     ob_status = ''pending'', ob_publish_attempts = 0, ob_last_error = None, ob_created_at = 0,
     ob_published_at = None\<rparr>"

definition outbox_db :: db where
  "outbox_db = empty_db\<lparr>db_outbox := [sample_event_row]\<rparr>"

lemma list_publish_log: "reliable_log list_publish (\<lambda>b. b)" "accepts_to_log list_publish set"
  by (auto simp: reliable_log_def accepts_to_log_def list_publish_def)

lemma outbox_db_simps:
  "db_outbox outbox_db = [sample_event_row]" "pending_batch outbox_db = [sample_event_row]"
  by (simp_all add: outbox_db_def pending_batch_def sample_event_row_def)

lemma sample_event_fields: "\<exists>fs. stream_fields (\<lambda>_. []) sample_event_row = Inr fs"
  by (simp add: stream_fields_def outbox_stream_fields_def sample_event_row_def)

theorem outbox_batch_published_witness:
  "\<exists>d' b'. publish_pending (\<lambda>_. []) list_publish 5 outbox_db [] = (Inr 1, d', b') \<and> length b' = 1 \<and>
     map ob_status (db_outbox d') = [''published'']"
proof -
  have enc: "\<forall>r \<in> set (db_outbox outbox_db). \<exists>fs. stream_fields (\<lambda>_. []) r = Inr fs"
    using sample_event_fields by (simp add: outbox_db_simps)
  have pending: "ob_status sample_event_row = ''pending''" by (simp add: sample_event_row_def)
  have unique: "outbox_t.unique outbox_db" by (simp add: outbox_t.unique_def outbox_db_simps)
  from outbox_batch_published [OF list_publish_log(1) unique enc, of 5 "[]"] obtain batch b' sent where
    run: "publish_pending (\<lambda>_. []) list_publish 5 outbox_db [] = (Inr (length batch),
      db_outbox_update (map (\<lambda>r. if r \<in> set batch then r\<lparr>ob_status := ''published'', ob_published_at := Some 5,
        ob_publish_attempts := ob_publish_attempts r + 1, ob_last_error := None\<rparr> else r)) outbox_db, b')"
    and b: "b' = [] @ sent" "list_all2 (published_as (\<lambda>_. [])) batch sent"
      "set batch \<subseteq> {r \<in> set (db_outbox outbox_db). ob_status r = ''pending''}"
      "length batch = min 100 (length (filter (\<lambda>r. ob_status r = ''pending'') (db_outbox outbox_db)))"
    by blast
  from b(4) have "length batch = 1" by (simp add: outbox_db_simps pending)
  with b(3) have "batch = [sample_event_row]" by (cases batch) (auto simp: outbox_db_simps)
  with run b(1,2) show ?thesis by (auto simp: outbox_db_simps dest: list_all2_lengthD)
qed

text \<open>C12: whatever Redis answers (also when it fails in the middle of a batch and part of it is rolled
  back), a pass of the publisher loses no row and changes no content, a row is marked published only
  when its own fields are in its own stream, and every new stream entry is that of a pending row.\<close>

theorem outbox_no_loss:
  assumes "accepts_to_log publish log" and "outbox_t.unique d"
    and "publish_pending fr publish now d b = (res, d', b')"
  shows "map ob_core (db_outbox d') = map ob_core (db_outbox d) \<and>
    (\<forall>r' \<in> set (db_outbox d'). \<exists>r \<in> set (db_outbox d). ob_core r' = ob_core r \<and>
       (ob_status r' = ob_status r \<or> ob_status r' = ''published'' \<and> (\<exists>x \<in> log b'. published_as fr r x))) \<and>
    (\<forall>x \<in> log b' - log b. \<exists>r \<in> set (db_outbox d). ob_status r = ''pending'' \<and> published_as fr r x)"
proof (intro conjI ballI)
  note eff = publish_pending_effect [OF assms(1,3)]
  show "map ob_core (db_outbox d') = map ob_core (db_outbox d)" using eff(1) by (simp add: same_messages_def)
  show "\<exists>r \<in> set (db_outbox d). ob_status r = ''pending'' \<and> published_as fr r x" if "x \<in> log b' - log b" for x
    using eff(3) [of x] that pending_batch_subset by blast
  fix r' assume "r' \<in> set (db_outbox d')"
  from eff(4) [OF this] obtain r where r: "r \<in> set (db_outbox d)" "ob_core r' = ob_core r"
    "ob_status r' = ob_status r \<or> ob_status r' = ''published'' \<and>
       (\<exists>q \<in> set (pending_batch d). ob_event_id q = ob_event_id r \<and> (\<exists>x \<in> log b'. published_as fr q x))" by blast
  have "q = r" if "q \<in> set (pending_batch d)" "ob_event_id q = ob_event_id r" for q
    using assms(2) r(1) pending_batch_subset [OF that(1)] that(2) unfolding outbox_t.unique_def
    by (blast dest: distinct_keyD)
  with r show "\<exists>r \<in> set (db_outbox d). ob_core r' = ob_core r \<and>
       (ob_status r' = ob_status r \<or> ob_status r' = ''published'' \<and> (\<exists>x \<in> log b'. published_as fr r x))" by blast
qed

theorem outbox_no_loss_witness:
  "map ob_core (db_outbox (fst (snd (publish_pending (\<lambda>_. []) list_publish 5 outbox_db [])))) = map ob_core (db_outbox outbox_db)"
proof -
  obtain res d' b' where run: "publish_pending (\<lambda>_. []) list_publish 5 outbox_db [] = (res, d', b')"
    by (metis prod_cases3)
  have "outbox_t.unique outbox_db" by (simp add: outbox_t.unique_def outbox_db_simps)
  from outbox_no_loss [OF list_publish_log(2) this run] run show ?thesis by simp
qed

text \<open>C14: cleanup deletes the oldest expired rows and nothing else. A row is expired when it is published and was
  so at the cutoff \<open>now - retention\<close> or before. A cleanup with a negative retention or an empty batch raises and
  changes nothing; every other one deletes a set of expired rows, a full batch or all of them when there are fewer,
  none of them published later than an expired row that stays, returns their number and keeps every other row in
  its place.\<close>

theorem cleanup_deletes_oldest_expired:
  assumes "outbox_t.unique d" and "cleanup_published now retention batch_size d = (res, d')"
  shows "case res of
      Inl e \<Rightarrow> (retention < 0 \<or> batch_size < 1) \<and> d' = d
    | Inr n \<Rightarrow> 0 \<le> retention \<and> 1 \<le> batch_size \<and>
        (\<exists>gone expired. expired = {r \<in> set (db_outbox d). ob_status r = ''published'' \<and>
             (\<exists>t \<le> now - retention. ob_published_at r = Some t)} \<and>
           gone \<subseteq> expired \<and> n = card gone \<and> n = min (nat batch_size) (card expired) \<and>
           (\<forall>r \<in> gone. \<forall>q \<in> expired - gone. the (ob_published_at r) \<le> the (ob_published_at q)) \<and>
           db_outbox d' = filter (\<lambda>r. r \<notin> gone) (db_outbox d) \<and> d' = d\<lparr>db_outbox := db_outbox d'\<rparr>)"
proof (cases res)
  case (Inl e)
  with assms(2) show ?thesis by (auto simp: cleanup_published_def Let_def split: if_splits)
next
  case (Inr n)
  let ?cut = "now - retention" and ?n = "nat batch_size"
  let ?old = "\<lambda>r. ob_status r = ''published'' \<and> (case ob_published_at r of None \<Rightarrow> False | Some t \<Rightarrow> t \<le> ?cut)"
  let ?E = "expired_rows ?cut d" and ?gone = "take (nat batch_size) (expired_rows (now - retention) d)"
  let ?ids = "map ob_event_id ?gone"
  have ok: "0 \<le> retention" "1 \<le> batch_size" and n: "n = length ?ids"
    and d': "d' = d\<lparr>db_outbox := db_outbox d'\<rparr>" "db_outbox d' = filter (\<lambda>r. ob_event_id r \<notin> set ?ids) (db_outbox d)"
    using assms(2) Inr by (auto simp: cleanup_published_def Let_def split: if_splits)
  have dist: "distinct (filter ?old (db_outbox d))" using assms(1) by (simp add: outbox_t.unique_def distinct_map)
  have exp: "{r \<in> set (db_outbox d). ob_status r = ''published'' \<and> (\<exists>t \<le> ?cut. ob_published_at r = Some t)} =
      set (filter ?old (db_outbox d))" by (auto split: option.splits)
  note old = take_oldest [where key = "\<lambda>r. the (ob_published_at r)" and n = ?n and xs = "filter ?old (db_outbox d)", folded expired_rows_def]
  have gone: "distinct ?gone" using old(4) [of "\<lambda>r. r"] dist by simp
  have sub: "set ?gone \<subseteq> set (db_outbox d)" using old(1) by auto
  have key: "ob_event_id r \<in> set ?ids \<longleftrightarrow> r \<in> set ?gone" if "r \<in> set (db_outbox d)" for r
    using that assms(1) sub unfolding outbox_t.unique_def by (auto dest: distinct_keyD)
  have "db_outbox d' = filter (\<lambda>r. r \<notin> set ?gone) (db_outbox d)"
    unfolding d'(2) using key by (intro filter_cong) auto
  moreover have "n = card (set ?gone)" using n gone by (simp add: distinct_card)
  moreover have "n = min ?n (card (set (filter ?old (db_outbox d))))"
    using n old(3) distinct_card [OF dist] by (simp del: set_filter)
  moreover have "the (ob_published_at r) \<le> the (ob_published_at q)"
    if "r \<in> set ?gone" "q \<in> set (filter ?old (db_outbox d)) - set ?gone" for r q
    using old(5) that by blast
  ultimately show ?thesis
    using Inr ok d'(1) old(1) unfolding exp
    by (auto intro!: exI [of _ "set ?gone"])
qed

definition cleaned_db :: db where
  "cleaned_db = empty_db\<lparr>db_outbox := [mark_published 3 sample_event_row]\<rparr>"

theorem cleanup_deletes_oldest_expired_witness:
  "fst (cleanup_published 10 5 100 cleaned_db) = Inr 1 \<and> db_outbox (snd (cleanup_published 10 5 100 cleaned_db)) = []"
proof -
  let ?r = "mark_published 3 sample_event_row"
  have u: "outbox_t.unique cleaned_db" by (simp add: outbox_t.unique_def cleaned_db_def)
  obtain res d' where run: "cleanup_published 10 5 100 cleaned_db = (res, d')" by fastforce
  have exp: "{r \<in> set (db_outbox cleaned_db). ob_status r = ''published'' \<and> (\<exists>t \<le> (10::int) - 5. ob_published_at r = Some t)} = {?r}"
    by (auto simp: cleaned_db_def mark_published_def)
  obtain n gone where n: "res = Inr n" "gone \<subseteq> {?r}" "n = card gone" "n = 1"
    "db_outbox d' = filter (\<lambda>r. r \<notin> gone) (db_outbox cleaned_db)"
    using cleanup_deletes_oldest_expired [OF u run] unfolding exp by (auto split: sum.splits)
  then have "gone = {?r}" by (metis card.empty subset_singletonD zero_neq_one)
  with n run show ?thesis by (simp add: cleaned_db_def)
qed

end
