(* ===== verification/Streams.thy ===== *)
theory Streams
  imports Outbox
begin

text \<open>
  Programs that talk to the database and to Redis. A program maps the world, the database together
  with the state of the broker, to a result or the raised exception and the new world; unlike a
  transaction it keeps what it did before an exception. \<open>app/messaging/redis/streams.py\<close> is modelled
  over the methods of the Redis client it calls, which are the fields of an argument.
\<close>

section \<open>Programs\<close>

type_synonym 'b world = "db \<times> 'b"
type_synonym ('b, 'a) io = "'b world \<Rightarrow> (error + 'a) \<times> 'b world"

definition io_return :: "'a \<Rightarrow> ('b, 'a) io" where
  "io_return x = (\<lambda>w. (Inr x, w))"

definition io_raise :: "error \<Rightarrow> ('b, 'a) io" where
  "io_raise e = (\<lambda>w. (Inl e, w))"

definition io_bind :: "('b, 'a) io \<Rightarrow> ('a \<Rightarrow> ('b, 'c) io) \<Rightarrow> ('b, 'c) io" where
  "io_bind m f = (\<lambda>w. case m w of (Inl e, w') \<Rightarrow> (Inl e, w') | (Inr x, w') \<Rightarrow> f x w')"

definition io_lift :: "error + 'a \<Rightarrow> ('b, 'a) io" where
  "io_lift r = (\<lambda>w. (r, w))"

text \<open>\<open>try: m except E: h\<close>, with the exceptions \<open>E\<close> given by a predicate.\<close>

definition io_catch :: "('b, 'a) io \<Rightarrow> (error \<Rightarrow> bool) \<Rightarrow> (error \<Rightarrow> ('b, 'a) io) \<Rightarrow> ('b, 'a) io" where
  "io_catch m p h = (\<lambda>w. case m w of (Inl e, w') \<Rightarrow> if p e then h e w' else (Inl e, w') | (Inr x, w') \<Rightarrow> (Inr x, w'))"

text \<open>A service call on the database, and a call of the broker.\<close>

definition io_db :: "(db \<Rightarrow> (error + 'a) \<times> db) \<Rightarrow> ('b, 'a) io" where
  "io_db f = (\<lambda>(d, b). case f d of (r, d') \<Rightarrow> (r, d', b))"

definition io_redis :: "('b \<Rightarrow> (error + 'a) \<times> 'b) \<Rightarrow> ('b, 'a) io" where
  "io_redis f = (\<lambda>(d, b). case f b of (r, b') \<Rightarrow> (r, d, b'))"

fun io_each :: "('a \<Rightarrow> ('b, unit) io) \<Rightarrow> 'a list \<Rightarrow> ('b, unit) io" where
  "io_each f [] = io_return ()"
| "io_each f (x # xs) = io_bind (f x) (\<lambda>_. io_each f xs)"

lemma io_apply [simp]:
  "io_return x w = (Inr x, w)" "io_raise e w = (Inl e, w)" "io_lift r w = (r, w)"
  by (simp_all add: io_return_def io_raise_def io_lift_def)

lemma io_bind_apply:
  "m w = (Inl e, w') \<Longrightarrow> io_bind m f w = (Inl e, w')"
  "m w = (Inr x, w') \<Longrightarrow> io_bind m f w = f x w'"
  by (simp_all add: io_bind_def)

lemma io_bind_Inr:
  "io_bind m f w = (Inr y, w') \<longleftrightarrow> (\<exists>x w1. m w = (Inr x, w1) \<and> f x w1 = (Inr y, w'))"
  by (auto simp: io_bind_def split: prod.splits sum.splits)

lemma io_bind_Inl:
  "io_bind m f w = (Inl e, w') \<longleftrightarrow> m w = (Inl e, w') \<or> (\<exists>x w1. m w = (Inr x, w1) \<and> f x w1 = (Inl e, w'))"
  by (auto simp: io_bind_def split: prod.splits sum.splits)

section \<open>\<open>streams.py\<close>\<close>

type_synonym message = "string \<times> fields"
type_synonym delivery = "(string \<times> message list) list"

record 'b redis_client =
  xadd :: "string \<Rightarrow> fields \<Rightarrow> 'b \<Rightarrow> (error + string) \<times> 'b"
  xreadgroup :: "string \<Rightarrow> string \<Rightarrow> (string \<times> string) list \<Rightarrow> int \<Rightarrow> int \<Rightarrow> 'b \<Rightarrow> (error + delivery) \<times> 'b"
  xack :: "string \<Rightarrow> string \<Rightarrow> string \<Rightarrow> 'b \<Rightarrow> (error + int) \<times> 'b"
  xautoclaim :: "string \<Rightarrow> string \<Rightarrow> string \<Rightarrow> int \<Rightarrow> string \<Rightarrow> int \<Rightarrow> 'b \<Rightarrow>
    (error + string \<times> message list \<times> string list) \<times> 'b"

definition WORKFLOW_TASKS_GROUP :: string where "WORKFLOW_TASKS_GROUP = ''workers''"
definition ORCHESTRATOR_COMPLETIONS_GROUP :: string where
  "ORCHESTRATOR_COMPLETIONS_GROUP = ''orchestrator-completions''"

definition publish :: "'b redis_client \<Rightarrow> string \<Rightarrow> fields \<Rightarrow> ('b, string) io" where
  "publish client stream fs = io_redis (xadd client stream fs)"

definition consume ::
    "'b redis_client \<Rightarrow> string \<Rightarrow> string \<Rightarrow> (string \<times> string) list \<Rightarrow> int \<Rightarrow> int \<Rightarrow> ('b, delivery) io" where
  "consume client groupname consumer streams max_count block_ms =
     io_redis (xreadgroup client groupname consumer streams max_count block_ms)"

definition ack :: "'b redis_client \<Rightarrow> string \<Rightarrow> string \<Rightarrow> string \<Rightarrow> ('b, int) io" where
  "ack client stream groupname message_id = io_redis (xack client stream groupname message_id)"

definition autoclaim ::
    "'b redis_client \<Rightarrow> string \<Rightarrow> string \<Rightarrow> string \<Rightarrow> int \<Rightarrow> string \<Rightarrow> int \<Rightarrow>
     ('b, string \<times> message list \<times> string list) io" where
  "autoclaim client stream groupname consumer min_idle_ms start_id max_count =
     io_redis (xautoclaim client stream groupname consumer min_idle_ms start_id max_count)"

text \<open>The messages of a delivery in the order of the nested loops that handle them.\<close>

definition delivered_messages :: "delivery \<Rightarrow> (string \<times> message) list" where
  "delivered_messages messages = concat (map (\<lambda>(stream, ms). map (\<lambda>m. (stream, m)) ms) messages)"

end
