(* ===== verification/Cycle_Rule.thy ===== *)
theory Cycle_Rule
  imports Validation
begin

text \<open>
  \<open>CycleDetectionRule\<close> (\<open>app/domain/validation/rules/cycles.py\<close>): the dependency graph of the
  uniquely identified nodes and the iterative depth-first search over it, with its explicit frame
  stack, visited and active sets, stack index and traversal stack. The frame stack is kept with its
  top first; everything else is as in the code. Proved: the search terminates and raises nothing on
  a closed graph, it reports nothing exactly when the graph is acyclic, and every reported path is a
  real cycle.
\<close>

type_synonym graph = "(string \<times> string list) list"

section \<open>The dependency graph\<close>

text \<open>\<open>for x in value\<close>\<close>

definition iter_value :: "pyval \<Rightarrow> error + pyval list" where
  "iter_value v =
     (case v of
        PList xs \<Rightarrow> Inr xs
      | PStr s \<Rightarrow> Inr (map (\<lambda>c. PStr [c]) s)
      | PDict d \<Rightarrow> Inr (map fst d)
      | _ \<Rightarrow> Inl (TypeError (quoted (type_name v) @ '' object is not iterable'')))"

definition unique_nodes :: "(string \<Rightarrow> nat) \<Rightarrow> (nat \<times> pydict) list \<Rightarrow> (string \<times> pydict) list" where
  "unique_nodes counts found =
     concat (map (\<lambda>(_, node). case dict_get node ''id'' of
                                PStr node_id \<Rightarrow> if counts node_id = 1 then [(node_id, node)] else []
                              | _ \<Rightarrow> []) found)"

definition graph_dependencies :: "(string \<Rightarrow> nat) \<Rightarrow> string \<Rightarrow> pyval list \<Rightarrow> string list" where
  "graph_dependencies counts node_id vs =
     concat (map (\<lambda>v. case v of
                        PStr d \<Rightarrow> if d \<noteq> node_id \<and> counts d = 1 then [d] else []
                      | _ \<Rightarrow> []) vs)"

definition dependency_graph :: "pydict \<Rightarrow> error + graph" where
  "dependency_graph workflow =
     (let found = nodes_from workflow;
          counts = count_list (matching_ids found)
      in rbind (res_map (\<lambda>(node_id, node).
                  rbind (iter_value (case dict_lookup node ''dependencies'' of None \<Rightarrow> PList [] | Some v \<Rightarrow> v))
                    (\<lambda>vs. Inr (node_id, graph_dependencies counts node_id vs)))
                (unique_nodes counts found))
           (\<lambda>entries. Inr (dict_of_pairs entries)))"

section \<open>The search\<close>

record dfs_state =
  frame_stack :: "(string \<times> nat) list"
  visited :: "string set"
  active :: "string set"
  stack_index :: "string \<rightharpoonup> nat"
  traversal_stack :: "string list"
  dfs_errors :: "WorkflowValidationError list"

definition cycle_error :: "string \<Rightarrow> string \<Rightarrow> string list \<Rightarrow> WorkflowValidationError" where
  "cycle_error node_id dependency_id cycle_path =
     \<lparr>err_code = ''cyclic_dependency'',
      err_message = ''Node '' @ quoted node_id @ '' participates in a cyclic dependency through '' @
                    quoted dependency_id @ ''.'',
      err_path = ''dag.nodes'', err_node_id = Some node_id, err_dependency_id = Some dependency_id,
      err_meta = [(''cycle_path'', join ''->'' cycle_path)]\<rparr>"

text \<open>One round of the \<open>while frame_stack\<close> loop.\<close>

definition dfs_step :: "graph \<Rightarrow> dfs_state \<Rightarrow> error + dfs_state" where
  "dfs_step g s =
     (case frame_stack s of
        [] \<Rightarrow> Inr s
      | (node_id, dependency_index) # frames \<Rightarrow>
          rbind (of_option (KeyError node_id) (map_of g node_id)) (\<lambda>dependencies.
          if dependency_index \<ge> length dependencies then
            (if node_id \<notin> active s then Inl (KeyError node_id)
             else if traversal_stack s = [] then Inl (IndexError ''pop from empty list'')
             else Inr (s\<lparr>frame_stack := frames, active := active s - {node_id},
                         stack_index := (stack_index s)(node_id := None),
                         traversal_stack := butlast (traversal_stack s)\<rparr>))
          else
            (let dependency_id = dependencies ! dependency_index;
                 s1 = s\<lparr>frame_stack := (node_id, Suc dependency_index) # frames\<rparr>
             in if dependency_id \<in> active s then
                  rbind (of_option (KeyError dependency_id) (stack_index s dependency_id))
                    (\<lambda>cycle_start_index.
                       Inr (s1\<lparr>dfs_errors := dfs_errors s @
                         [cycle_error node_id dependency_id
                            (drop cycle_start_index (traversal_stack s) @ [dependency_id])]\<rparr>))
                else if map_of g dependency_id = None \<or> dependency_id \<in> visited s then Inr s1
                else Inr (s\<lparr>frame_stack := (dependency_id, 0) # (node_id, Suc dependency_index) # frames,
                            visited := insert dependency_id (visited s),
                            active := insert dependency_id (active s),
                            stack_index := (stack_index s)(dependency_id \<mapsto> length (traversal_stack s)),
                            traversal_stack := traversal_stack s @ [dependency_id]\<rparr>))))"

definition graph_keys :: "graph \<Rightarrow> string set" where
  "graph_keys g = fst ` set g"

definition deps_of :: "graph \<Rightarrow> string \<Rightarrow> string list" where
  "deps_of g i = (case map_of g i of None \<Rightarrow> [] | Some ds \<Rightarrow> ds)"

definition frame_work :: "graph \<Rightarrow> (string \<times> nat) list \<Rightarrow> nat" where
  "frame_work g fs = sum_list (map (\<lambda>(i, k). Suc (length (deps_of g i) - k)) fs)"

lemma graph_keys_lookup: "map_of g i \<noteq> None \<longleftrightarrow> i \<in> graph_keys g"
  by (simp add: graph_keys_def map_of_eq_None_iff)

lemma finite_graph_keys [simp]: "finite (graph_keys g)"
  by (simp add: graph_keys_def)

text \<open>A round either visits a new node of the graph or leaves less to do on the frames.\<close>

lemma dfs_step_decreases:
  assumes "dfs_step g s = Inr s'" and "frame_stack s \<noteq> []"
  shows "card (graph_keys g - visited s') < card (graph_keys g - visited s) \<or>
    (visited s' = visited s \<and> frame_work g (frame_stack s') < frame_work g (frame_stack s))"
proof -
  obtain i k fs where fs: "frame_stack s = (i, k) # fs" using assms(2) by (cases "frame_stack s") auto
  with assms(1) obtain ds where ds: "map_of g i = Some ds"
    by (auto simp: dfs_step_def rbind_Inr_iff of_option_def split: option.splits)
  have push: "card (graph_keys g - insert d (visited s)) < card (graph_keys g - visited s)"
    if "map_of g d \<noteq> None" "d \<notin> visited s" for d
    using that graph_keys_lookup [of g d] by (intro psubset_card_mono) auto
  show ?thesis
    using assms(1) ds fs push
    by (auto simp: dfs_step_def Let_def frame_work_def deps_of_def rbind_Inr_iff split: if_splits)
qed

function dfs_loop :: "graph \<Rightarrow> dfs_state \<Rightarrow> error + dfs_state" where
  "dfs_loop g s = (if frame_stack s = [] then Inr s else rbind (dfs_step g s) (dfs_loop g))"
  by pat_completeness auto
termination
  by (relation "measures [\<lambda>(g, s). card (graph_keys g - visited s), \<lambda>(g, s). frame_work g (frame_stack s)]")
     (auto dest: dfs_step_decreases)

declare dfs_loop.simps [simp del]

text \<open>The outer loop \<open>for start_node_id in graph\<close>.\<close>

definition dfs_start :: "string \<Rightarrow> dfs_state \<Rightarrow> dfs_state" where
  "dfs_start start_node_id s =
     s\<lparr>frame_stack := [(start_node_id, 0)], visited := insert start_node_id (visited s),
       active := insert start_node_id (active s),
       stack_index := (stack_index s)(start_node_id \<mapsto> 0),
       traversal_stack := traversal_stack s @ [start_node_id]\<rparr>"

fun dfs_all :: "graph \<Rightarrow> string list \<Rightarrow> dfs_state \<Rightarrow> error + dfs_state" where
  "dfs_all g [] s = Inr s"
| "dfs_all g (start_node_id # rest) s =
     (if start_node_id \<in> visited s then dfs_all g rest s
      else rbind (dfs_loop g (dfs_start start_node_id s)) (dfs_all g rest))"

definition dfs_init :: dfs_state where
  "dfs_init = \<lparr>frame_stack = [], visited = {}, active = {}, stack_index = Map.empty,
               traversal_stack = [], dfs_errors = []\<rparr>"

definition CycleDetectionRule :: rule where
  "CycleDetectionRule workflow =
     rbind (dependency_graph workflow) (\<lambda>g.
     rbind (dfs_all g (map fst g) dfs_init) (\<lambda>s. Inr (dfs_errors s)))"

section \<open>Correctness of the search\<close>

definition g_edges :: "graph \<Rightarrow> (string \<times> string) set" where
  "g_edges g = {(a, d). a \<in> graph_keys g \<and> d \<in> set (deps_of g a)}"

definition closed_graph :: "graph \<Rightarrow> bool" where
  "closed_graph g \<longleftrightarrow> (\<forall>(a, d) \<in> g_edges g. d \<in> graph_keys g)"

definition is_cycle :: "(string \<times> string) set \<Rightarrow> string list \<Rightarrow> bool" where
  "is_cycle E p \<longleftrightarrow> 2 \<le> length p \<and> hd p = last p \<and> successively (\<lambda>a b. (a, b) \<in> E) p"

definition reports_cycle :: "(string \<times> string) set \<Rightarrow> WorkflowValidationError \<Rightarrow> bool" where
  "reports_cycle E e \<longleftrightarrow>
     (\<exists>p. is_cycle E p \<and> e = cycle_error (last (butlast p)) (last p) p)"

lemma successively_trancl:
  "successively (\<lambda>a b. (a, b) \<in> E) p \<Longrightarrow> 2 \<le> length p \<Longrightarrow> (hd p, last p) \<in> E\<^sup>+"
proof (induction p rule: induct_list012)
  case (3 x y zs)
  show ?case
  proof (cases zs)
    case Nil
    with 3 show ?thesis by auto
  next
    case (Cons z zs')
    with 3 have "(y, last (y # zs)) \<in> E\<^sup>+" by simp
    with 3 Cons show ?thesis by (auto intro: trancl_into_trancl2)
  qed
qed auto

lemma is_cycle_not_acyclic: "is_cycle E p \<Longrightarrow> \<not> acyclic E"
  using successively_trancl [of E p] by (auto simp: is_cycle_def acyclic_def)

text \<open>Adding a node whose successors all lie in a closed acyclic part keeps the part acyclic.\<close>

lemma acyclic_extend:
  assumes ac: "acyclic {(a, b) \<in> E. a \<in> F}" and closed: "\<And>a b. (a, b) \<in> E \<Longrightarrow> a \<in> F \<Longrightarrow> b \<in> F"
    and u: "u \<notin> F" "\<And>b. (u, b) \<in> E \<Longrightarrow> b \<in> F"
  shows "acyclic {(a, b) \<in> E. a \<in> insert u F}"
proof -
  let ?R = "{(a, b) \<in> E. a \<in> insert u F}" and ?S = "{(a, b) \<in> E. a \<in> F}"
  have stay: "y \<in> F \<and> (x \<in> F \<longrightarrow> (x, y) \<in> ?S\<^sup>+)" if "(x, y) \<in> ?R\<^sup>+" for x y
    using that
  proof induction
    case (base y)
    then show ?case using closed u by auto
  next
    case (step y z)
    then have "(y, z) \<in> ?S" using u by auto
    with step closed show ?case by (auto intro: trancl_into_trancl)
  qed
  have "(x, x) \<notin> ?R\<^sup>+" for x
    using stay [of x x] ac by (auto simp: acyclic_def)
  then show ?thesis by (simp add: acyclic_def)
qed

abbreviation finished :: "dfs_state \<Rightarrow> string set" where
  "finished s \<equiv> visited s - active s"

text \<open>The dependencies a frame has already looked at are finished, or are the node of the frame
  above it (\<open>child\<close>).\<close>

fun frames_ok :: "graph \<Rightarrow> string set \<Rightarrow> string option \<Rightarrow> (string \<times> nat) list \<Rightarrow> bool" where
  "frames_ok g F child [] = True"
| "frames_ok g F child ((i, k) # fs) =
     (set (take k (deps_of g i)) \<subseteq> F \<union> set_option child \<and> frames_ok g F (Some i) fs)"

lemma frames_ok_mono: "frames_ok g F child fs \<Longrightarrow> F \<subseteq> F' \<Longrightarrow> set_option child \<subseteq> F' \<union> set_option child2 \<Longrightarrow>
    frames_ok g F' child2 fs"
proof (induction fs arbitrary: child child2)
  case (Cons f fs)
  obtain i k where f: "f = (i, k)" by (cases f)
  from Cons.IH [of "Some i" "Some i"] Cons.prems show ?case unfolding f by auto
qed simp

definition stack_inv :: "graph \<Rightarrow> dfs_state \<Rightarrow> bool" where
  "stack_inv g s \<longleftrightarrow>
     traversal_stack s = rev (map fst (frame_stack s)) \<and> distinct (traversal_stack s) \<and>
     active s = set (traversal_stack s) \<and> active s \<subseteq> visited s \<and> visited s \<subseteq> graph_keys g \<and>
     (\<forall>i < length (traversal_stack s). stack_index s (traversal_stack s ! i) = Some i) \<and>
     successively (\<lambda>a b. (a, b) \<in> g_edges g) (traversal_stack s)"

definition finish_inv :: "graph \<Rightarrow> dfs_state \<Rightarrow> bool" where
  "finish_inv g s \<longleftrightarrow>
     (\<forall>(a, b) \<in> g_edges g. a \<in> finished s \<longrightarrow> b \<in> finished s) \<and>
     acyclic {(a, b) \<in> g_edges g. a \<in> finished s} \<and>
     frames_ok g (finished s) None (frame_stack s)"

definition dfs_inv :: "graph \<Rightarrow> dfs_state \<Rightarrow> bool" where
  "dfs_inv g s \<longleftrightarrow> stack_inv g s \<and> (\<forall>e \<in> set (dfs_errors s). reports_cycle (g_edges g) e) \<and>
     (dfs_errors s = [] \<longrightarrow> finish_inv g s)"

lemma stack_invD:
  assumes "stack_inv g s"
  shows "traversal_stack s = rev (map fst (frame_stack s))" and "distinct (traversal_stack s)"
    and "active s = set (traversal_stack s)" and "active s \<subseteq> visited s" and "visited s \<subseteq> graph_keys g"
    and "\<And>i. i < length (traversal_stack s) \<Longrightarrow> stack_index s (traversal_stack s ! i) = Some i"
    and "successively (\<lambda>a b. (a, b) \<in> g_edges g) (traversal_stack s)"
  using assms unfolding stack_inv_def by blast+

lemma stack_inv_frames:
  "map fst fs = map fst (frame_stack s) \<Longrightarrow>
     stack_inv g (s\<lparr>frame_stack := fs, dfs_errors := es\<rparr>) = stack_inv g s"
  "map fst fs = map fst (frame_stack s) \<Longrightarrow> stack_inv g (s\<lparr>frame_stack := fs\<rparr>) = stack_inv g s"
  unfolding stack_inv_def by simp_all

lemma dfs_step_pop:
  assumes inv: "dfs_inv g s" and fs: "frame_stack s = (i, k) # fs" and k: "length (deps_of g i) \<le> k"
  defines "s' \<equiv> s\<lparr>frame_stack := fs, active := active s - {i},
      stack_index := (stack_index s)(i := None), traversal_stack := butlast (traversal_stack s)\<rparr>"
  shows "dfs_step g s = Inr s'" and "dfs_inv g s'"
proof -
  have st: "stack_inv g s" using inv by (simp add: dfs_inv_def)
  have trav: "traversal_stack s = rev (map fst fs) @ [i]" using st fs by (simp add: stack_inv_def)
  have dist: "i \<notin> set (map fst fs)" "distinct (map fst fs)" using st trav by (auto simp: stack_inv_def)
  have key: "i \<in> graph_keys g" "i \<in> visited s" "active s = insert i (set (map fst fs))"
    using st trav by (auto simp: stack_inv_def)
  then obtain ds where ds: "map_of g i = Some ds" using graph_keys_lookup [of g i] by auto
  show "dfs_step g s = Inr s'"
    using ds k trav key(3) by (simp add: dfs_step_def fs s'_def deps_of_def)
  have act: "active s - {i} = set (map fst fs)" using key(3) dist by auto
  have idx: "stack_index s (rev (map fst fs) ! j) = Some j" if "j < length fs" for j
    using stack_invD(6) [OF st, of j] that by (simp add: trav nth_append)
  have ne: "rev (map fst fs) ! j \<noteq> i" if "j < length fs" for j
    using that dist(1) nth_mem [of j "rev (map fst fs)"] by auto
  have fields: "traversal_stack s' = rev (map fst fs)" "frame_stack s' = fs"
    "active s' = set (map fst fs)" "visited s' = visited s"
    by (simp_all add: s'_def trav act)
  have idx': "stack_index s' (rev (map fst fs) ! j) = Some j" if "j < length fs" for j
    using idx [OF that] ne [OF that] by (simp add: s'_def)
  have suc: "successively (\<lambda>a b. (a, b) \<in> g_edges g) (rev (map fst fs))"
    using stack_invD(7) [OF st] unfolding trav successively_append_iff by blast
  have sub: "set (map fst fs) \<subseteq> visited s" using stack_invD(4) [OF st] key(3) by blast
  have "stack_inv g s'"
    unfolding stack_inv_def fields
  proof (intro conjI allI impI)
    fix j assume "j < length (rev (map fst fs))"
    then show "stack_index s' (rev (map fst fs) ! j) = Some j" by (intro idx') simp
  qed (use suc sub stack_invD(5) [OF st] dist(2) in auto)
  moreover have "finish_inv g s'" if "dfs_errors s = []"
  proof -
    have fin: "finish_inv g s" using inv that by (simp add: dfs_inv_def)
    have succ: "set (deps_of g i) \<subseteq> finished s"
      using fin k by (simp add: finish_inv_def fs)
    have F: "finished s' = insert i (finished s)"
      using key act by (auto simp: s'_def)
    have "acyclic {(a, b) \<in> g_edges g. a \<in> insert i (finished s)}"
      by (rule acyclic_extend) (use fin succ key(3) in \<open>auto simp: finish_inv_def g_edges_def\<close>)
    moreover have "frames_ok g (insert i (finished s)) None fs"
      by (rule frames_ok_mono [of g "finished s" "Some i" fs]) (use fin in \<open>auto simp: finish_inv_def fs\<close>)
    moreover have "\<forall>(a, b) \<in> g_edges g. a \<in> insert i (finished s) \<longrightarrow> b \<in> insert i (finished s)"
      using fin succ by (auto simp: finish_inv_def g_edges_def)
    ultimately show ?thesis unfolding finish_inv_def F by (simp add: s'_def)
  qed
  ultimately show "dfs_inv g s'" using inv by (simp add: dfs_inv_def s'_def)
qed

lemma dfs_step_cycle:
  assumes inv: "dfs_inv g s" and fs: "frame_stack s = (i, k) # fs" and k: "k < length (deps_of g i)"
    and d: "d = deps_of g i ! k" "d \<in> active s"
  shows "\<exists>s'. dfs_step g s = Inr s' \<and> dfs_inv g s' \<and> visited s' = visited s"
proof -
  have st: "stack_inv g s" using inv by (simp add: dfs_inv_def)
  have trav: "traversal_stack s = rev (map fst fs) @ [i]" using st fs by (simp add: stack_inv_def)
  have key: "i \<in> graph_keys g" using st trav by (auto simp: stack_inv_def)
  then obtain ds where ds: "map_of g i = Some ds" "deps_of g i = ds"
    using graph_keys_lookup [of g i] by (auto simp: deps_of_def)
  from d st obtain j where j: "j < length (traversal_stack s)" "traversal_stack s ! j = d"
    unfolding stack_inv_def by (metis in_set_conv_nth)
  with st have idx: "stack_index s d = Some j" unfolding stack_inv_def by blast
  let ?p = "drop j (traversal_stack s) @ [d]"
  let ?s = "s\<lparr>frame_stack := (i, Suc k) # fs, dfs_errors := dfs_errors s @ [cycle_error i d ?p]\<rparr>"
  have step: "dfs_step g s = Inr ?s"
    using ds k d idx by (simp add: dfs_step_def fs Let_def)
  have suc: "successively (\<lambda>a b. (a, b) \<in> g_edges g) (take j (traversal_stack s) @ drop j (traversal_stack s))"
    using stack_invD(7) [OF st] by simp
  have last: "last (drop j (traversal_stack s)) = i" "drop j (traversal_stack s) \<noteq> []"
    using j trav by (simp_all add: last_drop)
  have edge: "(i, d) \<in> g_edges g" using key k d ds by (auto simp: g_edges_def)
  have "is_cycle (g_edges g) ?p"
    using suc last edge j unfolding is_cycle_def successively_append_iff
    by (simp add: hd_append hd_drop_conv_nth Suc_le_eq)
  then have "reports_cycle (g_edges g) (cycle_error i d ?p)"
    using last by (auto simp: reports_cycle_def intro!: exI [of _ ?p])
  moreover have "stack_inv g ?s"
    using st by (simp add: stack_inv_frames fs)
  ultimately have "dfs_inv g ?s" using inv by (simp add: dfs_inv_def)
  with step show ?thesis by simp
qed

lemma dfs_step_skip:
  assumes inv: "dfs_inv g s" and fs: "frame_stack s = (i, k) # fs" and k: "k < length (deps_of g i)"
    and d: "d = deps_of g i ! k" "d \<notin> active s" "d \<in> visited s"
  shows "\<exists>s'. dfs_step g s = Inr s' \<and> dfs_inv g s' \<and> visited s' = visited s"
proof -
  have st: "stack_inv g s" using inv by (simp add: dfs_inv_def)
  have "i \<in> graph_keys g" using st fs by (auto simp: stack_inv_def)
  then obtain ds where ds: "map_of g i = Some ds" "deps_of g i = ds"
    using graph_keys_lookup [of g i] by (auto simp: deps_of_def)
  let ?s = "s\<lparr>frame_stack := (i, Suc k) # fs\<rparr>"
  have "dfs_step g s = Inr ?s" using ds k d by (simp add: dfs_step_def fs)
  moreover have "stack_inv g ?s" using st by (simp add: stack_inv_frames fs)
  moreover have "finish_inv g ?s" if "finish_inv g s"
    using that d k by (auto simp: finish_inv_def fs take_Suc_conv_app_nth)
  ultimately show ?thesis using inv by (auto simp: dfs_inv_def)
qed

lemma dfs_step_push:
  assumes inv: "dfs_inv g s" and fs: "frame_stack s = (i, k) # fs" and k: "k < length (deps_of g i)"
    and d: "d = deps_of g i ! k" "d \<notin> visited s" "d \<in> graph_keys g"
  shows "\<exists>s'. dfs_step g s = Inr s' \<and> dfs_inv g s' \<and> visited s \<subseteq> visited s'"
proof -
  have st: "stack_inv g s" using inv by (simp add: dfs_inv_def)
  have trav: "traversal_stack s = rev (map fst fs) @ [i]" using st fs by (simp add: stack_inv_def)
  have key: "i \<in> graph_keys g" using st fs by (auto simp: stack_inv_def)
  then obtain ds where ds: "map_of g i = Some ds" "deps_of g i = ds"
    using graph_keys_lookup [of g i] by (auto simp: deps_of_def)
  have act: "d \<notin> active s" "d \<notin> set (traversal_stack s)"
    using stack_invD(3,4) [OF st] d by auto
  let ?t = "traversal_stack s"
  let ?s = "s\<lparr>frame_stack := (d, 0) # (i, Suc k) # fs, visited := insert d (visited s),
      active := insert d (active s), stack_index := (stack_index s)(d \<mapsto> length ?t),
      traversal_stack := ?t @ [d]\<rparr>"
  have step: "dfs_step g s = Inr ?s"
    using ds k d act graph_keys_lookup [of g d] by (auto simp: dfs_step_def fs Let_def)
  have edge: "(i, d) \<in> g_edges g" using key k d ds by (auto simp: g_edges_def)
  have idx: "((stack_index s)(d \<mapsto> length ?t)) ((?t @ [d]) ! j) = Some j" if "j < Suc (length ?t)" for j
  proof (cases "j < length ?t")
    case True
    with st have "stack_index s (?t ! j) = Some j" unfolding stack_inv_def by blast
    moreover have "?t ! j \<noteq> d" using True act(2) nth_mem by metis
    ultimately show ?thesis using True by (simp add: nth_append)
  next
    case False
    with that have "j = length ?t" by simp
    then show ?thesis by simp
  qed
  have "successively (\<lambda>a b. (a, b) \<in> g_edges g) (?t @ [d])"
    using stack_invD(7) [OF st] edge trav by (simp add: successively_append_iff)
  moreover have "?t = rev (map fst ((i, Suc k) # fs))" using trav by simp
  moreover have "distinct ?t" "active s = set ?t" "active s \<subseteq> visited s" "visited s \<subseteq> graph_keys g"
    using stack_invD(2-5) [OF st] .
  ultimately have "stack_inv g ?s"
    using idx act(2) d(3) unfolding stack_inv_def by (simp add: trav) blast
  moreover have "finish_inv g ?s" if "finish_inv g s"
  proof -
    have "insert d (visited s) - insert d (active s) = finished s" using d by auto
    with that d k show ?thesis
      by (auto simp: finish_inv_def fs take_Suc_conv_app_nth)
  qed
  ultimately have "dfs_inv g ?s" using inv by (auto simp: dfs_inv_def)
  with step show ?thesis by auto
qed

lemma dfs_step_inv:
  assumes closed: "closed_graph g" and inv: "dfs_inv g s" and ne: "frame_stack s \<noteq> []"
  shows "\<exists>s'. dfs_step g s = Inr s' \<and> dfs_inv g s' \<and> visited s \<subseteq> visited s'"
proof -
  obtain i k fs where fs: "frame_stack s = (i, k) # fs" using ne by (cases "frame_stack s") auto
  have i: "i \<in> graph_keys g" using inv fs by (auto simp: dfs_inv_def stack_inv_def)
  show ?thesis
  proof (cases "k < length (deps_of g i)")
    case False
    with dfs_step_pop [OF inv fs] show ?thesis by auto
  next
    case True
    let ?d = "deps_of g i ! k"
    have "?d \<in> graph_keys g"
      using closed i nth_mem [OF True] by (auto simp: closed_graph_def g_edges_def)
    then consider "?d \<in> active s" | "?d \<notin> active s" "?d \<in> visited s" | "?d \<notin> visited s" "?d \<in> graph_keys g"
      by blast
    then show ?thesis
    proof cases
      case 1
      with dfs_step_cycle [OF inv fs True refl] show ?thesis by auto
    next
      case 2
      with dfs_step_skip [OF inv fs True refl] show ?thesis by auto
    next
      case 3
      with dfs_step_push [OF inv fs True refl] show ?thesis by auto
    qed
  qed
qed

lemma dfs_loop_inv:
  assumes closed: "closed_graph g"
  shows "dfs_inv g s \<Longrightarrow>
    \<exists>s'. dfs_loop g s = Inr s' \<and> dfs_inv g s' \<and> frame_stack s' = [] \<and> visited s \<subseteq> visited s'"
  using closed
proof (induction g s rule: dfs_loop.induct)
  case (1 g s)
  show ?case
  proof (cases "frame_stack s = []")
    case True
    with 1 show ?thesis by (simp add: dfs_loop.simps)
  next
    case False
    from dfs_step_inv [OF 1(3) 1(2) False] obtain s1 where
      s1: "dfs_step g s = Inr s1" "dfs_inv g s1" "visited s \<subseteq> visited s1" by blast
    from 1(1) [OF False s1(1,2) 1(3)] obtain s2 where
      "dfs_loop g s1 = Inr s2" "dfs_inv g s2" "frame_stack s2 = []" "visited s1 \<subseteq> visited s2" by blast
    with s1 False show ?thesis by (auto simp: dfs_loop.simps [of g s])
  qed
qed

lemma dfs_start_inv:
  assumes inv: "dfs_inv g s" and empty: "frame_stack s = []" and i: "i \<in> graph_keys g" "i \<notin> visited s"
  shows "dfs_inv g (dfs_start i s)"
proof -
  have st: "stack_inv g s" using inv by (simp add: dfs_inv_def)
  have none: "traversal_stack s = []" "active s = {}" using stack_invD(1,3) [OF st] empty by simp_all
  have "stack_inv g (dfs_start i s)"
    using stack_invD(5) [OF st] i none by (auto simp: stack_inv_def dfs_start_def)
  moreover have "finish_inv g (dfs_start i s)" if "finish_inv g s"
  proof -
    have "insert i (visited s) - {i} = visited s" using i by auto
    with that none empty show ?thesis by (simp add: finish_inv_def dfs_start_def)
  qed
  ultimately show ?thesis using inv by (auto simp: dfs_inv_def dfs_start_def)
qed

lemma dfs_all_inv:
  assumes "closed_graph g"
  shows "dfs_inv g s \<Longrightarrow> frame_stack s = [] \<Longrightarrow> set starts \<subseteq> graph_keys g \<Longrightarrow>
    \<exists>s'. dfs_all g starts s = Inr s' \<and> dfs_inv g s' \<and> frame_stack s' = [] \<and>
         visited s \<union> set starts \<subseteq> visited s'"
proof (induction starts arbitrary: s)
  case (Cons i starts)
  show ?case
  proof (cases "i \<in> visited s")
    case True
    with Cons.IH [OF Cons.prems(1,2)] Cons.prems(3) show ?thesis by auto
  next
    case False
    with Cons.prems have "dfs_inv g (dfs_start i s)" by (intro dfs_start_inv) auto
    from dfs_loop_inv [OF assms this] obtain s1 where
      s1: "dfs_loop g (dfs_start i s) = Inr s1" "dfs_inv g s1" "frame_stack s1 = []"
        "insert i (visited s) \<subseteq> visited s1" by (auto simp: dfs_start_def)
    from Cons.IH [OF s1(2,3)] Cons.prems(3) obtain s2 where
      "dfs_all g starts s1 = Inr s2" "dfs_inv g s2" "frame_stack s2 = []"
      "visited s1 \<union> set starts \<subseteq> visited s2" by auto
    with s1 False show ?thesis by auto
  qed
qed simp

lemma dfs_init_inv: "dfs_inv g dfs_init"
  by (simp add: dfs_inv_def stack_inv_def finish_inv_def dfs_init_def acyclic_empty_rel)

lemma search_correct:
  assumes closed: "closed_graph g"
  obtains s where "dfs_all g (map fst g) dfs_init = Inr s"
    and "dfs_errors s = [] \<longleftrightarrow> acyclic (g_edges g)"
    and "\<forall>e \<in> set (dfs_errors s). reports_cycle (g_edges g) e"
proof -
  have "set (map fst g) \<subseteq> graph_keys g" by (simp add: graph_keys_def)
  from dfs_all_inv [OF closed dfs_init_inv _ this] obtain s where
    s: "dfs_all g (map fst g) dfs_init = Inr s" "dfs_inv g s" "frame_stack s = []"
      "graph_keys g \<subseteq> visited s" by (auto simp: dfs_init_def graph_keys_def)
  have "active s = {}" using s(2,3) by (simp add: dfs_inv_def stack_inv_def)
  with s(4) have "{(a, b) \<in> g_edges g. a \<in> finished s} = g_edges g"
    by (auto simp: g_edges_def)
  with s(2) have "acyclic (g_edges g)" if "dfs_errors s = []"
    using that by (simp add: dfs_inv_def finish_inv_def)
  moreover have "\<not> acyclic (g_edges g)" if "dfs_errors s \<noteq> []"
    using that s(2) is_cycle_not_acyclic
    by (cases "dfs_errors s") (auto simp: dfs_inv_def reports_cycle_def)
  ultimately have "dfs_errors s = [] \<longleftrightarrow> acyclic (g_edges g)" by blast
  with s show ?thesis using that by (simp add: dfs_inv_def)
qed

section \<open>The contract of the rule\<close>

lemma unique_nodes_keys:
  "fst ` set (unique_nodes (count_list (matching_ids ns)) ns) =
     {i. count_list (matching_ids ns) i = 1}"
proof -
  let ?c = "count_list (matching_ids ns)"
  have "\<exists>(j, n) \<in> set ns. dict_get n ''id'' = PStr i" if "?c i = 1" for i
  proof -
    have "i \<in> set (matching_ids ns)" using that count_list_0_iff [of "matching_ids ns" i] by fastforce
    then show ?thesis by (fastforce simp: matching_ids_mem)
  qed
  then have "{i. ?c i = 1} \<subseteq> fst ` set (unique_nodes ?c ns)"
    by (force simp: unique_nodes_def)
  moreover have "fst ` set (unique_nodes ?c ns) \<subseteq> {i. ?c i = 1}"
    by (auto simp: unique_nodes_def split: pyval.splits if_splits)
  ultimately show ?thesis by blast
qed

lemma set_graph_dependencies:
  "set (graph_dependencies counts i vs) = {d. PStr d \<in> set vs \<and> d \<noteq> i \<and> counts d = 1}"
  by (force simp: graph_dependencies_def split: pyval.splits if_splits)

lemma map_of_in_set: "map_of g a = Some ds \<Longrightarrow> (a, ds) \<in> set g"
  by (rule map_of_SomeD)

lemma map_of_dict_of_pairs: "map_of (dict_of_pairs ps) k = Some v \<Longrightarrow> (k, v) \<in> set ps"
  by (induction ps arbitrary: k v rule: rev_induct)
     (auto simp: dict_of_pairs_def split: if_splits)

lemma dependency_graph_closed:
  assumes "dependency_graph w = Inr g"
  shows "closed_graph g"
proof -
  let ?ns = "nodes_from w" and ?c = "count_list (matching_ids (nodes_from w))"
  from assms obtain entries where g: "g = dict_of_pairs entries"
    and all: "list_all2 (\<lambda>(i, n) e. rbind (iter_value (case dict_lookup n ''dependencies'' of
         None \<Rightarrow> PList [] | Some v \<Rightarrow> v)) (\<lambda>vs. Inr (i, graph_dependencies ?c i vs)) = Inr e)
         (unique_nodes ?c ?ns) entries"
    by (auto simp: dependency_graph_def Let_def rbind_Inr_iff res_map_Inr_iff case_prod_unfold)
  have "map fst entries = map fst (unique_nodes ?c ?ns)"
    using all by (induction rule: list_all2_induct) (auto simp: rbind_Inr_iff)
  then have keys: "graph_keys g = {i. ?c i = 1}"
    using unique_nodes_keys [of ?ns] by (simp add: graph_keys_def g keys_dict_of_pairs) (metis set_map)
  have "\<forall>(i, ds) \<in> set entries. set ds \<subseteq> {d. ?c d = 1}"
    using all by (induction rule: list_all2_induct) (auto simp: rbind_Inr_iff set_graph_dependencies)
  then have "set (deps_of g a) \<subseteq> {d. ?c d = 1}" for a
    using map_of_dict_of_pairs [of entries a] by (force simp: deps_of_def g split: option.splits)
  then show ?thesis using keys by (auto simp: closed_graph_def g_edges_def)
qed

definition accepts_acyclic :: "pydict \<Rightarrow> bool" where
  "accepts_acyclic w \<longleftrightarrow> (\<exists>g. dependency_graph w = Inr g \<and> acyclic (g_edges g))"

lemma cycle_rule_outcome:
  "CycleDetectionRule w = Inr es \<Longrightarrow>
     \<exists>g. dependency_graph w = Inr g \<and> (es = [] \<longleftrightarrow> acyclic (g_edges g)) \<and>
         (\<forall>e \<in> set es. reports_cycle (g_edges g) e)"
proof -
  assume "CycleDetectionRule w = Inr es"
  then obtain g s where g: "dependency_graph w = Inr g"
    and s: "dfs_all g (map fst g) dfs_init = Inr s" "es = dfs_errors s"
    by (auto simp: CycleDetectionRule_def rbind_Inr_iff)
  with search_correct [OF dependency_graph_closed [OF g]] show ?thesis by (metis sum.inject(2))
qed

lemma cycle_rule_total:
  assumes "dependency_graph w = Inr g"
  shows "\<exists>es. CycleDetectionRule w = Inr es"
  using search_correct [OF dependency_graph_closed [OF assms]] assms
  by (auto simp: CycleDetectionRule_def) (metis rbind_simps(2))

interpretation acyclic_rule: validation_rule CycleDetectionRule accepts_acyclic
proof unfold_locales
  fix w show "CycleDetectionRule w = Inr [] \<longleftrightarrow> accepts_acyclic w"
    using cycle_rule_outcome [of w] cycle_rule_total [of w]
    by (fastforce simp: accepts_acyclic_def)
qed

end
