(* ===== verification/Definition_Service.thy ===== *)
theory Definition_Service
  imports Cycle_Rule
begin

text \<open>
  The default rule set (\<open>DefaultWorkflowRuleProvider\<close>) and the accepting half of
  \<open>app/services/workflow_definition_service.py\<close>. \<open>Workflow.model_validate\<close> is pydantic and is the
  argument \<open>model_validate\<close>; \<open>reads_definition\<close> states what is relied on: string, list and dict
  fields that already have the declared type are taken over unchanged. Proved: the default rules
  report nothing exactly on the well-formed definitions, and an accepted definition is a valid graph.
\<close>

section \<open>Accepting a definition\<close>

definition DefaultWorkflowRuleProvider :: "environment \<Rightarrow> float_text \<Rightarrow> unit \<Rightarrow> rule list" where
  "DefaultWorkflowRuleProvider env fr u =
     [RequiredWorkflowFieldsRule, RequiredNodeFieldsRule, NodeIdValidityRule, UniqueNodeIdsRule,
      HandlerDefinitionRule env, NodeConfigurationRule, DependencyReferenceRule fr, CycleDetectionRule]"

definition default_validator :: "environment \<Rightarrow> float_text \<Rightarrow> rule" where
  "default_validator env fr =
     WorkflowValidator_validate (collect_rules [DefaultWorkflowRuleProvider env fr])"

definition accept :: "rule \<Rightarrow> (pydict \<Rightarrow> error + Workflow) \<Rightarrow> pydict \<Rightarrow> error + Workflow" where
  "accept validator model_validate definition =
     rbind (validator definition) (\<lambda>errors.
       if errors \<noteq> [] then Inl (InvalidWorkflowDefinitionError errors) else model_validate definition)"

definition build_dag :: "rule \<Rightarrow> (pydict \<Rightarrow> error + Workflow) \<Rightarrow> pydict \<Rightarrow> error + DAG" where
  "build_dag validator model_validate definition =
     rbind (accept validator model_validate definition) from_workflow"

section \<open>Well-formed definitions\<close>

definition node_id_of :: "pydict \<Rightarrow> string" where
  "node_id_of n = (case dict_get n ''id'' of PStr s \<Rightarrow> s | _ \<Rightarrow> [])"

definition handler_of :: "pydict \<Rightarrow> string" where
  "handler_of n = (case dict_get n ''handler'' of PStr s \<Rightarrow> s | _ \<Rightarrow> [])"

definition dep_names :: "pydict \<Rightarrow> string list" where
  "dep_names n =
     (case dict_get n ''dependencies'' of
        PList vs \<Rightarrow> concat (map (\<lambda>v. case v of PStr d \<Rightarrow> [d] | _ \<Rightarrow> []) vs) | _ \<Rightarrow> [])"

definition well_formed_node :: "environment \<Rightarrow> string set \<Rightarrow> pydict \<Rightarrow> bool" where
  "well_formed_node env ids n \<longleftrightarrow>
     dict_get n ''id'' = PStr (node_id_of n) \<and> node_id_pattern (node_id_of n) \<and>
     dict_get n ''handler'' = PStr (handler_of n) \<and> handler_of n \<in> set (allowed_handlers env) \<and>
     config_ok n \<and>
     dict_get n ''dependencies'' = PList (map PStr (dep_names n)) \<and> distinct (dep_names n) \<and>
     set (dep_names n) \<subseteq> ids"

definition dep_relation :: "pydict list \<Rightarrow> (string \<times> string) set" where
  "dep_relation ns = {(node_id_of n, d) | n d. n \<in> set ns \<and> d \<in> set (dep_names n)}"

definition well_formed_definition :: "environment \<Rightarrow> pydict \<Rightarrow> bool" where
  "well_formed_definition env w \<longleftrightarrow>
     (\<exists>name. dict_get w ''name'' = PStr name \<and> \<not> blank name) \<and>
     (\<exists>ns. raw_nodes w = Some (map PDict ns) \<and>
        (\<forall>n \<in> set ns. well_formed_node env (node_id_of ` set ns) n) \<and>
        distinct (map node_id_of ns) \<and> acyclic (dep_relation ns))"

lemma dep_names_strings: "dict_get n ''dependencies'' = PList (map PStr ss) \<Longrightarrow> dep_names n = ss"
  by (simp add: dep_names_def comp_def)

lemma node_id_pattern_nonblank: "node_id_pattern s \<Longrightarrow> \<not> blank s"
  by (auto simp: node_id_pattern_def blank_iff is_letter_def is_space_def split: list.splits)

lemma nodes_snd: "raw_nodes w = Some (map PDict ns) \<Longrightarrow> map snd (nodes_from w) = ns"
  by (simp add: nodes_from_raw dicts_in_all)

lemma nodes_ball:
  "raw_nodes w = Some (map PDict ns) \<Longrightarrow> (\<forall>(i, n) \<in> set (nodes_from w). P n) \<longleftrightarrow> (\<forall>n \<in> set ns. P n)"
  using arg_cong [OF nodes_snd, of w ns set] by force

lemma concat_nodes:
  "raw_nodes w = Some (map PDict ns) \<Longrightarrow>
     concat (map (\<lambda>(i, n). f n) (nodes_from w)) = concat (map f ns)"
proof -
  assume "raw_nodes w = Some (map PDict ns)"
  moreover have "map (\<lambda>(i, n). f n) (nodes_from w) = map f (map snd (nodes_from w))"
    by (simp add: comp_def case_prod_unfold)
  ultimately show ?thesis by (simp only: nodes_snd)
qed

definition plain_id :: "pydict \<Rightarrow> bool" where
  "plain_id n \<longleftrightarrow> dict_get n ''id'' = PStr (node_id_of n) \<and> node_id_pattern (node_id_of n)"

lemma matching_ids_eq:
  assumes "raw_nodes w = Some (map PDict ns)" and "\<forall>n \<in> set ns. plain_id n"
  shows "matching_ids (nodes_from w) = map node_id_of ns"
proof -
  have "concat (map (\<lambda>n. case dict_get n ''id'' of
      PStr i \<Rightarrow> if node_id_pattern i then [i] else [] | _ \<Rightarrow> []) ns) = map node_id_of ns"
    using assms(2) by (induction ns) (auto simp: plain_id_def)
  then show ?thesis by (simp add: matching_ids_def concat_nodes [OF assms(1)])
qed

lemma valid_node_ids_eq:
  assumes "raw_nodes w = Some (map PDict ns)" and "\<forall>n \<in> set ns. plain_id n"
  shows "valid_node_ids w = node_id_of ` set ns"
proof -
  have "concat (map (\<lambda>n. case dict_get n ''id'' of
      PStr i \<Rightarrow> if blank i then [] else [i] | _ \<Rightarrow> []) ns) = map node_id_of ns"
    using assms(2) by (induction ns) (auto simp: plain_id_def node_id_pattern_nonblank)
  then show ?thesis by (simp add: valid_node_ids_def concat_nodes [OF assms(1)])
qed

text \<open>On a definition that passes the other rules the graph of the cycle rule is the declared
  dependency relation.\<close>

definition plain_deps :: "pydict \<Rightarrow> bool" where
  "plain_deps n \<longleftrightarrow> dict_get n ''dependencies'' = PList (map PStr (dep_names n))"

lemma plain_deps_lookup:
  "plain_deps n \<Longrightarrow> dict_lookup n ''dependencies'' = Some (PList (map PStr (dep_names n)))"
  by (auto simp: plain_deps_def dict_get_def split: option.splits)

lemma count_list_distinct: "distinct xs \<Longrightarrow> count_list xs x = (if x \<in> set xs then 1 else 0)"
  by (induction xs) auto

lemma dependency_graph_eq:
  assumes raw: "raw_nodes w = Some (map PDict ns)" and ids: "\<forall>n \<in> set ns. plain_id n"
    and deps: "\<forall>n \<in> set ns. plain_deps n" and dist: "distinct (map node_id_of ns)"
    and known: "\<forall>n \<in> set ns. set (dep_names n) \<subseteq> node_id_of ` set ns"
  shows "dependency_graph w =
    Inr (map (\<lambda>n. (node_id_of n, filter (\<lambda>d. d \<noteq> node_id_of n) (dep_names n))) ns)"
proof -
  let ?ids = "map node_id_of ns"
  let ?c = "count_list ?ids"
  have m: "matching_ids (nodes_from w) = ?ids" by (rule matching_ids_eq [OF raw ids])
  have c: "?c (node_id_of n) = 1" if "n \<in> set ns" for n
    using that count_list_distinct [OF dist] by simp
  have "concat (map (\<lambda>n. case dict_get n ''id'' of
      PStr i \<Rightarrow> if ?c i = 1 then [(i, n)] else [] | _ \<Rightarrow> []) ks) = map (\<lambda>n. (node_id_of n, n)) ks"
    if "set ks \<subseteq> set ns" for ks
    using that ids c by (induction ks) (auto simp: plain_id_def)
  then have u: "unique_nodes ?c (nodes_from w) = map (\<lambda>n. (node_id_of n, n)) ns"
    by (simp add: unique_nodes_def concat_nodes [OF raw])
  have gd: "graph_dependencies ?c i (map PStr ds) = filter (\<lambda>d. d \<noteq> i) ds"
    if "set ds \<subseteq> node_id_of ` set ns" for i ds
    using that c by (induction ds) (auto simp: graph_dependencies_def)
  have "res_map (\<lambda>(i, n). rbind (iter_value (case dict_lookup n ''dependencies'' of
         None \<Rightarrow> PList [] | Some v \<Rightarrow> v)) (\<lambda>vs. Inr (i, graph_dependencies ?c i vs)))
         (map (\<lambda>n. (node_id_of n, n)) ns) =
      Inr (map (\<lambda>(i, n). (i, filter (\<lambda>d. d \<noteq> i) (dep_names n))) (map (\<lambda>n. (node_id_of n, n)) ns))"
    using deps known gd by (intro res_map_total) (auto simp: plain_deps_lookup iter_value_def)
  then show ?thesis
    using dist by (simp add: dependency_graph_def Let_def m u comp_def dict_of_pairs_distinct)
qed

lemma g_edges_map:
  assumes "distinct (map node_id_of ns)"
  shows "g_edges (map (\<lambda>n. (node_id_of n, f n)) ns) = {(node_id_of n, d) | n d. n \<in> set ns \<and> d \<in> set (f n)}"
proof -
  have "deps_of (map (\<lambda>n. (node_id_of n, f n)) ns) (node_id_of n) = f n" if "n \<in> set ns" for n
    using map_of_distinct_find [OF assms that] by (simp add: deps_of_def map_of_map_key)
  then show ?thesis by (auto simp: g_edges_def graph_keys_def image_image)
qed

section \<open>The default rules characterise well-formed definitions\<close>

lemma default_silent_iff:
  "default_validator env fr w = Inr [] \<longleftrightarrow>
     accepts_workflow_fields w \<and> accepts_node_fields w \<and> accepts_node_ids w \<and> accepts_unique_ids w \<and>
     accepts_handlers env w \<and> accepts_config w \<and> accepts_dependencies w \<and> accepts_acyclic w"
  unfolding default_validator_def validator_silent_iff
  by (simp add: collect_rules_def DefaultWorkflowRuleProvider_def
      workflow_fields.silent_iff node_fields.silent_iff node_ids_valid.silent_iff node_ids_unique.silent_iff
      handlers.silent_iff node_config.silent_iff dependencies.silent_iff acyclic_rule.silent_iff)

lemma plain_id_iff: "plain_id n \<longleftrightarrow> (\<exists>s. dict_get n ''id'' = PStr s \<and> node_id_pattern s)"
  by (auto simp: plain_id_def node_id_of_def)

lemma raw_nodes_dicts:
  assumes "accepts_workflow_fields w" and "accepts_node_fields w"
  obtains ns where "raw_nodes w = Some (map PDict ns)" and "\<forall>n \<in> set ns. has_node_fields n"
proof -
  from assms(1) obtain items where items: "raw_nodes w = Some items" by (auto simp: accepts_workflow_fields_def)
  with assms(2) have "\<forall>v \<in> set items. \<exists>n. v = PDict n \<and> has_node_fields n"
    by (simp add: accepts_node_fields_def)
  then have "\<exists>ns. items = map PDict ns \<and> (\<forall>n \<in> set ns. has_node_fields n)"
  proof (induction items)
    case (Cons v vs)
    then obtain n ns where "v = PDict n" "has_node_fields n" "vs = map PDict ns"
      "\<forall>n \<in> set ns. has_node_fields n" by auto
    then show ?case by (intro exI [of _ "n # ns"]) auto
  qed simp
  with items that show ?thesis by blast
qed

lemma deps_ok_plain:
  assumes "has_node_fields n" and "plain_id n"
  shows "deps_ok known n \<longleftrightarrow>
    plain_deps n \<and> set (dep_names n) \<subseteq> known \<and> distinct (dep_names n) \<and> node_id_of n \<notin> set (dep_names n)"
proof -
  from assms(1) obtain ds where ds: "dict_get n ''dependencies'' = PList ds"
    by (auto simp: has_node_fields_def dict_get_def)
  show ?thesis
  proof (cases "\<exists>ss. ds = map PStr ss")
    case True
    then obtain ss where "ds = map PStr ss" by blast
    with ds assms(2) dep_names_strings [of n ss] show ?thesis
      by (auto simp: deps_ok_def plain_deps_def plain_id_def inj_map_eq_map inj_def)
  next
    case False
    with ds show ?thesis by (auto simp: deps_ok_def plain_deps_def)
  qed
qed

lemma acyclic_irrefl: "acyclic E \<Longrightarrow> (a, a) \<notin> E"
  by (auto simp: acyclic_def)

lemma rules_on_nodes:
  assumes raw: "raw_nodes w = Some (map PDict ns)" and fields: "\<forall>n \<in> set ns. has_node_fields n"
  shows "accepts_node_ids w \<and> accepts_unique_ids w \<and> accepts_handlers env w \<and> accepts_config w \<and>
      accepts_dependencies w \<and> accepts_acyclic w \<longleftrightarrow>
    (\<forall>n \<in> set ns. well_formed_node env (node_id_of ` set ns) n) \<and>
      distinct (map node_id_of ns) \<and> acyclic (dep_relation ns)"
proof (cases "\<forall>n \<in> set ns. plain_id n")
  case False
  then have "\<not> accepts_node_ids w"
    unfolding accepts_node_ids_def nodes_ball [OF raw] plain_id_iff [symmetric] by blast
  moreover have "\<not> (\<forall>n \<in> set ns. well_formed_node env (node_id_of ` set ns) n)"
    using False by (auto simp: well_formed_node_def plain_id_def)
  ultimately show ?thesis by blast
next
  case True
  let ?K = "node_id_of ` set ns"
  have ids: "accepts_node_ids w"
    unfolding accepts_node_ids_def nodes_ball [OF raw] plain_id_iff [symmetric] by (rule True)
  have unique: "accepts_unique_ids w \<longleftrightarrow> distinct (map node_id_of ns)"
    by (simp add: accepts_unique_ids_def matching_ids_eq [OF raw True])
  have handlers: "accepts_handlers env w \<longleftrightarrow>
      (\<forall>n \<in> set ns. dict_get n ''handler'' = PStr (handler_of n) \<and> handler_of n \<in> set (allowed_handlers env))"
    unfolding accepts_handlers_def nodes_ball [OF raw] by (auto simp: handler_of_def)
  have config: "accepts_config w \<longleftrightarrow> (\<forall>n \<in> set ns. config_ok n)"
    unfolding accepts_config_def nodes_ball [OF raw] ..
  have deps: "accepts_dependencies w \<longleftrightarrow> (\<forall>n \<in> set ns. plain_deps n \<and> set (dep_names n) \<subseteq> ?K \<and>
      distinct (dep_names n) \<and> node_id_of n \<notin> set (dep_names n))"
    unfolding accepts_dependencies_def nodes_ball [OF raw] valid_node_ids_eq [OF raw True]
    using deps_ok_plain fields True by blast
  have acyclic: "accepts_acyclic w \<longleftrightarrow> acyclic (dep_relation ns)"
    if dist: "distinct (map node_id_of ns)" and d: "accepts_dependencies w"
  proof -
    have g: "dependency_graph w =
        Inr (map (\<lambda>n. (node_id_of n, filter (\<lambda>d. d \<noteq> node_id_of n) (dep_names n))) ns)"
      using d unfolding deps by (intro dependency_graph_eq [OF raw True _ dist]) blast+
    have "g_edges (map (\<lambda>n. (node_id_of n, filter (\<lambda>d. d \<noteq> node_id_of n) (dep_names n))) ns) = dep_relation ns"
      using d unfolding deps g_edges_map [OF dist] by (fastforce simp: dep_relation_def)
    with g show ?thesis by (simp add: accepts_acyclic_def)
  qed
  have nodes: "(\<forall>n \<in> set ns. well_formed_node env ?K n) \<longleftrightarrow>
      (\<forall>n \<in> set ns. dict_get n ''handler'' = PStr (handler_of n) \<and> handler_of n \<in> set (allowed_handlers env)) \<and>
      (\<forall>n \<in> set ns. config_ok n) \<and>
      (\<forall>n \<in> set ns. plain_deps n \<and> set (dep_names n) \<subseteq> ?K \<and> distinct (dep_names n))"
    using True unfolding well_formed_node_def plain_id_def plain_deps_def by blast
  have self: "node_id_of n \<notin> set (dep_names n)" if "acyclic (dep_relation ns)" "n \<in> set ns" for n
    using acyclic_irrefl [OF that(1), of "node_id_of n"] that(2) by (auto simp: dep_relation_def)
  show ?thesis
    unfolding nodes unique handlers config using ids deps acyclic self by blast
qed

lemma well_formed_fields:
  assumes "well_formed_node env K n"
  shows "has_node_fields n"
  using assms by (auto simp: well_formed_node_def has_node_fields_def dict_get_def split: option.splits)

lemma default_validator_silent:
  "default_validator env fr w = Inr [] \<longleftrightarrow> well_formed_definition env w"
proof
  assume "default_validator env fr w = Inr []"
  then have acc: "accepts_workflow_fields w" "accepts_node_fields w"
    "accepts_node_ids w \<and> accepts_unique_ids w \<and> accepts_handlers env w \<and> accepts_config w \<and>
      accepts_dependencies w \<and> accepts_acyclic w"
    unfolding default_silent_iff by blast+
  from raw_nodes_dicts [OF acc(1,2)] obtain ns where
    raw: "raw_nodes w = Some (map PDict ns)" and fields: "\<forall>n \<in> set ns. has_node_fields n" .
  from acc(3) [unfolded rules_on_nodes [OF raw fields]] acc(1) raw show "well_formed_definition env w"
    unfolding well_formed_definition_def accepts_workflow_fields_def by blast
next
  assume wf: "well_formed_definition env w"
  then obtain ns where raw: "raw_nodes w = Some (map PDict ns)"
    and ns: "\<forall>n \<in> set ns. well_formed_node env (node_id_of ` set ns) n"
      "distinct (map node_id_of ns)" "acyclic (dep_relation ns)"
    unfolding well_formed_definition_def by blast
  have fields: "\<forall>n \<in> set ns. has_node_fields n" using ns(1) well_formed_fields by blast
  have "accepts_workflow_fields w"
    using wf by (auto simp: well_formed_definition_def accepts_workflow_fields_def)
  moreover have "accepts_node_fields w" using raw fields by (auto simp: accepts_node_fields_def)
  ultimately show "default_validator env fr w = Inr []"
    unfolding default_silent_iff using rules_on_nodes [OF raw fields, of env] ns by blast
qed

text \<open>C33: the default rules accept exactly the well-formed definitions. The aggregated error list is
  empty (and no rule raises) if and only if the name is a non-blank string and \<open>dag.nodes\<close> is a list
  of objects with distinct well-formed identifiers, allowed handlers with the configuration they
  require, distinct dependencies on nodes of the same definition, and no dependency cycle.\<close>

theorem default_validator_characterised:
  "default_validator env fr w = Inr [] \<longleftrightarrow> well_formed_definition env w"
  by (rule default_validator_silent)

section \<open>When validation raises\<close>

lemma validator_raises_iff:
  "(\<exists>e. WorkflowValidator_validate rules w = Inl e) \<longleftrightarrow> (\<exists>r \<in> set rules. \<exists>e. r w = Inl e)"
proof (induction rules)
  case (Cons r rules)
  then show ?case by (cases "r w"; cases "WorkflowValidator_validate rules w") auto
qed simp

definition unhashable :: "pyval \<Rightarrow> bool" where
  "unhashable v = (case v of PList _ \<Rightarrow> True | PDict _ \<Rightarrow> True | _ \<Rightarrow> False)"

definition iterable :: "pyval \<Rightarrow> bool" where
  "iterable v = (case v of PList _ \<Rightarrow> True | PDict _ \<Rightarrow> True | PStr _ \<Rightarrow> True | _ \<Rightarrow> False)"

lemma iter_value_raises: "(\<exists>e. iter_value v = Inl e) \<longleftrightarrow> \<not> iterable v"
  by (cases v) (auto simp: iter_value_def iterable_def)

lemma dependencies_raises:
  "(\<exists>e. iter_value (case dict_lookup n ''dependencies'' of None \<Rightarrow> PList [] | Some v \<Rightarrow> v) = Inl e) \<longleftrightarrow>
     (\<exists>v. dict_lookup n ''dependencies'' = Some v \<and> \<not> iterable v)"
  by (cases "dict_lookup n ''dependencies''") (simp_all add: iter_value_raises, simp add: iterable_def)

lemma node_configuration_raises:
  "(\<exists>e. node_configuration i n = Inl e) \<longleftrightarrow> unhashable (dict_get n ''handler'')"
  by (cases "dict_get n ''handler''") (auto simp: node_configuration_def hashable_def unhashable_def Let_def)

lemma config_rule_raises:
  "(\<exists>e. NodeConfigurationRule w = Inl e) \<longleftrightarrow>
     (\<exists>(i, n) \<in> set (nodes_from w). unhashable (dict_get n ''handler''))"
proof -
  have "(\<exists>e. NodeConfigurationRule w = Inl e) \<longleftrightarrow>
      (\<exists>e. res_map (\<lambda>(i, n). node_configuration i n) (nodes_from w) = Inl e)"
    by (auto simp: NodeConfigurationRule_def rbind_Inl_iff)
  then show ?thesis unfolding res_map_Inl_iff by (auto simp: node_configuration_raises case_prod_unfold)
qed

lemma unique_nodes_mem:
  "(i, n) \<in> set (unique_nodes c ns) \<longleftrightarrow> (\<exists>j. (j, n) \<in> set ns) \<and> dict_get n ''id'' = PStr i \<and> c i = 1"
  by (force simp: unique_nodes_def split: pyval.splits if_splits)

lemma cycle_rule_raises:
  "(\<exists>e. CycleDetectionRule w = Inl e) \<longleftrightarrow>
     (\<exists>(j, n) \<in> set (nodes_from w). \<exists>i v. dict_get n ''id'' = PStr i \<and>
        count_list (matching_ids (nodes_from w)) i = 1 \<and>
        dict_lookup n ''dependencies'' = Some v \<and> \<not> iterable v)"
proof -
  have "(\<exists>e. CycleDetectionRule w = Inl e) \<longleftrightarrow> (\<exists>e. dependency_graph w = Inl e)"
  proof (cases "dependency_graph w")
    case (Inl e)
    then show ?thesis by (simp add: CycleDetectionRule_def)
  next
    case (Inr g)
    with cycle_rule_total [OF Inr] show ?thesis by auto
  qed
  also have "\<dots> \<longleftrightarrow> (\<exists>(i, n) \<in> set (unique_nodes (count_list (matching_ids (nodes_from w))) (nodes_from w)).
      \<exists>v. dict_lookup n ''dependencies'' = Some v \<and> \<not> iterable v)"
    unfolding dependency_graph_def Let_def
    by (simp add: rbind_Inl_iff res_map_Inl_iff case_prod_unfold dependencies_raises)
  also have "\<dots> \<longleftrightarrow> (\<exists>(j, n) \<in> set (nodes_from w). \<exists>i v. dict_get n ''id'' = PStr i \<and>
        count_list (matching_ids (nodes_from w)) i = 1 \<and>
        dict_lookup n ''dependencies'' = Some v \<and> \<not> iterable v)"
    by (simp only: split_paired_Bex_Sigma case_prod_unfold bex_simps) (simp add: Bex_def unique_nodes_mem, blast)
  finally show ?thesis .
qed

text \<open>C35: validation is total except for two kinds of payload, on which it raises \<open>TypeError\<close> instead
  of returning the errors it would report: a node whose handler is a list or an object, and a node
  with a unique well-formed identifier whose \<open>dependencies\<close> value cannot be iterated (such as
  \<open>null\<close> or a number).\<close>

theorem default_validator_raises_iff:
  "(\<exists>e. default_validator env fr w = Inl e) \<longleftrightarrow>
     (\<exists>(j, n) \<in> set (nodes_from w). unhashable (dict_get n ''handler'')) \<or>
     (\<exists>(j, n) \<in> set (nodes_from w). \<exists>i v. dict_get n ''id'' = PStr i \<and>
        count_list (matching_ids (nodes_from w)) i = 1 \<and>
        dict_lookup n ''dependencies'' = Some v \<and> \<not> iterable v)"
  unfolding default_validator_def validator_raises_iff config_rule_raises [symmetric] cycle_rule_raises [symmetric]
  by (simp add: collect_rules_def DefaultWorkflowRuleProvider_def RequiredWorkflowFieldsRule_def
      RequiredNodeFieldsRule_def NodeIdValidityRule_def UniqueNodeIdsRule_def HandlerDefinitionRule_def
      DependencyReferenceRule_def Let_def)

section \<open>Accepted definitions are valid graphs\<close>

definition reads_node :: "pyval \<Rightarrow> WorkflowNode \<Rightarrow> bool" where
  "reads_node v node \<longleftrightarrow>
     (\<forall>n. v = PDict n \<longrightarrow>
        (\<forall>s. dict_get n ''id'' = PStr s \<longrightarrow> wn_id node = s) \<and>
        (\<forall>s. dict_get n ''handler'' = PStr s \<longrightarrow> wn_handler node = s) \<and>
        (\<forall>ss. dict_get n ''dependencies'' = PList (map PStr ss) \<longrightarrow> wn_dependencies node = ss) \<and>
        (\<forall>c. dict_lookup n ''config'' = Some (PDict c) \<longrightarrow> wn_config node = c))"

definition reads_definition :: "pydict \<Rightarrow> Workflow \<Rightarrow> bool" where
  "reads_definition d w \<longleftrightarrow>
     (\<forall>s. dict_get d ''name'' = PStr s \<longrightarrow> wf_name w = s) \<and>
     (\<forall>items. raw_nodes d = Some items \<longrightarrow> list_all2 reads_node items (wf_nodes w))"

lemma reads_well_formed:
  assumes "reads_node (PDict n) node" and "well_formed_node env K n"
  shows "wn_id node = node_id_of n" and "wn_handler node = handler_of n"
    and "wn_dependencies node = dep_names n"
  using assms by (auto simp: reads_node_def well_formed_node_def)

lemma reads_valid_dag:
  assumes reads: "reads_definition d w" and wf: "well_formed_definition env d"
  shows "valid_dag w"
proof -
  from wf obtain ns where raw: "raw_nodes d = Some (map PDict ns)"
    and ns: "\<forall>n \<in> set ns. well_formed_node env (node_id_of ` set ns) n"
      "distinct (map node_id_of ns)" "acyclic (dep_relation ns)"
    unfolding well_formed_definition_def by blast
  have "list_all2 reads_node (map PDict ns) (wf_nodes w)"
    using reads raw by (simp add: reads_definition_def)
  then have all: "list_all2 (\<lambda>n node. wn_id node = node_id_of n \<and> wn_dependencies node = dep_names n) ns (wf_nodes w)"
    unfolding list_all2_map1 by (rule list.rel_mono_strong) (use ns(1) reads_well_formed in blast)
  then have ids: "node_ids w = map node_id_of ns"
    unfolding node_ids_def by (induction rule: list_all2_induct) auto
  have deps: "set (map (\<lambda>m. (wn_id m, wn_dependencies m)) (wf_nodes w)) =
      set (map (\<lambda>n. (node_id_of n, dep_names n)) ns)"
    using all by (induction rule: list_all2_induct) auto
  have "dep_edges w = {(i, d) | i d ds. (i, ds) \<in> set (map (\<lambda>m. (wn_id m, wn_dependencies m)) (wf_nodes w)) \<and> d \<in> set ds}"
    by (auto simp: dep_edges_def image_iff)
  also have "\<dots> = dep_relation ns"
    unfolding deps by (auto simp: dep_relation_def image_iff)
  finally have "dep_edges w = dep_relation ns" .
  moreover have "closed_dag w"
    unfolding closed_dag_def
  proof
    fix m assume "m \<in> set (wf_nodes w)"
    then have "(wn_id m, wn_dependencies m) \<in> set (map (\<lambda>n. (node_id_of n, dep_names n)) ns)"
      unfolding deps [symmetric] by simp
    then obtain n where "n \<in> set ns" "wn_dependencies m = dep_names n" by auto
    with ns(1) ids show "set (wn_dependencies m) \<subseteq> set (node_ids w)"
      by (simp add: well_formed_node_def)
  qed
  ultimately show ?thesis using ns ids by (simp add: valid_dag_def)
qed

lemma accept_Inr_iff:
  "accept validator mv d = Inr w \<longleftrightarrow> validator d = Inr [] \<and> mv d = Inr w"
  by (auto simp: accept_def rbind_Inr_iff)

lemma reads_handlers:
  assumes reads: "reads_definition d w" and wf: "well_formed_definition env d"
  shows "\<forall>m \<in> set (wf_nodes w). wn_handler m \<in> set (allowed_handlers env)"
proof -
  from wf obtain ns where raw: "raw_nodes d = Some (map PDict ns)"
    and ns: "\<forall>n \<in> set ns. well_formed_node env (node_id_of ` set ns) n"
    unfolding well_formed_definition_def by blast
  have "list_all2 reads_node (map PDict ns) (wf_nodes w)"
    using reads raw by (simp add: reads_definition_def)
  then have "list_all2 (\<lambda>n node. wn_handler node \<in> set (allowed_handlers env)) ns (wf_nodes w)"
    unfolding list_all2_map1
    by (rule list.rel_mono_strong) (use ns reads_well_formed(2) in \<open>auto simp: well_formed_node_def\<close>)
  then show ?thesis by (induction rule: list_all2_induct) auto
qed

text \<open>C34: every definition the service accepts is a valid graph with supported handlers only, and
  \<open>build_dag\<close> on it returns the traversal graph of that workflow; the only thing relied on is that
  \<open>Workflow.model_validate\<close> takes over well-typed fields.\<close>

theorem accepted_definition_valid:
  assumes "\<forall>d w. model_validate d = Inr w \<longrightarrow> reads_definition d w"
    and "accept (default_validator env fr) model_validate d = Inr w"
  shows "valid_dag w \<and> \<not> blank (wf_name w) \<and>
    (\<forall>m \<in> set (wf_nodes w). wn_handler m \<in> set (allowed_handlers env)) \<and>
    (\<exists>dag. build_dag (default_validator env fr) model_validate d = Inr dag \<and> from_workflow w = Inr dag)"
proof -
  have wf: "well_formed_definition env d" and mv: "model_validate d = Inr w"
    using assms(2) by (simp_all add: accept_Inr_iff default_validator_silent)
  have reads: "reads_definition d w" using assms(1) mv by blast
  have "\<not> blank (wf_name w)"
    using reads wf by (auto simp: reads_definition_def well_formed_definition_def)
  then show ?thesis
    using reads_valid_dag [OF reads wf] reads_handlers [OF reads wf] assms(2)
      from_workflow_valid [of w] by (simp add: build_dag_def)
qed

text \<open>A reader that takes the fields over, and a definition it is applied to.\<close>

definition read_node :: "pydict \<Rightarrow> WorkflowNode" where
  "read_node n =
     \<lparr>wn_id = node_id_of n, wn_handler = handler_of n, wn_dependencies = dep_names n,
      wn_config = (case config_of n of PDict c \<Rightarrow> c | _ \<Rightarrow> []), wn_created_at = 0, wn_created_by = None\<rparr>"

definition read_workflow :: "pydict \<Rightarrow> error + Workflow" where
  "read_workflow d =
     Inr \<lparr>wf_workflow_id = 1, wf_name = (case dict_get d ''name'' of PStr s \<Rightarrow> s | _ \<Rightarrow> []),
          wf_dag = \<lparr>nodes = map (\<lambda>v. read_node (case v of PDict n \<Rightarrow> n | _ \<Rightarrow> []))
            (case raw_nodes d of None \<Rightarrow> [] | Some items \<Rightarrow> items)\<rparr>,
          wf_created_at = 0, wf_created_by = None\<rparr>"

lemma read_workflow_reads: "\<forall>d w. read_workflow d = Inr w \<longrightarrow> reads_definition d w"
proof (intro allI impI)
  fix d w assume "read_workflow d = Inr w"
  then have w: "wf_name w = (case dict_get d ''name'' of PStr s \<Rightarrow> s | _ \<Rightarrow> [])"
    "wf_nodes w = map (\<lambda>v. read_node (case v of PDict n \<Rightarrow> n | _ \<Rightarrow> []))
       (case raw_nodes d of None \<Rightarrow> [] | Some items \<Rightarrow> items)"
    by (auto simp: read_workflow_def)
  have "reads_node v (read_node (case v of PDict n \<Rightarrow> n | _ \<Rightarrow> []))" for v
    by (auto simp: reads_node_def read_node_def node_id_of_def handler_of_def config_of_def dep_names_strings)
  then show "reads_definition d w"
    unfolding reads_definition_def w by (auto simp: list_all2_map2 list.rel_refl)
qed

definition sample_definition :: pydict where
  "sample_definition =
     [(PStr ''name'', PStr ''sample''),
      (PStr ''dag'', PDict [(PStr ''nodes'', PList
        [PDict [(PStr ''id'', PStr ''a''), (PStr ''handler'', PStr ''input''), (PStr ''dependencies'', PList [])],
         PDict [(PStr ''id'', PStr ''b''), (PStr ''handler'', PStr ''llm_service''),
                (PStr ''dependencies'', PList [PStr ''a'']),
                (PStr ''config'', PDict [(PStr ''prompt'', PStr ''go'')])]])])]"

theorem accepted_definition_valid_witness:
  "\<exists>w. accept (default_validator Map.empty (\<lambda>_. [])) read_workflow sample_definition = Inr w \<and> valid_dag w"
proof -
  have "default_validator Map.empty (\<lambda>_. []) sample_definition = Inr []" by code_simp
  then obtain w where "accept (default_validator Map.empty (\<lambda>_. [])) read_workflow sample_definition = Inr w"
    by (auto simp: accept_Inr_iff read_workflow_def)
  with accepted_definition_valid [OF read_workflow_reads this] show ?thesis by blast
qed

end
