(* ===== verification/Scheduling.thy ===== *)
theory Scheduling
  imports Processing Template_Resolver Definition_Service
begin

text \<open>
  The application services that submit, trigger and schedule executions
  (\<open>app/services\<close>: definition, trigger, readiness, finalization, node task dispatcher, dispatch,
  status and results services). Each \<open>async with unit_of_work.transaction()\<close> is one transaction of
  the model. What the code reads from outside is an argument: \<open>now\<close> for \<open>datetime.now(UTC)\<close>, fresh
  identifiers for \<open>uuid4()\<close>, the hash \<open>uuid5\<close>, the float text \<open>fr\<close> and pydantic's \<open>model_validate\<close>.
\<close>

section \<open>Identifiers and status dictionaries\<close>

definition TASK_ID_NAMESPACE :: uuid where
  "TASK_ID_NAMESPACE = 0x1f3cd7dd05c948e99ad395520ee7ae8d"

type_synonym uuid5_hash = "uuid \<Rightarrow> string \<Rightarrow> uuid"

definition create_task_id :: "uuid5_hash \<Rightarrow> uuid \<Rightarrow> string \<Rightarrow> string" where
  "create_task_id uuid5 execution_id node_id =
     uuid_str (uuid5 TASK_ID_NAMESPACE (uuid_str execution_id @ '':'' @ node_id))"

text \<open>\<open>{item.node_id: item.status for item in node_executions}\<close>: a later item wins.\<close>

definition statuses_by_id :: "NodeExecution list \<Rightarrow> statuses" where
  "statuses_by_id items = map_of (rev (map (\<lambda>n. (ne_node_id n, ne_status n)) items))"

definition execution_not_found :: "uuid \<Rightarrow> error" where
  "execution_not_found execution_id = WorkflowExecutionNotFoundError (uuid_str execution_id)"

definition workflow_not_found :: "uuid \<Rightarrow> error" where
  "workflow_not_found workflow_id =
     LookupError (''Workflow '' @ quoted (uuid_str workflow_id) @ '' was not found.'')"

text \<open>A read whose missing row raises.\<close>

definition require :: "error \<Rightarrow> (db, 'a option) tx \<Rightarrow> (db, 'a) tx" where
  "require e m = tx_bind m (\<lambda>x. case x of None \<Rightarrow> tx_raise e | Some y \<Rightarrow> tx_return y)"

section \<open>Submission (\<open>workflow_definition_service.py\<close>)\<close>

record WorkflowSubmission =
  ws_execution_id :: uuid
  ws_name :: string
  ws_created_at :: datetime

definition submit_tx :: "Workflow \<Rightarrow> uuid \<Rightarrow> datetime \<Rightarrow> (db, unit) tx" where
  "submit_tx workflow execution_id now =
     tx_bind (create_workflow workflow) (\<lambda>_.
     tx_bind (create_execution (new_workflow_execution execution_id (wf_workflow_id workflow) now)) (\<lambda>_.
     tx_each (\<lambda>node. tx_bind (upsert_node_execution (new_node_execution execution_id (wn_id node) now))
        (\<lambda>_. tx_return ())) (wf_nodes workflow)))"

definition submit ::
    "rule \<Rightarrow> (pydict \<Rightarrow> error + Workflow) \<Rightarrow> pydict \<Rightarrow> uuid \<Rightarrow> datetime \<Rightarrow> db \<Rightarrow> (error + WorkflowSubmission) \<times> db" where
  "submit validator model_validate definition execution_id now d =
     (case accept validator model_validate definition of
        Inl e \<Rightarrow> (Inl e, d)
      | Inr workflow \<Rightarrow>
          (case run_transaction (submit_tx workflow execution_id now) d of
             (Inl e, d') \<Rightarrow> (Inl e, d')
           | (Inr _, d') \<Rightarrow> (Inr \<lparr>ws_execution_id = execution_id, ws_name = wf_name workflow,
               ws_created_at = wf_created_at workflow\<rparr>, d')))"

section \<open>Trigger (\<open>workflow_trigger_service.py\<close>)\<close>

record WorkflowTriggerDecision =
  td_execution_id :: uuid
  td_status :: WorkflowExecutionStatus

definition trigger_tx :: "uuid \<Rightarrow> datetime \<Rightarrow> uuid \<Rightarrow> pydict option \<Rightarrow> (db, WorkflowTriggerDecision) tx" where
  "trigger_tx fresh_id now execution_id input_data =
     tx_bind (require (execution_not_found execution_id) (get_execution_by_id execution_id)) (\<lambda>execution.
     if we_status execution \<noteq> WPENDING
     then tx_raise (WorkflowExecutionNotTriggerableError (uuid_str execution_id) (we_status execution))
     else
       tx_bind (update_execution_status_if_current execution_id WPENDING WRUNNING (Some now) None input_data)
         (\<lambda>transitioned.
       if \<not> transitioned
       then tx_raise (WorkflowExecutionNotTriggerableError (uuid_str execution_id) (we_status execution))
       else
         tx_bind (add_message fresh_id ''workflow.execution.triggered'' WORKFLOW_EVENTS_STREAM
             [(PStr ''execution_id'', PStr (uuid_str execution_id))] (Some execution_id)) (\<lambda>_.
         tx_return \<lparr>td_execution_id = execution_id, td_status = WRUNNING\<rparr>)))"

definition trigger ::
    "uuid \<Rightarrow> datetime \<Rightarrow> uuid \<Rightarrow> pydict option \<Rightarrow> db \<Rightarrow> (error + WorkflowTriggerDecision) \<times> db" where
  "trigger fresh_id now execution_id input_data =
     run_transaction (trigger_tx fresh_id now execution_id input_data)"

section \<open>Readiness (\<open>workflow_readiness_service.py\<close>)\<close>

record WorkflowReadinessDecision =
  rdy_execution_id :: uuid
  ready_node_ids :: "string list"

definition readiness_in_transaction ::
    "uuid \<Rightarrow> WorkflowExecution option \<Rightarrow> (db, WorkflowReadinessDecision) tx" where
  "readiness_in_transaction execution_id execution =
     tx_bind (require (execution_not_found execution_id)
        (case execution of None \<Rightarrow> get_execution_by_id execution_id | Some e \<Rightarrow> tx_return (Some e)))
       (\<lambda>persisted_execution.
     tx_bind (require (workflow_not_found (we_workflow_id persisted_execution))
        (get_workflow_by_id (we_workflow_id persisted_execution))) (\<lambda>workflow.
     tx_bind (get_node_executions_for_execution execution_id) (\<lambda>node_executions.
     tx_return \<lparr>rdy_execution_id = execution_id,
       ready_node_ids = evaluate_ready_node_ids workflow (statuses_by_id node_executions)\<rparr>)))"

definition readiness_evaluate :: "uuid \<Rightarrow> db \<Rightarrow> (error + WorkflowReadinessDecision) \<times> db" where
  "readiness_evaluate execution_id =
     run_transaction (
       tx_bind (require (execution_not_found execution_id) (get_execution_by_id execution_id)) (\<lambda>execution.
       readiness_in_transaction execution_id (Some execution)))"

section \<open>Finalization (\<open>workflow_finalization_service.py\<close>)\<close>

record WorkflowFinalizationDecision =
  fin_execution_id :: uuid
  fin_status :: WorkflowExecutionStatus

definition workflow_event_id :: "uuid5_hash \<Rightarrow> uuid \<Rightarrow> uuid option \<Rightarrow> uuid \<Rightarrow> string \<Rightarrow> uuid" where
  "workflow_event_id uuid5 fresh_id correlation_id execution_id status =
     (case correlation_id of
        Some c \<Rightarrow> uuid5 c (''workflow:'' @ uuid_str execution_id @ '':'' @ status)
      | None \<Rightarrow> fresh_id)"

text \<open>The conditional transition to a terminal status with its lifecycle event.\<close>

definition finalize_as ::
    "uuid5_hash \<Rightarrow> uuid \<Rightarrow> datetime \<Rightarrow> uuid \<Rightarrow> uuid option \<Rightarrow> WorkflowExecutionStatus \<Rightarrow>
     (db, WorkflowFinalizationDecision) tx" where
  "finalize_as uuid5 fresh_id now execution_id correlation_id target =
     tx_bind (update_execution_status_if_current execution_id WRUNNING target None (Some now) None) (\<lambda>updated.
     tx_bind (if updated then
         add_message (workflow_event_id uuid5 fresh_id correlation_id execution_id (workflow_status_value target))
           (''workflow.execution.'' @ workflow_status_value target) WORKFLOW_EVENTS_STREAM
           [(PStr ''execution_id'', PStr (uuid_str execution_id)),
            (PStr ''status'', PStr (workflow_status_value target))] (Some execution_id)
       else tx_return ()) (\<lambda>_.
     tx_return \<lparr>fin_execution_id = execution_id, fin_status = target\<rparr>))"

definition finalization_in_transaction ::
    "uuid5_hash \<Rightarrow> uuid \<Rightarrow> datetime \<Rightarrow> uuid \<Rightarrow> WorkflowExecution option \<Rightarrow> uuid option \<Rightarrow>
     (db, WorkflowFinalizationDecision) tx" where
  "finalization_in_transaction uuid5 fresh_id now execution_id execution correlation_id =
     tx_bind (require (execution_not_found execution_id)
        (case execution of None \<Rightarrow> get_execution_by_id execution_id | Some e \<Rightarrow> tx_return (Some e)))
       (\<lambda>persisted_execution.
     tx_bind (get_node_executions_for_execution execution_id) (\<lambda>node_executions.
     if list_ex (\<lambda>n. ne_status n = FAILED) node_executions
     then finalize_as uuid5 fresh_id now execution_id correlation_id WFAILED
     else
       tx_bind (require (workflow_not_found (we_workflow_id persisted_execution))
          (get_workflow_by_id (we_workflow_id persisted_execution))) (\<lambda>workflow.
       if list_all (\<lambda>node. statuses_by_id node_executions (wn_id node) = Some COMPLETED) (wf_nodes workflow)
       then finalize_as uuid5 fresh_id now execution_id correlation_id WCOMPLETED
       else tx_return \<lparr>fin_execution_id = execution_id, fin_status = we_status persisted_execution\<rparr>)))"

definition finalization_evaluate ::
    "uuid5_hash \<Rightarrow> uuid \<Rightarrow> datetime \<Rightarrow> uuid \<Rightarrow> db \<Rightarrow> (error + WorkflowFinalizationDecision) \<times> db" where
  "finalization_evaluate uuid5 fresh_id now execution_id =
     run_transaction (
       tx_bind (require (execution_not_found execution_id) (get_execution_by_id execution_id)) (\<lambda>execution.
       finalization_in_transaction uuid5 fresh_id now execution_id (Some execution) None))"

section \<open>Dispatch (\<open>node_task_dispatcher.py\<close>, \<open>workflow_dispatch_service.py\<close>)\<close>

datatype DispatchOutcome = DISPATCHED | ALREADY_STARTED | FAILED_TO_PUBLISH

record DispatchResult =
  dr_execution_id :: uuid
  dr_node_id :: string
  dr_task_id :: "string option"
  dr_outcome :: DispatchOutcome
  dr_reason :: "string option"

definition dispatch_result :: "uuid \<Rightarrow> string \<Rightarrow> string \<Rightarrow> DispatchOutcome \<Rightarrow> string option \<Rightarrow> DispatchResult" where
  "dispatch_result execution_id node_id task_id outcome reason =
     \<lparr>dr_execution_id = execution_id, dr_node_id = node_id, dr_task_id = Some task_id,
      dr_outcome = outcome, dr_reason = reason\<rparr>"

definition completed_dependency_outputs :: "uuid \<Rightarrow> WorkflowNode \<Rightarrow> NodeExecution list \<Rightarrow> outputs" where
  "completed_dependency_outputs execution_id node node_executions =
     dict_of_pairs (map (\<lambda>n. (ne_node_id n, ne_output_data n))
       (filter (\<lambda>n. ne_workflow_execution_id n = execution_id \<and> ne_node_id n \<in> set (wn_dependencies node) \<and>
          ne_status n = COMPLETED) node_executions))"

definition task_message :: "string \<Rightarrow> uuid \<Rightarrow> uuid \<Rightarrow> WorkflowNode \<Rightarrow> pydict \<Rightarrow> NodeTaskMessage" where
  "task_message task_id attempt_id execution_id node resolved_input =
     \<lparr>nt_message_id = None, nt_task_id = task_id, nt_attempt_id = attempt_id, nt_attempt_number = 1,
      nt_execution_id = execution_id, nt_node_id = wn_id node, nt_handler = wn_handler node,
      nt_handler_config = wn_config node, nt_resolved_input = resolved_input\<rparr>"

text \<open>The branch that queues a claimed node.\<close>

definition queue_task ::
    "datetime \<Rightarrow> string \<Rightarrow> uuid \<Rightarrow> uuid \<Rightarrow> WorkflowNode \<Rightarrow> pydict \<Rightarrow> (db, unit) tx" where
  "queue_task now task_id fresh_id execution_id node resolved_input =
     tx_bind (register_initial_task task_id execution_id (wn_id node) (wn_handler node) (wn_config node)
        resolved_input fresh_id now) (\<lambda>attempt_id.
     tx_bind (tx_lift (parse_uuid task_id)) (\<lambda>message_id.
     add_task message_id (task_payload (task_message task_id attempt_id execution_id node resolved_input))
       (Some execution_id)))"

definition dispatch_tx ::
    "float_text \<Rightarrow> uuid5_hash \<Rightarrow> uuid \<Rightarrow> datetime \<Rightarrow> WorkflowExecution \<Rightarrow> WorkflowNode \<Rightarrow> (db, DispatchResult) tx" where
  "dispatch_tx fr uuid5 fresh_id now execution node =
     (let execution_id = we_execution_id execution;
          task_id = create_task_id uuid5 execution_id (wn_id node) in
      tx_bind (require (execution_not_found execution_id) (get_execution_by_id_for_update execution_id)) (\<lambda>_.
      tx_bind (get_node_executions_for_execution execution_id) (\<lambda>node_executions.
      if list_ex (\<lambda>dependency_id. statuses_by_id node_executions dependency_id = Some FAILED) (wn_dependencies node)
      then
        tx_bind (fail_pending_nodes execution_id [wn_id node] ''A required dependency failed.'' now) (\<lambda>_.
        tx_return (dispatch_result execution_id (wn_id node) task_id ALREADY_STARTED
          (Some ''A required dependency failed; node was marked failed.'')))
      else
        tx_bind (tx_lift (resolve fr node (we_input_data execution)
            (completed_dependency_outputs execution_id node node_executions))) (\<lambda>resolved_input.
        tx_bind (claim_pending_nodes execution_id [wn_id node]) (\<lambda>claimed.
        if claimed = []
        then tx_return (dispatch_result execution_id (wn_id node) task_id ALREADY_STARTED
               (Some ''Node was already dispatched or is no longer eligible to dispatch.''))
        else
          tx_bind (queue_task now task_id fresh_id execution_id node resolved_input) (\<lambda>_.
          tx_return (dispatch_result execution_id (wn_id node) task_id DISPATCHED None)))))))"

definition dispatch ::
    "float_text \<Rightarrow> uuid5_hash \<Rightarrow> uuid \<Rightarrow> datetime \<Rightarrow> WorkflowExecution \<Rightarrow> WorkflowNode \<Rightarrow> db \<Rightarrow>
     (error + DispatchResult) \<times> db" where
  "dispatch fr uuid5 fresh_id now execution node =
     run_transaction (dispatch_tx fr uuid5 fresh_id now execution node)"

text \<open>
  \<open>asyncio.gather\<close>: every coroutine runs its own transaction to the end, in some order the row lock
  on the execution makes sequential (here the order of the nodes); then the first exception is
  raised, or the results are returned. \<open>fresh\<close> gives the identifier each coroutine draws.
\<close>

fun dispatch_each ::
    "float_text \<Rightarrow> uuid5_hash \<Rightarrow> (string \<Rightarrow> uuid) \<Rightarrow> datetime \<Rightarrow> WorkflowExecution \<Rightarrow> WorkflowNode list \<Rightarrow> db \<Rightarrow>
     (error + DispatchResult) list \<times> db" where
  "dispatch_each fr uuid5 fresh now execution [] d = ([], d)"
| "dispatch_each fr uuid5 fresh now execution (node # rest) d =
     (case dispatch fr uuid5 (fresh (wn_id node)) now execution node d of
        (r, d1) \<Rightarrow> (case dispatch_each fr uuid5 fresh now execution rest d1 of (rs, d2) \<Rightarrow> (r # rs, d2)))"

definition dispatch_many ::
    "float_text \<Rightarrow> uuid5_hash \<Rightarrow> (string \<Rightarrow> uuid) \<Rightarrow> datetime \<Rightarrow> WorkflowExecution \<Rightarrow> WorkflowNode list \<Rightarrow> db \<Rightarrow>
     (error + DispatchResult list) \<times> db" where
  "dispatch_many fr uuid5 fresh now execution ns d =
     (case dispatch_each fr uuid5 fresh now execution ns d of (rs, d') \<Rightarrow> (res_map (\<lambda>r. r) rs, d'))"

record WorkflowDispatchDecision =
  wd_execution_id :: uuid
  wd_results :: "DispatchResult list"

definition load_ready_nodes :: "uuid \<Rightarrow> string list \<Rightarrow> (db, WorkflowExecution \<times> WorkflowNode list) tx" where
  "load_ready_nodes execution_id ids =
     tx_bind (require (execution_not_found execution_id) (get_execution_by_id execution_id)) (\<lambda>execution.
     tx_bind (require (workflow_not_found (we_workflow_id execution))
        (get_workflow_by_id (we_workflow_id execution))) (\<lambda>workflow.
     tx_return (execution, filter (\<lambda>node. wn_id node \<in> set ids) (wf_nodes workflow))))"

definition dispatch_ready ::
    "float_text \<Rightarrow> uuid5_hash \<Rightarrow> (string \<Rightarrow> uuid) \<Rightarrow> datetime \<Rightarrow> uuid \<Rightarrow> string list \<Rightarrow> db \<Rightarrow>
     (error + WorkflowDispatchDecision) \<times> db" where
  "dispatch_ready fr uuid5 fresh now execution_id ids d =
     (if ids = [] then (Inr \<lparr>wd_execution_id = execution_id, wd_results = []\<rparr>, d)
      else case run_transaction (load_ready_nodes execution_id ids) d of
        (Inl e, d1) \<Rightarrow> (Inl e, d1)
      | (Inr (execution, ns), d1) \<Rightarrow>
          (case dispatch_many fr uuid5 fresh now execution ns d1 of
             (Inl e, d2) \<Rightarrow> (Inl e, d2)
           | (Inr rs, d2) \<Rightarrow> (Inr \<lparr>wd_execution_id = execution_id, wd_results = rs\<rparr>, d2)))"

section \<open>Status and results (\<open>workflow_execution_status_service.py\<close>, \<open>workflow_execution_results_service.py\<close>)\<close>

record ExecutionStatus =
  es_execution :: WorkflowExecution
  es_node_executions :: "NodeExecution list"

definition get_status :: "uuid \<Rightarrow> db \<Rightarrow> (error + ExecutionStatus option) \<times> db" where
  "get_status execution_id = run_transaction (
     tx_bind (get_execution_by_id execution_id) (\<lambda>execution.
       case execution of
         None \<Rightarrow> tx_return None
       | Some e \<Rightarrow> tx_bind (get_node_executions_for_execution execution_id) (\<lambda>node_executions.
           tx_return (Some \<lparr>es_execution = e, es_node_executions = node_executions\<rparr>))))"

record WorkflowNodeResult =
  nres_node_id :: string
  nres_status :: NodeExecutionStatus
  nres_output_data :: pyval
  nres_error_message :: "string option"
  nres_error_type :: "string option"
  nres_created_at :: datetime
  nres_started_at :: "datetime option"
  nres_completed_at :: "datetime option"

record WorkflowExecutionResults =
  res_execution :: WorkflowExecution
  res_message :: "string option"
  res_results :: "WorkflowNodeResult list option"

definition node_result :: "NodeExecution \<Rightarrow> WorkflowNodeResult" where
  "node_result n = \<lparr>nres_node_id = ne_node_id n, nres_status = ne_status n, nres_output_data = ne_output_data n,
     nres_error_message = ne_error_message n, nres_error_type = ne_error_type n,
     nres_created_at = ne_created_at n, nres_started_at = ne_started_at n, nres_completed_at = ne_completed_at n\<rparr>"

definition withheld :: "WorkflowExecution \<Rightarrow> string \<Rightarrow> WorkflowExecutionResults" where
  "withheld execution message = \<lparr>res_execution = execution, res_message = Some message, res_results = None\<rparr>"

definition results_of :: "ExecutionStatus \<Rightarrow> WorkflowExecutionResults" where
  "results_of workflow_status =
     (let execution = es_execution workflow_status in
      case we_status execution of
        WPENDING \<Rightarrow> withheld execution ''Workflow execution is pending. Results are not available yet.''
      | WRUNNING \<Rightarrow> withheld execution ''Workflow execution is running. Results are not available yet.''
      | WFAILED \<Rightarrow> withheld execution ''Workflow execution failed. Final results are not available.''
      | WCOMPLETED \<Rightarrow>
          if list_ex (\<lambda>n. ne_status n = FAILED) (es_node_executions workflow_status)
          then withheld execution (''Workflow execution state is inconsistent: completed execution contains '' @
                 ''failed node executions. Final results are not available.'')
          else \<lparr>res_execution = execution, res_message = None,
                res_results = Some (map node_result
                  (filter (\<lambda>n. ne_status n = COMPLETED) (es_node_executions workflow_status)))\<rparr>)"

definition get_results :: "uuid \<Rightarrow> db \<Rightarrow> (error + WorkflowExecutionResults option) \<times> db" where
  "get_results execution_id d =
     (case get_status execution_id d of
        (Inl e, d') \<Rightarrow> (Inl e, d')
      | (Inr None, d') \<Rightarrow> (Inr None, d')
      | (Inr (Some s), d') \<Rightarrow> (Inr (Some (results_of s)), d'))"

end
