(* ===== verification/Completion.thy ===== *)
theory Completion
  imports Scheduling
begin

text \<open>
  \<open>app/services/task_completion_service.py\<close>: the retry policy and the service that applies a
  worker's completion event. Floats of the policy are binary64 patterns; their comparison is
  modelled, their product, \<open>math.pow\<close>, the parsing of their text and the conversion of seconds into a
  \<open>timedelta\<close> are the fields of an argument, since they are the platform's.
\<close>

section \<open>Float order\<close>

text \<open>The position of a binary64 number on the number line; both zeros are \<open>0\<close>.\<close>

definition float_order :: "64 word \<Rightarrow> int" where
  "float_order w = (let m = uint (w AND 0x7FFFFFFFFFFFFFFF) in if bit w 63 then - m else m)"

definition float_lt :: "64 word \<Rightarrow> 64 word \<Rightarrow> bool" where
  "float_lt x y \<longleftrightarrow> \<not> float_is_nan x \<and> \<not> float_is_nan y \<and> float_order x < float_order y"

definition float_le :: "64 word \<Rightarrow> 64 word \<Rightarrow> bool" where
  "float_le x y \<longleftrightarrow> \<not> float_is_nan x \<and> \<not> float_is_nan y \<and> float_order x \<le> float_order y"

definition float_one :: "64 word" where "float_one = 0x3FF0000000000000"
definition float_two :: "64 word" where "float_two = 0x4000000000000000"

record float_platform =
  fl_mul :: "64 word \<Rightarrow> 64 word \<Rightarrow> 64 word"
  fl_pow :: "64 word \<Rightarrow> int \<Rightarrow> error + 64 word"
  fl_parse :: "string \<Rightarrow> error + 64 word"
  fl_seconds :: "64 word \<Rightarrow> error + int"

section \<open>Retry policy\<close>

record RetryPolicy =
  rp_max_attempts :: int
  rp_initial_delay_seconds :: "64 word"
  rp_backoff_multiplier :: "64 word"
  rp_max_delay_seconds :: "64 word option"

definition default_retry_policy :: RetryPolicy where
  "default_retry_policy = \<lparr>rp_max_attempts = 3, rp_initial_delay_seconds = float_one,
     rp_backoff_multiplier = float_two, rp_max_delay_seconds = None\<rparr>"

definition retry_policy_post_init :: "RetryPolicy \<Rightarrow> error + RetryPolicy" where
  "retry_policy_post_init self =
     (if rp_max_attempts self < 1 then Inl (ValueError ''max_attempts must be at least one.'')
      else if float_lt (rp_initial_delay_seconds self) 0
      then Inl (ValueError ''initial_delay_seconds must not be negative.'')
      else if float_lt (rp_backoff_multiplier self) float_one
      then Inl (ValueError ''backoff_multiplier must be at least one.'')
      else if (case rp_max_delay_seconds self of None \<Rightarrow> False | Some m \<Rightarrow> float_lt m 0)
      then Inl (ValueError ''max_delay_seconds must not be negative.'')
      else Inr self)"

definition getenv_or :: "environment \<Rightarrow> string \<Rightarrow> string \<Rightarrow> string" where
  "getenv_or env name fallback = (case env name of None \<Rightarrow> fallback | Some v \<Rightarrow> v)"

definition retry_policy_from_environment :: "environment \<Rightarrow> float_platform \<Rightarrow> error + RetryPolicy" where
  "retry_policy_from_environment env fl =
     (let max_delay = env ''WORKFLOW_TASK_RETRY_MAX_DELAY_SECONDS'' in
      rbind (parse_int (getenv_or env ''WORKFLOW_TASK_MAX_ATTEMPTS'' ''3'')) (\<lambda>max_attempts.
      rbind (fl_parse fl (getenv_or env ''WORKFLOW_TASK_RETRY_INITIAL_DELAY_SECONDS'' ''1'')) (\<lambda>initial_delay.
      rbind (fl_parse fl (getenv_or env ''WORKFLOW_TASK_RETRY_BACKOFF_MULTIPLIER'' ''2'')) (\<lambda>multiplier.
      rbind (case max_delay of None \<Rightarrow> Inr None | Some s \<Rightarrow> rbind (fl_parse fl s) (\<lambda>f. Inr (Some f))) (\<lambda>max_delay_seconds.
      retry_policy_post_init \<lparr>rp_max_attempts = max_attempts, rp_initial_delay_seconds = initial_delay,
        rp_backoff_multiplier = multiplier, rp_max_delay_seconds = max_delay_seconds\<rparr>)))))"

definition delay_for :: "float_platform \<Rightarrow> RetryPolicy \<Rightarrow> int \<Rightarrow> error + 64 word" where
  "delay_for fl self attempt_number =
     (if attempt_number < 1 then Inl (ValueError ''attempt_number must be at least one.'')
      else rbind (fl_pow fl (rp_backoff_multiplier self) (attempt_number - 1)) (\<lambda>factor.
        let delay = fl_mul fl (rp_initial_delay_seconds self) factor in
        Inr (case rp_max_delay_seconds self of
               None \<Rightarrow> delay
             | Some m \<Rightarrow> if float_lt m delay then m else delay)))"

section \<open>Completion events\<close>

datatype TaskCompletionOutcome = PROCESSED | DUPLICATE | RETRY_SCHEDULED_OUTCOME

record TaskCompletionDecision =
  dec_event_id :: string
  dec_execution_id :: string
  dec_node_id :: string
  dec_outcome :: TaskCompletionOutcome
  dec_ready_node_ids :: "string list"
  dec_retry_attempt_id :: "string option"
  dec_retry_attempt_number :: "int option"

definition completion_decision :: "TaskCompletionEvent \<Rightarrow> TaskCompletionOutcome \<Rightarrow> string list \<Rightarrow> TaskCompletionDecision" where
  "completion_decision event outcome ids =
     \<lparr>dec_event_id = uuid_str (tc_event_id event), dec_execution_id = uuid_str (tc_execution_id event),
      dec_node_id = tc_node_id event, dec_outcome = outcome, dec_ready_node_ids = ids,
      dec_retry_attempt_id = None, dec_retry_attempt_number = None\<rparr>"

text \<open>The retry half of \<open>process\<close>: a decision ends the processing, \<open>None\<close> continues it. The existing
  node's status is read before.\<close>

definition apply_retry_state ::
    "float_platform \<Rightarrow> RetryPolicy \<Rightarrow> uuid \<Rightarrow> datetime \<Rightarrow> TaskCompletionEvent \<Rightarrow> NodeExecutionStatus \<Rightarrow>
     (db, TaskCompletionDecision option) tx" where
  "apply_retry_state fl retry_policy fresh_id now event node_status =
     (if tc_status event = TASK_COMPLETED
      then
        tx_bind (record_success (tc_task_id event) (tc_attempt_id event) (tc_event_id event) now) (\<lambda>recorded.
        tx_return (if \<not> recorded \<and> node_status \<noteq> RUNNING then Some (completion_decision event DUPLICATE []) else None))
      else
        (case (tc_error_message event, tc_error_type event) of
           (Some message, Some error_type) \<Rightarrow>
             tx_bind (tx_lift (rbind (delay_for fl retry_policy (tc_attempt_number event)) (fl_seconds fl))) (\<lambda>delay.
             tx_bind (record_failure fresh_id (tc_task_id event) (tc_attempt_id event) (tc_event_id event)
                message error_type now (rp_max_attempts retry_policy) (now + delay)) (\<lambda>retry_decision.
             tx_return (case rt_outcome retry_decision of
                 RETRY_DUPLICATE \<Rightarrow> Some (completion_decision event DUPLICATE [])
               | RETRY_SCHEDULED \<Rightarrow> Some ((completion_decision event RETRY_SCHEDULED_OUTCOME [])
                   \<lparr>dec_retry_attempt_id := Some (case rt_next_attempt_id retry_decision of
                        None \<Rightarrow> ''None'' | Some i \<Rightarrow> uuid_str i),
                    dec_retry_attempt_number := rt_next_attempt_number retry_decision\<rparr>)
               | RETRY_EXHAUSTED \<Rightarrow> None)))
         | _ \<Rightarrow> tx_raise (ValueError ''Failed completion events require error information.'')))"

definition failed_reason :: "string \<Rightarrow> string" where
  "failed_reason node_id = ''Dependency '' @ quoted node_id @ '' failed.''"

definition propagate_failure ::
    "uuid5_hash \<Rightarrow> datetime \<Rightarrow> TaskCompletionEvent \<Rightarrow> WorkflowExecution \<Rightarrow> NodeExecution list \<Rightarrow> (db, unit) tx" where
  "propagate_failure uuid5 now event execution node_executions =
     tx_bind (require (workflow_not_found (we_workflow_id execution)) (get_workflow_by_id (we_workflow_id execution)))
       (\<lambda>workflow.
     tx_bind (tx_lift (evaluate_failed_dependency_node_ids workflow
        ((statuses_by_id node_executions)(tc_node_id event \<mapsto> FAILED)))) (\<lambda>blocked.
     tx_bind (fail_pending_nodes (tc_execution_id event) blocked (failed_reason (tc_node_id event)) now) (\<lambda>failed.
     tx_each (\<lambda>failed_node_id.
        add_message (uuid5 (tc_event_id event)
            (''node:'' @ uuid_str (tc_execution_id event) @ '':'' @ failed_node_id @ '':failed''))
          ''workflow.node.failed'' WORKFLOW_EVENTS_STREAM
          [(PStr ''execution_id'', PStr (uuid_str (tc_execution_id event))),
           (PStr ''node_id'', PStr failed_node_id), (PStr ''status'', PStr ''failed''),
           (PStr ''reason'', PStr (failed_reason (tc_node_id event)))]
          (Some (tc_execution_id event))) failed)))"

definition opt_str :: "string option \<Rightarrow> pyval" where
  "opt_str s = (case s of None \<Rightarrow> PNone | Some t \<Rightarrow> PStr t)"

definition node_event :: "TaskCompletionEvent \<Rightarrow> (db, unit) tx" where
  "node_event event =
     add_message (tc_event_id event) (''workflow.node.'' @ completion_status_value (tc_status event))
       WORKFLOW_EVENTS_STREAM
       [(PStr ''execution_id'', PStr (uuid_str (tc_execution_id event))),
        (PStr ''node_id'', PStr (tc_node_id event)),
        (PStr ''status'', PStr (completion_status_value (tc_status event))),
        (PStr ''task_id'', PStr (tc_task_id event)),
        (PStr ''attempt_id'', PStr (uuid_str (tc_attempt_id event))),
        (PStr ''attempt_number'', PInt (tc_attempt_number event)),
        (PStr ''output_data'', tc_output_data event),
        (PStr ''error_message'', opt_str (tc_error_message event)),
        (PStr ''error_type'', opt_str (tc_error_type event))]
       (Some (tc_execution_id event))"

text \<open>What follows the transition of the node: failure propagation, the node event, readiness and
  finalization.\<close>

definition after_node_transition ::
    "uuid5_hash \<Rightarrow> uuid \<Rightarrow> datetime \<Rightarrow> TaskCompletionEvent \<Rightarrow> WorkflowExecution \<Rightarrow> NodeExecution list \<Rightarrow>
     (db, TaskCompletionDecision) tx" where
  "after_node_transition uuid5 fresh_id now event execution node_executions =
     tx_bind (if tc_status event = TASK_FAILED then propagate_failure uuid5 now event execution node_executions
        else tx_return ()) (\<lambda>_.
     tx_bind (node_event event) (\<lambda>_.
     tx_bind (if tc_status event = TASK_COMPLETED
        then tx_bind (readiness_in_transaction (tc_execution_id event) (Some execution))
          (\<lambda>readiness. tx_return (ready_node_ids readiness))
        else tx_return []) (\<lambda>ids.
     tx_bind (finalization_in_transaction uuid5 fresh_id now (tc_execution_id event) (Some execution)
        (Some (tc_event_id event))) (\<lambda>_.
     tx_return (completion_decision event PROCESSED ids)))))"

definition complete_node ::
    "uuid5_hash \<Rightarrow> uuid \<Rightarrow> datetime \<Rightarrow> TaskCompletionEvent \<Rightarrow> WorkflowExecution \<Rightarrow> NodeExecution list \<Rightarrow>
     NodeExecution \<Rightarrow> (db, TaskCompletionDecision) tx" where
  "complete_node uuid5 fresh_id now event execution node_executions existing_node =
     (let failed = tc_status event = TASK_FAILED in
      tx_bind (update_node_status_if_current (tc_execution_id event) (tc_node_id event) RUNNING
         (if failed then FAILED else COMPLETED)
         (Some (if failed then PNone else tc_output_data event))
         (if failed then tc_error_message event else None) (if failed then tc_error_type event else None)
         None (Some now)) (\<lambda>updated.
      if \<not> updated then
        (if ne_status existing_node \<notin> {COMPLETED, FAILED}
         then tx_raise (ValueError (''Node execution '' @ quoted (tc_node_id event) @ '' cannot complete from status '' @
                quoted (node_status_value (ne_status existing_node)) @ ''.''))
         else tx_return (completion_decision event DUPLICATE []))
      else after_node_transition uuid5 fresh_id now event execution node_executions))"

definition process_tx ::
    "float_platform \<Rightarrow> uuid5_hash \<Rightarrow> RetryPolicy \<Rightarrow> uuid \<Rightarrow> datetime \<Rightarrow> TaskCompletionEvent \<Rightarrow>
     (db, TaskCompletionDecision) tx" where
  "process_tx fl uuid5 retry_policy fresh_id now event =
     tx_bind (require (execution_not_found (tc_execution_id event))
        (get_execution_by_id_for_update (tc_execution_id event))) (\<lambda>execution.
     tx_bind (get_node_executions_for_execution (tc_execution_id event)) (\<lambda>node_executions.
       case find (\<lambda>n. ne_node_id n = tc_node_id event) node_executions of
         None \<Rightarrow> tx_raise (LookupError (''Node execution '' @ quoted (tc_node_id event) @
           '' was not found for execution '' @ quoted (uuid_str (tc_execution_id event)) @ ''.''))
       | Some existing_node \<Rightarrow>
           tx_bind (apply_retry_state fl retry_policy fresh_id now event (ne_status existing_node)) (\<lambda>decided.
             case decided of
               Some outcome \<Rightarrow> tx_return outcome
             | None \<Rightarrow> complete_node uuid5 fresh_id now event execution node_executions existing_node)))"

definition process ::
    "float_platform \<Rightarrow> uuid5_hash \<Rightarrow> RetryPolicy \<Rightarrow> uuid \<Rightarrow> datetime \<Rightarrow> TaskCompletionEvent \<Rightarrow> db \<Rightarrow>
     (error + TaskCompletionDecision) \<times> db" where
  "process fl uuid5 retry_policy fresh_id now event d =
     (if tc_task_id event \<noteq> create_task_id uuid5 (tc_execution_id event) (tc_node_id event)
      then (Inl (ValueError ''Task completion event task_id does not match its execution and node.''), d)
      else run_transaction (process_tx fl uuid5 retry_policy fresh_id now event) d)"

end
