(* ===== verification/Handlers.thy ===== *)
theory Handlers
  imports Streams Completion
begin

text \<open>
  The node handlers of the worker (\<open>app/worker/handlers/\<close>): the registry, the executor, the input and
  output handlers, the two mock services with their settings, and the barrier handler of integration
  tests. A handler is a program that returns the task's output. \<open>os.getenv\<close> is a map; the SHA-256
  digest of a text (as the big-endian integer the code reads it as), the generator \<open>random.Random(seed)\<close>
  (its first \<open>random()\<close>, and the index its \<open>choice\<close> then takes among \<open>n\<close> items), \<open>asyncio.sleep\<close>, the
  Redis counter and the barrier are fields of an argument.
\<close>

section \<open>The platform\<close>

record 'b handler_platform =
  hp_env :: environment
  hp_floats :: float_platform
  hp_digest :: "string \<Rightarrow> nat"
  hp_random :: "int \<Rightarrow> 64 word"
  hp_choice :: "int \<Rightarrow> nat \<Rightarrow> nat"
  hp_sleep_ms :: "int \<Rightarrow> error + unit"
  hp_incr :: "string \<Rightarrow> 'b \<Rightarrow> (error + int) \<times> 'b"
  hp_barrier :: "string \<Rightarrow> string \<Rightarrow> 64 word \<Rightarrow> ('b, unit) io"

type_synonym 'b NodeHandler = "NodeTaskMessage \<Rightarrow> ('b, pyval) io"

text \<open>\<open>str.lower\<close>\<close>

definition lower_char :: "char \<Rightarrow> char" where
  "lower_char c = (if (code c \<in> {65..90} \<or> code c \<in> {0xC0..0xDE}) \<and> code c \<noteq> 0xD7 then char_of (code c + 32) else c)"

definition py_lower :: "string \<Rightarrow> string" where
  "py_lower s = map lower_char s"

section \<open>Settings of the mock services\<close>

record MockServiceSettings =
  ms_seed :: int
  ms_latency_ms :: int
  ms_force_fail :: bool
  ms_failure_rate :: "64 word"
  ms_failure_message :: string

text \<open>\<open>except ValueError as error: raise ValueError(message)\<close>\<close>

definition value_error_as :: "string \<Rightarrow> error + 'a \<Rightarrow> error + 'a" where
  "value_error_as m r = (case r of Inl e \<Rightarrow> Inl (if is_value_error e then ValueError m else e) | Inr x \<Rightarrow> Inr x)"

definition integer_environment_value :: "environment \<Rightarrow> string \<Rightarrow> int \<Rightarrow> error + int" where
  "integer_environment_value env name fallback =
     (case env name of
        None \<Rightarrow> Inr fallback
      | Some v \<Rightarrow> value_error_as (name @ '' must be an integer.'') (parse_int v))"

definition float_environment_value :: "environment \<Rightarrow> float_platform \<Rightarrow> string \<Rightarrow> 64 word \<Rightarrow> error + 64 word" where
  "float_environment_value env fl name fallback =
     (case env name of
        None \<Rightarrow> Inr fallback
      | Some v \<Rightarrow> value_error_as (name @ '' must be a number from 0 to 1.'') (fl_parse fl v))"

definition boolean_environment_value :: "environment \<Rightarrow> string \<Rightarrow> bool \<Rightarrow> error + bool" where
  "boolean_environment_value env name fallback =
     (case env name of
        None \<Rightarrow> Inr fallback
      | Some v \<Rightarrow>
          if py_lower v = ''true'' then Inr True
          else if py_lower v = ''false'' then Inr False
          else Inl (ValueError (name @ '' must be true or false.'')))"

text \<open>\<open>_settings_from_environment\<close> of both services; they differ in the prefix of the variables and in two
  default values.\<close>

definition settings_from_environment ::
    "environment \<Rightarrow> float_platform \<Rightarrow> string \<Rightarrow> int \<Rightarrow> string \<Rightarrow> error + MockServiceSettings" where
  "settings_from_environment env fl var_prefix default_latency_ms default_failure_message =
     rbind (integer_environment_value env (var_prefix @ ''_LATENCY_MS'') default_latency_ms) (\<lambda>latency_ms.
     if latency_ms < 0 then Inl (ValueError (var_prefix @ ''_LATENCY_MS must be a non-negative integer.''))
     else
     rbind (float_environment_value env fl (var_prefix @ ''_FAILURE_RATE'') 0) (\<lambda>failure_rate.
     if \<not> (float_le 0 failure_rate \<and> float_le failure_rate float_one)
     then Inl (ValueError (var_prefix @ ''_FAILURE_RATE must be from 0 to 1.''))
     else
       (let failure_message = getenv_or env (var_prefix @ ''_FAILURE_MESSAGE'') default_failure_message in
        if failure_message = [] then Inl (ValueError (var_prefix @ ''_FAILURE_MESSAGE must be a non-empty string.''))
        else
        rbind (integer_environment_value env (var_prefix @ ''_SEED'') 0) (\<lambda>seed.
        rbind (boolean_environment_value env (var_prefix @ ''_FORCE_FAIL'') False) (\<lambda>force_fail.
        Inr \<lparr>ms_seed = seed, ms_latency_ms = latency_ms, ms_force_fail = force_fail,
             ms_failure_rate = failure_rate, ms_failure_message = failure_message\<rparr>)))))"

definition external_settings_from_environment :: "environment \<Rightarrow> float_platform \<Rightarrow> error + MockServiceSettings" where
  "external_settings_from_environment env fl =
     settings_from_environment env fl ''MOCK_EXTERNAL_SERVICE'' 1500 ''Mock external service failure.''"

definition llm_settings_from_environment :: "environment \<Rightarrow> float_platform \<Rightarrow> error + MockServiceSettings" where
  "llm_settings_from_environment env fl =
     settings_from_environment env fl ''MOCK_LLM'' 10 ''Mock LLM service failure.''"

section \<open>The handlers\<close>

definition InputNodeHandler :: "'b NodeHandler" where
  "InputNodeHandler task = io_return (PDict (nt_resolved_input task))"

definition OutputNodeHandler :: "'b NodeHandler" where
  "OutputNodeHandler task = io_return (PDict (nt_resolved_input task))"

definition random_seed :: "'b handler_platform \<Rightarrow> int \<Rightarrow> string \<Rightarrow> int" where
  "random_seed hp seed s = seed + int (hp_digest hp s)"

definition service_fails :: "'b handler_platform \<Rightarrow> MockServiceSettings \<Rightarrow> int \<Rightarrow> bool" where
  "service_fails hp settings seed \<longleftrightarrow> ms_force_fail settings \<or> float_lt (hp_random hp seed) (ms_failure_rate settings)"

definition external_latency_ms :: "MockServiceSettings \<Rightarrow> pydict \<Rightarrow> error + int" where
  "external_latency_ms settings config =
     (case dict_get config ''latency_ms'' of
        PNone \<Rightarrow> Inr (ms_latency_ms settings)
      | PInt configured_latency \<Rightarrow>
          if configured_latency < 0
          then Inl (ValueError (''Handler '' @ quoted ''call_external_service'' @ '' config.latency_ms must be non-negative.''))
          else Inr configured_latency
      | _ \<Rightarrow> Inl (ValueError (''Handler '' @ quoted ''call_external_service'' @ '' config.latency_ms must be an integer.'')))"

definition MockExternalServiceNodeHandler :: "'b handler_platform \<Rightarrow> MockServiceSettings \<Rightarrow> 'b NodeHandler" where
  "MockExternalServiceNodeHandler hp settings task =
     (let required = ValueError (''Handler '' @ quoted ''call_external_service'' @ '' requires a non-empty config.url.'') in
      case dict_get (nt_handler_config task) ''url'' of
        PStr url \<Rightarrow>
          if blank url then io_raise required
          else
            io_bind (io_lift (external_latency_ms settings (nt_handler_config task))) (\<lambda>latency_ms.
            io_bind (io_lift (hp_sleep_ms hp latency_ms)) (\<lambda>_.
            if service_fails hp settings (random_seed hp (ms_seed settings) url)
            then io_raise (ValueError (ms_failure_message settings))
            else io_return (PDict [(PStr ''status'', PStr ''mocked''), (PStr ''url'', PStr url),
                   (PStr ''input'', PDict (nt_resolved_input task))])))
      | _ \<Rightarrow> io_raise required)"

definition MAX_PROMPT_SNIPPET_LENGTH :: nat where "MAX_PROMPT_SNIPPET_LENGTH = 160"

text \<open>The templates, each a prefix before its \<open>{prompt}\<close>.\<close>

definition RESPONSE_TEMPLATES :: "string list" where
  "RESPONSE_TEMPLATES = [''Mock analysis: '', ''Mock generated response based on: '', ''Mock completion: '']"

definition llm_prompt :: "pydict \<Rightarrow> error + string" where
  "llm_prompt resolved_input =
     (case dict_get resolved_input ''prompt'' of
        PStr prompt \<Rightarrow> Inr prompt
      | _ \<Rightarrow> Inl (ValueError (''Handler '' @ quoted ''llm_service'' @ '' requires a string resolved_input.prompt.'')))"

definition MockLlmServiceNodeHandler :: "'b handler_platform \<Rightarrow> MockServiceSettings \<Rightarrow> 'b NodeHandler" where
  "MockLlmServiceNodeHandler hp settings task =
     io_bind (io_lift (llm_prompt (nt_resolved_input task))) (\<lambda>prompt.
     io_bind (io_lift (hp_sleep_ms hp (ms_latency_ms settings))) (\<lambda>_.
     (let seed = random_seed hp (ms_seed settings) prompt in
      if service_fails hp settings seed then io_raise (ValueError (ms_failure_message settings))
      else io_return (PDict [(PStr ''response'',
             PStr (RESPONSE_TEMPLATES ! hp_choice hp seed (length RESPONSE_TEMPLATES) @
               take MAX_PROMPT_SNIPPET_LENGTH prompt))]))))"

subsection \<open>The barrier handler\<close>

definition barrier_config :: "pydict \<Rightarrow> error + string \<times> string" where
  "barrier_config config =
     (let handler = ''Handler '' @ quoted ''integration_barrier'' in
      case dict_get config ''barrier'' of
        PDict value \<Rightarrow>
          (case dict_get value ''name'' of
             PStr name \<Rightarrow>
               if blank name then Inl (ValueError (handler @ '' requires a non-empty barrier.name.''))
               else
                 (case dict_get value ''participant'' of
                    PStr participant \<Rightarrow>
                      if blank participant
                      then Inl (ValueError (handler @ '' requires a non-empty barrier.participant.''))
                      else Inr (name, participant)
                  | _ \<Rightarrow> Inl (ValueError (handler @ '' requires a non-empty barrier.participant.'')))
           | _ \<Rightarrow> Inl (ValueError (handler @ '' requires a non-empty barrier.name.'')))
      | _ \<Rightarrow> Inl (ValueError (handler @ '' requires a config.barrier object.'')))"

definition execution_counter_key :: "pydict \<Rightarrow> error + string option" where
  "execution_counter_key config =
     (let invalid = ValueError (''Handler '' @ quoted ''integration_barrier'' @
            '' requires execution_counter to be a non-empty string.'') in
      case dict_get config ''execution_counter'' of
        PNone \<Rightarrow> Inr None
      | PStr value \<Rightarrow> if blank value then Inl invalid else Inr (Some (''integration.handler-executions:'' @ value))
      | _ \<Rightarrow> Inl invalid)"

definition barrier_timeout_seconds :: "environment \<Rightarrow> float_platform \<Rightarrow> error + 64 word" where
  "barrier_timeout_seconds env fl =
     rbind (fl_parse fl (getenv_or env ''INTEGRATION_BARRIER_TIMEOUT_SECONDS'' ''30'')) (\<lambda>v.
     if float_le v 0 then Inl (ValueError ''INTEGRATION_BARRIER_TIMEOUT_SECONDS must be greater than zero.'')
     else Inr v)"

definition IntegrationBarrierNodeHandler :: "'b handler_platform \<Rightarrow> 'b NodeHandler" where
  "IntegrationBarrierNodeHandler hp task =
     (if hp_env hp ''INTEGRATION_TEST'' \<noteq> Some ''1''
      then io_raise (RuntimeError ''The integration barrier handler is only available in integration tests.'')
      else
        io_bind (io_lift (barrier_config (nt_handler_config task))) (\<lambda>(name, participant).
        io_bind (io_lift (execution_counter_key (nt_handler_config task))) (\<lambda>counter_key.
        io_bind (case counter_key of None \<Rightarrow> io_return 0 | Some k \<Rightarrow> io_redis (hp_incr hp k)) (\<lambda>_.
        io_bind (io_lift (barrier_timeout_seconds (hp_env hp) (hp_floats hp))) (\<lambda>timeout_seconds.
        io_bind (hp_barrier hp name participant timeout_seconds) (\<lambda>_.
        io_return (PDict [(PStr ''barrier'', PStr name), (PStr ''participant'', PStr participant),
          (PStr ''status'', PStr ''released'')])))))))"

section \<open>Registry and executor\<close>

text \<open>\<open>handlers\<close> is the table given to the registry, \<open>None\<close> for the built-in handlers.\<close>

definition resolve_handler ::
    "'b handler_platform \<Rightarrow> (string \<times> 'b NodeHandler) list option \<Rightarrow> string \<Rightarrow> error + 'b NodeHandler" where
  "resolve_handler hp handlers handler_name =
     (let unknown = UnknownNodeHandlerError (''No worker handler is registered for '' @ quoted handler_name @ ''.'') in
      case handlers of
        Some hs \<Rightarrow> of_option unknown (map_of hs handler_name)
      | None \<Rightarrow>
          if handler_name = ''input'' then Inr InputNodeHandler
          else if handler_name = ''integration_barrier'' then Inr (IntegrationBarrierNodeHandler hp)
          else if handler_name = ''output'' then Inr OutputNodeHandler
          else if handler_name = ''call_external_service''
          then rbind (external_settings_from_environment (hp_env hp) (hp_floats hp))
                 (\<lambda>s. Inr (MockExternalServiceNodeHandler hp s))
          else if handler_name = ''llm_service''
          then rbind (llm_settings_from_environment (hp_env hp) (hp_floats hp))
                 (\<lambda>s. Inr (MockLlmServiceNodeHandler hp s))
          else Inl unknown)"

definition execute_task :: "'b handler_platform \<Rightarrow> (string \<times> 'b NodeHandler) list option \<Rightarrow> 'b NodeHandler" where
  "execute_task hp handlers task =
     io_bind (io_lift (resolve_handler hp handlers (nt_handler task))) (\<lambda>handler. handler task)"

section \<open>What the built-in handlers return\<close>

text \<open>A barrier only waits: it leaves the database alone.\<close>

definition quiet_barrier :: "'b handler_platform \<Rightarrow> bool" where
  "quiet_barrier hp \<longleftrightarrow> (\<forall>n p t d b r d' b'. hp_barrier hp n p t (d, b) = (r, d', b') \<longrightarrow> d' = d)"

text \<open>A program that leaves the database alone and whose results satisfy \<open>P\<close>.\<close>

definition quiet_result :: "('a \<Rightarrow> bool) \<Rightarrow> ('b, 'a) io \<Rightarrow> bool" where
  "quiet_result P m \<longleftrightarrow> (\<forall>d b r d' b'. m (d, b) = (r, d', b') \<longrightarrow> d' = d \<and> (\<forall>x. r = Inr x \<longrightarrow> P x))"

lemma quiet_resultD:
  assumes "quiet_result P m" and "m (d, b) = (r, d', b')"
  shows "d' = d" and "r = Inr x \<Longrightarrow> P x"
  using assms unfolding quiet_result_def by blast+

lemma quiet_result_basic [intro]:
  "P x \<Longrightarrow> quiet_result P (io_return x)" "quiet_result P (io_raise e)"
  "(\<And>x. r = Inr x \<Longrightarrow> P x) \<Longrightarrow> quiet_result P (io_lift r)" "quiet_result (\<lambda>_. True) (io_redis f)"
  by (auto simp: quiet_result_def io_redis_def split: prod.splits)

lemma quiet_result_bind [intro]:
  assumes "quiet_result Q m" and "\<And>x. Q x \<Longrightarrow> quiet_result P (f x)"
  shows "quiet_result P (io_bind m f)"
  unfolding quiet_result_def
proof (intro allI impI)
  fix d b r d' b' assume run: "io_bind m f (d, b) = (r, d', b')"
  obtain r1 d1 b1 where m: "m (d, b) = (r1, d1, b1)" by (cases "m (d, b)") auto
  note q = quiet_resultD [OF assms(1) m]
  show "d' = d \<and> (\<forall>x. r = Inr x \<longrightarrow> P x)"
  proof (cases r1)
    case (Inl e)
    with run m q(1) show ?thesis by (auto simp: io_bind_def)
  next
    case (Inr x)
    with run m q(1) have "f x (d, b1) = (r, d', b')" by (simp add: io_bind_def)
    from quiet_resultD [OF assms(2) [OF q(2) [OF Inr]] this] show ?thesis by blast
  qed
qed

definition json_output :: "pyval \<Rightarrow> bool" where
  "json_output v \<longleftrightarrow> is_json_value v \<and> (\<exists>kvs. v = PDict kvs)"

lemma json_output_dict:
  "json_output (PDict kvs) \<longleftrightarrow> is_json_value (PDict kvs)"
  by (simp add: json_output_def)

lemma external_handler_quiet:
  assumes "is_json_value (PDict (nt_resolved_input task))"
  shows "quiet_result json_output (MockExternalServiceNodeHandler hp s task)"
proof -
  have "json_output (PDict [(PStr ''status'', PStr ''mocked''), (PStr ''url'', PStr url),
          (PStr ''input'', PDict (nt_resolved_input task))])" for url
    using assms by (simp add: json_output_dict)
  then show ?thesis
    unfolding MockExternalServiceNodeHandler_def Let_def
    by (auto split: pyval.split intro!: quiet_result_basic quiet_result_bind [where Q = "\<lambda>_. True"])
qed

lemma llm_handler_quiet: "quiet_result json_output (MockLlmServiceNodeHandler hp s task)"
  unfolding MockLlmServiceNodeHandler_def Let_def
  by (auto simp: json_output_dict intro!: quiet_result_basic quiet_result_bind [where Q = "\<lambda>_. True"])

lemma barrier_handler_quiet:
  assumes "quiet_barrier hp"
  shows "quiet_result json_output (IntegrationBarrierNodeHandler hp task)"
proof -
  have "quiet_result (\<lambda>_. True) (hp_barrier hp n p t)" for n p t
    using assms by (auto simp: quiet_result_def quiet_barrier_def)
  moreover have "quiet_result (\<lambda>_. True) (case k of None \<Rightarrow> io_return 0 | Some k \<Rightarrow> io_redis (hp_incr hp k))" for k
    by (cases k) auto
  ultimately show ?thesis
    unfolding IntegrationBarrierNodeHandler_def
    by (auto simp: json_output_dict intro!: quiet_result_basic quiet_result_bind [where Q = "\<lambda>_. True"])
qed

text \<open>The built-in handlers return JSON. A task whose input is JSON, run by the registry without custom
  handlers, leaves the database alone and either raises or returns a JSON object, so a completed run is
  always reported as completed and never turned into the failure for outputs that are not JSON.\<close>

theorem builtin_handlers_return_json:
  assumes "quiet_barrier hp" and "is_json_value (PDict (nt_resolved_input task))"
    and "execute_task hp None task (d, b) = (r, d', b')"
  shows "d' = d \<and> (case r of Inl e \<Rightarrow> True | Inr output \<Rightarrow> is_json_value output \<and> (\<exists>kvs. output = PDict kvs))"
proof -
  have "quiet_result json_output (h task)" if "resolve_handler hp None (nt_handler task) = Inr h" for h
    using that assms(1,2) external_handler_quiet llm_handler_quiet barrier_handler_quiet
    by (auto simp: resolve_handler_def Let_def rbind_Inr_iff json_output_dict InputNodeHandler_def [abs_def]
        OutputNodeHandler_def [abs_def] split: if_splits intro!: quiet_result_basic)
  then have "quiet_result json_output (execute_task hp None task)"
    unfolding execute_task_def
    by (intro quiet_result_bind [where Q = "\<lambda>h. resolve_handler hp None (nt_handler task) = Inr h"] quiet_result_basic) auto
  from quiet_resultD [OF this assms(3)] show ?thesis
    by (auto simp: json_output_def split: sum.split)
qed

definition sample_handlers :: "nat handler_platform" where
  "sample_handlers =
     \<lparr>hp_env = (\<lambda>_. None),
      hp_floats = \<lparr>fl_mul = (\<lambda>x y. x), fl_pow = (\<lambda>x n. Inr x), fl_parse = (\<lambda>_. Inr 0), fl_seconds = (\<lambda>_. Inr 20)\<rparr>,
      hp_digest = (\<lambda>_. 0), hp_random = (\<lambda>_. 0), hp_choice = (\<lambda>_ _. 0), hp_sleep_ms = (\<lambda>_. Inr ()),
      hp_incr = (\<lambda>k b. (Inr 1, b)), hp_barrier = (\<lambda>n p t. io_return ())\<rparr>"

definition sample_llm_task :: NodeTaskMessage where
  "sample_llm_task =
     \<lparr>nt_message_id = None, nt_task_id = ''t'', nt_attempt_id = 7, nt_attempt_number = 1, nt_execution_id = 1,
      nt_node_id = ''a'', nt_handler = ''llm_service'', nt_handler_config = [],
      nt_resolved_input = [(PStr ''prompt'', PStr ''hi'')]\<rparr>"

lemma sample_llm_run:
  "execute_task sample_handlers None sample_llm_task (empty_db, 0) =
     (Inr (PDict [(PStr ''response'', PStr ''Mock analysis: hi'')]), empty_db, 0)"
  by (simp add: execute_task_def io_bind_def resolve_handler_def llm_settings_from_environment_def
      settings_from_environment_def integer_environment_value_def float_environment_value_def
      boolean_environment_value_def getenv_or_def sample_handlers_def sample_llm_task_def MockLlmServiceNodeHandler_def
      llm_prompt_def dict_get_def dict_lookup_def service_fails_def RESPONSE_TEMPLATES_def
      MAX_PROMPT_SNIPPET_LENGTH_def float_lt_def float_le_def float_is_nan_def float_order_def float_one_def)

theorem builtin_handlers_return_json_witness:
  "\<exists>output d' b'. execute_task sample_handlers None sample_llm_task (empty_db, 0) = (Inr output, d', b') \<and>
     d' = empty_db \<and> is_json_value output"
proof -
  have "quiet_barrier sample_handlers" by (simp add: quiet_barrier_def sample_handlers_def)
  from builtin_handlers_return_json [OF this _ sample_llm_run] sample_llm_run show ?thesis
    by (simp add: sample_llm_task_def)
qed

lemma external_settings_latency:
  "external_settings_from_environment env fl = Inr s \<Longrightarrow> 0 \<le> ms_latency_ms s"
  "llm_settings_from_environment env fl = Inr s \<Longrightarrow> 0 \<le> ms_latency_ms s"
  by (auto simp: external_settings_from_environment_def llm_settings_from_environment_def settings_from_environment_def
      rbind_Inr_iff Let_def split: if_splits)

lemma external_handler_outcome:
  assumes "0 \<le> ms_latency_ms s" and "\<And>n. 0 \<le> n \<Longrightarrow> hp_sleep_ms hp n = Inr ()"
  shows "case MockExternalServiceNodeHandler hp s task w of (r, w') \<Rightarrow> w' = w \<and> (\<forall>e. r = Inl e \<longrightarrow> is_value_error e) \<and>
    (r = Inr v \<longleftrightarrow> (\<exists>url. dict_get (nt_handler_config task) ''url'' = PStr url \<and> \<not> blank url \<and>
       (dict_get (nt_handler_config task) ''latency_ms'' = PNone \<or> (\<exists>n \<ge> 0. dict_get (nt_handler_config task) ''latency_ms'' = PInt n)) \<and>
       \<not> ms_force_fail s \<and> \<not> float_lt (hp_random hp (ms_seed s + int (hp_digest hp url))) (ms_failure_rate s) \<and>
       v = PDict [(PStr ''status'', PStr ''mocked''), (PStr ''url'', PStr url), (PStr ''input'', PDict (nt_resolved_input task))]))"
proof (cases "\<exists>url. dict_get (nt_handler_config task) ''url'' = PStr url \<and> \<not> blank url")
  case False
  then show ?thesis
    by (cases "dict_get (nt_handler_config task) ''url''") (simp_all add: MockExternalServiceNodeHandler_def Let_def)
next
  case True
  then obtain url where url: "dict_get (nt_handler_config task) ''url'' = PStr url" "\<not> blank url" by blast
  show ?thesis
  proof (cases "external_latency_ms s (nt_handler_config task)")
    case (Inl e)
    then have "is_value_error e" "\<not> (dict_get (nt_handler_config task) ''latency_ms'' = PNone \<or>
        (\<exists>n \<ge> 0. dict_get (nt_handler_config task) ''latency_ms'' = PInt n))"
      by (auto simp: external_latency_ms_def split: pyval.splits if_splits)
    with url Inl show ?thesis by (simp add: MockExternalServiceNodeHandler_def io_bind_def)
  next
    case (Inr n)
    then have "0 \<le> n" "dict_get (nt_handler_config task) ''latency_ms'' = PNone \<or>
        (\<exists>n \<ge> 0. dict_get (nt_handler_config task) ''latency_ms'' = PInt n)"
      using assms(1) by (auto simp: external_latency_ms_def split: pyval.splits if_splits)
    with url Inr assms(2) show ?thesis
      by (auto simp: MockExternalServiceNodeHandler_def io_bind_def service_fails_def random_seed_def)
  qed
qed

lemma llm_handler_outcome:
  assumes "0 \<le> ms_latency_ms s" and "\<And>n. 0 \<le> n \<Longrightarrow> hp_sleep_ms hp n = Inr ()"
  shows "case MockLlmServiceNodeHandler hp s task w of (r, w') \<Rightarrow> w' = w \<and> (\<forall>e. r = Inl e \<longrightarrow> is_value_error e) \<and>
    (r = Inr v \<longleftrightarrow> (\<exists>prompt. dict_get (nt_resolved_input task) ''prompt'' = PStr prompt \<and>
       \<not> ms_force_fail s \<and> \<not> float_lt (hp_random hp (ms_seed s + int (hp_digest hp prompt))) (ms_failure_rate s) \<and>
       v = PDict [(PStr ''response'', PStr ([''Mock analysis: '', ''Mock generated response based on: '', ''Mock completion: ''] !
         hp_choice hp (ms_seed s + int (hp_digest hp prompt)) 3 @ take 160 prompt))]))"
proof (cases "\<exists>prompt. dict_get (nt_resolved_input task) ''prompt'' = PStr prompt")
  case True
  then obtain prompt where "dict_get (nt_resolved_input task) ''prompt'' = PStr prompt" by blast
  with assms show ?thesis
    by (auto simp: MockLlmServiceNodeHandler_def llm_prompt_def io_bind_def service_fails_def random_seed_def Let_def
        RESPONSE_TEMPLATES_def MAX_PROMPT_SNIPPET_LENGTH_def numeral_3_eq_3)
next
  case False
  then show ?thesis
    by (cases "dict_get (nt_resolved_input task) ''prompt''") (simp_all add: MockLlmServiceNodeHandler_def llm_prompt_def io_bind_def)
qed

lemma handlers_ignore_attempt:
  fixes task :: NodeTaskMessage and i :: uuid and k :: int
  defines "again \<equiv> task\<lparr>nt_attempt_id := i, nt_attempt_number := k\<rparr>"
  shows "InputNodeHandler again = InputNodeHandler task" "OutputNodeHandler again = OutputNodeHandler task"
    "MockExternalServiceNodeHandler hp s again = MockExternalServiceNodeHandler hp s task"
    "MockLlmServiceNodeHandler hp s again = MockLlmServiceNodeHandler hp s task"
    "IntegrationBarrierNodeHandler hp again = IntegrationBarrierNodeHandler hp task"
proof -
  have sel: "nt_handler_config again = nt_handler_config task" "nt_resolved_input again = nt_resolved_input task"
    by (simp_all add: again_def)
  show "InputNodeHandler again = InputNodeHandler task" "OutputNodeHandler again = OutputNodeHandler task"
    "MockExternalServiceNodeHandler hp s again = MockExternalServiceNodeHandler hp s task"
    "MockLlmServiceNodeHandler hp s again = MockLlmServiceNodeHandler hp s task"
    "IntegrationBarrierNodeHandler hp again = IntegrationBarrierNodeHandler hp task"
    unfolding InputNodeHandler_def OutputNodeHandler_def MockExternalServiceNodeHandler_def MockLlmServiceNodeHandler_def
      IntegrationBarrierNodeHandler_def sel by (rule refl)+
qed

text \<open>C25: when a built-in handler completes, and with what. With settings that could be read and a sleep that does not
  raise, a task of the input or the output handler completes with its resolved input. A call of the external service
  completes exactly when its configuration has a URL that is not blank and no latency or a latency that is an integer
  and not negative, and neither the configuration of the service nor the draw for this URL makes it fail; it then
  answers with the URL and the input. The LLM service completes exactly when the resolved prompt is a text and neither
  makes it fail, with a template and the first 160 characters of the prompt. Their exceptions are \<open>ValueError\<close>s, the
  barrier handler refuses to run outside of integration tests, an unknown handler raises, and no outcome depends on
  the attempt, so that a retry of a simulated failure fails again.\<close>

theorem builtin_handlers_outcome:
  assumes "external_settings_from_environment (hp_env hp) (hp_floats hp) = Inr xs"
    and "llm_settings_from_environment (hp_env hp) (hp_floats hp) = Inr ls" and "\<forall>n \<ge> 0. hp_sleep_ms hp n = Inr ()"
  shows "(nt_handler task \<in> {''input'', ''output''} \<longrightarrow> execute_task hp None task w = (Inr (PDict (nt_resolved_input task)), w)) \<and>
    (nt_handler task = ''call_external_service'' \<longrightarrow> (case execute_task hp None task w of (r, w') \<Rightarrow>
       w' = w \<and> (\<forall>e. r = Inl e \<longrightarrow> is_value_error e) \<and>
       (r = Inr v \<longleftrightarrow> (\<exists>url. dict_get (nt_handler_config task) ''url'' = PStr url \<and> \<not> blank url \<and>
          (dict_get (nt_handler_config task) ''latency_ms'' = PNone \<or> (\<exists>n \<ge> 0. dict_get (nt_handler_config task) ''latency_ms'' = PInt n)) \<and>
          \<not> ms_force_fail xs \<and> \<not> float_lt (hp_random hp (ms_seed xs + int (hp_digest hp url))) (ms_failure_rate xs) \<and>
          v = PDict [(PStr ''status'', PStr ''mocked''), (PStr ''url'', PStr url), (PStr ''input'', PDict (nt_resolved_input task))])))) \<and>
    (nt_handler task = ''llm_service'' \<longrightarrow> (case execute_task hp None task w of (r, w') \<Rightarrow>
       w' = w \<and> (\<forall>e. r = Inl e \<longrightarrow> is_value_error e) \<and>
       (r = Inr v \<longleftrightarrow> (\<exists>prompt. dict_get (nt_resolved_input task) ''prompt'' = PStr prompt \<and>
          \<not> ms_force_fail ls \<and> \<not> float_lt (hp_random hp (ms_seed ls + int (hp_digest hp prompt))) (ms_failure_rate ls) \<and>
          v = PDict [(PStr ''response'', PStr ([''Mock analysis: '', ''Mock generated response based on: '', ''Mock completion: ''] !
            hp_choice hp (ms_seed ls + int (hp_digest hp prompt)) 3 @ take 160 prompt))])))) \<and>
    (nt_handler task = ''integration_barrier'' \<and> hp_env hp ''INTEGRATION_TEST'' \<noteq> Some ''1'' \<longrightarrow>
       (\<exists>m. execute_task hp None task w = (Inl (RuntimeError m), w))) \<and>
    (nt_handler task \<notin> {''input'', ''output'', ''call_external_service'', ''llm_service'', ''integration_barrier''} \<longrightarrow>
       (\<exists>m. execute_task hp None task w = (Inl (UnknownNodeHandlerError m), w))) \<and>
    execute_task hp None (task\<lparr>nt_attempt_id := i, nt_attempt_number := k\<rparr>) w = execute_task hp None task w"
proof -
  have sleep: "\<And>n. 0 \<le> n \<Longrightarrow> hp_sleep_ms hp n = Inr ()" using assms(3) by blast
  have run: "execute_task hp None t w = (case resolve_handler hp None (nt_handler t) of Inl e \<Rightarrow> (Inl e, w) | Inr h \<Rightarrow> h t w)" for t
    by (cases "resolve_handler hp None (nt_handler t)") (simp_all add: execute_task_def io_bind_def)
  note resolve = resolve_handler_def Let_def assms(1,2)
  have again: "execute_task hp None (task\<lparr>nt_attempt_id := i, nt_attempt_number := k\<rparr>) w = execute_task hp None task w"
    by (simp add: run resolve handlers_ignore_attempt)
  show ?thesis
  proof (intro conjI impI again)
    assume "nt_handler task = ''call_external_service''"
    then have "execute_task hp None task w = MockExternalServiceNodeHandler hp xs task w" by (simp add: run resolve)
    with external_handler_outcome [OF external_settings_latency(1) [OF assms(1)] sleep, where task = task and w = w and v = v]
    show "case execute_task hp None task w of (r, w') \<Rightarrow> w' = w \<and> (\<forall>e. r = Inl e \<longrightarrow> is_value_error e) \<and>
       (r = Inr v \<longleftrightarrow> (\<exists>url. dict_get (nt_handler_config task) ''url'' = PStr url \<and> \<not> blank url \<and>
          (dict_get (nt_handler_config task) ''latency_ms'' = PNone \<or> (\<exists>n \<ge> 0. dict_get (nt_handler_config task) ''latency_ms'' = PInt n)) \<and>
          \<not> ms_force_fail xs \<and> \<not> float_lt (hp_random hp (ms_seed xs + int (hp_digest hp url))) (ms_failure_rate xs) \<and>
          v = PDict [(PStr ''status'', PStr ''mocked''), (PStr ''url'', PStr url), (PStr ''input'', PDict (nt_resolved_input task))]))"
      by simp
  next
    assume "nt_handler task = ''llm_service''"
    then have "execute_task hp None task w = MockLlmServiceNodeHandler hp ls task w" by (simp add: run resolve)
    with llm_handler_outcome [OF external_settings_latency(2) [OF assms(2)] sleep, where task = task and w = w and v = v]
    show "case execute_task hp None task w of (r, w') \<Rightarrow> w' = w \<and> (\<forall>e. r = Inl e \<longrightarrow> is_value_error e) \<and>
       (r = Inr v \<longleftrightarrow> (\<exists>prompt. dict_get (nt_resolved_input task) ''prompt'' = PStr prompt \<and>
          \<not> ms_force_fail ls \<and> \<not> float_lt (hp_random hp (ms_seed ls + int (hp_digest hp prompt))) (ms_failure_rate ls) \<and>
          v = PDict [(PStr ''response'', PStr ([''Mock analysis: '', ''Mock generated response based on: '', ''Mock completion: ''] !
            hp_choice hp (ms_seed ls + int (hp_digest hp prompt)) 3 @ take 160 prompt))]))"
      by simp
  qed (auto simp: run resolve InputNodeHandler_def OutputNodeHandler_def IntegrationBarrierNodeHandler_def)
qed

lemma sample_handlers_settings:
  "\<exists>xs. external_settings_from_environment (hp_env sample_handlers) (hp_floats sample_handlers) = Inr xs"
  "\<exists>ls. llm_settings_from_environment (hp_env sample_handlers) (hp_floats sample_handlers) = Inr ls"
  "\<forall>n \<ge> 0. hp_sleep_ms sample_handlers n = Inr ()"
  by (simp_all add: external_settings_from_environment_def llm_settings_from_environment_def settings_from_environment_def
      integer_environment_value_def float_environment_value_def boolean_environment_value_def getenv_or_def sample_handlers_def
      float_le_def float_is_nan_def float_order_def float_one_def)

theorem builtin_handlers_outcome_witness:
  "execute_task sample_handlers None (sample_llm_task\<lparr>nt_handler := ''output''\<rparr>) (empty_db, 0) =
     (Inr (PDict [(PStr ''prompt'', PStr ''hi'')]), empty_db, 0) \<and>
   (\<exists>m. execute_task sample_handlers None (sample_llm_task\<lparr>nt_handler := ''shell''\<rparr>) (empty_db, 0) =
     (Inl (UnknownNodeHandlerError m), empty_db, 0)) \<and>
   execute_task sample_handlers None (sample_llm_task\<lparr>nt_attempt_id := 8, nt_attempt_number := 2\<rparr>) (empty_db, 0) =
     (Inr (PDict [(PStr ''response'', PStr ''Mock analysis: hi'')]), empty_db, 0)"
proof -
  obtain xs ls where s: "external_settings_from_environment (hp_env sample_handlers) (hp_floats sample_handlers) = Inr xs"
    "llm_settings_from_environment (hp_env sample_handlers) (hp_floats sample_handlers) = Inr ls"
    using sample_handlers_settings by blast
  note outcome = builtin_handlers_outcome [OF s sample_handlers_settings(3), where w = "(empty_db, 0)" and v = PNone]
  show ?thesis
    using outcome [of "sample_llm_task\<lparr>nt_handler := ''output''\<rparr>" 7 1] outcome [of "sample_llm_task\<lparr>nt_handler := ''shell''\<rparr>" 7 1]
      outcome [where task = sample_llm_task and i = 8 and k = 2] sample_llm_run by (simp add: sample_llm_task_def)
qed

text \<open>How the mock services fail. Settings read from the environment have a latency that is not negative,
  a failure rate from 0 to 1 and a failure message; with a generator whose draws are in the half-open
  interval from 0 to 1, rate 0 without \<open>force_fail\<close> never fails, rate 1 always does, and the LLM service
  answers a prompt it does not fail on with one of its templates and the first 160 characters.\<close>

theorem mock_service_failure_rate:
  assumes "settings_from_environment env fl var_prefix latency message = Inr s"
    and "\<forall>seed. float_le 0 (hp_random hp seed) \<and> float_lt (hp_random hp seed) float_one"
    and "\<forall>seed n. 0 < n \<longrightarrow> hp_choice hp seed n < n"
  shows "0 \<le> ms_latency_ms s \<and> float_le 0 (ms_failure_rate s) \<and> float_le (ms_failure_rate s) float_one \<and>
    ms_failure_message s \<noteq> [] \<and>
    (ms_failure_rate s = 0 \<and> \<not> ms_force_fail s \<longrightarrow> \<not> service_fails hp s seed) \<and>
    (ms_failure_rate s = float_one \<or> ms_force_fail s \<longrightarrow> service_fails hp s seed) \<and>
    (\<forall>d b prompt v d' b'. dict_get (nt_resolved_input task) ''prompt'' = PStr prompt \<longrightarrow>
       MockLlmServiceNodeHandler hp s task (d, b) = (Inr v, d', b') \<longrightarrow>
       (\<exists>t \<in> set RESPONSE_TEMPLATES. v = PDict [(PStr ''response'', PStr (t @ take 160 prompt))]))"
proof (intro conjI)
  show "ms_failure_rate s = 0 \<and> \<not> ms_force_fail s \<longrightarrow> \<not> service_fails hp s seed"
    using assms(2) by (auto simp: service_fails_def float_lt_def float_le_def dest!: spec [of _ seed])
  show "ms_failure_rate s = float_one \<or> ms_force_fail s \<longrightarrow> service_fails hp s seed"
    using assms(2) by (auto simp: service_fails_def)
  show "\<forall>d b prompt v d' b'. dict_get (nt_resolved_input task) ''prompt'' = PStr prompt \<longrightarrow>
       MockLlmServiceNodeHandler hp s task (d, b) = (Inr v, d', b') \<longrightarrow>
       (\<exists>t \<in> set RESPONSE_TEMPLATES. v = PDict [(PStr ''response'', PStr (t @ take 160 prompt))])"
  proof (intro allI impI)
    fix d b prompt v d' b'
    assume p: "dict_get (nt_resolved_input task) ''prompt'' = PStr prompt"
      and run: "MockLlmServiceNodeHandler hp s task (d, b) = (Inr v, d', b')"
    let ?i = "hp_choice hp (random_seed hp (ms_seed s) prompt) (length RESPONSE_TEMPLATES)"
    have "0 < length RESPONSE_TEMPLATES" by (simp add: RESPONSE_TEMPLATES_def)
    then have "RESPONSE_TEMPLATES ! ?i \<in> set RESPONSE_TEMPLATES" using assms(3) by simp
    moreover have "v = PDict [(PStr ''response'', PStr (RESPONSE_TEMPLATES ! ?i @ take 160 prompt))]"
      using run p by (auto simp: MockLlmServiceNodeHandler_def io_bind_Inr llm_prompt_def Let_def
          MAX_PROMPT_SNIPPET_LENGTH_def split: if_splits)
    ultimately show "\<exists>t \<in> set RESPONSE_TEMPLATES. v = PDict [(PStr ''response'', PStr (t @ take 160 prompt))]" by blast
  qed
qed (use assms(1) in \<open>auto simp: settings_from_environment_def rbind_Inr_iff Let_def split: if_splits\<close>)

theorem mock_service_failure_rate_witness:
  "\<exists>s. llm_settings_from_environment (\<lambda>_. None) (hp_floats sample_handlers) = Inr s \<and> \<not> service_fails sample_handlers s 0"
proof -
  let ?s = "\<lparr>ms_seed = 0, ms_latency_ms = 10, ms_force_fail = False, ms_failure_rate = 0,
    ms_failure_message = ''Mock LLM service failure.''\<rparr>"
  have s: "settings_from_environment (\<lambda>_. None) (hp_floats sample_handlers) ''MOCK_LLM'' 10 ''Mock LLM service failure.'' = Inr ?s"
    by (simp add: settings_from_environment_def integer_environment_value_def float_environment_value_def
        boolean_environment_value_def getenv_or_def float_le_def float_is_nan_def float_order_def float_one_def)
  have r: "\<forall>seed. float_le 0 (hp_random sample_handlers seed) \<and> float_lt (hp_random sample_handlers seed) float_one"
    "\<forall>seed n. 0 < n \<longrightarrow> hp_choice sample_handlers seed n < n"
    by (simp_all add: sample_handlers_def float_le_def float_lt_def float_is_nan_def float_order_def float_one_def)
  from mock_service_failure_rate [OF s r, of 0] s show ?thesis
    by (simp add: llm_settings_from_environment_def)
qed

end
