(* ===== verification/Worker.thy ===== *)
theory Worker
  imports Handlers
begin

text \<open>
  \<open>app/worker/task_processor.py\<close>: claiming a delivered task, running its handler under a renewed claim,
  recording the result, publishing the completion event, closing the attempt and acknowledging the
  message; replay of a recorded result; malformed messages and the dead-letter stream.
\<close>

section \<open>The processor\<close>

text \<open>\<open>w_unit_of_work\<close> tells whether a unit-of-work factory was given, \<open>w_attempt_repository\<close> whether its
  transactions have the attribute \<open>attempt_processing\<close> (those of \<open>SqlAlchemyUnitOfWork\<close> do).\<close>

record 'b WorkerTaskProcessor =
  w_executor :: "'b NodeHandler"
  w_client :: "'b redis_client"
  w_unit_of_work :: bool
  w_attempt_repository :: bool
  w_worker_id :: string
  w_task_claim_lease_seconds :: "64 word"
  w_float_text :: float_text
  w_floats :: float_platform

definition new_WorkerTaskProcessor :: "'b WorkerTaskProcessor \<Rightarrow> error + 'b WorkerTaskProcessor" where
  "new_WorkerTaskProcessor self =
     (if float_le (w_task_claim_lease_seconds self) 0
      then Inl (ValueError ''task_claim_lease_seconds must be greater than zero.'')
      else Inr self)"

text \<open>A transaction of the unit of work, or the error when there is no factory.\<close>

definition with_unit_of_work :: "'b WorkerTaskProcessor \<Rightarrow> string \<Rightarrow> (db, 'a) tx \<Rightarrow> ('b, 'a) io" where
  "with_unit_of_work self what tx =
     (if \<not> w_unit_of_work self
      then io_raise (RuntimeError (''A unit-of-work factory is required to '' @ what @ ''.''))
      else io_db (run_transaction tx))"

subsection \<open>Events\<close>

definition completed_event :: "uuid \<Rightarrow> NodeTaskMessage \<Rightarrow> pyval \<Rightarrow> TaskCompletionEvent" where
  "completed_event event_id task output =
     \<lparr>tc_event_id = event_id, tc_task_id = nt_task_id task, tc_execution_id = nt_execution_id task,
      tc_node_id = nt_node_id task, tc_status = TASK_COMPLETED, tc_attempt_id = nt_attempt_id task,
      tc_attempt_number = nt_attempt_number task, tc_output_data = output,
      tc_error_message = None, tc_error_type = None\<rparr>"

definition failed_event :: "uuid \<Rightarrow> NodeTaskMessage \<Rightarrow> string \<Rightarrow> string \<Rightarrow> TaskCompletionEvent" where
  "failed_event event_id task message error_type =
     \<lparr>tc_event_id = event_id, tc_task_id = nt_task_id task, tc_execution_id = nt_execution_id task,
      tc_node_id = nt_node_id task, tc_status = TASK_FAILED, tc_attempt_id = nt_attempt_id task,
      tc_attempt_number = nt_attempt_number task, tc_output_data = PNone,
      tc_error_message = Some message, tc_error_type = Some error_type\<rparr>"

definition failure_event :: "uuid \<Rightarrow> NodeTaskMessage \<Rightarrow> error \<Rightarrow> TaskCompletionEvent" where
  "failure_event event_id task error =
     failed_event event_id task (error_message error) (error_type_name error)"

text \<open>The event of a finished handler run.\<close>

definition outcome_event :: "uuid \<Rightarrow> NodeTaskMessage \<Rightarrow> error + pyval \<Rightarrow> TaskCompletionEvent" where
  "outcome_event event_id task outcome =
     (case outcome of
        Inl error \<Rightarrow> failure_event event_id task error
      | Inr output \<Rightarrow>
          if \<not> is_json_value output
          then failure_event event_id task (TypeError ''Worker task output must contain only JSON-compatible values.'')
          else completed_event event_id task output)"

definition event_from_result :: "NodeTaskMessage \<Rightarrow> TaskProcessingResult \<Rightarrow> error + TaskCompletionEvent" where
  "event_from_result task result =
     (case (pr_error_message result, pr_error_type result) of
        (None, None) \<Rightarrow> Inr (completed_event (pr_event_id result) task (pr_result_data result))
      | (Some message, Some error_type) \<Rightarrow> Inr (failed_event (pr_event_id result) task message error_type)
      | _ \<Rightarrow> Inl (ValueError ''Persisted failed task results require error information.''))"

subsection \<open>Transactions\<close>

definition worker_claim_task :: "'b WorkerTaskProcessor \<Rightarrow> datetime \<Rightarrow> NodeTaskMessage \<Rightarrow> ('b, TaskClaimOutcome) io" where
  "worker_claim_task self claimed_at task =
     io_bind (io_lift (fl_seconds (w_floats self) (w_task_claim_lease_seconds self))) (\<lambda>lease.
     with_unit_of_work self ''claim worker tasks''
       (if w_attempt_repository self
        then claim_attempt (nt_attempt_id task) (nt_task_id task) (nt_execution_id task) (nt_node_id task)
               (w_worker_id self) claimed_at (claimed_at + lease)
        else claim_task (nt_task_id task) (nt_execution_id task) (nt_node_id task) (w_worker_id self)
               claimed_at (claimed_at + lease)))"

text \<open>The renewals that ran until the handler ended, at the times \<open>ticks\<close>; the loop stops with an
  exception when a claim is lost.\<close>

fun renew_claim_until_complete :: "'b WorkerTaskProcessor \<Rightarrow> NodeTaskMessage \<Rightarrow> datetime list \<Rightarrow> ('b, unit) io" where
  "renew_claim_until_complete self task [] = io_return ()"
| "renew_claim_until_complete self task (now # ticks) =
     io_bind (io_lift (fl_seconds (w_floats self) (w_task_claim_lease_seconds self))) (\<lambda>lease.
     io_bind (with_unit_of_work self ''renew worker claims''
       (if w_attempt_repository self
        then renew_attempt_claim (nt_attempt_id task) (w_worker_id self) (now + lease)
        else renew_task_claim (nt_task_id task) (w_worker_id self) (now + lease))) (\<lambda>renewed.
     if \<not> renewed
     then io_raise (RuntimeError (''Worker claim for attempt '' @ quoted (uuid_str (nt_attempt_id task)) @
            '' is no longer active.''))
     else renew_claim_until_complete self task ticks))"

definition worker_record_result :: "'b WorkerTaskProcessor \<Rightarrow> TaskCompletionEvent \<Rightarrow> ('b, unit) io" where
  "worker_record_result self event =
     with_unit_of_work self ''record worker results''
       (if w_attempt_repository self
        then record_attempt_result (tc_attempt_id event) (tc_event_id event) (tc_output_data event)
               (tc_error_message event) (tc_error_type event)
        else record_task_result (tc_task_id event) (tc_event_id event) (tc_output_data event)
               (tc_error_message event) (tc_error_type event))"

definition replay_result :: "'b WorkerTaskProcessor \<Rightarrow> NodeTaskMessage \<Rightarrow> ('b, TaskCompletionEvent) io" where
  "replay_result self task =
     io_bind (with_unit_of_work self ''replay worker results''
       (if w_attempt_repository self then get_attempt_result (nt_attempt_id task)
        else get_task_result (nt_task_id task))) (\<lambda>result.
     io_lift (event_from_result task result))"

subsection \<open>Publication and acknowledgement\<close>

definition publish_event :: "'b WorkerTaskProcessor \<Rightarrow> TaskCompletionEvent \<Rightarrow> ('b, string) io" where
  "publish_event self event =
     io_bind (io_lift (completion_to_stream_fields (w_float_text self) event))
       (publish (w_client self) WORKFLOW_TASK_COMPLETIONS_STREAM)"

definition acknowledge :: "'b WorkerTaskProcessor \<Rightarrow> string \<Rightarrow> string \<Rightarrow> ('b, unit) io" where
  "acknowledge self stream message_id =
     io_bind (ack (w_client self) stream WORKFLOW_TASKS_GROUP message_id) (\<lambda>_. io_return ())"

definition publish_complete_and_ack ::
    "'b WorkerTaskProcessor \<Rightarrow> datetime \<Rightarrow> string \<Rightarrow> string \<Rightarrow> TaskCompletionEvent \<Rightarrow> ('b, unit) io" where
  "publish_complete_and_ack self now stream message_id event =
     io_bind (publish_event self event) (\<lambda>_.
     io_bind (with_unit_of_work self ''complete worker tasks''
       (if w_attempt_repository self then mark_attempt_completed (tc_attempt_id event) now
        else mark_task_completed (tc_task_id event) now)) (\<lambda>_.
     acknowledge self stream message_id))"

definition publish_and_ack ::
    "'b WorkerTaskProcessor \<Rightarrow> string \<Rightarrow> string \<Rightarrow> TaskCompletionEvent \<Rightarrow> ('b, unit) io" where
  "publish_and_ack self stream message_id event =
     io_bind (publish_event self event) (\<lambda>_. acknowledge self stream message_id)"

definition publish_dead_letter_and_ack ::
    "'b WorkerTaskProcessor \<Rightarrow> string \<Rightarrow> string \<Rightarrow> fields \<Rightarrow> error \<Rightarrow> error \<Rightarrow> ('b, unit) io" where
  "publish_dead_letter_and_ack self stream message_id fs error identity_error =
     io_bind (io_lift (dumps (w_float_text self) (PDict (map (\<lambda>(k, v). (PStr k, PStr v)) fs)))) (\<lambda>raw_fields.
     io_bind (publish (w_client self) WORKFLOW_TASK_DEAD_LETTER_STREAM
       [(''source_stream'', stream), (''source_message_id'', message_id), (''raw_fields'', raw_fields),
        (''error_message'', error_message error), (''error_type'', error_type_name error),
        (''identity_error'', error_message identity_error)]) (\<lambda>_.
     acknowledge self stream message_id))"

subsection \<open>Processing\<close>

text \<open>\<open>try: ... except Exception\<close> around the handler.\<close>

definition run_handler :: "'b WorkerTaskProcessor \<Rightarrow> NodeTaskMessage \<Rightarrow> ('b, error + pyval) io" where
  "run_handler self task = (\<lambda>w. case w_executor self task w of (outcome, w') \<Rightarrow> (Inr outcome, w'))"

text \<open>The renewals and the handler run side by side; the renewals touch the database only, and what they
  raised is raised when the renewal task is awaited.\<close>

definition execute_and_record ::
    "'b WorkerTaskProcessor \<Rightarrow> uuid \<Rightarrow> datetime list \<Rightarrow> NodeTaskMessage \<Rightarrow> ('b, TaskCompletionEvent) io" where
  "execute_and_record self event_id ticks task =
     io_bind (run_handler self task) (\<lambda>outcome.
     io_bind (renew_claim_until_complete self task ticks) (\<lambda>_.
     (let event = outcome_event event_id task outcome in
      io_bind (worker_record_result self event) (\<lambda>_. io_return event))))"

text \<open>\<open>now\<close> gives the clock when the task is claimed and when it is closed, \<open>event_id\<close> the identifier drawn
  by \<open>uuid4\<close>.\<close>

definition process_task ::
    "'b WorkerTaskProcessor \<Rightarrow> uuid \<Rightarrow> datetime \<Rightarrow> datetime list \<Rightarrow> datetime \<Rightarrow> string \<Rightarrow> string \<Rightarrow> NodeTaskMessage \<Rightarrow>
     ('b, unit) io" where
  "process_task self event_id claimed_at ticks completed_at stream message_id task =
     (if w_unit_of_work self
      then
        io_bind (worker_claim_task self claimed_at task) (\<lambda>claim_outcome.
        case claim_outcome of
          CLAIMED \<Rightarrow>
            io_bind (execute_and_record self event_id ticks task)
              (publish_complete_and_ack self completed_at stream message_id)
        | RESULT_RECORDED \<Rightarrow>
            io_bind (replay_result self task)
              (publish_complete_and_ack self completed_at stream message_id)
        | _ \<Rightarrow> acknowledge self stream message_id)
      else
        io_bind (run_handler self task) (\<lambda>outcome.
        publish_and_ack self stream message_id (outcome_event event_id task outcome)))"

text \<open>The identity of a malformed task message.\<close>

definition malformed_identity :: "fields \<Rightarrow> error + string \<times> uuid \<times> int \<times> uuid \<times> string" where
  "malformed_identity fs =
     (let mt = ''Task message'' in
      rbind (required_field fs ''task_id'' mt) (\<lambda>task_id.
      rbind (rbind (required_field fs ''attempt_id'' mt) parse_uuid) (\<lambda>attempt_id.
      rbind (rbind (required_field fs ''attempt_number'' mt) parse_int) (\<lambda>attempt_number.
      rbind (rbind (required_field fs ''execution_id'' mt) parse_uuid) (\<lambda>execution_id.
      rbind (required_field fs ''node_id'' mt) (\<lambda>node_id.
      Inr (task_id, attempt_id, attempt_number, execution_id, node_id)))))))"

definition malformed_event :: "uuid \<Rightarrow> string \<times> uuid \<times> int \<times> uuid \<times> string \<Rightarrow> error \<Rightarrow> TaskCompletionEvent" where
  "malformed_event event_id identity error =
     (case identity of (task_id, attempt_id, attempt_number, execution_id, node_id) \<Rightarrow>
        \<lparr>tc_event_id = event_id, tc_task_id = task_id, tc_execution_id = execution_id, tc_node_id = node_id,
         tc_status = TASK_FAILED, tc_attempt_id = attempt_id, tc_attempt_number = attempt_number,
         tc_output_data = PNone, tc_error_message = Some (error_message error),
         tc_error_type = Some (error_type_name error)\<rparr>)"

definition process_malformed ::
    "'b WorkerTaskProcessor \<Rightarrow> uuid \<Rightarrow> string \<Rightarrow> string \<Rightarrow> fields \<Rightarrow> error \<Rightarrow> ('b, unit) io" where
  "process_malformed self event_id stream message_id fs error =
     (case malformed_identity fs of
        Inl identity_error \<Rightarrow>
          if is_value_error identity_error
          then publish_dead_letter_and_ack self stream message_id fs error identity_error
          else io_raise identity_error
      | Inr identity \<Rightarrow> publish_and_ack self stream message_id (malformed_event event_id identity error))"

end
