(* ===== verification/Worker_Runtime.thy ===== *)
theory Worker_Runtime
  imports Worker
begin

text \<open>
  \<open>app/worker/main.py\<close>: the settings read from the environment, the runtime that polls Redis for
  reclaimed and new task messages and runs their processing concurrently, up to a bound.
\<close>

section \<open>Configuration\<close>

record worker_settings =
  ws_consumer_name :: string
  ws_max_concurrency :: int
  ws_shutdown_timeout_seconds :: "64 word"
  ws_reclaim_idle_ms :: int
  ws_task_claim_lease_seconds :: "64 word"

text \<open>The host name with the process id is an argument, as is the float \<open>reclaim_idle_ms / 1000\<close>.\<close>

definition consumer_name :: "environment \<Rightarrow> string \<Rightarrow> string" where
  "consumer_name env host_pid =
     (case env ''WORKER_CONSUMER_NAME'' of
        Some configured_name \<Rightarrow> if configured_name = [] then host_pid else configured_name
      | None \<Rightarrow> host_pid)"

definition max_concurrency_setting :: "environment \<Rightarrow> error + int" where
  "max_concurrency_setting env = parse_int (getenv_or env ''WORKER_MAX_CONCURRENCY'' ''10'')"

definition shutdown_timeout_setting :: "environment \<Rightarrow> float_platform \<Rightarrow> error + 64 word" where
  "shutdown_timeout_setting env fl = fl_parse fl (getenv_or env ''WORKER_SHUTDOWN_TIMEOUT_SECONDS'' ''5.0'')"

definition reclaim_idle_ms_setting :: "environment \<Rightarrow> error + int" where
  "reclaim_idle_ms_setting env = parse_int (getenv_or env ''WORKER_RECLAIM_IDLE_MS'' ''30000'')"

definition task_claim_lease_setting :: "environment \<Rightarrow> float_platform \<Rightarrow> error + 64 word" where
  "task_claim_lease_setting env fl = fl_parse fl (getenv_or env ''WORKER_TASK_CLAIM_LEASE_SECONDS'' ''20'')"

text \<open>\<open>WorkerRuntime.__init__\<close>\<close>

definition new_WorkerRuntime :: "worker_settings \<Rightarrow> error + worker_settings" where
  "new_WorkerRuntime ws =
     (if ws_max_concurrency ws < 1 then Inl (ValueError ''max_concurrency must be at least 1.'')
      else if float_lt (ws_shutdown_timeout_seconds ws) 0
      then Inl (ValueError ''shutdown_timeout_seconds must not be negative.'')
      else if ws_reclaim_idle_ms ws < 0 then Inl (ValueError ''reclaim_idle_ms must not be negative.'')
      else Inr ws)"

text \<open>\<open>main\<close>, up to the start of the loop: the settings with which the processor and the runtime are
  built, or the exception that ends the process.\<close>

definition worker_main ::
    "environment \<Rightarrow> float_platform \<Rightarrow> (int \<Rightarrow> 64 word) \<Rightarrow> string \<Rightarrow> 'b WorkerTaskProcessor \<Rightarrow>
     error + 'b WorkerTaskProcessor \<times> worker_settings" where
  "worker_main env fl ms_to_seconds host_pid template =
     (let name = consumer_name env host_pid in
      rbind (reclaim_idle_ms_setting env) (\<lambda>reclaim_idle_ms.
      rbind (task_claim_lease_setting env fl) (\<lambda>lease.
      if float_le (ms_to_seconds reclaim_idle_ms) lease
      then Inl (ValueError ''WORKER_TASK_CLAIM_LEASE_SECONDS must be shorter than WORKER_RECLAIM_IDLE_MS.'')
      else
        rbind (new_WorkerTaskProcessor (template\<lparr>w_unit_of_work := True, w_worker_id := name,
           w_task_claim_lease_seconds := lease\<rparr>)) (\<lambda>processor.
        rbind (max_concurrency_setting env) (\<lambda>max_concurrency.
        rbind (shutdown_timeout_setting env fl) (\<lambda>shutdown_timeout.
        rbind (new_WorkerRuntime \<lparr>ws_consumer_name = name, ws_max_concurrency = max_concurrency,
            ws_shutdown_timeout_seconds = shutdown_timeout, ws_reclaim_idle_ms = reclaim_idle_ms,
            ws_task_claim_lease_seconds = lease\<rparr>) (\<lambda>settings.
        Inr (processor, settings))))))))"

section \<open>The runtime\<close>

text \<open>Where \<open>run\<close> stands: at the head of its loop; in \<open>asyncio.wait\<close> of \<open>_wait_for_capacity\<close>; waiting for the answer to
  a claim or a read of at most so many messages; in the \<open>asyncio.wait\<close> of \<open>_stop_in_flight_work\<close>; in its
  \<open>asyncio.gather\<close>, after it has cancelled what was left; or returned.\<close>

datatype run_phase = Looping | Waiting | Reclaiming int | Consuming int | Stopping | Cancelling | Stopped

text \<open>The state of the runtime: the cursor of \<open>XAUTOCLAIM\<close>, the messages whose processing is in flight, each with
  its stream, the stop event and the phase.\<close>

record worker_runtime =
  rt_reclaim_start_id :: string
  rt_in_flight :: "(string \<times> message) list"
  rt_stop_event :: bool
  rt_phase :: run_phase

definition initial_runtime :: worker_runtime where
  "initial_runtime = \<lparr>rt_reclaim_start_id = ''0-0'', rt_in_flight = [], rt_stop_event = False, rt_phase = Looping\<rparr>"

definition spare_capacity :: "worker_settings \<Rightarrow> worker_runtime \<Rightarrow> int" where
  "spare_capacity ws rt = ws_max_concurrency ws - int (length (rt_in_flight rt))"

text \<open>The calls that ask Redis for at most \<open>max_count\<close> messages, the spare capacity when they are made.\<close>

definition consume_available_messages ::
    "'b redis_client \<Rightarrow> worker_settings \<Rightarrow> int \<Rightarrow> ('b, delivery) io" where
  "consume_available_messages client ws max_count =
     io_catch (consume client WORKFLOW_TASKS_GROUP (ws_consumer_name ws) [(WORKFLOW_TASKS_STREAM, ''>'')] max_count 1000)
       is_redis_error (\<lambda>_. io_return [])"

text \<open>The messages and the new cursor.\<close>

definition reclaim_available_messages ::
    "'b redis_client \<Rightarrow> worker_settings \<Rightarrow> string \<Rightarrow> int \<Rightarrow> ('b, string \<times> delivery) io" where
  "reclaim_available_messages client ws start_id max_count =
     io_catch
       (io_bind (autoclaim client WORKFLOW_TASKS_STREAM WORKFLOW_TASKS_GROUP (ws_consumer_name ws)
          (ws_reclaim_idle_ms ws) start_id max_count)
        (\<lambda>(next_start_id, messages, deleted_message_ids).
           io_return (next_start_id, if messages = [] then [] else [(WORKFLOW_TASKS_STREAM, messages)])))
       is_redis_error (\<lambda>_. io_return (start_id, []))"

definition schedule_messages :: "delivery \<Rightarrow> worker_runtime \<Rightarrow> worker_runtime" where
  "schedule_messages messages rt = rt\<lparr>rt_in_flight := rt_in_flight rt @ delivered_messages messages\<rparr>"

text \<open>How the loop of \<open>run\<close> goes on after the answer to a claim, and after the answer to a read.\<close>

definition after_reclaim :: "worker_settings \<Rightarrow> string \<Rightarrow> delivery \<Rightarrow> worker_runtime \<Rightarrow> worker_runtime" where
  "after_reclaim ws start_id reclaimed_messages rt =
     (let rt1 = rt\<lparr>rt_reclaim_start_id := start_id\<rparr> in
      if reclaimed_messages \<noteq> [] then (schedule_messages reclaimed_messages rt1)\<lparr>rt_phase := Looping\<rparr>
      else rt1\<lparr>rt_phase := Consuming (spare_capacity ws rt1)\<rparr>)"

definition after_consume :: "delivery \<Rightarrow> worker_runtime \<Rightarrow> worker_runtime" where
  "after_consume messages rt = (schedule_messages messages rt)\<lparr>rt_phase := Looping\<rparr>"

text \<open>The coroutine of one message. Its exceptions are logged and dropped; \<open>decode\<close> is
  \<open>NodeTaskMessage.from_stream_fields\<close>.\<close>

definition logged :: "('b, unit) io \<Rightarrow> ('b, unit) io" where
  "logged m = io_catch m (\<lambda>_. True) (\<lambda>_. io_return ())"

definition process_one ::
    "(fields \<Rightarrow> error + NodeTaskMessage) \<Rightarrow> (string \<Rightarrow> string \<Rightarrow> NodeTaskMessage \<Rightarrow> ('b, unit) io) \<Rightarrow>
     (string \<Rightarrow> string \<Rightarrow> fields \<Rightarrow> error \<Rightarrow> ('b, unit) io) option \<Rightarrow> string \<Rightarrow> message \<Rightarrow> ('b, unit) io" where
  "process_one decode process_message process_malformed_message stream message =
     (case message of (message_id, fs) \<Rightarrow>
      case decode fs of
        Inl error \<Rightarrow>
          if is_value_error error
          then (case process_malformed_message of
                  None \<Rightarrow> io_return ()
                | Some handle \<Rightarrow> logged (handle stream message_id fs error))
          else io_raise error
      | Inr task \<Rightarrow> logged (process_message stream message_id task))"

text \<open>\<open>_stop_in_flight_work\<close> returns at once when nothing is in flight. Otherwise it waits until everything has ended or
  the timeout is over; in that case it cancels the rest and gathers it. \<open>asyncio.gather\<close> without
  \<open>return_exceptions\<close> ends with the first task that is cancelled or raises, or when all have ended.\<close>

definition stop_in_flight_work :: "worker_runtime \<Rightarrow> worker_runtime" where
  "stop_in_flight_work rt = rt\<lparr>rt_phase := (if rt_in_flight rt = [] then Stopped else Stopping)\<rparr>"

definition cancel_pending :: "worker_runtime \<Rightarrow> worker_runtime" where
  "cancel_pending rt = rt\<lparr>rt_phase := Cancelling\<rparr>"

text \<open>What the end of a task does to the phase; \<open>raised\<close> tells that it was cancelled or raised, \<open>rest\<close> is still in
  flight.\<close>

fun after_task :: "bool \<Rightarrow> 'm list \<Rightarrow> run_phase \<Rightarrow> run_phase" where
  "after_task raised rest Waiting = Looping"
| "after_task raised rest Stopping = (if rest = [] then Stopped else Stopping)"
| "after_task raised rest Cancelling = (if raised \<or> rest = [] then Stopped else Cancelling)"
| "after_task raised rest phase = phase"

text \<open>The runtime as a transition system. The processing of messages in flight, and everything else that
  shares the database and the broker, changes the world at any time, also while a call to Redis is under way; a
  task that ends leaves the messages in flight; a signal sets the stop event. At the head of the loop \<open>run\<close> stops,
  waits for capacity or polls. An exception of a poll also ends the loop.\<close>

inductive runtime_step :: "'b redis_client \<Rightarrow> worker_settings \<Rightarrow> worker_runtime \<times> 'b world \<Rightarrow> worker_runtime \<times> 'b world \<Rightarrow> bool"
  for client ws where
  runtime_work: "runtime_step client ws (rt, w) (rt, w')"
| runtime_done: "rt_in_flight rt = xs @ m # ys \<Longrightarrow>
    runtime_step client ws (rt, w) (rt\<lparr>rt_in_flight := xs @ ys, rt_phase := after_task raised (xs @ ys) (rt_phase rt)\<rparr>, w)"
| runtime_signal: "runtime_step client ws (rt, w) (rt\<lparr>rt_stop_event := True\<rparr>, w)"
| runtime_wait: "rt_phase rt = Looping \<Longrightarrow> \<not> rt_stop_event rt \<Longrightarrow> spare_capacity ws rt \<le> 0 \<Longrightarrow>
    runtime_step client ws (rt, w) (rt\<lparr>rt_phase := Waiting\<rparr>, w)"
| runtime_poll: "rt_phase rt = Looping \<Longrightarrow> \<not> rt_stop_event rt \<Longrightarrow> 0 < spare_capacity ws rt \<Longrightarrow>
    runtime_step client ws (rt, w) (rt\<lparr>rt_phase := Reclaiming (spare_capacity ws rt)\<rparr>, w)"
| runtime_reclaimed: "rt_phase rt = Reclaiming n \<Longrightarrow>
    reclaim_available_messages client ws (rt_reclaim_start_id rt) n w = (Inr (start_id, ms), w') \<Longrightarrow>
    runtime_step client ws (rt, w) (after_reclaim ws start_id ms rt, w')"
| runtime_consumed: "rt_phase rt = Consuming n \<Longrightarrow> consume_available_messages client ws n w = (Inr ms, w') \<Longrightarrow>
    runtime_step client ws (rt, w) (after_consume ms rt, w')"
| runtime_reclaim_error: "rt_phase rt = Reclaiming n \<Longrightarrow>
    reclaim_available_messages client ws (rt_reclaim_start_id rt) n w = (Inl e, w') \<Longrightarrow>
    runtime_step client ws (rt, w) (stop_in_flight_work rt, w')"
| runtime_consume_error: "rt_phase rt = Consuming n \<Longrightarrow> consume_available_messages client ws n w = (Inl e, w') \<Longrightarrow>
    runtime_step client ws (rt, w) (stop_in_flight_work rt, w')"
| runtime_stop: "rt_phase rt = Looping \<Longrightarrow> rt_stop_event rt \<Longrightarrow> runtime_step client ws (rt, w) (stop_in_flight_work rt, w)"
| runtime_timeout: "rt_phase rt = Stopping \<Longrightarrow> runtime_step client ws (rt, w) (cancel_pending rt, w)"

section \<open>The bound on concurrent work\<close>

text \<open>What is relied on of Redis: a read or a claim with \<open>COUNT n\<close>, for a positive \<open>n\<close>, returns at most \<open>n\<close>
  messages of the one stream it names.\<close>

definition respects_count :: "'b redis_client \<Rightarrow> bool" where
  "respects_count client \<longleftrightarrow>
     (\<forall>g c s i n t b ms b'. 0 < n \<longrightarrow> xreadgroup client g c [(s, i)] n t b = (Inr ms, b') \<longrightarrow>
        int (length (delivered_messages ms)) \<le> n) \<and>
     (\<forall>s g c t i n b x ms del b'. 0 < n \<longrightarrow> xautoclaim client s g c t i n b = (Inr (x, ms, del), b') \<longrightarrow>
        int (length ms) \<le> n)"

lemma respects_countD:
  assumes "respects_count client" and "0 < n"
  shows "xreadgroup client g c [(s, i)] n t b = (Inr ms, b') \<Longrightarrow> int (length (delivered_messages ms)) \<le> n"
    and "xautoclaim client s g c t i n b = (Inr (x, ms', del), b') \<Longrightarrow> int (length ms') \<le> n"
  using assms unfolding respects_count_def by blast+

lemma io_catch_Inr:
  "io_catch m p h w = (Inr x, w') \<longleftrightarrow> m w = (Inr x, w') \<or> (\<exists>e w1. m w = (Inl e, w1) \<and> p e \<and> h e w1 = (Inr x, w'))"
  by (auto simp: io_catch_def split: prod.splits sum.splits)

lemma io_redis_Inr: "io_redis f w = (Inr x, w') \<longleftrightarrow> f (snd w) = (Inr x, snd w') \<and> fst w' = fst w"
  by (cases w; cases w') (auto simp: io_redis_def split: prod.splits)

lemma reclaim_within_count:
  assumes "respects_count client" and "0 < n" and "reclaim_available_messages client ws i n w = (Inr (start_id, ms), w')"
  shows "int (length (delivered_messages ms)) \<le> n"
  using assms(3) assms(2) respects_countD(2) [OF assms(1,2)]
  by (auto simp: reclaim_available_messages_def io_catch_Inr io_bind_Inr autoclaim_def io_redis_Inr
      delivered_messages_def split: if_splits)

lemma consume_within_count:
  assumes "respects_count client" and "0 < n" and "consume_available_messages client ws n w = (Inr ms, w')"
  shows "int (length (delivered_messages ms)) \<le> n"
  using assms(3) assms(2) respects_countD(1) [OF assms(1,2)]
  by (auto simp: consume_available_messages_def io_catch_Inr consume_def io_redis_Inr delivered_messages_def)

text \<open>The invariant: there is room for what is in flight and for every message that was asked for, a request asks for
  at least one message, and \<open>run\<close> waits only for tasks that are in flight.\<close>

fun phase_ok :: "int \<Rightarrow> 'm list \<Rightarrow> run_phase \<Rightarrow> bool" where
  "phase_ok spare tasks (Reclaiming n) \<longleftrightarrow> 0 < n \<and> n \<le> spare"
| "phase_ok spare tasks (Consuming n) \<longleftrightarrow> 0 < n \<and> n \<le> spare"
| "phase_ok spare tasks Waiting \<longleftrightarrow> tasks \<noteq> []"
| "phase_ok spare tasks Stopping \<longleftrightarrow> tasks \<noteq> []"
| "phase_ok spare tasks Cancelling \<longleftrightarrow> tasks \<noteq> []"
| "phase_ok spare tasks phase \<longleftrightarrow> True"

definition runtime_inv :: "worker_settings \<Rightarrow> worker_runtime \<Rightarrow> bool" where
  "runtime_inv ws rt \<longleftrightarrow> 0 \<le> spare_capacity ws rt \<and> phase_ok (spare_capacity ws rt) (rt_in_flight rt) (rt_phase rt)"

lemma phase_ok_task:
  "phase_ok spare (xs @ m # ys) phase \<Longrightarrow> phase_ok (spare + 1) (xs @ ys) (after_task raised (xs @ ys) phase)"
  by (cases phase) auto

lemma spare_capacity_simps:
  "spare_capacity ws (schedule_messages ms rt) = spare_capacity ws rt - int (length (delivered_messages ms))"
  "spare_capacity ws (rt\<lparr>rt_phase := p\<rparr>) = spare_capacity ws rt" "spare_capacity ws (rt\<lparr>rt_reclaim_start_id := i\<rparr>) = spare_capacity ws rt"
  "spare_capacity ws (rt\<lparr>rt_stop_event := b\<rparr>) = spare_capacity ws rt"
  "rt_in_flight rt = xs @ m # ys \<Longrightarrow> spare_capacity ws (rt\<lparr>rt_in_flight := xs @ ys\<rparr>) = spare_capacity ws rt + 1"
  by (simp_all add: spare_capacity_def schedule_messages_def)

lemma runtime_inv_step:
  assumes "respects_count client" and "1 \<le> ws_max_concurrency ws"
  shows "runtime_step client ws s s' \<Longrightarrow> runtime_inv ws (fst s) \<Longrightarrow> runtime_inv ws (fst s')"
proof (induction rule: runtime_step.induct)
  case (runtime_done rt xs m ys w raised)
  then show ?case
    using phase_ok_task [of "spare_capacity ws rt" xs m ys "rt_phase rt" raised] by (simp add: runtime_inv_def spare_capacity_simps)
next
  case (runtime_wait rt w)
  then have "rt_in_flight rt \<noteq> []" using assms(2) by (auto simp: spare_capacity_def)
  with runtime_wait show ?case by (simp add: runtime_inv_def spare_capacity_simps)
next
  case (runtime_reclaimed rt n w start_id ms w')
  then show ?case
    using reclaim_within_count [OF assms(1) _ runtime_reclaimed(2)]
    by (auto simp: runtime_inv_def after_reclaim_def Let_def spare_capacity_simps)
next
  case (runtime_consumed rt n w ms w')
  then show ?case
    using consume_within_count [OF assms(1) _ runtime_consumed(2)]
    by (auto simp: runtime_inv_def after_consume_def spare_capacity_simps)
qed (auto simp: runtime_inv_def spare_capacity_simps stop_in_flight_work_def cancel_pending_def)

text \<open>A runtime that is winding down: its loop has ended, or will at its head, since the stop event is set.\<close>

definition winding_down :: "worker_runtime \<Rightarrow> bool" where
  "winding_down rt \<longleftrightarrow> rt_phase rt \<in> {Stopping, Cancelling, Stopped} \<or> rt_stop_event rt \<and> rt_phase rt \<in> {Looping, Waiting}"

lemma winding_down_step:
  assumes "runtime_step client ws s s'" and "winding_down (fst s)"
  shows "winding_down (fst s') \<and> set (rt_in_flight (fst s')) \<subseteq> set (rt_in_flight (fst s)) \<and>
    length (rt_in_flight (fst s')) \<le> length (rt_in_flight (fst s))"
  using assms
proof (induction rule: runtime_step.induct)
  case (runtime_done rt xs m ys w raised)
  then show ?case by (cases "rt_phase rt") (auto simp: winding_down_def)
qed (auto simp: winding_down_def stop_in_flight_work_def cancel_pending_def)

text \<open>C20: a worker never has more tasks in flight than configured. From a runtime that was constructed,
  whatever the tasks and the rest of the system do, also while a call to Redis is under way, the messages in flight
  never exceed \<open>max_concurrency\<close>; every request to Redis asks for at least one message and for no more than there is
  room for; \<open>asyncio.wait\<close> is never called without a task; and once the worker is winding down it takes no new
  message.\<close>

theorem worker_concurrency_bounded:
  assumes "new_WorkerRuntime ws = Inr ws'" and "respects_count client"
    and "(runtime_step client ws')\<^sup>*\<^sup>* (initial_runtime, w) (rt, w')"
  shows "int (length (rt_in_flight rt)) \<le> ws_max_concurrency ws' \<and>
    (\<forall>n. rt_phase rt = Reclaiming n \<or> rt_phase rt = Consuming n \<longrightarrow>
       1 \<le> n \<and> int (length (rt_in_flight rt)) + n \<le> ws_max_concurrency ws') \<and>
    (rt_phase rt \<in> {Waiting, Stopping} \<longrightarrow> rt_in_flight rt \<noteq> []) \<and>
    (winding_down rt \<longrightarrow> (\<forall>rt2 w2. (runtime_step client ws')\<^sup>*\<^sup>* (rt, w') (rt2, w2) \<longrightarrow>
       set (rt_in_flight rt2) \<subseteq> set (rt_in_flight rt) \<and> length (rt_in_flight rt2) \<le> length (rt_in_flight rt)))"
proof -
  have m: "1 \<le> ws_max_concurrency ws'" using assms(1) by (auto simp: new_WorkerRuntime_def split: if_splits)
  then have base: "runtime_inv ws' initial_runtime" by (simp add: runtime_inv_def spare_capacity_def initial_runtime_def)
  have "runtime_inv ws' (fst s)" if "(runtime_step client ws')\<^sup>*\<^sup>* (initial_runtime, w) s" for s
    using that by induction (auto simp: base dest: runtime_inv_step [OF assms(2) m])
  from this [OF assms(3)] have inv: "runtime_inv ws' rt" by simp
  have down: "winding_down (fst s) \<and> set (rt_in_flight (fst s)) \<subseteq> set (rt_in_flight rt) \<and>
      length (rt_in_flight (fst s)) \<le> length (rt_in_flight rt)"
    if "(runtime_step client ws')\<^sup>*\<^sup>* (rt, w') s" "winding_down rt" for s
    using that by induction (auto dest!: winding_down_step)
  show ?thesis
  proof (intro conjI)
    show "rt_phase rt \<in> {Waiting, Stopping} \<longrightarrow> rt_in_flight rt \<noteq> []" using inv by (auto simp: runtime_inv_def)
    show "winding_down rt \<longrightarrow> (\<forall>rt2 w2. (runtime_step client ws')\<^sup>*\<^sup>* (rt, w') (rt2, w2) \<longrightarrow>
       set (rt_in_flight rt2) \<subseteq> set (rt_in_flight rt) \<and> length (rt_in_flight rt2) \<le> length (rt_in_flight rt))"
      using down by fastforce
  qed (use inv in \<open>auto simp: runtime_inv_def spare_capacity_def\<close>)
qed

definition sample_settings :: worker_settings where
  "sample_settings = \<lparr>ws_consumer_name = ''w1'', ws_max_concurrency = 1, ws_shutdown_timeout_seconds = 0,
     ws_reclaim_idle_ms = 30000, ws_task_claim_lease_seconds = 0\<rparr>"

text \<open>A client that delivers one message at a time.\<close>

definition sample_client :: "nat redis_client" where
  "sample_client =
     \<lparr>xadd = (\<lambda>s fs b. (Inr ''1-0'', b)),
      xreadgroup = (\<lambda>g c ss n t b. (Inr [(''workflow.tasks'', [(''1-0'', [])])], Suc b)),
      xack = (\<lambda>s g i b. (Inr 1, b)), xautoclaim = (\<lambda>s g c t i n b. (Inr (''0-0'', [], []), b))\<rparr>"

lemma sample_client_respects_count: "respects_count sample_client"
  by (auto simp: respects_count_def sample_client_def delivered_messages_def)

lemma sample_request:
  assumes "rt_phase rt = Looping" and "\<not> rt_stop_event rt" and "0 < spare_capacity ws rt" and "rt_reclaim_start_id rt = ''0-0''"
  shows "(runtime_step sample_client ws)\<^sup>*\<^sup>* (rt, d, b) (rt\<lparr>rt_in_flight := rt_in_flight rt @ [(''workflow.tasks'', ''1-0'', [])]\<rparr>, d, Suc b)"
proof -
  let ?n = "spare_capacity ws rt"
  let ?r1 = "rt\<lparr>rt_phase := Reclaiming ?n\<rparr>" and ?r2 = "rt\<lparr>rt_phase := Consuming ?n\<rparr>"
  have "reclaim_available_messages sample_client ws (rt_reclaim_start_id ?r1) ?n (d, b) = (Inr (''0-0'', []), d, b)"
    by (simp add: reclaim_available_messages_def io_catch_def io_bind_def autoclaim_def io_redis_def sample_client_def)
  then have "runtime_step sample_client ws (?r1, d, b) (after_reclaim ws ''0-0'' [] ?r1, d, b)" by (intro runtime_reclaimed) simp_all
  moreover have "after_reclaim ws ''0-0'' [] ?r1 = ?r2"
    using assms(4) by (cases rt) (simp add: after_reclaim_def spare_capacity_def)
  ultimately have 2: "runtime_step sample_client ws (?r1, d, b) (?r2, d, b)" by simp
  have "consume_available_messages sample_client ws ?n (d, b) = (Inr [(''workflow.tasks'', [(''1-0'', [])])], d, Suc b)"
    by (simp add: consume_available_messages_def io_catch_def consume_def io_redis_def sample_client_def)
  then have "runtime_step sample_client ws (?r2, d, b) (after_consume [(''workflow.tasks'', [(''1-0'', [])])] ?r2, d, Suc b)"
    by (intro runtime_consumed) simp_all
  moreover have "after_consume [(''workflow.tasks'', [(''1-0'', [])])] ?r2 =
      rt\<lparr>rt_in_flight := rt_in_flight rt @ [(''workflow.tasks'', ''1-0'', [])]\<rparr>"
    using assms(1) by (cases rt) (simp add: after_consume_def schedule_messages_def delivered_messages_def)
  ultimately have 3: "runtime_step sample_client ws (?r2, d, b)
      (rt\<lparr>rt_in_flight := rt_in_flight rt @ [(''workflow.tasks'', ''1-0'', [])]\<rparr>, d, Suc b)" by simp
  have 1: "runtime_step sample_client ws (rt, d, b) (?r1, d, b)" by (rule runtime_poll) (use assms in simp_all)
  show ?thesis
    by (rule rtranclp.rtrancl_into_rtrancl [OF rtranclp.rtrancl_into_rtrancl [OF r_into_rtranclp [where r = "runtime_step sample_client ws"]]])
      (rule 1, rule 2, rule 3)
qed

theorem worker_concurrency_bounded_witness:
  "\<exists>rt w. (runtime_step sample_client sample_settings)\<^sup>*\<^sup>* (initial_runtime, empty_db, 0) (rt, w) \<and>
     rt_in_flight rt = [(''workflow.tasks'', ''1-0'', [])] \<and> int (length (rt_in_flight rt)) \<le> 1"
proof -
  let ?rt = "initial_runtime\<lparr>rt_in_flight := [(''workflow.tasks'', ''1-0'', [])]\<rparr>"
  have new: "new_WorkerRuntime sample_settings = Inr sample_settings"
    by (simp add: new_WorkerRuntime_def sample_settings_def float_lt_def)
  have "(runtime_step sample_client sample_settings)\<^sup>*\<^sup>* (initial_runtime, empty_db, 0) (?rt, empty_db, Suc 0)"
    using sample_request [of initial_runtime sample_settings empty_db 0]
    by (simp add: initial_runtime_def sample_settings_def spare_capacity_def)
  with worker_concurrency_bounded [OF new sample_client_respects_count this]
  show ?thesis by (intro exI [of _ ?rt]) (auto simp: sample_settings_def)
qed

text \<open>A worker can stop with work in flight: when two tasks outlast the timeout, \<open>run\<close> returns as soon as one of them has
  been cancelled.\<close>

theorem stop_returns_early:
  "\<exists>rt w. (runtime_step sample_client (sample_settings\<lparr>ws_max_concurrency := 2\<rparr>))\<^sup>*\<^sup>* (initial_runtime, empty_db, 0) (rt, w) \<and>
     rt_phase rt = Stopped \<and> rt_in_flight rt = [(''workflow.tasks'', ''1-0'', [])]"
proof -
  let ?ws = "sample_settings\<lparr>ws_max_concurrency := 2\<rparr>" and ?m = "(''workflow.tasks'', ''1-0'', [])"
  let ?step = "runtime_step sample_client ?ws" and ?w = "(empty_db, Suc (Suc 0))"
  define rt1 where "rt1 = initial_runtime\<lparr>rt_in_flight := [?m, ?m]\<rparr>"
  define rt2 where "rt2 = rt1\<lparr>rt_stop_event := True\<rparr>"
  define rt3 where "rt3 = stop_in_flight_work rt2"
  define rt4 where "rt4 = cancel_pending rt3"
  note defs = rt1_def rt2_def rt3_def rt4_def
  note into = rtranclp.rtrancl_into_rtrancl [of ?step]
  have "?step\<^sup>*\<^sup>* (initial_runtime, empty_db, 0) (initial_runtime\<lparr>rt_in_flight := [?m]\<rparr>, empty_db, Suc 0)"
    using sample_request [of initial_runtime ?ws empty_db 0] by (simp add: initial_runtime_def sample_settings_def spare_capacity_def)
  moreover have "?step\<^sup>*\<^sup>* (initial_runtime\<lparr>rt_in_flight := [?m]\<rparr>, empty_db, Suc 0) (rt1, ?w)"
    using sample_request [of "initial_runtime\<lparr>rt_in_flight := [?m]\<rparr>" ?ws empty_db "Suc 0"]
    by (simp add: initial_runtime_def sample_settings_def spare_capacity_def defs)
  ultimately have "?step\<^sup>*\<^sup>* (initial_runtime, empty_db, 0) (rt1, ?w)" by (rule rtranclp_trans)
  from into [OF this] have "?step\<^sup>*\<^sup>* (initial_runtime, empty_db, 0) (rt2, ?w)" by (simp add: rt2_def runtime_signal)
  from into [OF this] have "?step\<^sup>*\<^sup>* (initial_runtime, empty_db, 0) (rt3, ?w)"
    unfolding rt3_def by (simp add: runtime_stop rt1_def rt2_def initial_runtime_def)
  from into [OF this] have run: "?step\<^sup>*\<^sup>* (initial_runtime, empty_db, 0) (rt4, ?w)"
    unfolding rt4_def by (simp add: runtime_timeout rt3_def rt2_def rt1_def stop_in_flight_work_def)
  have "rt_in_flight rt4 = [] @ ?m # [?m]" "rt_phase rt4 = Cancelling" by (simp_all add: defs cancel_pending_def stop_in_flight_work_def)
  with runtime_done [OF this(1), of sample_client ?ws ?w True]
  have "?step (rt4, ?w) (rt4\<lparr>rt_in_flight := [?m], rt_phase := Stopped\<rparr>, ?w)" by simp
  from into [OF run this] show ?thesis
    by (intro exI [of _ "rt4\<lparr>rt_in_flight := [?m], rt_phase := Stopped\<rparr>"] exI [of _ ?w]) simp
qed

end
