(* ===== verification/Orchestrator.thy ===== *)
theory Orchestrator
  imports Streams Completion
begin

text \<open>
  The orchestrator process: the consumers of trigger events
  (\<open>app/orchestrator/workflow_trigger_consumer.py\<close>) and of completion events
  (\<open>app/orchestrator/task_completion_consumer.py\<close>) and one round of its loop
  (\<open>app/orchestrator/main.py\<close>). \<open>fresh\<close> gives the identifiers drawn while a message is handled.
\<close>

section \<open>Trigger events\<close>

definition ORCHESTRATOR_EVENTS_GROUP :: string where "ORCHESTRATOR_EVENTS_GROUP = ''orchestrator''"
definition EXECUTION_TRIGGERED_EVENT_TYPE :: string where
  "EXECUTION_TRIGGERED_EVENT_TYPE = ''workflow.execution.triggered''"

definition trigger_execution_id :: "(string \<Rightarrow> 64 word) \<Rightarrow> fields \<Rightarrow> error + uuid" where
  "trigger_execution_id fp fs =
     rbind (required_field fs ''event_type'' ''Workflow event'') (\<lambda>event_type.
     if event_type \<noteq> EXECUTION_TRIGGERED_EVENT_TYPE
     then Inl (ValueError (''Unsupported workflow event type '' @ quoted event_type @ ''.''))
     else
       rbind (json_object_field fp fs ''payload'' ''Workflow event'') (\<lambda>payload.
       case dict_get payload ''execution_id'' of
         PStr raw_execution_id \<Rightarrow>
           (case parse_uuid raw_execution_id of
              Inl _ \<Rightarrow> Inl (ValueError ''Workflow event payload execution_id must be a UUID.'')
            | Inr u \<Rightarrow> Inr u)
       | _ \<Rightarrow> Inl (ValueError ''Workflow event payload requires a string execution_id.'')))"

definition handle_trigger_message ::
    "'b redis_client \<Rightarrow> float_text \<Rightarrow> (string \<Rightarrow> 64 word) \<Rightarrow> uuid5_hash \<Rightarrow> (string \<Rightarrow> uuid) \<Rightarrow> datetime \<Rightarrow>
     string \<Rightarrow> message \<Rightarrow> ('b, unit) io" where
  "handle_trigger_message client fr fp u5 fresh now stream message =
     (case message of (message_id, fs) \<Rightarrow>
      io_bind (io_lift (required_field fs ''event_type'' ''Workflow event'')) (\<lambda>event_type.
      io_bind
        (if event_type \<noteq> EXECUTION_TRIGGERED_EVENT_TYPE then io_return ()
         else
           io_bind (io_lift (trigger_execution_id fp fs)) (\<lambda>execution_id.
           io_bind (io_db (readiness_evaluate execution_id)) (\<lambda>readiness.
           io_bind (io_db (dispatch_ready fr u5 fresh now execution_id (ready_node_ids readiness))) (\<lambda>_.
           io_return ())))) (\<lambda>_.
      io_bind (ack client stream ORCHESTRATOR_EVENTS_GROUP message_id) (\<lambda>_. io_return ()))))"

definition trigger_consume_once ::
    "'b redis_client \<Rightarrow> float_text \<Rightarrow> (string \<Rightarrow> 64 word) \<Rightarrow> uuid5_hash \<Rightarrow> (string \<Rightarrow> string \<Rightarrow> uuid) \<Rightarrow> datetime \<Rightarrow>
     string \<Rightarrow> ('b, nat) io" where
  "trigger_consume_once client fr fp u5 fresh now consumer_name =
     io_bind (consume client ORCHESTRATOR_EVENTS_GROUP consumer_name [(WORKFLOW_EVENTS_STREAM, ''>'')] 100 1000)
       (\<lambda>messages.
     io_bind (io_each (\<lambda>(stream, m). handle_trigger_message client fr fp u5 (fresh (fst m)) now stream m)
        (delivered_messages messages)) (\<lambda>_.
     io_return (length (delivered_messages messages))))"

section \<open>Completion events\<close>

text \<open>Synchronization used by integration tests only; \<open>participate\<close> is the barrier of
  \<open>app/messaging/redis/barriers.py\<close>.\<close>

definition split_names :: "string \<Rightarrow> string list" where
  "split_names s = filter (\<lambda>n. n \<noteq> []) (split_on CHR '','' s)"

definition wait_for_integration_barrier ::
    "environment \<Rightarrow> float_platform \<Rightarrow> (string \<Rightarrow> string \<Rightarrow> 64 word \<Rightarrow> ('b, unit) io) \<Rightarrow> TaskCompletionEvent \<Rightarrow>
     ('b, unit) io" where
  "wait_for_integration_barrier env fl participate event =
     (if env ''INTEGRATION_TEST'' \<noteq> Some ''1'' then io_return ()
      else
        (let prefix = env ''INTEGRATION_COMPLETION_BARRIER_PREFIX'';
             barrier_nodes = split_names (getenv_or env ''INTEGRATION_COMPLETION_BARRIER_NODES'' []) in
         if prefix = None \<or> prefix = Some [] \<or> tc_node_id event \<notin> set barrier_nodes then io_return ()
         else
           io_bind (io_lift (fl_parse fl (getenv_or env ''INTEGRATION_BARRIER_TIMEOUT_SECONDS'' ''30''))) (\<lambda>timeout_seconds.
           if float_le timeout_seconds 0
           then io_raise (ValueError ''INTEGRATION_BARRIER_TIMEOUT_SECONDS must be greater than zero.'')
           else participate (the prefix @ '':'' @ uuid_str (tc_execution_id event)) (tc_node_id event) timeout_seconds)))"

text \<open>\<open>fresh\<close> draws the identifier of a finalization or retry (\<open>None\<close>) and of every dispatch (\<open>Some node\<close>).\<close>

definition handle_completion_message ::
    "'b redis_client \<Rightarrow> environment \<Rightarrow> float_text \<Rightarrow> (string \<Rightarrow> 64 word) \<Rightarrow> float_platform \<Rightarrow> uuid5_hash \<Rightarrow> RetryPolicy \<Rightarrow>
     (string \<Rightarrow> string \<Rightarrow> 64 word \<Rightarrow> ('b, unit) io) \<Rightarrow> (string option \<Rightarrow> uuid) \<Rightarrow> datetime \<Rightarrow>
     string \<Rightarrow> message \<Rightarrow> ('b, unit) io" where
  "handle_completion_message client env fr fp fl u5 retry_policy participate fresh now stream message =
     (case message of (message_id, fs) \<Rightarrow>
      io_bind (io_lift (completion_from_stream_fields fp fs)) (\<lambda>event.
      io_bind (wait_for_integration_barrier env fl participate event) (\<lambda>_.
      io_bind (io_db (process fl u5 retry_policy (fresh None) now event)) (\<lambda>decided.
      io_bind (io_db (dispatch_ready fr u5 (\<lambda>i. fresh (Some i)) now (tc_execution_id event)
         (dec_ready_node_ids decided))) (\<lambda>_.
      io_bind (ack client stream ORCHESTRATOR_COMPLETIONS_GROUP message_id) (\<lambda>_. io_return ()))))))"

definition completion_consume_once ::
    "'b redis_client \<Rightarrow> environment \<Rightarrow> float_text \<Rightarrow> (string \<Rightarrow> 64 word) \<Rightarrow> float_platform \<Rightarrow> uuid5_hash \<Rightarrow> RetryPolicy \<Rightarrow>
     (string \<Rightarrow> string \<Rightarrow> 64 word \<Rightarrow> ('b, unit) io) \<Rightarrow> (string \<Rightarrow> string option \<Rightarrow> uuid) \<Rightarrow> datetime \<Rightarrow> string \<Rightarrow>
     ('b, nat) io" where
  "completion_consume_once client env fr fp fl u5 retry_policy participate fresh now consumer_name =
     io_bind (consume client ORCHESTRATOR_COMPLETIONS_GROUP consumer_name
        [(WORKFLOW_TASK_COMPLETIONS_STREAM, ''>'')] 100 1000) (\<lambda>messages.
     io_bind (io_each (\<lambda>(stream, m). handle_completion_message client env fr fp fl u5 retry_policy participate
          (fresh (fst m)) now stream m) (delivered_messages messages)) (\<lambda>_.
     io_return (length (delivered_messages messages))))"

section \<open>The loop of the process\<close>

record 'b orchestrator =
  o_client :: "'b redis_client"
  o_env :: environment
  o_float_text :: float_text
  o_float_parse :: "string \<Rightarrow> 64 word"
  o_floats :: float_platform
  o_uuid5 :: uuid5_hash
  o_policy :: RetryPolicy
  o_barrier :: "string \<Rightarrow> string \<Rightarrow> 64 word \<Rightarrow> ('b, unit) io"
  o_consumer :: string
  o_retention :: "64 word"

text \<open>What \<open>run\<close> reads before the loop; an exception ends the process. The host name is an argument, the interval
  between two rounds is used for sleeping only.\<close>

definition orchestrator_from_environment ::
    "environment \<Rightarrow> float_platform \<Rightarrow> string \<Rightarrow> 'b orchestrator \<Rightarrow> error + 'b orchestrator" where
  "orchestrator_from_environment env fl host orc =
     rbind (fl_parse fl (getenv_or env ''OUTBOX_POLL_INTERVAL_SECONDS'' ''1'')) (\<lambda>poll_interval_seconds.
     rbind (fl_parse fl (getenv_or env ''OUTBOX_RETENTION_SECONDS'' ''604800'')) (\<lambda>outbox_retention_seconds.
     rbind (retry_policy_from_environment env fl) (\<lambda>retry_policy.
     Inr (orc\<lparr>o_env := env, o_floats := fl, o_policy := retry_policy,
       o_consumer := getenv_or env ''ORCHESTRATOR_CONSUMER_NAME'' host, o_retention := outbox_retention_seconds\<rparr>))))"

lemma orchestrator_policy:
  "orchestrator_from_environment env fl host orc = Inr orc' \<Longrightarrow> 1 \<le> rp_max_attempts (o_policy orc')"
  by (auto simp: orchestrator_from_environment_def retry_policy_from_environment_def retry_policy_post_init_def Let_def rbind_Inr_iff
      split: if_splits)

text \<open>The body of the loop; only \<open>RedisError\<close> is caught.\<close>

definition orchestrator_round ::
    "'b orchestrator \<Rightarrow> (string \<Rightarrow> string option \<Rightarrow> uuid) \<Rightarrow> datetime \<Rightarrow> ('b, unit) io" where
  "orchestrator_round orc fresh now =
     io_catch (
       io_bind (\<lambda>(d, b). publish_pending (o_float_text orc) (xadd (o_client orc)) now d b) (\<lambda>_.
       io_bind (io_db (cleanup_published_outbox (fl_seconds (o_floats orc)) (o_retention orc) now)) (\<lambda>_.
       io_bind (trigger_consume_once (o_client orc) (o_float_text orc) (o_float_parse orc) (o_uuid5 orc)
          (\<lambda>m i. fresh m (Some i)) now (o_consumer orc)) (\<lambda>_.
       io_bind (completion_consume_once (o_client orc) (o_env orc) (o_float_text orc) (o_float_parse orc)
          (o_floats orc) (o_uuid5 orc) (o_policy orc) (o_barrier orc) fresh now (o_consumer orc)) (\<lambda>_.
       io_bind (\<lambda>(d, b). publish_due_retries (o_float_text orc) (xadd (o_client orc)) now d b) (\<lambda>_.
       io_return ()))))))
     is_redis_error (\<lambda>_. io_return ())"

text \<open>The rounds until a signal clears \<open>running\<close>; an exception that a round does not catch ends them.\<close>

fun orchestrator_rounds ::
    "'b orchestrator \<Rightarrow> (nat \<Rightarrow> string \<Rightarrow> string option \<Rightarrow> uuid) \<Rightarrow> (nat \<Rightarrow> datetime) \<Rightarrow> nat \<Rightarrow> nat \<Rightarrow> ('b, unit) io" where
  "orchestrator_rounds orc fresh now k 0 = io_return ()"
| "orchestrator_rounds orc fresh now k (Suc n) =
     io_bind (orchestrator_round orc (fresh k) (now k)) (\<lambda>_. orchestrator_rounds orc fresh now (k + 1) n)"

end
