(* ===== verification/Schedule.thy ===== *)
theory Schedule
  imports Dag
begin

text \<open>
  The specification of the engine for one execution: an abstract machine whose state is the status
  of the execution and the status of every node, with one transition each for the trigger, the
  start of a node, its completion and its failure. The services refine this machine (theory
  \<open>Engine\<close>); here the machine's invariant is proved by cases on a transition, and from it dependency
  safety, the consistency of the terminal statuses, progress and the bound on the length of a run.
\<close>

section \<open>Graphs\<close>

definition graph_workflow :: "WorkflowDag \<Rightarrow> Workflow" where
  "graph_workflow g = \<lparr>wf_workflow_id = 0, wf_name = [], wf_dag = g, wf_created_at = 0, wf_created_by = None\<rparr>"

lemma wf_dag_graph_workflow [simp]: "wf_dag (graph_workflow g) = g"
  by (simp add: graph_workflow_def)

definition graph_ids :: "WorkflowDag \<Rightarrow> string set" where
  "graph_ids g = wn_id ` set (nodes g)"

lemma finite_graph_ids [simp]: "finite (graph_ids g)"
  by (simp add: graph_ids_def)

definition valid_graph :: "WorkflowDag \<Rightarrow> bool" where
  "valid_graph g \<longleftrightarrow> valid_dag (graph_workflow g)"

lemma valid_graph_iff: "valid_dag w \<longleftrightarrow> valid_graph (wf_dag w)"
  by (simp add: valid_graph_def valid_dag_def node_ids_def closed_dag_def dep_edges_def)

definition blocked_in :: "WorkflowDag \<Rightarrow> statuses \<Rightarrow> string \<Rightarrow> bool" where
  "blocked_in g = blocked_node (graph_workflow g)"

lemma blocked_in_iff: "blocked_node w st = blocked_in (wf_dag w) st"
proof (rule ext, rule iffI)
  show "blocked_node w st i \<Longrightarrow> blocked_in (wf_dag w) st i" for i
    unfolding blocked_in_def by (induction rule: blocked_node.induct) (auto intro: blocked_node.intros)
  show "blocked_in (wf_dag w) st i \<Longrightarrow> blocked_node w st i" for i
    unfolding blocked_in_def by (induction rule: blocked_node.induct) (auto intro: blocked_node.intros)
qed

lemma valid_graph_unique:
  "valid_graph g \<Longrightarrow> m \<in> set (nodes g) \<Longrightarrow> n \<in> set (nodes g) \<Longrightarrow> wn_id m = wn_id n \<Longrightarrow> m = n"
  using valid_dag_node_unique [of "graph_workflow g" m n] by (simp add: valid_graph_def)

lemma valid_graph_closed:
  "valid_graph g \<Longrightarrow> n \<in> set (nodes g) \<Longrightarrow> d \<in> set (wn_dependencies n) \<Longrightarrow> d \<in> graph_ids g"
  by (fastforce simp: valid_graph_def valid_dag_def closed_dag_def node_ids_def graph_ids_def)

lemma blocked_in_pending: "blocked_in g st i \<Longrightarrow> i \<in> graph_ids g \<and> status_of st i = PENDING"
  unfolding blocked_in_def by (induction rule: blocked_node.induct) (auto simp: graph_ids_def)

lemma blocked_in_intros:
  assumes "n \<in> set (nodes g)" "status_of st (wn_id n) = PENDING" "d \<in> set (wn_dependencies n)"
  shows "status_of st d = FAILED \<Longrightarrow> blocked_in g st (wn_id n)"
    and "blocked_in g st d \<Longrightarrow> blocked_in g st (wn_id n)"
  unfolding blocked_in_def using assms by (auto intro: blocked_node.intros)

lemma blocked_in_cases:
  assumes "blocked_in g st i"
  obtains n d where "n \<in> set (nodes g)" "wn_id n = i" "d \<in> set (wn_dependencies n)"
    "status_of st d = FAILED \<or> status_of st d = PENDING"
proof -
  have "blocked_node (graph_workflow g) st i" using assms by (simp add: blocked_in_def)
  then show thesis
  proof cases
    case (by_failed n d)
    then show thesis using that [of n d] by simp
  next
    case (by_blocked n d)
    then have "status_of st d = PENDING" using blocked_in_pending [of g st d] by (simp add: blocked_in_def)
    then show thesis using that [of n d] by_blocked by simp
  qed
qed

section \<open>The machine\<close>

type_synonym sched = "WorkflowExecutionStatus \<times> statuses"

definition initial_sched :: "WorkflowDag \<Rightarrow> sched" where
  "initial_sched g = (WPENDING, \<lambda>i. if i \<in> graph_ids g then Some PENDING else None)"

text \<open>The status finalization gives to an execution whose nodes have statuses \<open>st\<close>.\<close>

definition settle :: "WorkflowDag \<Rightarrow> statuses \<Rightarrow> WorkflowExecutionStatus \<Rightarrow> WorkflowExecutionStatus" where
  "settle g st s =
     (if s \<noteq> WRUNNING then s
      else if \<exists>i. st i = Some FAILED then WFAILED
      else if \<forall>i \<in> graph_ids g. st i = Some COMPLETED then WCOMPLETED else s)"

text \<open>The failure of a node together with every pending node it blocks.\<close>

definition fail_node :: "WorkflowDag \<Rightarrow> statuses \<Rightarrow> string \<Rightarrow> statuses" where
  "fail_node g st i =
     (\<lambda>j. if blocked_in g (st(i \<mapsto> FAILED)) j \<and> st j = Some PENDING then Some FAILED else (st(i \<mapsto> FAILED)) j)"

inductive sched_step :: "WorkflowDag \<Rightarrow> sched \<Rightarrow> sched \<Rightarrow> bool" for g where
  step_trigger: "sched_step g (WPENDING, st) (WRUNNING, st)"
| step_start: "s \<noteq> WPENDING \<Longrightarrow> n \<in> set (nodes g) \<Longrightarrow> st (wn_id n) = Some PENDING \<Longrightarrow>
    (\<And>d. d \<in> set (wn_dependencies n) \<Longrightarrow> st d = Some COMPLETED) \<Longrightarrow>
    sched_step g (s, st) (s, st(wn_id n \<mapsto> RUNNING))"
| step_complete: "st i = Some RUNNING \<Longrightarrow>
    sched_step g (s, st) (settle g (st(i \<mapsto> COMPLETED)) s, st(i \<mapsto> COMPLETED))"
| step_fail: "st i = Some RUNNING \<Longrightarrow>
    sched_step g (s, st) (settle g (fail_node g st i) s, fail_node g st i)"

inductive_cases sched_stepE: "sched_step g (s, st) (s', st')"

abbreviation sched_reachable :: "WorkflowDag \<Rightarrow> sched \<Rightarrow> bool" where
  "sched_reachable g \<equiv> (sched_step g)\<^sup>*\<^sup>* (initial_sched g)"

section \<open>The invariant\<close>

definition sched_inv :: "WorkflowDag \<Rightarrow> sched \<Rightarrow> bool" where
  "sched_inv g x \<longleftrightarrow> (case x of (s, st) \<Rightarrow>
     dom st = graph_ids g \<and>
     (s = WPENDING \<longrightarrow> (\<forall>i \<in> graph_ids g. st i = Some PENDING)) \<and>
     (\<forall>n \<in> set (nodes g). st (wn_id n) \<in> {Some RUNNING, Some COMPLETED} \<longrightarrow>
        (\<forall>d \<in> set (wn_dependencies n). st d = Some COMPLETED)) \<and>
     (\<forall>n \<in> set (nodes g). \<forall>d \<in> set (wn_dependencies n). st d = Some FAILED \<longrightarrow> st (wn_id n) = Some FAILED) \<and>
     (s = WFAILED \<longleftrightarrow> (\<exists>i. st i = Some FAILED)) \<and>
     (s = WCOMPLETED \<longrightarrow> graph_ids g \<noteq> {} \<and> (\<forall>i \<in> graph_ids g. st i = Some COMPLETED)) \<and>
     (s = WRUNNING \<longrightarrow> graph_ids g \<noteq> {} \<longrightarrow> (\<exists>i \<in> graph_ids g. st i \<noteq> Some COMPLETED)))"

lemma sched_invD:
  assumes "sched_inv g (s, st)"
  shows "dom st = graph_ids g"
    and "s = WPENDING \<Longrightarrow> i \<in> graph_ids g \<Longrightarrow> st i = Some PENDING"
    and "n \<in> set (nodes g) \<Longrightarrow> st (wn_id n) = Some RUNNING \<or> st (wn_id n) = Some COMPLETED \<Longrightarrow>
      d \<in> set (wn_dependencies n) \<Longrightarrow> st d = Some COMPLETED"
    and "n \<in> set (nodes g) \<Longrightarrow> d \<in> set (wn_dependencies n) \<Longrightarrow> st d = Some FAILED \<Longrightarrow> st (wn_id n) = Some FAILED"
    and "s = WFAILED \<longleftrightarrow> (\<exists>i. st i = Some FAILED)"
    and "s = WCOMPLETED \<Longrightarrow> i \<in> graph_ids g \<Longrightarrow> st i = Some COMPLETED"
    and "s = WRUNNING \<Longrightarrow> graph_ids g \<noteq> {} \<Longrightarrow> \<exists>i \<in> graph_ids g. st i \<noteq> Some COMPLETED"
    and "s = WCOMPLETED \<Longrightarrow> graph_ids g \<noteq> {}"
  using assms unfolding sched_inv_def prod.case by blast+

lemma sched_invI:
  assumes "dom st = graph_ids g"
    and "\<And>i. s = WPENDING \<Longrightarrow> i \<in> graph_ids g \<Longrightarrow> st i = Some PENDING"
    and "\<And>n d. n \<in> set (nodes g) \<Longrightarrow> st (wn_id n) \<in> {Some RUNNING, Some COMPLETED} \<Longrightarrow>
      d \<in> set (wn_dependencies n) \<Longrightarrow> st d = Some COMPLETED"
    and "\<And>n d. n \<in> set (nodes g) \<Longrightarrow> d \<in> set (wn_dependencies n) \<Longrightarrow> st d = Some FAILED \<Longrightarrow> st (wn_id n) = Some FAILED"
    and "s = WFAILED \<longleftrightarrow> (\<exists>i. st i = Some FAILED)"
    and "\<And>i. s = WCOMPLETED \<Longrightarrow> i \<in> graph_ids g \<Longrightarrow> st i = Some COMPLETED"
    and "s = WCOMPLETED \<Longrightarrow> graph_ids g \<noteq> {}"
    and "s = WRUNNING \<Longrightarrow> graph_ids g \<noteq> {} \<Longrightarrow> \<exists>i \<in> graph_ids g. st i \<noteq> Some COMPLETED"
  shows "sched_inv g (s, st)"
  unfolding sched_inv_def prod.case using assms by (intro conjI ballI impI) assumption+

lemma sched_inv_status:
  assumes "sched_inv g (s, st)" and "n \<in> set (nodes g)"
  obtains x where "st (wn_id n) = Some x"
proof -
  have "wn_id n \<in> dom st" using assms sched_invD(1) by (auto simp: graph_ids_def)
  then show thesis using that by blast
qed

lemma sched_inv_initial: "sched_inv g (initial_sched g)"
  by (auto simp: sched_inv_def initial_sched_def dom_def graph_ids_def split: if_splits)

lemma sched_inv_start:
  assumes inv: "sched_inv g (s, st)" and g: "valid_graph g" and s: "s \<noteq> WPENDING" and n: "n \<in> set (nodes g)"
    and p: "st (wn_id n) = Some PENDING" and deps: "\<And>d. d \<in> set (wn_dependencies n) \<Longrightarrow> st d = Some COMPLETED"
  shows "sched_inv g (s, st(wn_id n \<mapsto> RUNNING))"
proof -
  note D = sched_invD [OF inv]
  have nd: "wn_id n \<notin> set (wn_dependencies m)" if "m \<in> set (nodes g)" "st (wn_id m) = Some RUNNING \<or> st (wn_id m) = Some COMPLETED" for m
    using D(3) [OF that] p by auto
  have same: "m = n" if "m \<in> set (nodes g)" "wn_id m = wn_id n" for m
    using valid_graph_unique [OF g that(1) n that(2)] .
  have "dom (st(wn_id n \<mapsto> RUNNING)) = graph_ids g" using D(1) n by (auto simp: graph_ids_def)
  moreover have "s \<noteq> WCOMPLETED" using D(6) [of "wn_id n"] n p by (auto simp: graph_ids_def)
  moreover have "(st(wn_id n \<mapsto> RUNNING)) i = Some FAILED \<longleftrightarrow> st i = Some FAILED" for i using p by auto
  then have "s = WFAILED \<longleftrightarrow> (\<exists>i. (st(wn_id n \<mapsto> RUNNING)) i = Some FAILED)" using D(5) by presburger
  moreover have "\<exists>i \<in> graph_ids g. (st(wn_id n \<mapsto> RUNNING)) i \<noteq> Some COMPLETED" using n by (auto simp: graph_ids_def)
  moreover have "(st(wn_id n \<mapsto> RUNNING)) d = Some COMPLETED"
    if "m \<in> set (nodes g)" "(st(wn_id n \<mapsto> RUNNING)) (wn_id m) \<in> {Some RUNNING, Some COMPLETED}"
      "d \<in> set (wn_dependencies m)" for m d
  proof (cases "wn_id m = wn_id n")
    case True
    with same that have "m = n" by blast
    with deps p that(3) show ?thesis by auto
  next
    case False
    with that D(3) [of m d] nd [of m] show ?thesis by auto
  qed
  moreover have "(st(wn_id n \<mapsto> RUNNING)) (wn_id m) = Some FAILED"
    if m: "m \<in> set (nodes g)" "d \<in> set (wn_dependencies m)" "(st(wn_id n \<mapsto> RUNNING)) d = Some FAILED" for m d
  proof -
    from m(3) have "st d = Some FAILED" by (auto split: if_splits)
    with D(4) [OF m(1,2)] p show ?thesis by auto
  qed
  ultimately show ?thesis using s unfolding sched_inv_def by blast
qed

lemma sched_inv_complete:
  assumes inv: "sched_inv g (s, st)" and r: "st i = Some RUNNING"
  shows "sched_inv g (settle g (st(i \<mapsto> COMPLETED)) s, st(i \<mapsto> COMPLETED))"
proof -
  note D = sched_invD [OF inv]
  let ?st = "st(i \<mapsto> COMPLETED)"
  have i: "i \<in> graph_ids g" using D(1) r by auto
  have s: "s = WRUNNING \<or> s = WFAILED"
    using D(2) [of i] D(6) [of i] i r by (cases s) auto
  have "?st j = Some FAILED \<longleftrightarrow> st j = Some FAILED" for j using r by auto
  then have F: "(\<exists>j. ?st j = Some FAILED) \<longleftrightarrow> (\<exists>j. st j = Some FAILED)" by presburger
  have "dom ?st = graph_ids g" using D(1) i by auto
  moreover have "settle g ?st s \<noteq> WPENDING" using s by (auto simp: settle_def)
  moreover have "settle g ?st s = WFAILED \<longleftrightarrow> (\<exists>j. ?st j = Some FAILED)"
    using s D(5) F by (auto simp: settle_def)
  moreover have "settle g ?st s = WCOMPLETED \<longrightarrow> (\<forall>j \<in> graph_ids g. ?st j = Some COMPLETED)"
    using s by (auto simp: settle_def)
  moreover have "settle g ?st s = WRUNNING \<longrightarrow> graph_ids g \<noteq> {} \<longrightarrow> (\<exists>j \<in> graph_ids g. ?st j \<noteq> Some COMPLETED)"
    using s by (auto simp: settle_def)
  moreover have "?st d = Some COMPLETED"
    if "m \<in> set (nodes g)" "?st (wn_id m) \<in> {Some RUNNING, Some COMPLETED}" "d \<in> set (wn_dependencies m)" for m d
    using that D(3) [of m d] r by (auto split: if_splits)
  moreover have "?st (wn_id m) = Some FAILED"
    if m: "m \<in> set (nodes g)" "d \<in> set (wn_dependencies m)" "?st d = Some FAILED" for m d
  proof -
    from m(3) have "st d = Some FAILED" by (auto split: if_splits)
    with D(4) [OF m(1,2)] r show ?thesis by auto
  qed
  moreover have "graph_ids g \<noteq> {}" using i by blast
  ultimately show ?thesis unfolding sched_inv_def by blast
qed

lemma fail_node_Some:
  "fail_node g st i j = Some s \<longleftrightarrow>
     (if j = i then s = FAILED
      else if blocked_in g (st(i \<mapsto> FAILED)) j \<and> st j = Some PENDING then s = FAILED else st j = Some s)"
  using blocked_in_pending [of g "st(i \<mapsto> FAILED)" i] by (auto simp: fail_node_def status_of_def)

lemma sched_inv_fail:
  assumes inv: "sched_inv g (s, st)" and g: "valid_graph g" and r: "st i = Some RUNNING"
  shows "sched_inv g (settle g (fail_node g st i) s, fail_node g st i)"
proof -
  note D = sched_invD [OF inv]
  let ?st = "fail_node g st i" and ?f = "st(i \<mapsto> FAILED)"
  have i: "i \<in> graph_ids g" using D(1) r by auto
  have s: "s = WRUNNING \<or> s = WFAILED"
    using D(2) [of i] D(6) [of i] i r by (cases s) auto
  have F: "?st i = Some FAILED" by (simp add: fail_node_Some)
  then have w: "settle g ?st s = WFAILED" using s by (auto simp: settle_def)
  have "dom ?st = graph_ids g"
  proof -
    have "?st j = None \<longleftrightarrow> st j = None" for j using r by (auto simp: fail_node_def)
    then show ?thesis using D(1) by (auto simp: dom_def)
  qed
  moreover have "?st d = Some COMPLETED"
    if m: "m \<in> set (nodes g)" "?st (wn_id m) \<in> {Some RUNNING, Some COMPLETED}" "d \<in> set (wn_dependencies m)" for m d
  proof -
    from m(2) have "st (wn_id m) = Some RUNNING \<or> st (wn_id m) = Some COMPLETED"
      by (auto simp: fail_node_Some split: if_splits)
    from D(3) [OF m(1) this m(3)] r show ?thesis by (auto simp: fail_node_Some)
  qed
  moreover have "?st (wn_id m) = Some FAILED"
    if m: "m \<in> set (nodes g)" "d \<in> set (wn_dependencies m)" and d: "?st d = Some FAILED" for m d
  proof (cases "st (wn_id m) = Some PENDING")
    case True
    with r have p: "status_of ?f (wn_id m) = PENDING" by (auto simp: status_of_def)
    have "blocked_in g ?f (wn_id m)"
    proof (cases "blocked_in g ?f d")
      case True
      with blocked_in_intros(2) [OF m(1) p m(2)] show ?thesis .
    next
      case False
      with d have "?f d = Some FAILED" by (auto simp: fail_node_def split: if_splits)
      then have "status_of ?f d = FAILED" by (simp add: status_of_def)
      with blocked_in_intros(1) [OF m(1) p m(2)] show ?thesis .
    qed
    with True show ?thesis by (simp add: fail_node_Some)
  next
    case False
    have "st (wn_id m) = Some FAILED \<or> wn_id m = i"
    proof (rule ccontr)
      assume no: "\<not> ?thesis"
      obtain x where x: "st (wn_id m) = Some x" by (rule sched_inv_status [OF inv m(1)])
      with False no have "st (wn_id m) = Some RUNNING \<or> st (wn_id m) = Some COMPLETED" by (cases x) auto
      from D(3) [OF m(1) this m(2)] d r show False by (auto simp: fail_node_Some split: if_splits)
    qed
    then show ?thesis by (auto simp: fail_node_Some)
  qed
  moreover have "\<exists>j. ?st j = Some FAILED" using F by blast
  ultimately show ?thesis unfolding w by (intro sched_invI; blast)
qed

lemma sched_inv_step:
  assumes "valid_graph g" and "sched_step g x y" and "sched_inv g x"
  shows "sched_inv g y"
  using assms(2,3)
proof cases
  case (step_trigger st)
  note D = sched_invD [OF assms(3) [unfolded step_trigger]]
  have "\<exists>i \<in> graph_ids g. st i \<noteq> Some COMPLETED" if "graph_ids g \<noteq> {}"
    using that D(2) [OF refl] by fastforce
  moreover have "\<nexists>i. st i = Some FAILED" using D(5) by blast
  ultimately show ?thesis
    unfolding step_trigger using D(1,3,4) by (intro sched_invI) (assumption | blast | simp)+
next
  case (step_start s n st)
  then show ?thesis using sched_inv_start [OF _ assms(1)] assms(3) by simp
next
  case (step_complete st i s)
  then show ?thesis using sched_inv_complete assms(3) by simp
next
  case (step_fail st i s)
  then show ?thesis using sched_inv_fail [OF _ assms(1)] assms(3) by simp
qed

lemma sched_inv_steps:
  assumes "valid_graph g" and "(sched_step g)\<^sup>*\<^sup>* x y" and "sched_inv g x"
  shows "sched_inv g y"
  using assms(2,3) by induction (auto intro: sched_inv_step [OF assms(1)])

section \<open>Progress and termination\<close>

text \<open>Every transition lowers this number: a node counts twice while pending and once while running.\<close>

definition node_weight :: "NodeExecutionStatus option \<Rightarrow> nat" where
  "node_weight x = (case x of Some PENDING \<Rightarrow> 2 | Some RUNNING \<Rightarrow> 1 | _ \<Rightarrow> 0)"

definition sched_weight :: "WorkflowDag \<Rightarrow> sched \<Rightarrow> nat" where
  "sched_weight g x = (if fst x = WPENDING then 1 else 0) + (\<Sum>i \<in> graph_ids g. node_weight (snd x i))"

lemma weight_mono:
  assumes "\<And>j. j \<in> graph_ids g \<Longrightarrow> node_weight (st' j) \<le> node_weight (st j)"
    and "i \<in> graph_ids g" and "node_weight (st' i) < node_weight (st i)"
  shows "(\<Sum>i \<in> graph_ids g. node_weight (st' i)) < (\<Sum>i \<in> graph_ids g. node_weight (st i))"
  by (rule sum_strict_mono_ex1) (use assms in auto)

lemma settle_pending: "settle g st s = WPENDING \<longleftrightarrow> s = WPENDING"
  by (auto simp: settle_def)

lemma sched_step_weight:
  assumes "sched_step g x y" and "sched_inv g x"
  shows "sched_weight g y < sched_weight g x"
  using assms
proof cases
  case (step_trigger st)
  then show ?thesis by (simp add: sched_weight_def)
next
  case (step_start s n st)
  have "(\<Sum>i \<in> graph_ids g. node_weight ((st(wn_id n \<mapsto> RUNNING)) i)) < (\<Sum>i \<in> graph_ids g. node_weight (st i))"
    by (rule weight_mono [of _ _ _ "wn_id n"]) (use step_start in \<open>auto simp: node_weight_def graph_ids_def\<close>)
  with step_start show ?thesis by (simp add: sched_weight_def)
next
  case (step_complete st i s)
  have "i \<in> graph_ids g" using assms(2) step_complete by (auto simp: sched_inv_def)
  then have "(\<Sum>j \<in> graph_ids g. node_weight ((st(i \<mapsto> COMPLETED)) j)) < (\<Sum>j \<in> graph_ids g. node_weight (st j))"
    by (intro weight_mono [of _ _ _ i]) (use step_complete in \<open>auto simp: node_weight_def\<close>)
  with step_complete show ?thesis by (simp add: sched_weight_def settle_pending)
next
  case (step_fail st i s)
  have "i \<in> graph_ids g" using assms(2) step_fail by (auto simp: sched_inv_def)
  then have "(\<Sum>j \<in> graph_ids g. node_weight (fail_node g st i j)) < (\<Sum>j \<in> graph_ids g. node_weight (st j))"
    by (intro weight_mono [of _ _ _ i]) (use step_fail in \<open>auto simp: node_weight_def fail_node_def\<close>)
  with step_fail show ?thesis by (simp add: sched_weight_def settle_pending)
qed

lemma sched_weight_initial: "sched_weight g (initial_sched g) \<le> 2 * length (nodes g) + 1"
proof -
  have "(\<Sum>i \<in> graph_ids g. node_weight (snd (initial_sched g) i)) = 2 * card (graph_ids g)"
    by (simp add: initial_sched_def node_weight_def)
  moreover have "card (graph_ids g) \<le> length (nodes g)"
    unfolding graph_ids_def using card_image_le [of "set (nodes g)" wn_id] card_length [of "nodes g"] by simp
  ultimately show ?thesis by (simp add: sched_weight_def)
qed

lemma sched_run_weight:
  assumes "valid_graph g" and "(sched_step g ^^ k) x y" and "sched_inv g x"
  shows "sched_inv g y \<and> k + sched_weight g y \<le> sched_weight g x"
  using assms(2)
proof (induction k arbitrary: y)
  case 0
  with assms(3) show ?case by simp
next
  case (Suc k)
  then obtain z where z: "(sched_step g ^^ k) x z" "sched_step g z y" by auto
  with Suc.IH have "sched_inv g z" "k + sched_weight g z \<le> sched_weight g x" by auto
  with sched_step_weight [OF z(2)] sched_inv_step [OF assms(1) z(2)] show ?case by simp
qed

text \<open>A running execution of a nonempty definition is never stuck: a node runs or can be started.\<close>

lemma sched_progress:
  assumes g: "valid_graph g" and inv: "sched_inv g (WRUNNING, st)" and ne: "nodes g \<noteq> []"
  shows "(\<exists>i. st i = Some RUNNING) \<or> (\<exists>n \<in> set (nodes g). ready st n)"
proof (rule ccontr)
  assume no: "\<not> ?thesis"
  note D = sched_invD [OF inv]
  have nofail: "st i \<noteq> Some FAILED" for i using D(5) by blast
  have st: "st (wn_id n) = Some PENDING \<or> st (wn_id n) = Some COMPLETED" if n: "n \<in> set (nodes g)" for n
  proof -
    obtain x where x: "st (wn_id n) = Some x" by (rule sched_inv_status [OF inv n])
    moreover have "x \<noteq> RUNNING" "x \<noteq> FAILED" using x no nofail by auto
    ultimately show ?thesis by (cases x) auto
  qed
  obtain n where n: "n \<in> set (nodes g)" "st (wn_id n) = Some PENDING"
    using D(7) ne st by (fastforce simp: graph_ids_def)
  obtain m where m: "m \<in> set (nodes g)" "st (wn_id m) = Some PENDING"
    and min: "\<And>d. d \<in> set (wn_dependencies m) \<Longrightarrow> st d \<noteq> Some PENDING"
    using valid_dag_minimal [of "graph_workflow g" n "\<lambda>i. st i = Some PENDING"] g n by (auto simp: valid_graph_def)
  have "st d = Some COMPLETED" if "d \<in> set (wn_dependencies m)" for d
    using valid_graph_closed [OF g m(1) that] min [OF that] st by (auto simp: graph_ids_def)
  with m have "ready st m" by (auto simp: ready_def status_of_def)
  with no m(1) show False by blast
qed

end
