(* ===== verification/Effects.thy ===== *)
theory Effects
  imports Completion Schedule
begin

text \<open>
  What the transactions do to the scheduling state. The view of a database is the status of every
  execution and node execution and the stored graph of every workflow. Each repository operation
  and each service transaction is characterised by its effect on the view, on the outbox and on the
  key invariants; the engine invariants and the properties of the services rest on these facts.
\<close>

section \<open>The view\<close>

definition exec_view :: "db \<Rightarrow> uuid \<rightharpoonup> uuid \<times> WorkflowExecutionStatus" where
  "exec_view d e = map_option (\<lambda>x. (we_workflow_id x, we_status x)) (executions_t.row d e)"

definition node_view :: "db \<Rightarrow> uuid \<times> string \<rightharpoonup> NodeExecutionStatus" where
  "node_view d k = map_option ne_status (nodes_t.row d k)"

definition dag_view :: "db \<Rightarrow> uuid \<rightharpoonup> WorkflowDag" where
  "dag_view d w = map_option wr_dag_definition (workflows_t.row d w)"

lemma view_code [code]:
  "exec_view d e = map_option (\<lambda>x. (we_workflow_id x, we_status x)) (find (\<lambda>x. we_execution_id x = e) (db_executions d))"
  "node_view d k = map_option ne_status (find (\<lambda>n. node_key n = k) (db_nodes d))"
  "dag_view d w = map_option wr_dag_definition (find (\<lambda>r. wr_workflow_id r = w) (db_workflows d))"
  by (simp_all add: exec_view_def node_view_def dag_view_def executions_t.row_def nodes_t.row_def workflows_t.row_def)

definition core_keys :: "db \<Rightarrow> bool" where
  "core_keys d \<longleftrightarrow> workflows_t.unique d \<and> executions_t.unique d \<and> nodes_t.unique d \<and> outbox_t.unique d"

text \<open>The tables the scheduling services own, apart from the outbox, and the tables of tasks,
  attempts, retries and claims.\<close>

definition sched_tables :: "db \<Rightarrow> WorkflowRecord list \<times> WorkflowExecutionRecord list \<times> NodeExecutionRecord list" where
  "sched_tables d = (db_workflows d, db_executions d, db_nodes d)"

definition task_tables ::
    "db \<Rightarrow> LogicalTaskRecord list \<times> TaskAttemptRecord list \<times> TaskRetryDispatchRecord list \<times> TaskProcessingRecord list" where
  "task_tables d = (db_logical_tasks d, db_attempts d, db_retries d, db_processing d)"

lemma core_keysD:
  assumes "core_keys d"
  shows "workflows_t.unique d" "executions_t.unique d" "nodes_t.unique d" "outbox_t.unique d"
  using assms by (simp_all add: core_keys_def)

lemma sched_tables_view:
  assumes "sched_tables d' = sched_tables d"
  shows "exec_view d' = exec_view d" "node_view d' = node_view d" "dag_view d' = dag_view d"
    "executions_t.row d' = executions_t.row d" "nodes_t.row d' = nodes_t.row d"
    "workflows_t.row d' = workflows_t.row d"
  using assms
  by (simp_all add: sched_tables_def fun_eq_iff exec_view_def node_view_def dag_view_def
      executions_t.row_def nodes_t.row_def workflows_t.row_def)

lemma core_keys_cong:
  "core_keys d \<Longrightarrow> sched_tables d' = sched_tables d \<Longrightarrow> db_outbox d' = db_outbox d \<Longrightarrow> core_keys d'"
  by (simp add: core_keys_def sched_tables_def workflows_t.unique_def executions_t.unique_def
      nodes_t.unique_def outbox_t.unique_def)

section \<open>Reads\<close>

lemma require_apply:
  "require e m d = (case m d of Inl err \<Rightarrow> Inl err | Inr (None, d') \<Rightarrow> Inl e | Inr (Some x, d') \<Rightarrow> Inr (x, d'))"
  by (cases "m d") (auto simp: require_def split: option.split)

lemma get_execution_eq:
  assumes "core_keys d"
  shows "get_execution_by_id e d = Inr (executions_t.row d e, d)"
    and "get_execution_by_id_for_update e d = Inr (executions_t.row d e, d)"
  by (simp_all add: get_execution_by_id_def get_execution_by_id_for_update_def
      executions_t.select_one_key core_keysD(2) [OF assms])

lemma require_execution:
  assumes "core_keys d"
  shows "require err (get_execution_by_id e) d =
      (case executions_t.row d e of None \<Rightarrow> Inl err | Some x \<Rightarrow> Inr (x, d))"
    and "require err (get_execution_by_id_for_update e) d =
      (case executions_t.row d e of None \<Rightarrow> Inl err | Some x \<Rightarrow> Inr (x, d))"
  by (simp_all add: require_apply get_execution_eq [OF assms] split: option.split)

definition loaded_workflow :: "WorkflowRecord \<Rightarrow> Workflow" where
  "loaded_workflow r = \<lparr>wf_workflow_id = wr_workflow_id r, wf_name = wr_name r, wf_dag = wr_dag_definition r,
     wf_created_at = wr_created_at r, wf_created_by = None\<rparr>"

lemma loaded_workflow_dag [simp]: "wf_dag (loaded_workflow r) = wr_dag_definition r"
  by (simp add: loaded_workflow_def)

lemma require_workflow:
  assumes "core_keys d"
  shows "require err (get_workflow_by_id w) d =
      (case workflows_t.row d w of None \<Rightarrow> Inl err | Some r \<Rightarrow> Inr (loaded_workflow r, d))"
  by (simp add: require_apply get_workflow_by_id_def workflows_t.select_one_key core_keysD(1) [OF assms]
      loaded_workflow_def split: option.split)

abbreviation nodes_of :: "db \<Rightarrow> uuid \<Rightarrow> NodeExecution list" where
  "nodes_of d e \<equiv> filter (\<lambda>r. ne_workflow_execution_id r = e) (db_nodes d)"

lemma get_nodes_eq: "get_node_executions_for_execution e d = Inr (nodes_of d e, d)"
  by (simp add: get_node_executions_for_execution_def table_simps)

lemma node_view_iff:
  assumes "core_keys d"
  shows "node_view d (e, i) = Some s \<longleftrightarrow> (\<exists>n \<in> set (db_nodes d). node_key n = (e, i) \<and> ne_status n = s)"
proof
  assume "node_view d (e, i) = Some s"
  then obtain n where "nodes_t.row d (e, i) = Some n" "ne_status n = s" by (auto simp: node_view_def)
  with find_key [of node_key "(e, i)" "db_nodes d" n]
  show "\<exists>n \<in> set (db_nodes d). node_key n = (e, i) \<and> ne_status n = s" by (auto simp: nodes_t.row_def)
next
  assume "\<exists>n \<in> set (db_nodes d). node_key n = (e, i) \<and> ne_status n = s"
  then obtain n where n: "n \<in> set (db_nodes d)" "node_key n = (e, i)" "ne_status n = s" by blast
  with nodes_t.row_mem [OF core_keysD(3) [OF assms], of n] show "node_view d (e, i) = Some s"
    by (simp add: node_view_def)
qed

lemma distinct_nodes_of:
  assumes "core_keys d"
  shows "distinct (map ne_node_id (nodes_of d e))"
proof -
  have "distinct (map node_key (nodes_of d e))"
    using core_keysD(3) [OF assms] by (simp add: nodes_t.unique_def distinct_map_filter_key)
  then show ?thesis by (auto simp: distinct_map inj_on_def)
qed

lemma statuses_by_id_view:
  assumes "core_keys d"
  shows "statuses_by_id (nodes_of d e) = (\<lambda>i. node_view d (e, i))"
proof
  fix i
  have dist: "distinct (map fst (rev (map (\<lambda>n. (ne_node_id n, ne_status n)) (nodes_of d e))))"
    using distinct_nodes_of [OF assms] by (simp add: comp_def rev_map [symmetric])
  have "statuses_by_id (nodes_of d e) i = Some s \<longleftrightarrow> node_view d (e, i) = Some s" for s
    unfolding statuses_by_id_def map_of_Some_distinct_iff [OF dist] node_view_iff [OF assms] by auto
  then show "statuses_by_id (nodes_of d e) i = node_view d (e, i)" by (metis option.exhaust)
qed

lemma find_node: "find (\<lambda>n. ne_node_id n = i) (nodes_of d e) = nodes_t.row d (e, i)"
proof -
  have "find (\<lambda>n. ne_node_id n = i) (filter (\<lambda>r. ne_workflow_execution_id r = e) ns) =
      find (\<lambda>n. node_key n = (e, i)) ns" for ns
    by (induction ns) auto
  then show ?thesis by (simp add: nodes_t.row_def)
qed

lemma any_status_view:
  assumes "core_keys d"
  shows "list_ex (\<lambda>n. ne_status n = s) (nodes_of d e) \<longleftrightarrow> (\<exists>i. node_view d (e, i) = Some s)"
  unfolding node_view_iff [OF assms] by (auto simp: list_ex_iff)

section \<open>Writes\<close>

text \<open>\<open>posts P d d'\<close>: the outbox grew by rows with \<open>P\<close>.\<close>

definition posts :: "(OutboxEventRecord \<Rightarrow> bool) \<Rightarrow> db \<Rightarrow> db \<Rightarrow> bool" where
  "posts P d d' \<longleftrightarrow> (\<exists>rows. db_outbox d' = db_outbox d @ rows \<and> (\<forall>r \<in> set rows. P r))"

definition quiet :: "OutboxEventRecord \<Rightarrow> bool" where
  "quiet r \<longleftrightarrow> ob_event_type r \<noteq> ''workflow.execution.triggered''"

lemma posts_refl [simp]: "posts P d d"
  by (simp add: posts_def)

lemma posts_same: "db_outbox d' = db_outbox d \<Longrightarrow> posts P d d'"
  by (simp add: posts_def)

lemma posts_trans: "posts P d d' \<Longrightarrow> posts P d' d'' \<Longrightarrow> posts P d d''"
  unfolding posts_def by (metis (no_types, lifting) Un_iff append.assoc set_append)

lemma add_message_effect:
  assumes "core_keys d" and "add_message mid ty st pl ag d = Inr (u, d')"
  obtains r where "db_outbox d' = db_outbox d @ [r]" "ob_event_id r = mid" "ob_event_type r = ty"
    "ob_target_stream r = st" "ob_payload r = pl" "ob_aggregate_id r = ag" "ob_status r = ''pending''"
    "core_keys d'" "sched_tables d' = sched_tables d" "task_tables d' = task_tables d"
    "mid \<notin> ob_event_id ` set (db_outbox d)"
proof -
  let ?r = "\<lparr>ob_event_id = mid, ob_event_type = ty, ob_aggregate_id = ag, ob_target_stream = st,
     ob_payload = pl, ob_status = ''pending'', ob_publish_attempts = 0, ob_last_error = None,
     ob_created_at = db_now d, ob_published_at = None\<rparr>"
  from assms(2) have new: "ob_event_id ?r \<notin> ob_event_id ` set (db_outbox d)"
    and d': "d' = db_outbox_update (\<lambda>rows. rows @ [?r]) d"
    by (auto simp: add_message_def table_simps split: if_splits)
  have "outbox_t.unique d'" unfolding d'
    using outbox_t.insert_keeps_unique [OF core_keysD(4) [OF assms(1)] new] .
  then have "core_keys d'"
    using assms(1) by (simp add: core_keys_def d' workflows_t.unique_def executions_t.unique_def nodes_t.unique_def)
  then show thesis
    using that [of ?r] new by (simp add: d' sched_tables_def task_tables_def)
qed

lemma update_execution_effect:
  assumes keys: "core_keys d"
  obtains d' where "update_execution_status_if_current e s s' st ct inp d = Inr (map_option snd (exec_view d e) = Some s, d')"
    and "core_keys d'" "node_view d' = node_view d" "dag_view d' = dag_view d"
    "task_tables d' = task_tables d" "db_outbox d' = db_outbox d" "db_nodes d' = db_nodes d"
    "exec_view d' = (case exec_view d e of
       Some (w, x) \<Rightarrow> if x = s then (exec_view d)(e \<mapsto> (w, s')) else exec_view d | None \<Rightarrow> exec_view d)"
    "executions_t.row d' = (case executions_t.row d e of
       Some r \<Rightarrow> if we_status r = s then (executions_t.row d)(e \<mapsto> r\<lparr>we_status := s',
          we_started_at := keep_or st (we_started_at r), we_completed_at := keep_or ct (we_completed_at r),
          we_input_data := (case inp of None \<Rightarrow> we_input_data r | Some i \<Rightarrow> i)\<rparr>) else executions_t.row d
     | None \<Rightarrow> executions_t.row d)"
    "map_option snd (exec_view d e) \<noteq> Some s \<Longrightarrow> d' = d"
proof -
  let ?f = "\<lambda>r. r\<lparr>we_status := s', we_started_at := keep_or st (we_started_at r),
     we_completed_at := keep_or ct (we_completed_at r),
     we_input_data := (case inp of None \<Rightarrow> we_input_data r | Some i \<Rightarrow> i)\<rparr>"
  let ?d = "db_executions_update (update_rows (\<lambda>r. we_execution_id r = e \<and> we_status r = s) ?f) d"
  have u: "executions_t.unique ?d"
    by (rule executions_t.update_keeps_unique [OF core_keysD(2) [OF keys]]) simp
  have row: "executions_t.row ?d = (case executions_t.row d e of
      Some r \<Rightarrow> if we_status r = s then (executions_t.row d)(e \<mapsto> ?f r) else executions_t.row d
    | None \<Rightarrow> executions_t.row d)"
    by (rule executions_t.row_update_key) simp
  have "exec_view ?d = (case exec_view d e of
       Some (w, x) \<Rightarrow> if x = s then (exec_view d)(e \<mapsto> (w, s')) else exec_view d | None \<Rightarrow> exec_view d)"
    unfolding exec_view_def fun_eq_iff row by (auto split: option.split)
  moreover have "update_execution_status_if_current e s s' st ct inp d = Inr (map_option snd (exec_view d e) = Some s, ?d)"
    by (auto simp: update_execution_status_if_current_def executions_t.update_where_key [OF core_keysD(2) [OF keys]]
        exec_view_def split: option.split)
  moreover have "core_keys ?d"
    using keys u by (simp add: core_keys_def workflows_t.unique_def nodes_t.unique_def outbox_t.unique_def)
  moreover have "?d = d" if "map_option snd (exec_view d e) \<noteq> Some s"
  proof -
    have "filter (\<lambda>r. we_execution_id r = e \<and> we_status r = s) (db_executions d) = []"
      using executions_t.filter_key [OF core_keysD(2) [OF keys], of e "\<lambda>r. we_status r = s"] that
      by (auto simp: exec_view_def split: option.splits)
    then show ?thesis by (simp add: filter_empty_conv update_rows_none)
  qed
  ultimately show thesis
    using that [of ?d] row
    by (simp add: node_view_def dag_view_def nodes_t.row_def workflows_t.row_def task_tables_def fun_eq_iff)
qed

text \<open>An update of node rows that keeps their keys.\<close>

lemma node_update_frame:
  fixes p :: "NodeExecution \<Rightarrow> bool" and f :: "NodeExecution \<Rightarrow> NodeExecution" and d :: db
  assumes keys: "core_keys d" and f: "\<And>r. node_key (f r) = node_key r"
  defines "d' \<equiv> db_nodes_update (update_rows p f) d"
  shows "core_keys d'" "exec_view d' = exec_view d" "dag_view d' = dag_view d"
    "task_tables d' = task_tables d" "db_outbox d' = db_outbox d" "db_executions d' = db_executions d"
    "executions_t.row d' = executions_t.row d"
    "node_view d' k = map_option (\<lambda>r. ne_status (if p r then f r else r)) (nodes_t.row d k)"
proof -
  have "nodes_t.unique d'" unfolding d'_def
    by (rule nodes_t.update_keeps_unique [OF core_keysD(3) [OF keys]]) (rule f)
  then show "core_keys d'"
    using keys by (simp add: core_keys_def d'_def workflows_t.unique_def executions_t.unique_def outbox_t.unique_def)
  show "exec_view d' = exec_view d" "dag_view d' = dag_view d" "executions_t.row d' = executions_t.row d"
    by (simp_all add: fun_eq_iff exec_view_def dag_view_def d'_def executions_t.row_def workflows_t.row_def)
  show "task_tables d' = task_tables d" "db_outbox d' = db_outbox d" "db_executions d' = db_executions d"
    by (simp_all add: task_tables_def d'_def)
  show "node_view d' k = map_option (\<lambda>r. ne_status (if p r then f r else r)) (nodes_t.row d k)"
    unfolding node_view_def d'_def
    using nodes_t.row_update [of p f d k] f by (simp add: option.map_comp comp_def)
qed

lemma pending_update_effect:
  fixes e :: uuid and ids :: "string list" and f :: "NodeExecution \<Rightarrow> NodeExecution" and d :: db
  assumes keys: "core_keys d" and f: "\<And>r. node_key (f r) = node_key r" "\<And>r. ne_status (f r) = s"
  defines "p \<equiv> \<lambda>r. ne_workflow_execution_id r = e \<and> ne_node_id r \<in> set ids \<and> ne_status r = PENDING"
  defines "d' \<equiv> db_nodes_update (update_rows p f) d"
  shows "node_view d' = (\<lambda>(e', i). if e' = e \<and> i \<in> set ids \<and> node_view d (e, i) = Some PENDING then Some s
      else node_view d (e', i))"
    and "set (map ne_node_id (filter p (db_nodes d))) = {i \<in> set ids. node_view d (e, i) = Some PENDING}"
proof -
  show "node_view d' = (\<lambda>(e', i). if e' = e \<and> i \<in> set ids \<and> node_view d (e, i) = Some PENDING then Some s
      else node_view d (e', i))"
  proof (rule ext, clarify)
    fix e' i
    show "node_view d' (e', i) = (if e' = e \<and> i \<in> set ids \<and> node_view d (e, i) = Some PENDING then Some s
        else node_view d (e', i))"
    proof (cases "nodes_t.row d (e', i)")
      case None
      then show ?thesis
        using node_update_frame(8) [OF keys f(1), of p "(e', i)"] by (auto simp: d'_def node_view_def)
    next
      case (Some r)
      then have "node_key r = (e', i)" by (rule nodes_t.row_key)
      with Some show ?thesis
        using node_update_frame(8) [OF keys f(1), of p "(e', i)"] f(2)
        by (auto simp: d'_def node_view_def p_def)
    qed
  qed
  show "set (map ne_node_id (filter p (db_nodes d))) = {i \<in> set ids. node_view d (e, i) = Some PENDING}"
    unfolding node_view_iff [OF keys] p_def by auto
qed

lemma claim_pending_effect:
  assumes keys: "core_keys d"
  obtains ids d' where "claim_pending_nodes e [i] d = Inr (ids, d')"
    and "ids \<noteq> [] \<longleftrightarrow> node_view d (e, i) = Some PENDING"
    and "core_keys d'" "exec_view d' = exec_view d" "dag_view d' = dag_view d"
    "task_tables d' = task_tables d" "db_outbox d' = db_outbox d" "executions_t.row d' = executions_t.row d"
    and "node_view d' = (if ids \<noteq> [] then (node_view d)((e, i) \<mapsto> RUNNING) else node_view d)"
    and "ids = [] \<Longrightarrow> d' = d"
proof -
  let ?p = "\<lambda>r. ne_workflow_execution_id r = e \<and> ne_node_id r \<in> set [i] \<and> ne_status r = PENDING"
  let ?f = "\<lambda>r. r\<lparr>ne_status := RUNNING, ne_started_at := Some (db_now d)\<rparr>"
  let ?d = "db_nodes_update (update_rows ?p ?f) d"
  let ?ids = "map ne_node_id (filter ?p (db_nodes d))"
  have run: "claim_pending_nodes e [i] d = Inr (?ids, ?d)"
    by (simp add: claim_pending_nodes_def table_simps)
  have k: "\<And>r. node_key (?f r) = node_key r" "\<And>r. ne_status (?f r) = RUNNING" by simp_all
  note eff = pending_update_effect [OF keys k, of e "[i]"]
  have "set ?ids = {j \<in> set [i]. node_view d (e, j) = Some PENDING}" by (rule eff(2))
  then have ids: "?ids \<noteq> [] \<longleftrightarrow> node_view d (e, i) = Some PENDING"
    by (metis (mono_tags, lifting) empty_iff list.set_intros(1) mem_Collect_eq set_empty set_ConsD empty_set
        last_in_set)
  have "?ids = [] \<Longrightarrow> ?d = d"
    by (simp add: filter_empty_conv update_rows_none)
  moreover have "node_view ?d = (if ?ids \<noteq> [] then (node_view d)((e, i) \<mapsto> RUNNING) else node_view d)"
    using eff(1) unfolding ids by (auto simp: fun_eq_iff)
  ultimately show thesis
    using that [OF run ids node_update_frame(1-5,7) [OF keys k(1), of ?p]] by blast
qed

lemma fail_pending_effect:
  assumes keys: "core_keys d"
  obtains failed d' where "fail_pending_nodes e ids reason now d = Inr (failed, d')"
    and "core_keys d'" "exec_view d' = exec_view d" "dag_view d' = dag_view d"
    "task_tables d' = task_tables d" "db_outbox d' = db_outbox d" "executions_t.row d' = executions_t.row d"
    and "set failed = {i \<in> set ids. node_view d (e, i) = Some PENDING}"
    and "node_view d' = (\<lambda>(e', i). if e' = e \<and> i \<in> set ids \<and> node_view d (e, i) = Some PENDING then Some FAILED
      else node_view d (e', i))"
    and "failed = [] \<Longrightarrow> d' = d"
proof (cases "ids = []")
  case True
  then show thesis using that [of "[]" d] keys by (simp add: fail_pending_nodes_def)
next
  case False
  let ?p = "\<lambda>r. ne_workflow_execution_id r = e \<and> ne_node_id r \<in> set ids \<and> ne_status r = PENDING"
  let ?f = "\<lambda>r. r\<lparr>ne_status := FAILED, ne_error_message := Some reason,
                    ne_error_type := Some ''FailedDependency'', ne_completed_at := Some now\<rparr>"
  let ?d = "db_nodes_update (update_rows ?p ?f) d"
  have run: "fail_pending_nodes e ids reason now d = Inr (map ne_node_id (filter ?p (db_nodes d)), ?d)"
    using False by (simp add: fail_pending_nodes_def table_simps)
  have k: "\<And>r. node_key (?f r) = node_key r" "\<And>r. ne_status (?f r) = FAILED" by simp_all
  have "?d = d" if "map ne_node_id (filter ?p (db_nodes d)) = []"
    using that by (simp add: filter_empty_conv update_rows_none)
  then show thesis
    using that [OF run node_update_frame(1-5,7) [OF keys k(1), of ?p]]
      pending_update_effect(2,1) [OF keys k, of e ids] by blast
qed

lemma update_node_effect:
  assumes keys: "core_keys d"
  obtains d' where "update_node_status_if_current e i s s' out msg ty st ct d = Inr (node_view d (e, i) = Some s, d')"
    and "core_keys d'" "exec_view d' = exec_view d" "dag_view d' = dag_view d"
    "task_tables d' = task_tables d" "db_outbox d' = db_outbox d" "executions_t.row d' = executions_t.row d"
    and "node_view d' = (if node_view d (e, i) = Some s then (node_view d)((e, i) \<mapsto> s') else node_view d)"
    and "nodes_t.row d' = (case nodes_t.row d (e, i) of
       Some r \<Rightarrow> if ne_status r = s then (nodes_t.row d)((e, i) \<mapsto> r\<lparr>ne_status := s',
               ne_output_data := (case out of None \<Rightarrow> ne_output_data r | Some v \<Rightarrow> v),
               ne_error_message := keep_or msg (ne_error_message r), ne_error_type := keep_or ty (ne_error_type r),
               ne_started_at := keep_or st (ne_started_at r), ne_completed_at := keep_or ct (ne_completed_at r)\<rparr>)
           else nodes_t.row d
     | None \<Rightarrow> nodes_t.row d)"
    and "node_view d (e, i) \<noteq> Some s \<Longrightarrow> d' = d"
proof -
  let ?p = "\<lambda>r. node_key r = (e, i) \<and> ne_status r = s"
  let ?f = "\<lambda>r. r\<lparr>ne_status := s', ne_output_data := (case out of None \<Rightarrow> ne_output_data r | Some v \<Rightarrow> v),
               ne_error_message := keep_or msg (ne_error_message r), ne_error_type := keep_or ty (ne_error_type r),
               ne_started_at := keep_or st (ne_started_at r), ne_completed_at := keep_or ct (ne_completed_at r)\<rparr>"
  let ?d = "db_nodes_update (update_rows ?p ?f) d"
  have u: "nodes_t.unique d" by (rule core_keysD(3) [OF keys])
  have k: "\<And>r. node_key (?f r) = node_key r" by simp
  have row: "nodes_t.row ?d = (case nodes_t.row d (e, i) of
      Some r \<Rightarrow> if ne_status r = s then (nodes_t.row d)((e, i) \<mapsto> ?f r) else nodes_t.row d | None \<Rightarrow> nodes_t.row d)"
    by (rule nodes_t.row_update_key) simp
  have "update_node_status_if_current e i s s' out msg ty st ct d = Inr (node_view d (e, i) = Some s, ?d)"
    using nodes_t.update_where_key [OF u, of "(e, i)" "\<lambda>r. ne_status r = s" ?f]
    by (auto simp: update_node_status_if_current_def node_view_def split: option.split)
  moreover have "node_view ?d = (if node_view d (e, i) = Some s then (node_view d)((e, i) \<mapsto> s') else node_view d)"
    unfolding node_view_def fun_eq_iff row by (auto split: option.split)
  moreover have "?d = d" if "node_view d (e, i) \<noteq> Some s"
  proof -
    have "filter ?p (db_nodes d) = []"
      using nodes_t.filter_key [OF u, of "(e, i)" "\<lambda>r. ne_status r = s"] that
      by (auto simp: node_view_def split: option.splits)
    then show ?thesis by (simp add: filter_empty_conv update_rows_none)
  qed
  ultimately show thesis
    using that [of ?d] node_update_frame(1-5,7) [OF keys k, of ?p] row by blast
qed

section \<open>Frames\<close>

text \<open>\<open>keeps g m\<close>: a committed run of \<open>m\<close> leaves the part \<open>g\<close> of the database alone. The rules follow the
  structure of a transaction.\<close>

definition keeps :: "(db \<Rightarrow> 'g) \<Rightarrow> (db, 'a) tx \<Rightarrow> bool" where
  "keeps g m \<longleftrightarrow> (\<forall>d x d'. m d = Inr (x, d') \<longrightarrow> g d' = g d)"

lemma keepsD: "keeps g m \<Longrightarrow> m d = Inr (x, d') \<Longrightarrow> g d' = g d"
  by (auto simp: keeps_def)

lemma keeps_basic:
  "keeps g (tx_return x)" "keeps g (tx_raise e)" "keeps g (tx_lift r)"
  by (auto simp: keeps_def rbind_Inr_iff)

lemma keeps_bind: "keeps g m \<Longrightarrow> (\<And>x. keeps g (f x)) \<Longrightarrow> keeps g (tx_bind m f)"
  unfolding keeps_def by (auto simp: rbind_Inr_iff)

lemma keeps_if: "(b \<Longrightarrow> keeps g m) \<Longrightarrow> (\<not> b \<Longrightarrow> keeps g n) \<Longrightarrow> keeps g (if b then m else n)"
  by simp

lemma keeps_option: "keeps g m \<Longrightarrow> (\<And>x. keeps g (f x)) \<Longrightarrow> keeps g (case a of None \<Rightarrow> m | Some x \<Rightarrow> f x)"
  by (cases a) auto

lemma keeps_scalar: "keeps g (scalar_one_or_none rows)"
  by (auto simp: keeps_def scalar_one_or_none_def split: list.splits)

lemma keeps_select: "keeps g (select_where get p)" "keeps g (select_one get p)"
proof -
  show "keeps g (select_where get p)" for get :: "db \<Rightarrow> 'x list" and p by (auto simp: keeps_def table_simps)
  then show "keeps g (select_one get p)"
    unfolding select_one_def by (intro keeps_bind keeps_scalar) (auto simp: keeps_def table_simps)
qed

lemma keeps_update:
  assumes "\<And>h d. g (upd h d) = g d"
  shows "keeps g (update_where get upd p f)" "keeps g (insert_row get upd k r)" "keeps g (insert_ignore get upd k r)"
  by (auto simp: keeps_def table_simps assms split: if_splits)

abbreviation sched_part :: "db \<Rightarrow> (WorkflowRecord list \<times> WorkflowExecutionRecord list \<times> NodeExecutionRecord list) \<times> OutboxEventRecord list \<times> TaskProcessingRecord list" where
  "sched_part d \<equiv> (sched_tables d, db_outbox d, db_processing d)"

lemma keeps_task_updates:
  "keeps sched_part (update_attempt i f1)" "keeps sched_part (update_logical_task t f2)"
  "keeps sched_part (insert_attempt a)" "keeps sched_part (get_attempt i)" "keeps sched_part (get_logical_task t)"
proof -
  show "keeps sched_part (update_attempt i f1)" "keeps sched_part (update_logical_task t f2)"
    unfolding update_attempt_def update_logical_task_def
    by (intro keeps_bind keeps_update keeps_basic; simp add: sched_tables_def)+
  show "keeps sched_part (insert_attempt a)"
    by (auto simp: keeps_def insert_attempt_def table_simps sched_tables_def split: if_splits)
  show "keeps sched_part (get_attempt i)" "keeps sched_part (get_logical_task t)"
    unfolding get_attempt_def get_logical_task_def by (rule keeps_select)+
qed

lemmas keeps_rules = keeps_bind keeps_basic keeps_if keeps_option keeps_scalar keeps_select keeps_task_updates

lemma keeps_record_success: "keeps sched_part (record_success t i e now)"
  unfolding record_success_def by (intro keeps_rules)

lemma keeps_record_failure: "keeps sched_part (record_failure fresh t i e msg ty now m later)"
  unfolding record_failure_def exhaust_task_def schedule_retry_def
  by (intro keeps_rules keeps_update) (simp_all add: sched_tables_def)

lemma keeps_register: "keeps sched_part (register_initial_task t e n h c rin i now)"
  unfolding register_initial_task_def
  by (intro keeps_rules keeps_update) (simp_all add: sched_tables_def)

lemma keeps_mark_retry: "keeps sched_part (mark_retry_published i now)"
  unfolding mark_retry_published_def
  by (intro keeps_rules keeps_update) (simp_all add: sched_tables_def)

section \<open>Service transactions\<close>

lemma trigger_effect:
  assumes keys: "core_keys d" and run: "trigger_tx fresh now e inp d = Inr (x, d')"
  obtains w r where "exec_view d e = Some (w, WPENDING)" "exec_view d' = (exec_view d)(e \<mapsto> (w, WRUNNING))"
    "node_view d' = node_view d" "dag_view d' = dag_view d" "task_tables d' = task_tables d" "core_keys d'"
    "db_outbox d' = db_outbox d @ [r]" "ob_event_id r = fresh" "ob_event_type r = ''workflow.execution.triggered''"
    "ob_target_stream r = WORKFLOW_EVENTS_STREAM" "ob_status r = ''pending''"
    "ob_payload r = [(PStr ''execution_id'', PStr (uuid_str e))]"
    "x = \<lparr>td_execution_id = e, td_status = WRUNNING\<rparr>"
proof -
  obtain d1 where upd: "update_execution_status_if_current e WPENDING WRUNNING (Some now) None inp d =
      Inr (map_option snd (exec_view d e) = Some WPENDING, d1)"
    and 1: "core_keys d1" "node_view d1 = node_view d" "dag_view d1 = dag_view d" "task_tables d1 = task_tables d"
      "db_outbox d1 = db_outbox d"
    and ev: "exec_view d1 = (case exec_view d e of Some (w, x) \<Rightarrow>
       if x = WPENDING then (exec_view d)(e \<mapsto> (w, WRUNNING)) else exec_view d | None \<Rightarrow> exec_view d)"
    by (rule update_execution_effect [OF keys, where e = e and s = WPENDING and s' = WRUNNING and st = "Some now"
          and ct = None and inp = inp]) blast
  from run obtain ex where ex: "executions_t.row d e = Some ex" "we_status ex = WPENDING"
    by (auto simp: trigger_tx_def require_execution [OF keys] split: option.splits if_splits)
  then have view: "exec_view d e = Some (we_workflow_id ex, WPENDING)" by (simp add: exec_view_def)
  with run upd ex obtain u where
    add: "add_message fresh ''workflow.execution.triggered'' WORKFLOW_EVENTS_STREAM
       [(PStr ''execution_id'', PStr (uuid_str e))] (Some e) d1 = Inr (u, d')"
    and x: "x = \<lparr>td_execution_id = e, td_status = WRUNNING\<rparr>"
    by (auto simp: trigger_tx_def require_execution [OF keys] rbind_Inr_iff)
  show thesis
  proof (rule add_message_effect [OF 1(1) add])
    fix r
    assume "db_outbox d' = db_outbox d1 @ [r]" "ob_event_id r = fresh" "ob_event_type r = ''workflow.execution.triggered''"
      "ob_target_stream r = WORKFLOW_EVENTS_STREAM" "ob_payload r = [(PStr ''execution_id'', PStr (uuid_str e))]"
      "ob_status r = ''pending''" "core_keys d'" "sched_tables d' = sched_tables d1" "task_tables d' = task_tables d1"
    then show thesis
      using that [OF view, of r] ev view x 1 sched_tables_view [of d' d1] by simp
  qed
qed

lemma readiness_effect:
  assumes keys: "core_keys d"
  shows "readiness_in_transaction e (Some ex) d = (case workflows_t.row d (we_workflow_id ex) of
      None \<Rightarrow> Inl (workflow_not_found (we_workflow_id ex))
    | Some r \<Rightarrow> Inr (\<lparr>rdy_execution_id = e,
        ready_node_ids = evaluate_ready_node_ids (loaded_workflow r) (\<lambda>i. node_view d (e, i))\<rparr>, d))"
  by (simp add: readiness_in_transaction_def require_apply [of _ "tx_return (Some ex)"] require_workflow [OF keys]
      get_nodes_eq statuses_by_id_view [OF keys] split: option.split)

lemma finalize_as_effect:
  assumes keys: "core_keys d" and run: "finalize_as u5 fresh now e c target d = Inr (x, d')"
  shows "core_keys d'" "node_view d' = node_view d" "dag_view d' = dag_view d" "task_tables d' = task_tables d"
    "posts quiet d d'"
    "exec_view d' = (case exec_view d e of Some (w, s) \<Rightarrow>
       if s = WRUNNING then (exec_view d)(e \<mapsto> (w, target)) else exec_view d | None \<Rightarrow> exec_view d)"
    "fin_status x = target" "map_option snd (exec_view d e) \<noteq> Some WRUNNING \<Longrightarrow> d' = d"
proof -
  obtain d1 where upd: "update_execution_status_if_current e WRUNNING target None (Some now) None d =
      Inr (map_option snd (exec_view d e) = Some WRUNNING, d1)"
    and 1: "core_keys d1" "node_view d1 = node_view d" "dag_view d1 = dag_view d" "task_tables d1 = task_tables d"
      "db_outbox d1 = db_outbox d"
    and ev: "exec_view d1 = (case exec_view d e of Some (w, x) \<Rightarrow>
       if x = WRUNNING then (exec_view d)(e \<mapsto> (w, target)) else exec_view d | None \<Rightarrow> exec_view d)"
    and same: "map_option snd (exec_view d e) \<noteq> Some WRUNNING \<Longrightarrow> d1 = d"
    by (rule update_execution_effect [OF keys, where e = e and s = WRUNNING and s' = target and st = None
          and ct = "Some now" and inp = None]) blast
  have "core_keys d' \<and> node_view d' = node_view d \<and> dag_view d' = dag_view d \<and> task_tables d' = task_tables d \<and>
      posts quiet d d' \<and> exec_view d' = exec_view d1 \<and> fin_status x = target \<and>
      (map_option snd (exec_view d e) \<noteq> Some WRUNNING \<longrightarrow> d' = d)"
  proof (cases "map_option snd (exec_view d e) = Some WRUNNING")
    case False
    with run upd 1 same show ?thesis
      by (auto simp: finalize_as_def posts_same)
  next
    case True
    let ?m = "add_message (workflow_event_id u5 fresh c e (workflow_status_value target))
           (''workflow.execution.'' @ workflow_status_value target) WORKFLOW_EVENTS_STREAM
           [(PStr ''execution_id'', PStr (uuid_str e)),
            (PStr ''status'', PStr (workflow_status_value target))] (Some e)"
    from True run upd obtain u where add: "?m d1 = Inr (u, d')" and x: "fin_status x = target"
      by (auto simp: finalize_as_def rbind_Inr_iff)
    have q: "''workflow.execution.'' @ workflow_status_value target \<noteq> ''workflow.execution.triggered''"
      by (cases target) simp_all
    show ?thesis
      by (rule add_message_effect [OF 1(1) add])
        (use 1 x True q sched_tables_view [of d' d1] in \<open>auto simp: posts_def quiet_def\<close>)
  qed
  then show "core_keys d'" "node_view d' = node_view d" "dag_view d' = dag_view d" "task_tables d' = task_tables d"
    "posts quiet d d'"
    "exec_view d' = (case exec_view d e of Some (w, s) \<Rightarrow>
       if s = WRUNNING then (exec_view d)(e \<mapsto> (w, target)) else exec_view d | None \<Rightarrow> exec_view d)"
    "fin_status x = target" "map_option snd (exec_view d e) \<noteq> Some WRUNNING \<Longrightarrow> d' = d"
    using ev by auto
qed

lemma finalization_cases:
  assumes keys: "core_keys d" and run: "finalization_in_transaction u5 fresh now e (Some ex) c d = Inr (x, d')"
  obtains (failed) i where "node_view d (e, i) = Some FAILED" "finalize_as u5 fresh now e c WFAILED d = Inr (x, d')"
  | (completed) r where "\<forall>i. node_view d (e, i) \<noteq> Some FAILED" "workflows_t.row d (we_workflow_id ex) = Some r"
      "\<forall>n \<in> set (nodes (wr_dag_definition r)). node_view d (e, wn_id n) = Some COMPLETED"
      "finalize_as u5 fresh now e c WCOMPLETED d = Inr (x, d')"
  | (unfinished) r n where "\<forall>i. node_view d (e, i) \<noteq> Some FAILED" "workflows_t.row d (we_workflow_id ex) = Some r"
      "n \<in> set (nodes (wr_dag_definition r))" "node_view d (e, wn_id n) \<noteq> Some COMPLETED" "d' = d"
      "fin_status x = we_status ex"
proof (cases "\<exists>i. node_view d (e, i) = Some FAILED")
  case True
  with run failed show thesis
    by (auto simp: finalization_in_transaction_def require_apply [of _ "tx_return (Some ex)"] get_nodes_eq
        any_status_view [OF keys])
next
  case False
  with run obtain r where r: "workflows_t.row d (we_workflow_id ex) = Some r"
    by (auto simp: finalization_in_transaction_def require_apply [of _ "tx_return (Some ex)"] get_nodes_eq
        any_status_view [OF keys] require_workflow [OF keys] split: option.splits)
  note simps = finalization_in_transaction_def require_apply [of _ "tx_return (Some ex)"] get_nodes_eq
    any_status_view [OF keys] require_workflow [OF keys] statuses_by_id_view [OF keys] r list_all_iff
  show thesis
  proof (cases "\<forall>n \<in> set (nodes (wr_dag_definition r)). node_view d (e, wn_id n) = Some COMPLETED")
    case all: True
    with run False have fin: "finalize_as u5 fresh now e c WCOMPLETED d = Inr (x, d')" by (simp add: simps)
    from False have "\<forall>i. node_view d (e, i) \<noteq> Some FAILED" by blast
    from completed [OF this r all fin] show thesis .
  next
    case no: False
    then obtain n where n: "n \<in> set (nodes (wr_dag_definition r))" "node_view d (e, wn_id n) \<noteq> Some COMPLETED" by blast
    from run False no have same: "d' = d" "fin_status x = we_status ex" by (auto simp: simps)
    from False have "\<forall>i. node_view d (e, i) \<noteq> Some FAILED" by blast
    from unfinished [OF this r n same] show thesis .
  qed
qed

lemma queue_task_effect:
  assumes keys: "core_keys d" and run: "queue_task now t fresh e n rin d = Inr (x, d')"
  obtains a d1 u where "register_initial_task t e (wn_id n) (wn_handler n) (wn_config n) rin fresh now d = Inr (a, d1)"
    "core_keys d'" "sched_tables d' = sched_tables d" "task_tables d' = task_tables d1" "posts quiet d d'"
    "core_keys d1" "sched_tables d1 = sched_tables d" "db_outbox d1 = db_outbox d" "db_processing d1 = db_processing d"
    "parse_uuid t = Inr u" "add_task u (task_payload (task_message t a e n rin)) (Some e) d1 = Inr (x, d')"
proof -
  from run obtain a d1 u where reg: "register_initial_task t e (wn_id n) (wn_handler n) (wn_config n) rin fresh now d = Inr (a, d1)"
    and u: "parse_uuid t = Inr u"
    and add: "add_task u (task_payload (task_message t a e n rin)) (Some e) d1 = Inr (x, d')"
    by (auto simp: queue_task_def rbind_Inr_iff)
  have 1: "sched_tables d1 = sched_tables d" "db_outbox d1 = db_outbox d" "db_processing d1 = db_processing d"
    using keepsD [OF keeps_register reg] by simp_all
  then have k1: "core_keys d1" using core_keys_cong [OF keys] by blast
  show thesis
    by (rule add_message_effect [OF k1 add [unfolded add_task_def]])
      (rule that [OF reg]; use 1 k1 u add in \<open>simp add: posts_def quiet_def\<close>)
qed

text \<open>The three outcomes of a dispatch.\<close>

lemma dispatch_cases:
  assumes keys: "core_keys d" and run: "dispatch_tx fr u5 fresh now ex n d = Inr (x, d')"
  obtains (blocked) dep failed where "dep \<in> set (wn_dependencies n)"
      "node_view d (we_execution_id ex, dep) = Some FAILED"
      "fail_pending_nodes (we_execution_id ex) [wn_id n] ''A required dependency failed.'' now d = Inr (failed, d')"
      "dr_outcome x = ALREADY_STARTED"
  | (started) "node_view d (we_execution_id ex, wn_id n) \<noteq> Some PENDING" "d' = d" "dr_outcome x = ALREADY_STARTED"
  | (claimed) rin d1 where "node_view d (we_execution_id ex, wn_id n) = Some PENDING"
      "\<forall>dep \<in> set (wn_dependencies n). node_view d (we_execution_id ex, dep) \<noteq> Some FAILED"
      "resolve fr n (we_input_data ex) (completed_dependency_outputs (we_execution_id ex) n (nodes_of d (we_execution_id ex))) = Inr rin"
      "claim_pending_nodes (we_execution_id ex) [wn_id n] d = Inr ([wn_id n], d1)"
      "queue_task now (create_task_id u5 (we_execution_id ex) (wn_id n)) fresh (we_execution_id ex) n rin d1 = Inr ((), d')"
      "dr_outcome x = DISPATCHED"
proof -
  let ?e = "we_execution_id ex"
  from run obtain row where row: "executions_t.row d ?e = Some row"
    by (auto simp: dispatch_tx_def Let_def require_execution [OF keys] split: option.splits)
  note simps = dispatch_tx_def Let_def require_execution [OF keys] row get_nodes_eq statuses_by_id_view [OF keys]
    list_ex_iff dispatch_result_def
  show thesis
  proof (cases "\<exists>dep \<in> set (wn_dependencies n). node_view d (?e, dep) = Some FAILED")
    case True
    with run blocked show thesis by (auto simp: simps rbind_Inr_iff)
  next
    case False
    then have nofail: "\<forall>dep \<in> set (wn_dependencies n). node_view d (?e, dep) \<noteq> Some FAILED" by blast
    from False run obtain rin where rin: "resolve fr n (we_input_data ex)
        (completed_dependency_outputs ?e n (nodes_of d ?e)) = Inr rin" by (auto simp: simps rbind_Inr_iff)
    obtain ids d1 where claim: "claim_pending_nodes ?e [wn_id n] d = Inr (ids, d1)"
      and ids: "ids \<noteq> [] \<longleftrightarrow> node_view d (?e, wn_id n) = Some PENDING" and same: "ids = [] \<Longrightarrow> d1 = d"
      by (rule claim_pending_effect [OF keys, of ?e "wn_id n"]) blast
    show thesis
    proof (cases "ids = []")
      case nil: True
      with run False rin claim same have "d' = d" "dr_outcome x = ALREADY_STARTED"
        by (auto simp: simps)
      from started [OF _ this] ids nil show thesis by blast
    next
      case ne: False
      have "ids = [wn_id n]"
      proof -
        have "length ids \<le> 1"
          using claim length_filter_le_one [OF core_keysD(3) [OF keys, unfolded nodes_t.unique_def], of "(?e, wn_id n)"]
            length_filter_le [of "\<lambda>r. ne_status r = PENDING" "filter (\<lambda>r. node_key r = (?e, wn_id n)) (db_nodes d)"]
          by (auto simp: claim_pending_nodes_def table_simps conj_ac)
        moreover have "set ids \<subseteq> {wn_id n}" using claim by (auto simp: claim_pending_nodes_def table_simps)
        ultimately show ?thesis using ne by (cases ids) auto
      qed
      with claim have claim': "claim_pending_nodes ?e [wn_id n] d = Inr ([wn_id n], d1)" by simp
      with run False rin have "queue_task now (create_task_id u5 ?e (wn_id n)) fresh ?e n rin d1 = Inr ((), d')"
        "dr_outcome x = DISPATCHED" by (auto simp: simps rbind_Inr_iff)
      from claimed [OF _ nofail rin claim' this] ids ne show thesis by blast
    qed
  qed
qed

section \<open>Completion\<close>

definition task_inv :: "int \<Rightarrow> db \<Rightarrow> bool" where
  "task_inv m d \<longleftrightarrow> retry_inv d \<and> attempts_within m d"

lemma task_inv_cong: "task_inv m d \<Longrightarrow> task_tables d' = task_tables d \<Longrightarrow> task_inv m d'"
  unfolding task_inv_def task_tables_def
  by (auto simp: attempts_within_def intro: retry_inv_cong)

lemma apply_retry_frame:
  assumes "apply_retry_state fl pol fresh now ev st d = Inr (x, d')"
  shows "sched_tables d' = sched_tables d" "db_outbox d' = db_outbox d" "db_processing d' = db_processing d"
proof -
  have "keeps sched_part (apply_retry_state fl pol fresh now ev st)"
    unfolding apply_retry_state_def
    by (auto intro!: keeps_bind keeps_basic keeps_record_success keeps_record_failure split: option.splits)
  from keepsD [OF this assms] show "sched_tables d' = sched_tables d" "db_outbox d' = db_outbox d"
    "db_processing d' = db_processing d" by simp_all
qed

lemma apply_retry_decided:
  assumes "apply_retry_state fl pol fresh now ev st d = Inr (Some dec, d')"
  shows "dec_ready_node_ids dec = []" "dec_outcome dec \<noteq> PROCESSED"
  using assms
  by (auto simp: apply_retry_state_def rbind_Inr_iff completion_decision_def
      split: if_splits option.splits RetryDecisionOutcome.splits)

lemma apply_retry_keeps:
  assumes "task_inv (rp_max_attempts pol) d"
    and "apply_retry_state fl pol fresh now ev st d = Inr (x, d')"
  shows "task_inv (rp_max_attempts pol) d'"
proof (cases "tc_status ev")
  case TASK_COMPLETED
  with assms(2) obtain b where "record_success (tc_task_id ev) (tc_attempt_id ev) (tc_event_id ev) now d = Inr (b, d')"
    by (auto simp: apply_retry_state_def rbind_Inr_iff)
  then show ?thesis using record_success_keeps assms(1) unfolding task_inv_def by blast
next
  case TASK_FAILED
  with assms(2) obtain msg ty later y where
    rf: "record_failure fresh (tc_task_id ev) (tc_attempt_id ev) (tc_event_id ev) msg ty now (rp_max_attempts pol) later d = Inr (y, d')"
    by (auto simp: apply_retry_state_def rbind_Inr_iff split: option.splits)
  show ?thesis
    using record_failure_keeps_inv [OF _ rf] record_failure_within [OF _ _ rf] assms(1)
    unfolding task_inv_def by simp
qed

text \<open>Steps that only post events other than triggers.\<close>

definition only_posts :: "db \<Rightarrow> db \<Rightarrow> bool" where
  "only_posts d d' \<longleftrightarrow> core_keys d' \<and> sched_tables d' = sched_tables d \<and> task_tables d' = task_tables d \<and>
     posts quiet d d'"

lemma add_message_only_posts:
  assumes "core_keys d" and "add_message mid ty st pl ag d = Inr (u, d')" and "ty \<noteq> ''workflow.execution.triggered''"
  shows "only_posts d d'"
  by (rule add_message_effect [OF assms(1,2)]) (use assms(3) in \<open>auto simp: only_posts_def posts_def quiet_def\<close>)

lemma only_posts_trans: "only_posts d d' \<Longrightarrow> only_posts d' d'' \<Longrightarrow> only_posts d d''"
  by (auto simp: only_posts_def intro: posts_trans)

lemma tx_each_only_posts:
  assumes "core_keys d" and "tx_each f xs d = Inr (u, d')"
    and "\<And>x d d' u. core_keys d \<Longrightarrow> f x d = Inr (u, d') \<Longrightarrow> only_posts d d'"
  shows "only_posts d d'"
  using assms(1,2)
proof (induction xs arbitrary: d)
  case Nil
  then show ?case by (simp add: only_posts_def)
next
  case (Cons x xs)
  then obtain v d1 where 1: "f x d = Inr (v, d1)" "tx_each f xs d1 = Inr (u, d')" by (auto simp: rbind_Inr_iff)
  with assms(3) Cons.prems(1) have o: "only_posts d d1" by blast
  then have "core_keys d1" by (simp add: only_posts_def)
  from Cons.IH [OF this 1(2)] o show ?case by (blast intro: only_posts_trans)
qed

lemma propagate_effect:
  assumes keys: "core_keys d" and run: "propagate_failure u5 now ev ex ns d = Inr (x, d')"
    and r: "workflows_t.row d (we_workflow_id ex) = Some r" and valid: "valid_graph (wr_dag_definition r)"
    and st: "(statuses_by_id ns)(tc_node_id ev \<mapsto> FAILED) = (\<lambda>i. node_view d (tc_execution_id ev, i))"
  shows "core_keys d'" "exec_view d' = exec_view d" "dag_view d' = dag_view d" "task_tables d' = task_tables d"
    "posts quiet d d'" "workflows_t.row d' = workflows_t.row d"
    "node_view d' = (\<lambda>(e, i). if e = tc_execution_id ev \<and>
        blocked_in (wr_dag_definition r) (\<lambda>j. node_view d (e, j)) i \<and> node_view d (e, i) = Some PENDING
      then Some FAILED else node_view d (e, i))"
proof -
  let ?e = "tc_execution_id ev" and ?g = "wr_dag_definition r"
  let ?ids = "map wn_id (filter (\<lambda>n. blocked_node (loaded_workflow r) (\<lambda>i. node_view d (?e, i)) (wn_id n)) (nodes ?g))"
  have v: "valid_dag (loaded_workflow r)" using valid by (simp add: valid_graph_iff)
  then have ev: "evaluate_failed_dependency_node_ids (loaded_workflow r) ((statuses_by_id ns)(tc_node_id ev \<mapsto> FAILED)) = Inr ?ids"
    unfolding st using evaluate_failed_eq [of "loaded_workflow r"] by (simp add: valid_dag_def)
  obtain failed d1 where f: "fail_pending_nodes ?e ?ids (failed_reason (tc_node_id ev)) now d = Inr (failed, d1)"
    and 1: "core_keys d1" "exec_view d1 = exec_view d" "dag_view d1 = dag_view d" "task_tables d1 = task_tables d"
      "db_outbox d1 = db_outbox d"
    and nv: "node_view d1 = (\<lambda>(e', i). if e' = ?e \<and> i \<in> set ?ids \<and> node_view d (?e, i) = Some PENDING then Some FAILED
      else node_view d (e', i))"
    by (rule fail_pending_effect [OF keys, of ?e ?ids "failed_reason (tc_node_id ev)" now]) blast
  have w1: "workflows_t.row d1 = workflows_t.row d"
    using f by (auto simp: fail_pending_nodes_def table_simps workflows_t.row_def split: if_splits)
  from run obtain u where each: "tx_each (\<lambda>j.
        add_message (u5 (tc_event_id ev) (''node:'' @ uuid_str ?e @ '':'' @ j @ '':failed''))
          ''workflow.node.failed'' WORKFLOW_EVENTS_STREAM
          [(PStr ''execution_id'', PStr (uuid_str ?e)), (PStr ''node_id'', PStr j), (PStr ''status'', PStr ''failed''),
           (PStr ''reason'', PStr (failed_reason (tc_node_id ev)))] (Some ?e)) failed d1 = Inr (u, d')"
    by (auto simp: propagate_failure_def require_workflow [OF keys] r ev f)
  have op: "only_posts d1 d'"
    by (rule tx_each_only_posts [OF 1(1) each]) (rule add_message_only_posts, assumption+, simp)
  then have s: "sched_tables d' = sched_tables d1" "core_keys d'" "task_tables d' = task_tables d1" "posts quiet d1 d'"
    by (simp_all add: only_posts_def)
  show "core_keys d'" "exec_view d' = exec_view d" "dag_view d' = dag_view d" "task_tables d' = task_tables d"
    "workflows_t.row d' = workflows_t.row d"
    using s 1 w1 sched_tables_view [OF s(1)] by simp_all
  show "posts quiet d d'" using s(4) 1(5) by (simp add: posts_def)
  have "i \<in> set ?ids \<longleftrightarrow> blocked_in ?g (\<lambda>j. node_view d (?e, j)) i" for i
    using blocked_in_pending [of ?g "\<lambda>j. node_view d (?e, j)" i] by (auto simp: blocked_in_iff graph_ids_def)
  then show "node_view d' = (\<lambda>(e, i). if e = ?e \<and>
        blocked_in ?g (\<lambda>j. node_view d (e, j)) i \<and> node_view d (e, i) = Some PENDING
      then Some FAILED else node_view d (e, i))"
    unfolding sched_tables_view(2) [OF s(1)] nv fun_eq_iff by auto
qed

lemma finalization_effect:
  assumes keys: "core_keys d" and run: "finalization_in_transaction u5 fresh now e (Some ex) c d = Inr (x, d')"
    and ex: "exec_view d e = Some (we_workflow_id ex, s)" and g: "dag_view d (we_workflow_id ex) = Some g"
  shows "core_keys d'" "node_view d' = node_view d" "dag_view d' = dag_view d" "task_tables d' = task_tables d"
    "posts quiet d d'"
    "exec_view d' = (exec_view d)(e \<mapsto> (we_workflow_id ex, settle g (\<lambda>i. node_view d (e, i)) s))"
proof -
  let ?st = "\<lambda>i. node_view d (e, i)"
  have gr: "g = wr_dag_definition r" if "workflows_t.row d (we_workflow_id ex) = Some r" for r
    using g that by (simp add: dag_view_def)
  have "core_keys d' \<and> node_view d' = node_view d \<and> dag_view d' = dag_view d \<and> task_tables d' = task_tables d \<and>
      posts quiet d d' \<and> exec_view d' = (exec_view d)(e \<mapsto> (we_workflow_id ex, settle g ?st s))"
    using keys run
  proof (cases rule: finalization_cases)
    case (failed i)
    then have "\<exists>i. ?st i = Some FAILED" by blast
    with finalize_as_effect [OF keys failed(2)] ex show ?thesis by (auto simp: settle_def)
  next
    case (completed r)
    then have "\<forall>i \<in> graph_ids g. ?st i = Some COMPLETED" using gr by (auto simp: graph_ids_def)
    with completed(1) finalize_as_effect [OF keys completed(4)] ex show ?thesis by (auto simp: settle_def)
  next
    case (unfinished r n)
    then have "\<not> (\<forall>i \<in> graph_ids g. ?st i = Some COMPLETED)" using gr by (auto simp: graph_ids_def)
    with unfinished(1,5) ex keys show ?thesis by (auto simp: settle_def)
  qed
  then show "core_keys d'" "node_view d' = node_view d" "dag_view d' = dag_view d" "task_tables d' = task_tables d"
    "posts quiet d d'"
    "exec_view d' = (exec_view d)(e \<mapsto> (we_workflow_id ex, settle g (\<lambda>i. node_view d (e, i)) s))" by simp_all
qed

lemma node_event_effect:
  assumes "core_keys d" and "node_event ev d = Inr (u, d')"
  shows "only_posts d d'"
proof -
  have "''workflow.node.'' @ completion_status_value (tc_status ev) \<noteq> ''workflow.execution.triggered''" by simp
  from add_message_only_posts [OF assms(1) assms(2) [unfolded node_event_def] this] show ?thesis .
qed

text \<open>The transition of a node and everything that follows it.\<close>

abbreviation node_statuses :: "db \<Rightarrow> uuid \<Rightarrow> statuses" where
  "node_statuses d e \<equiv> (\<lambda>i. node_view d (e, i))"

definition completed_view :: "WorkflowDag \<Rightarrow> statuses \<Rightarrow> TaskCompletionEvent \<Rightarrow> statuses" where
  "completed_view g st ev =
     (if tc_status ev = TASK_COMPLETED then st(tc_node_id ev \<mapsto> COMPLETED) else fail_node g st (tc_node_id ev))"

lemma transition_node_view:
  assumes keys: "core_keys d1"
    and run: "(if tc_status ev = TASK_FAILED then propagate_failure u5 now ev ex ns else tx_return ()) d1 = Inr ((), d2)"
    and valid: "\<And>g. dag_view d1 (we_workflow_id ex) = Some g \<Longrightarrow> valid_graph g"
    and ns: "statuses_by_id ns = st" "st (tc_node_id ev) = Some RUNNING"
    and nv: "node_statuses d1 (tc_execution_id ev) =
      st(tc_node_id ev \<mapsto> (if tc_status ev = TASK_FAILED then FAILED else COMPLETED))"
  shows "core_keys d2" "exec_view d2 = exec_view d1" "dag_view d2 = dag_view d1" "task_tables d2 = task_tables d1"
    "posts quiet d1 d2"
    "dag_view d1 (we_workflow_id ex) = Some g \<Longrightarrow>
     node_view d2 = (\<lambda>(e', j). if e' = tc_execution_id ev then completed_view g st ev j else node_view d1 (e', j))"
    "tc_status ev = TASK_FAILED \<Longrightarrow> dag_view d1 (we_workflow_id ex) \<noteq> None"
proof -
  let ?e = "tc_execution_id ev" and ?i = "tc_node_id ev"
  have "core_keys d2 \<and> exec_view d2 = exec_view d1 \<and> dag_view d2 = dag_view d1 \<and> task_tables d2 = task_tables d1 \<and>
    posts quiet d1 d2 \<and> (dag_view d1 (we_workflow_id ex) = Some g \<longrightarrow>
     node_view d2 = (\<lambda>(e', j). if e' = ?e then completed_view g st ev j else node_view d1 (e', j))) \<and>
    (tc_status ev = TASK_FAILED \<longrightarrow> dag_view d1 (we_workflow_id ex) \<noteq> None)"
  proof (cases "tc_status ev")
    case TASK_COMPLETED
    have "node_view d1 = (\<lambda>(e', j). if e' = ?e then completed_view g st ev j else node_view d1 (e', j))"
    proof (rule ext, clarify)
      fix e' j
      show "node_view d1 (e', j) = (if e' = ?e then completed_view g st ev j else node_view d1 (e', j))"
        using fun_cong [OF nv, of j] TASK_COMPLETED by (simp add: completed_view_def)
    qed
    with run keys TASK_COMPLETED show ?thesis by simp
  next
    case TASK_FAILED
    with run have p: "propagate_failure u5 now ev ex ns d1 = Inr ((), d2)" by simp
    then obtain r where r: "workflows_t.row d1 (we_workflow_id ex) = Some r"
      by (auto simp: propagate_failure_def require_workflow [OF keys] split: option.splits)
    then have g: "dag_view d1 (we_workflow_id ex) = Some (wr_dag_definition r)" by (simp add: dag_view_def)
    have "(statuses_by_id ns)(?i \<mapsto> FAILED) = node_statuses d1 ?e" using nv ns TASK_FAILED by simp
    note pe = propagate_effect [OF keys p r valid [OF g] this]
    have "(if e' = ?e \<and> blocked_in (wr_dag_definition r) (node_statuses d1 e') j \<and> node_view d1 (e', j) = Some PENDING
       then Some FAILED else node_view d1 (e', j)) =
       (if e' = ?e then completed_view (wr_dag_definition r) st ev j else node_view d1 (e', j))" for e' j
      using nv TASK_FAILED fun_cong [OF nv, of j] ns by (auto simp: completed_view_def fail_node_def)
    with pe g TASK_FAILED show ?thesis by (auto simp: fun_eq_iff)
  qed
  then show "core_keys d2" "exec_view d2 = exec_view d1" "dag_view d2 = dag_view d1" "task_tables d2 = task_tables d1"
    "posts quiet d1 d2"
    "dag_view d1 (we_workflow_id ex) = Some g \<Longrightarrow>
     node_view d2 = (\<lambda>(e', j). if e' = tc_execution_id ev then completed_view g st ev j else node_view d1 (e', j))"
    "tc_status ev = TASK_FAILED \<Longrightarrow> dag_view d1 (we_workflow_id ex) \<noteq> None" by simp_all
qed

lemma after_transition_effect:
  assumes keys: "core_keys d1" and run: "after_node_transition u5 fresh now ev ex ns d1 = Inr (x, d')"
    and ex: "exec_view d1 (tc_execution_id ev) = Some (we_workflow_id ex, s)"
    and valid: "\<And>g. dag_view d1 (we_workflow_id ex) = Some g \<Longrightarrow> valid_graph g"
    and ns: "statuses_by_id ns = st" "st (tc_node_id ev) = Some RUNNING"
    and nv: "node_statuses d1 (tc_execution_id ev) =
      st(tc_node_id ev \<mapsto> (if tc_status ev = TASK_FAILED then FAILED else COMPLETED))"
  obtains g where "dag_view d1 (we_workflow_id ex) = Some g" "core_keys d'" "dag_view d' = dag_view d1"
    "task_tables d' = task_tables d1" "posts quiet d1 d'"
    "node_view d' = (\<lambda>(e', j). if e' = tc_execution_id ev then completed_view g st ev j else node_view d1 (e', j))"
    "exec_view d' = (exec_view d1)(tc_execution_id ev \<mapsto> (we_workflow_id ex, settle g (completed_view g st ev) s))"
    "x = completion_decision ev PROCESSED (if tc_status ev = TASK_COMPLETED
       then map wn_id (filter (ready (completed_view g st ev)) (nodes g)) else [])"
proof -
  let ?e = "tc_execution_id ev" and ?i = "tc_node_id ev"
  let ?st = "\<lambda>g. completed_view g st ev"
  from run obtain d2 d3 d4 ids fin where
    pf: "(if tc_status ev = TASK_FAILED then propagate_failure u5 now ev ex ns else tx_return ()) d1 = Inr ((), d2)"
    and evt: "node_event ev d2 = Inr ((), d3)"
    and rdy: "(if tc_status ev = TASK_COMPLETED
        then tx_bind (readiness_in_transaction ?e (Some ex)) (\<lambda>readiness. tx_return (ready_node_ids readiness))
        else tx_return []) d3 = Inr (ids, d4)"
    and fin: "finalization_in_transaction u5 fresh now ?e (Some ex) (Some (tc_event_id ev)) d4 = Inr (fin, d')"
    and x: "x = completion_decision ev PROCESSED ids"
    unfolding after_node_transition_def by (auto simp: rbind_Inr_iff)
  note 2 = transition_node_view(1-5) [OF keys pf valid ns nv]
  have op: "only_posts d2 d3" by (rule node_event_effect [OF 2(1) evt])
  then have s3: "sched_tables d3 = sched_tables d2" by (simp add: only_posts_def)
  from op have 3: "core_keys d3" "task_tables d3 = task_tables d2" "posts quiet d2 d3" "exec_view d3 = exec_view d2"
    "node_view d3 = node_view d2" "dag_view d3 = dag_view d2"
    using sched_tables_view [OF s3] by (simp_all add: only_posts_def)
  have "dag_view d1 (we_workflow_id ex) \<noteq> None"
  proof (cases "tc_status ev")
    case TASK_FAILED
    then show ?thesis using transition_node_view(7) [OF keys pf valid ns nv] by blast
  next
    case TASK_COMPLETED
    with rdy have "workflows_t.row d3 (we_workflow_id ex) \<noteq> None"
      by (auto simp: readiness_effect [OF 3(1)] rbind_Inr_iff split: option.splits)
    then have "dag_view d3 (we_workflow_id ex) \<noteq> None" by (simp add: dag_view_def)
    with 2 3 show ?thesis by simp
  qed
  then obtain g where g: "dag_view d1 (we_workflow_id ex) = Some g" by blast
  note nv2 = transition_node_view(6) [OF keys pf valid ns nv g]
  from g 2 3 have g3: "dag_view d3 (we_workflow_id ex) = Some g" by simp
  from nv2 3 have st3: "node_statuses d3 ?e = ?st g" by simp
  have rdy': "d4 = d3" "ids = (if tc_status ev = TASK_COMPLETED then map wn_id (filter (ready (?st g)) (nodes g)) else [])"
    using rdy g3 by (auto simp: readiness_effect [OF 3(1)] st3 evaluate_ready_eq dag_view_def rbind_Inr_iff
        split: if_splits option.splits)
  from ex 2 3 have ex3: "exec_view d3 ?e = Some (we_workflow_id ex, s)" by simp
  note f = finalization_effect [OF 3(1) fin [unfolded rdy'(1)] ex3 g3]
  show thesis
  proof (rule that [OF g f(1)])
    show "dag_view d' = dag_view d1" "task_tables d' = task_tables d1" using f 2 3 by simp_all
    show "posts quiet d1 d'" using posts_trans [OF posts_trans [OF 2(5) 3(3)] f(5)] .
    show "node_view d' = (\<lambda>(e', j). if e' = ?e then ?st g j else node_view d1 (e', j))" using f(2) 3(5) nv2 by simp
    show "exec_view d' = (exec_view d1)(?e \<mapsto> (we_workflow_id ex, settle g (?st g) s))"
      unfolding f(6) st3 using 3(4) 2(2) by simp
  qed (simp add: x rdy')
qed

lemma completed_decision_sel [simp]:
  "dec_ready_node_ids (completion_decision ev out ids) = ids" "dec_outcome (completion_decision ev out ids) = out"
  by (simp_all add: completion_decision_def)

text \<open>The outcomes of processing a completion event: nothing of the scheduling state changes, or a
  running node moves and the execution with it.\<close>

text \<open>Completing a node that the retry state did not decide on.\<close>

lemma complete_node_cases:
  assumes keys: "core_keys d" and k0: "core_keys d0" and v0: "exec_view d0 = exec_view d" "node_view d0 = node_view d" "dag_view d0 = dag_view d"
    and ex: "executions_t.row d (tc_execution_id ev) = Some ex"
    and run: "complete_node u5 fresh now ev ex (nodes_of d (tc_execution_id ev)) n d0 = Inr (x, d')"
    and valid: "\<forall>w s g. exec_view d (tc_execution_id ev) = Some (w, s) \<longrightarrow> dag_view d w = Some g \<longrightarrow> valid_graph g"
  obtains (again) "node_view d (tc_execution_id ev, tc_node_id ev) \<noteq> Some RUNNING" "d' = d0" "x = completion_decision ev DUPLICATE []"
  | (moved) w s g where "exec_view d (tc_execution_id ev) = Some (w, s)" "dag_view d w = Some g"
      "node_view d (tc_execution_id ev, tc_node_id ev) = Some RUNNING" "core_keys d'" "dag_view d' = dag_view d" "posts quiet d0 d'"
      "node_view d' = (\<lambda>(e', j). if e' = tc_execution_id ev
         then completed_view g (node_statuses d (tc_execution_id ev)) ev j else node_view d (e', j))"
      "exec_view d' = (exec_view d)(tc_execution_id ev \<mapsto>
         (w, settle g (completed_view g (node_statuses d (tc_execution_id ev)) ev) s))"
      "x = completion_decision ev PROCESSED (if tc_status ev = TASK_COMPLETED
         then map wn_id (filter (ready (completed_view g (node_statuses d (tc_execution_id ev)) ev)) (nodes g)) else [])"
proof -
  let ?e = "tc_execution_id ev" and ?i = "tc_node_id ev"
  let ?s' = "if tc_status ev = TASK_FAILED then FAILED else COMPLETED"
  obtain d1 where upd: "update_node_status_if_current ?e ?i RUNNING ?s'
       (Some (if tc_status ev = TASK_FAILED then PNone else tc_output_data ev))
       (if tc_status ev = TASK_FAILED then tc_error_message ev else None)
       (if tc_status ev = TASK_FAILED then tc_error_type ev else None) None (Some now) d0 =
       Inr (node_view d0 (?e, ?i) = Some RUNNING, d1)"
    and 1: "core_keys d1" "exec_view d1 = exec_view d0" "dag_view d1 = dag_view d0"
      "task_tables d1 = task_tables d0" "db_outbox d1 = db_outbox d0"
    and nv1: "node_view d1 = (if node_view d0 (?e, ?i) = Some RUNNING then (node_view d0)((?e, ?i) \<mapsto> ?s') else node_view d0)"
    and same1: "node_view d0 (?e, ?i) \<noteq> Some RUNNING \<Longrightarrow> d1 = d0"
    by (rule update_node_effect [OF k0, where e = ?e and i = ?i and s = RUNNING and s' = ?s']) blast
  show thesis
  proof (cases "node_view d0 (?e, ?i) = Some RUNNING")
    case False
    with run upd same1 have "d' = d0" "x = completion_decision ev DUPLICATE []"
      by (auto simp: complete_node_def Let_def split: if_splits)
    with again False v0(2) show thesis by simp
  next
    case True
    with run upd have after: "after_node_transition u5 fresh now ev ex (nodes_of d ?e) d1 = Inr (x, d')"
      by (simp add: complete_node_def Let_def)
    have ex1: "exec_view d1 ?e = Some (we_workflow_id ex, we_status ex)"
      using 1(2) v0(1) ex by (simp add: exec_view_def)
    have valid1: "valid_graph g" if "dag_view d1 (we_workflow_id ex) = Some g" for g
      using valid that 1(2,3) v0(1,3) ex1 by simp
    have st: "statuses_by_id (nodes_of d ?e) = node_statuses d ?e" by (rule statuses_by_id_view [OF keys])
    have r: "node_statuses d ?e ?i = Some RUNNING" using True v0(2) by simp
    have nv: "node_statuses d1 ?e = (node_statuses d ?e)(?i \<mapsto> ?s')" using nv1 True v0(2) by (auto simp: fun_eq_iff)
    obtain g where a: "dag_view d1 (we_workflow_id ex) = Some g" "core_keys d'" "dag_view d' = dag_view d1"
      "posts quiet d1 d'"
      "node_view d' = (\<lambda>(e', j). if e' = ?e then completed_view g (node_statuses d ?e) ev j else node_view d1 (e', j))"
      "exec_view d' = (exec_view d1)(?e \<mapsto> (we_workflow_id ex, settle g (completed_view g (node_statuses d ?e) ev) (we_status ex)))"
      "x = completion_decision ev PROCESSED (if tc_status ev = TASK_COMPLETED
         then map wn_id (filter (ready (completed_view g (node_statuses d ?e) ev)) (nodes g)) else [])"
      by (rule after_transition_effect [OF 1(1) after ex1 valid1 st r nv]) blast
    have "node_view d' = (\<lambda>(e', j). if e' = ?e then completed_view g (node_statuses d ?e) ev j else node_view d (e', j))"
      unfolding a(5) nv1 using True v0(2) by (auto simp: fun_eq_iff)
    with moved [of "we_workflow_id ex" "we_status ex" g] ex1 a 1 v0 r show thesis by (simp add: posts_def)
  qed
qed

lemma process_cases:
  assumes keys: "core_keys d" and run: "process_tx fl u5 pol fresh now ev d = Inr (x, d')"
    and valid: "\<forall>w s g. exec_view d (tc_execution_id ev) = Some (w, s) \<longrightarrow> dag_view d w = Some g \<longrightarrow> valid_graph g"
  obtains (same) "sched_tables d' = sched_tables d" "db_outbox d' = db_outbox d" "core_keys d'"
      "dec_ready_node_ids x = []" "dec_outcome x \<noteq> PROCESSED"
  | (moved) w s g where "exec_view d (tc_execution_id ev) = Some (w, s)" "dag_view d w = Some g"
      "node_view d (tc_execution_id ev, tc_node_id ev) = Some RUNNING" "core_keys d'" "dag_view d' = dag_view d" "posts quiet d d'"
      "node_view d' = (\<lambda>(e', j). if e' = tc_execution_id ev
         then completed_view g (node_statuses d (tc_execution_id ev)) ev j else node_view d (e', j))"
      "exec_view d' = (exec_view d)(tc_execution_id ev \<mapsto>
         (w, settle g (completed_view g (node_statuses d (tc_execution_id ev)) ev) s))"
      "x = completion_decision ev PROCESSED (if tc_status ev = TASK_COMPLETED
         then map wn_id (filter (ready (completed_view g (node_statuses d (tc_execution_id ev)) ev)) (nodes g)) else [])"
proof -
  let ?e = "tc_execution_id ev" and ?i = "tc_node_id ev"
  from run obtain ex where ex: "executions_t.row d ?e = Some ex"
    by (auto simp: process_tx_def require_execution [OF keys] split: option.splits)
  note simps = process_tx_def require_execution [OF keys] ex get_nodes_eq find_node
  from run obtain n where n: "nodes_t.row d (?e, ?i) = Some n" by (auto simp: simps split: option.splits)
  from run obtain dec d0 where ar: "apply_retry_state fl pol fresh now ev (ne_status n) d = Inr (dec, d0)"
    and rest: "(case dec of Some outcome \<Rightarrow> tx_return outcome
       | None \<Rightarrow> complete_node u5 fresh now ev ex (nodes_of d ?e) n) d0 = Inr (x, d')"
    by (auto simp: simps n rbind_Inr_iff)
  note fr = apply_retry_frame [OF ar] and v0 = sched_tables_view(1-3) [OF apply_retry_frame(1) [OF ar]]
  have k0: "core_keys d0" by (rule core_keys_cong [OF keys fr(1,2)])
  show thesis
  proof (cases dec)
    case (Some outcome)
    with rest have "d' = d0" "x = outcome" by simp_all
    with same fr(1,2) k0 apply_retry_decided [OF ar [unfolded Some]] show thesis by simp
  next
    case None
    with rest have c: "complete_node u5 fresh now ev ex (nodes_of d ?e) n d0 = Inr (x, d')" by simp
    from keys k0 v0 ex c valid show thesis
    proof (cases rule: complete_node_cases)
      case again
      with same fr(1,2) k0 show thesis by simp
    next
      case (moved w s g)
      then have "posts quiet d d'" using fr(2) by (simp add: posts_def)
      with that(2) moved show thesis by blast
    qed
  qed
qed

lemma keeps_tx_each: "(\<And>x. keeps g (f x)) \<Longrightarrow> keeps g (tx_each f xs)"
  by (induction xs) (auto intro: keeps_bind keeps_basic)

lemma keeps_add_message: "keeps task_tables (add_message mid ty st pl ag)"
  by (auto simp: keeps_def add_message_def table_simps task_tables_def split: if_splits)

lemma keeps_complete_node: "keeps task_tables (complete_node u5 fresh now ev ex ns n)"
proof -
  have u: "keeps task_tables (update_node_status_if_current e i s s' out msg ty st ct)"
    "keeps task_tables (update_execution_status_if_current e w w' st ct inp)"
    "keeps task_tables (fail_pending_nodes e ids reason now)" for e i s s' out msg ty st ct w w' inp ids reason
    unfolding update_node_status_if_current_def update_execution_status_if_current_def fail_pending_nodes_def
    by (auto intro!: keeps_rules keeps_update simp: task_tables_def)
  have r: "keeps task_tables (require err m)" if "keeps task_tables m" for err and m :: "(db, 'x option) tx"
    unfolding require_def by (rule keeps_bind [OF that keeps_option]) (rule keeps_basic)+
  have w: "keeps task_tables (get_workflow_by_id i)" "keeps task_tables (get_execution_by_id i)"
    "keeps task_tables (get_node_executions_for_execution i)" for i
    unfolding get_workflow_by_id_def get_execution_by_id_def get_node_executions_for_execution_def
    by (intro keeps_rules)+
  have f: "keeps task_tables (finalize_as u5 fresh now e c t)" for e c t
    unfolding finalize_as_def by (intro keeps_rules u keeps_add_message)
  have fin: "keeps task_tables (finalization_in_transaction u5 fresh now e (Some ex) c)" for e c
    unfolding finalization_in_transaction_def by (simp, intro keeps_rules f r w)
  have rdy: "keeps task_tables (readiness_in_transaction e (Some ex))" for e
    unfolding readiness_in_transaction_def by (simp, intro keeps_rules r w)
  have p: "keeps task_tables (propagate_failure u5 now ev ex ns)"
    unfolding propagate_failure_def by (intro keeps_rules r w u keeps_tx_each keeps_add_message)
  have "keeps task_tables (after_node_transition u5 fresh now ev ex ns)"
    unfolding after_node_transition_def node_event_def by (intro keeps_rules p keeps_add_message rdy fin)
  then show ?thesis unfolding complete_node_def Let_def by (intro keeps_rules u)
qed

text \<open>Processing keeps the invariant of tasks and attempts.\<close>

lemma process_keeps_tasks:
  assumes keys: "core_keys d" and inv: "task_inv (rp_max_attempts pol) d"
    and run: "process_tx fl u5 pol fresh now ev d = Inr (x, d')"
  shows "task_inv (rp_max_attempts pol) d'" "db_processing d' = db_processing d"
proof -
  from run obtain ex where ex: "executions_t.row d (tc_execution_id ev) = Some ex"
    by (auto simp: process_tx_def require_execution [OF keys] split: option.splits)
  note simps = process_tx_def require_execution [OF keys] ex get_nodes_eq find_node
  from run obtain n where n: "nodes_t.row d (tc_execution_id ev, tc_node_id ev) = Some n"
    by (auto simp: simps split: option.splits)
  let ?ns = "nodes_of d (tc_execution_id ev)"
  from run obtain dec d0 where ar: "apply_retry_state fl pol fresh now ev (ne_status n) d = Inr (dec, d0)"
    and rest: "(case dec of Some outcome \<Rightarrow> tx_return outcome
       | None \<Rightarrow> complete_node u5 fresh now ev ex ?ns n) d0 = Inr (x, d')"
    by (auto simp: simps n rbind_Inr_iff)
  have "keeps task_tables (case dec of Some outcome \<Rightarrow> tx_return outcome | None \<Rightarrow> complete_node u5 fresh now ev ex ?ns n)"
    by (cases dec) (simp_all add: keeps_complete_node keeps_basic)
  from keepsD [OF this rest] have t: "task_tables d' = task_tables d0" .
  from task_inv_cong [OF apply_retry_keeps [OF inv ar] t] show "task_inv (rp_max_attempts pol) d'" .
  show "db_processing d' = db_processing d" using t apply_retry_frame(3) [OF ar] by (simp add: task_tables_def)
qed

section \<open>Dispatch and submission\<close>

lemma dispatch_effect:
  assumes keys: "core_keys d" and run: "dispatch_tx fr u5 fresh now ex n d = Inr (x, d')"
    and deps: "\<forall>dep \<in> set (wn_dependencies n). node_view d (we_execution_id ex, dep) \<noteq> Some FAILED"
  obtains (started) "node_view d (we_execution_id ex, wn_id n) \<noteq> Some PENDING" "d' = d" "dr_outcome x = ALREADY_STARTED"
  | (claimed) a d1 rin where "node_view d (we_execution_id ex, wn_id n) = Some PENDING" "dr_outcome x = DISPATCHED"
      "core_keys d'" "exec_view d' = exec_view d" "dag_view d' = dag_view d" "posts quiet d d'"
      "node_view d' = (node_view d)((we_execution_id ex, wn_id n) \<mapsto> RUNNING)"
      "register_initial_task (create_task_id u5 (we_execution_id ex) (wn_id n)) (we_execution_id ex) (wn_id n)
         (wn_handler n) (wn_config n) rin fresh now d1 = Inr a"
      "task_tables d1 = task_tables d" "task_tables d' = task_tables (snd a)" "db_processing d' = db_processing d"
  using keys run
proof (cases rule: dispatch_cases)
  case (blocked dep failed)
  with deps show thesis by blast
next
  case started
  with that(1) show thesis by blast
next
  case (claimed rin d1)
  let ?e = "we_execution_id ex"
  have ne: "[wn_id n] \<noteq> []" by simp
  obtain ids d1' where c: "claim_pending_nodes ?e [wn_id n] d = Inr (ids, d1')"
    and 1: "core_keys d1'" "exec_view d1' = exec_view d" "dag_view d1' = dag_view d" "task_tables d1' = task_tables d"
      "db_outbox d1' = db_outbox d"
    and nv: "node_view d1' = (if ids \<noteq> [] then (node_view d)((?e, wn_id n) \<mapsto> RUNNING) else node_view d)"
    by (rule claim_pending_effect [OF keys, of ?e "wn_id n"]) blast
  from c claimed(4) have eq: "d1' = d1" "ids = [wn_id n]" by simp_all
  show thesis
  proof (rule queue_task_effect [OF 1(1) claimed(5) [folded eq(1)]])
    fix a d2 u
    assume q: "register_initial_task (create_task_id u5 ?e (wn_id n)) ?e (wn_id n) (wn_handler n) (wn_config n) rin fresh now d1' = Inr (a, d2)"
      "core_keys d'" "sched_tables d' = sched_tables d1'" "task_tables d' = task_tables d2" "posts quiet d1' d'"
      "db_processing d2 = db_processing d1'"
    note v = sched_tables_view [OF q(3)]
    show thesis
    proof (rule that(2) [OF claimed(1,6) q(2)])
      show "exec_view d' = exec_view d" "dag_view d' = dag_view d" using v 1 by simp_all
      show "posts quiet d d'" using q(5) 1(5) by (simp add: posts_def)
      show "node_view d' = (node_view d)((?e, wn_id n) \<mapsto> RUNNING)" using v nv eq by simp
      show "register_initial_task (create_task_id u5 ?e (wn_id n)) ?e (wn_id n) (wn_handler n) (wn_config n) rin fresh now d1' =
        Inr (a, d2)" by (rule q(1))
      show "task_tables d1' = task_tables d" by (rule 1(4))
      show "task_tables d' = task_tables (snd (a, d2))" using q(4) by simp
      show "db_processing d' = db_processing d" using q(4,6) 1(4) by (simp add: task_tables_def)
    qed
  qed
qed

lemma upsert_node_effect:
  assumes keys: "core_keys d" and run: "upsert_node_execution (new_node_execution e i now) d = Inr (x, d')"
  shows "core_keys d'" "exec_view d' = exec_view d" "dag_view d' = dag_view d" "task_tables d' = task_tables d"
    "db_outbox d' = db_outbox d" "node_view d' = (node_view d)((e, i) \<mapsto> PENDING)"
proof -
  let ?n = "new_node_execution e i now"
  have k: "node_key ?n = (e, i)" by (simp add: new_node_execution_def)
  have "nodes_t.unique d' \<and> node_view d' = (node_view d)((e, i) \<mapsto> PENDING)"
  proof (cases "(e, i) \<in> node_key ` set (db_nodes d)")
    case True
    let ?f = "\<lambda>r. r\<lparr>ne_status := ne_status ?n, ne_output_data := ne_output_data ?n,
               ne_error_message := ne_error_message ?n, ne_error_type := ne_error_type ?n,
               ne_started_at := ne_started_at ?n, ne_completed_at := ne_completed_at ?n\<rparr>"
    have d': "d' = db_nodes_update (update_rows (\<lambda>r. node_key r = (e, i) \<and> True) ?f) d"
      using run True k by (auto simp: upsert_node_execution_def upsert_row_def)
    from True have "nodes_t.row d (e, i) \<noteq> None"
      by (auto simp: nodes_t.row_def find_None_iff)
    then obtain r where r: "nodes_t.row d (e, i) = Some r" by blast
    have "nodes_t.row d' = (nodes_t.row d)((e, i) \<mapsto> ?f r)"
      unfolding d' using nodes_t.row_update_key [of ?f "(e, i)" "\<lambda>_. True" d] r by simp
    then have "node_view d' = (node_view d)((e, i) \<mapsto> PENDING)"
      by (auto simp: node_view_def fun_eq_iff new_node_execution_def)
    moreover have "nodes_t.unique d'" unfolding d'
      by (rule nodes_t.update_keeps_unique [OF core_keysD(3) [OF keys]]) simp
    ultimately show ?thesis by blast
  next
    case False
    then have d': "d' = db_nodes_update (\<lambda>rows. rows @ [?n]) d"
      using run k by (auto simp: upsert_node_execution_def upsert_row_def)
    have new: "node_key ?n \<notin> node_key ` set (db_nodes d)" using False k by simp
    have "nodes_t.row d' a = (if a = (e, i) then Some ?n else nodes_t.row d a)" for a
      unfolding d' using nodes_t.row_insert [OF new, of a] k by simp
    then have "node_view d' = (node_view d)((e, i) \<mapsto> PENDING)"
      by (auto simp: node_view_def fun_eq_iff new_node_execution_def)
    moreover have "nodes_t.unique d'" unfolding d'
      by (rule nodes_t.insert_keeps_unique [OF core_keysD(3) [OF keys] new])
    ultimately show ?thesis by blast
  qed
  moreover have "db_workflows d' = db_workflows d" "db_executions d' = db_executions d" "db_outbox d' = db_outbox d"
    "task_tables d' = task_tables d"
    using run by (auto simp: upsert_node_execution_def upsert_row_def task_tables_def split: if_splits)
  ultimately show "core_keys d'" "exec_view d' = exec_view d" "dag_view d' = dag_view d" "task_tables d' = task_tables d"
    "db_outbox d' = db_outbox d" "node_view d' = (node_view d)((e, i) \<mapsto> PENDING)"
    using keys by (simp_all add: core_keys_def workflows_t.unique_def executions_t.unique_def outbox_t.unique_def
        exec_view_def dag_view_def executions_t.row_def workflows_t.row_def fun_eq_iff)
qed

lemma tx_each_Cons:
  "tx_each f (x # xs) d = Inr (u, d') \<longleftrightarrow> (\<exists>v d1. f x d = Inr (v, d1) \<and> tx_each f xs d1 = Inr (u, d'))"
  by (auto simp: rbind_Inr_iff)

lemma upsert_nodes_effect:
  assumes "core_keys d"
    and "tx_each (\<lambda>n. tx_bind (upsert_node_execution (new_node_execution e (wn_id n) now)) (\<lambda>_. tx_return ())) ns d = Inr (x, d')"
  shows "core_keys d' \<and> exec_view d' = exec_view d \<and> dag_view d' = dag_view d \<and> task_tables d' = task_tables d \<and>
    db_outbox d' = db_outbox d \<and>
    node_view d' = (\<lambda>(e', i). if e' = e \<and> i \<in> wn_id ` set ns then Some PENDING else node_view d (e', i))"
  using assms
proof (induction ns arbitrary: d)
  case Nil
  then show ?case by simp
next
  case (Cons n ns)
  from Cons.prems(2) obtain u d1 where
    f: "tx_bind (upsert_node_execution (new_node_execution e (wn_id n) now)) (\<lambda>_. tx_return ()) d = Inr (u, d1)"
    and rest: "tx_each (\<lambda>n. tx_bind (upsert_node_execution (new_node_execution e (wn_id n) now)) (\<lambda>_. tx_return ())) ns d1 = Inr (x, d')"
    unfolding tx_each_Cons by blast
  from f obtain y where 1: "upsert_node_execution (new_node_execution e (wn_id n) now) d = Inr (y, d1)"
    by (auto simp: rbind_Inr_iff)
  note u = upsert_node_effect [OF Cons.prems(1) 1]
  from Cons.IH [OF u(1) rest] u show ?case by (auto simp: fun_eq_iff)
qed

lemma submit_effect:
  assumes keys: "core_keys d" and run: "submit_tx w e now d = Inr (x, d')"
  shows "core_keys d'" "task_tables d' = task_tables d" "db_outbox d' = db_outbox d"
    "exec_view d e = None" "dag_view d (wf_workflow_id w) = None"
    "exec_view d' = (exec_view d)(e \<mapsto> (wf_workflow_id w, WPENDING))"
    "dag_view d' = (dag_view d)(wf_workflow_id w \<mapsto> wf_dag w)"
    "node_view d' = (\<lambda>(e', i). if e' = e \<and> i \<in> graph_ids (wf_dag w) then Some PENDING else node_view d (e', i))"
proof -
  let ?r = "\<lparr>wr_workflow_id = wf_workflow_id w, wr_name = wf_name w, wr_dag_definition = wf_dag w, wr_created_at = wf_created_at w\<rparr>"
  let ?x = "new_workflow_execution e (wf_workflow_id w) now"
  let ?d1 = "db_workflows_update (\<lambda>rows. rows @ [?r]) d"
  let ?d2 = "db_executions_update (\<lambda>rows. rows @ [?x]) ?d1"
  have k: "we_execution_id ?x = e" "we_workflow_id ?x = wf_workflow_id w" "we_status ?x = WPENDING"
    by (simp_all add: new_workflow_execution_def)
  from run have newr: "wr_workflow_id ?r \<notin> wr_workflow_id ` set (db_workflows d)"
    by (auto simp: submit_tx_def create_workflow_def table_simps split: if_splits)
  from run newr have newx: "we_execution_id ?x \<notin> we_execution_id ` set (db_executions ?d1)"
    by (auto simp: submit_tx_def create_workflow_def create_execution_def table_simps split: if_splits)
  from run newr newx have each: "tx_each (\<lambda>n. tx_bind (upsert_node_execution (new_node_execution e (wn_id n) now))
      (\<lambda>_. tx_return ())) (wf_nodes w) ?d2 = Inr (x, d')"
    by (simp add: submit_tx_def create_workflow_def create_execution_def table_simps k)
  have roww: "workflows_t.row ?d2 a = (if a = wf_workflow_id w then Some ?r else workflows_t.row d a)" for a
    using workflows_t.row_insert [OF newr, of a] by (simp add: workflows_t.row_def)
  have rowx: "executions_t.row ?d2 a = (if a = e then Some ?x else executions_t.row d a)" for a
    using executions_t.row_insert [OF newx, of a] k by (simp add: executions_t.row_def)
  have uw: "workflows_t.unique ?d1" by (rule workflows_t.insert_keeps_unique [OF core_keysD(1) [OF keys] newr])
  have ux: "executions_t.unique ?d2"
    by (rule executions_t.insert_keeps_unique [OF _ newx]) (use core_keysD(2) [OF keys] in \<open>simp add: executions_t.unique_def\<close>)
  have k2: "core_keys ?d2"
    using keys uw ux by (simp add: core_keys_def workflows_t.unique_def nodes_t.unique_def outbox_t.unique_def)
  define d2 where "d2 = ?d2"
  note u = upsert_nodes_effect [OF k2 each, folded d2_def]
  have v: "exec_view d2 = (exec_view d)(e \<mapsto> (wf_workflow_id w, WPENDING))"
    "dag_view d2 = (dag_view d)(wf_workflow_id w \<mapsto> wf_dag w)" "node_view d2 = node_view d"
    "task_tables d2 = task_tables d" "db_outbox d2 = db_outbox d"
    unfolding d2_def
    by (simp_all add: exec_view_def dag_view_def node_view_def nodes_t.row_def rowx roww k task_tables_def fun_eq_iff)
  have g: "i \<in> graph_ids (wf_dag w) \<longleftrightarrow> i \<in> wn_id ` set (wf_nodes w)" for i by (simp add: graph_ids_def)
  show "core_keys d'" "task_tables d' = task_tables d" "db_outbox d' = db_outbox d"
    "exec_view d' = (exec_view d)(e \<mapsto> (wf_workflow_id w, WPENDING))"
    "dag_view d' = (dag_view d)(wf_workflow_id w \<mapsto> wf_dag w)"
    "node_view d' = (\<lambda>(e', i). if e' = e \<and> i \<in> graph_ids (wf_dag w) then Some PENDING else node_view d (e', i))"
    using u unfolding v g by simp_all
  show "exec_view d e = None" using newx k by (auto simp: exec_view_def executions_t.row_def find_None_iff)
  show "dag_view d (wf_workflow_id w) = None" using newr by (force simp: dag_view_def workflows_t.row_def find_None_iff)
qed

end
