(* ===== verification/Engine.thy ===== *)
theory Engine
  imports Orchestrator Effects
begin

text \<open>
  The engine as a whole: a step relation whose steps are the committed transactions of the API, the
  orchestrator and the workers, in any interleaving, with any clock readings and fresh identifiers
  and any answers of Redis. The state is the database, the state of Redis, of an arbitrary type with the
  entries of its streams, and what the orchestrator holds between its transactions: the readiness decisions
  it got and the dispatch calls it started. A consumer may handle any published entry any number of times and may stop
  between two transactions, so that crashes and redeliveries are part of the relation; completion
  events are not restricted at all.

  Every step is, for every execution, a transition of the machine of theory \<open>Schedule\<close> or none; the
  invariants of the machine are thereby invariants of the database.
\<close>

section \<open>Steps on the database\<close>

text \<open>\<open>db_step\<close>: existing executions move by at most one transition of the machine of their graph, new
  ones start in its initial state, and stored graphs stay.\<close>

abbreviation sched_of :: "db \<Rightarrow> uuid \<Rightarrow> WorkflowExecutionStatus \<Rightarrow> sched" where
  "sched_of d e s \<equiv> (s, node_statuses d e)"

definition fresh_execution :: "db \<Rightarrow> uuid \<Rightarrow> bool" where
  "fresh_execution d e \<longleftrightarrow> (\<exists>w g. exec_view d e = Some (w, WPENDING) \<and> dag_view d w = Some g \<and> valid_graph g \<and>
     sched_of d e WPENDING = initial_sched g)"

definition absent_execution :: "db \<Rightarrow> uuid \<Rightarrow> bool" where
  "absent_execution d e \<longleftrightarrow> exec_view d e = None \<and> (\<forall>i. node_view d (e, i) = None)"

definition db_step :: "db \<Rightarrow> db \<Rightarrow> bool" where
  "db_step d d' \<longleftrightarrow> core_keys d' \<and> (\<forall>w g. dag_view d w = Some g \<longrightarrow> dag_view d' w = Some g) \<and>
     (\<forall>e w s g. exec_view d e = Some (w, s) \<longrightarrow> dag_view d w = Some g \<longrightarrow>
        (\<exists>s'. exec_view d' e = Some (w, s') \<and> (sched_step g)\<^sup>=\<^sup>= (sched_of d e s) (sched_of d' e s'))) \<and>
     (\<forall>e. absent_execution d e \<longrightarrow> absent_execution d' e \<or> fresh_execution d' e)"

definition sched_ok :: "db \<Rightarrow> bool" where
  "sched_ok d \<longleftrightarrow> core_keys d \<and>
     (\<forall>e w s. exec_view d e = Some (w, s) \<longrightarrow>
        (\<exists>g. dag_view d w = Some g \<and> valid_graph g \<and> sched_inv g (sched_of d e s))) \<and>
     (\<forall>e. exec_view d e = None \<longrightarrow> absent_execution d e)"

lemma sched_okD:
  assumes "sched_ok d"
  shows "core_keys d" and "exec_view d e = None \<Longrightarrow> absent_execution d e"
  using assms by (auto simp: sched_ok_def)

lemma sched_okE:
  assumes "sched_ok d" and "exec_view d e = Some (w, s)"
  obtains g where "dag_view d w = Some g" "valid_graph g" "sched_inv g (sched_of d e s)"
  using assms unfolding sched_ok_def by blast

lemma sched_ok_graph:
  "sched_ok d \<Longrightarrow> exec_view d e = Some (w, s) \<Longrightarrow> dag_view d w = Some g \<Longrightarrow> valid_graph g \<and> sched_inv g (sched_of d e s)"
  by (erule (1) sched_okE) simp

lemma db_stepI:
  assumes "core_keys d'" and "\<And>w g. dag_view d w = Some g \<Longrightarrow> dag_view d' w = Some g"
    and "\<And>e w s g. exec_view d e = Some (w, s) \<Longrightarrow> dag_view d w = Some g \<Longrightarrow>
      \<exists>s'. exec_view d' e = Some (w, s') \<and> (sched_step g)\<^sup>=\<^sup>= (sched_of d e s) (sched_of d' e s')"
    and "\<And>e. absent_execution d e \<Longrightarrow> absent_execution d' e \<or> fresh_execution d' e"
  shows "db_step d d'"
  using assms unfolding db_step_def by blast

lemma db_step_same:
  assumes "core_keys d'" and "exec_view d' = exec_view d" "node_view d' = node_view d" "dag_view d' = dag_view d"
  shows "db_step d d'"
  using assms by (auto intro!: db_stepI simp: absent_execution_def)

lemma db_step_refl: "sched_ok d \<Longrightarrow> db_step d d"
  by (rule db_step_same) (auto dest: sched_okD)

lemma db_step_tables:
  "sched_tables d' = sched_tables d \<Longrightarrow> core_keys d' \<Longrightarrow> db_step d d'"
  by (rule db_step_same [OF _ sched_tables_view(1-3)])

text \<open>A step inside one execution.\<close>

lemma db_step_one:
  assumes "core_keys d'" "dag_view d' = dag_view d" and e: "exec_view d e = Some (w, s)" and g: "dag_view d w = Some g"
    and ex: "exec_view d' = (exec_view d)(e \<mapsto> (w, s'))"
    and nv: "node_view d' = (\<lambda>(e', i). if e' = e then st i else node_view d (e', i))"
    and step: "sched_step g (sched_of d e s) (s', st)"
  shows "db_step d d'"
proof (rule db_stepI [OF assms(1)])
  show "dag_view d' w = Some g" if "dag_view d w = Some g" for w g using that assms(2) by simp
  show "\<exists>s'. exec_view d' e' = Some (w', s') \<and> (sched_step g')\<^sup>=\<^sup>= (sched_of d e' t) (sched_of d' e' s')"
    if "exec_view d e' = Some (w', t)" "dag_view d w' = Some g'" for e' w' t g'
    using that e g step by (cases "e' = e") (auto simp: ex nv)
  show "absent_execution d' e' \<or> fresh_execution d' e'" if "absent_execution d e'" for e'
    using that e by (auto simp: absent_execution_def ex nv)
qed

lemma db_step_keeps_ok:
  assumes ok: "sched_ok d" and step: "db_step d d'"
  shows "sched_ok d'"
  unfolding sched_ok_def
proof (intro conjI allI impI)
  show "core_keys d'" using step by (simp add: db_step_def)
next
  fix e w s assume e': "exec_view d' e = Some (w, s)"
  show "\<exists>g. dag_view d' w = Some g \<and> valid_graph g \<and> sched_inv g (sched_of d' e s)"
  proof (cases "exec_view d e")
    case None
    then have "absent_execution d e" by (rule sched_okD(2) [OF ok])
    then have "fresh_execution d' e" using step e' by (auto simp: db_step_def absent_execution_def)
    then obtain g where "dag_view d' w = Some g" "valid_graph g" "s = WPENDING" "sched_of d' e WPENDING = initial_sched g"
      using e' by (auto simp: fresh_execution_def)
    then show ?thesis using sched_inv_initial [of g] by auto
  next
    case (Some x)
    obtain w0 s0 where e0: "exec_view d e = Some (w0, s0)" using Some by (cases x) simp
    obtain g where g: "dag_view d w0 = Some g" "valid_graph g" "sched_inv g (sched_of d e s0)"
      by (rule sched_okE [OF ok e0])
    obtain s' where s': "exec_view d' e = Some (w0, s')" "(sched_step g)\<^sup>=\<^sup>= (sched_of d e s0) (sched_of d' e s')"
      using step e0 g(1) unfolding db_step_def by meson
    have "sched_inv g (sched_of d' e s')"
      using s'(2) g(3) sched_inv_step [OF g(2)] by auto
    moreover have "dag_view d' w0 = Some g" using step g(1) by (simp add: db_step_def)
    ultimately show ?thesis using s'(1) e' g(2) by auto
  qed
next
  fix e assume e': "exec_view d' e = None"
  have "exec_view d e = None"
  proof (rule ccontr)
    assume "exec_view d e \<noteq> None"
    then obtain w s where e: "exec_view d e = Some (w, s)" by force
    then obtain g where "dag_view d w = Some g" by (rule sched_okE [OF ok])
    with step e e' show False unfolding db_step_def by fastforce
  qed
  then have "absent_execution d' e \<or> fresh_execution d' e" using sched_okD(2) [OF ok] step by (auto simp: db_step_def)
  then show "absent_execution d' e" using e' by (auto simp: fresh_execution_def)
qed

section \<open>Monotone facts\<close>

definition triggered_in :: "db \<Rightarrow> uuid \<Rightarrow> bool" where
  "triggered_in d e \<longleftrightarrow> (\<exists>w s. exec_view d e = Some (w, s) \<and> s \<noteq> WPENDING)"

definition may_start :: "db \<Rightarrow> uuid \<Rightarrow> WorkflowNode \<Rightarrow> bool" where
  "may_start d e n \<longleftrightarrow> (\<exists>w s g. exec_view d e = Some (w, s) \<and> s \<noteq> WPENDING \<and> dag_view d w = Some g \<and>
     n \<in> set (nodes g) \<and> (\<forall>dep \<in> set (wn_dependencies n). node_view d (e, dep) = Some COMPLETED))"

lemma sched_step_monotone:
  assumes "sched_step g (s, st) (s', st')"
  shows "s' = WPENDING \<Longrightarrow> s = WPENDING" and "st i = Some COMPLETED \<Longrightarrow> st' i = Some COMPLETED"
  using assms by (auto elim!: sched_stepE simp: fail_node_def dest: settle_pending [THEN iffD1, OF sym])

lemma triggered_in_step:
  assumes ok: "sched_ok d" and step: "db_step d d'" and t: "triggered_in d e"
  shows "triggered_in d' e"
proof -
  from t obtain w s where e: "exec_view d e = Some (w, s)" "s \<noteq> WPENDING" by (auto simp: triggered_in_def)
  obtain g where g: "dag_view d w = Some g" by (rule sched_okE [OF ok e(1)])
  obtain s' where s': "exec_view d' e = Some (w, s')" "(sched_step g)\<^sup>=\<^sup>= (sched_of d e s) (sched_of d' e s')"
    using step e(1) g unfolding db_step_def by meson
  then have "s' \<noteq> WPENDING" using e(2) sched_step_monotone(1) by fastforce
  with s'(1) show ?thesis by (auto simp: triggered_in_def)
qed

lemma may_start_step:
  assumes step: "db_step d d'" and m: "may_start d e n"
  shows "may_start d' e n"
proof -
  from m obtain w s g where e: "exec_view d e = Some (w, s)" "s \<noteq> WPENDING" and g: "dag_view d w = Some g"
    and n: "n \<in> set (nodes g)" and deps: "\<forall>dep \<in> set (wn_dependencies n). node_view d (e, dep) = Some COMPLETED"
    by (auto simp: may_start_def)
  obtain s' where s': "exec_view d' e = Some (w, s')" "(sched_step g)\<^sup>=\<^sup>= (sched_of d e s) (sched_of d' e s')"
    using step e(1) g unfolding db_step_def by meson
  have "s' \<noteq> WPENDING" using s'(2) e(2) sched_step_monotone(1) by fastforce
  moreover have "node_view d' (e, dep) = Some COMPLETED" if "dep \<in> set (wn_dependencies n)" for dep
  proof -
    from s'(2) have "sched_step g (sched_of d e s) (sched_of d' e s') \<or> node_statuses d e = node_statuses d' e" by auto
    then show ?thesis
      using deps that sched_step_monotone(2) [of g s "node_statuses d e" s' "node_statuses d' e" dep] fun_cong by metis
  qed
  moreover have "dag_view d' w = Some g" using step g by (simp add: db_step_def)
  ultimately show ?thesis using s'(1) n by (auto simp: may_start_def)
qed

lemma may_start_triggered: "may_start d e n \<Longrightarrow> triggered_in d e"
  by (auto simp: may_start_def triggered_in_def)

section \<open>Steps of the services\<close>

lemma run_transaction_cases:
  assumes "run_transaction m d = (r, d')"
  obtains (failed) e where "r = Inl e" "d' = d" | (committed) x where "r = Inr x" "m d = Inr (x, d')"
  using assms by (auto simp: run_transaction_def split: sum.splits)

lemma submit_db_step:
  assumes ok: "sched_ok d" and reads: "\<forall>d w. model_validate d = Inr w \<longrightarrow> reads_definition d w"
    and run: "submit (default_validator env fr) model_validate definition e now d = (r, d')"
  shows "db_step d d'" "task_tables d' = task_tables d" "db_outbox d' = db_outbox d"
proof -
  have keys: "core_keys d" by (rule sched_okD(1) [OF ok])
  have "db_step d d' \<and> task_tables d' = task_tables d \<and> db_outbox d' = db_outbox d"
  proof (cases "accept (default_validator env fr) model_validate definition")
    case (Inl err)
    with run have "d' = d" by (simp add: submit_def)
    with db_step_refl [OF ok] show ?thesis by simp
  next
    case (Inr w)
    then have "well_formed_definition env definition" "model_validate definition = Inr w"
      by (simp_all add: accept_Inr_iff default_validator_silent)
    then have "valid_dag w" using reads reads_valid_dag by blast
    then have valid: "valid_graph (wf_dag w)" by (simp add: valid_graph_iff)
    obtain r1 d1 where tx: "run_transaction (submit_tx w e now) d = (r1, d1)" by fastforce
    with run Inr have "d' = d1" by (auto simp: submit_def split: sum.splits)
    with tx have tx': "run_transaction (submit_tx w e now) d = (r1, d')" by simp
    then show ?thesis
    proof (cases rule: run_transaction_cases)
      case failed
      with db_step_refl [OF ok] show ?thesis by simp
    next
      case (committed x)
      note s = submit_effect [OF keys committed(2)]
      have abs: "absent_execution d e" by (rule sched_okD(2) [OF ok s(4)])
      have st: "node_statuses d' e = (\<lambda>i. if i \<in> graph_ids (wf_dag w) then Some PENDING else None)"
        using abs unfolding s(8) by (auto simp: absent_execution_def)
      have "db_step d d'"
      proof (rule db_stepI [OF s(1)])
        show "dag_view d' v = Some g" if "dag_view d v = Some g" for v g using that s(5) by (auto simp: s(7))
        show "\<exists>s'. exec_view d' e' = Some (v, s') \<and> (sched_step g)\<^sup>=\<^sup>= (sched_of d e' t) (sched_of d' e' s')"
          if "exec_view d e' = Some (v, t)" "dag_view d v = Some g" for e' v t g
          using that s(4) by (auto simp: s(6,8))
        show "absent_execution d' e' \<or> fresh_execution d' e'" if "absent_execution d e'" for e'
        proof (cases "e' = e")
          case True
          then show ?thesis using valid st by (auto simp: fresh_execution_def s(6,7) initial_sched_def)
        next
          case False
          then show ?thesis using that by (auto simp: absent_execution_def s(6,8))
        qed
      qed
      with s show ?thesis by simp
    qed
  qed
  then show "db_step d d'" "task_tables d' = task_tables d" "db_outbox d' = db_outbox d" by simp_all
qed

text \<open>The row a trigger leaves in the outbox.\<close>

definition trigger_row :: "db \<Rightarrow> OutboxEventRecord \<Rightarrow> bool" where
  "trigger_row d r \<longleftrightarrow> (\<exists>e. ob_payload r = [(PStr ''execution_id'', PStr (uuid_str e))] \<and> triggered_in d e)"

lemma trigger_db_step:
  assumes ok: "sched_ok d" and run: "trigger fresh now e inp d = (r, d')"
  shows "db_step d d'" "task_tables d' = task_tables d" "posts (trigger_row d') d d'"
proof -
  have keys: "core_keys d" by (rule sched_okD(1) [OF ok])
  have "db_step d d' \<and> task_tables d' = task_tables d \<and> posts (trigger_row d') d d'"
    using run unfolding trigger_def
  proof (cases rule: run_transaction_cases)
    case failed
    with db_step_refl [OF ok] show ?thesis by simp
  next
    case (committed x)
    show ?thesis
    proof (rule trigger_effect [OF keys committed(2)])
      fix w q
      assume t: "exec_view d e = Some (w, WPENDING)" "exec_view d' = (exec_view d)(e \<mapsto> (w, WRUNNING))"
        "node_view d' = node_view d" "dag_view d' = dag_view d" "task_tables d' = task_tables d" "core_keys d'"
        "db_outbox d' = db_outbox d @ [q]" "ob_payload q = [(PStr ''execution_id'', PStr (uuid_str e))]"
      obtain g where g: "dag_view d w = Some g" by (rule sched_okE [OF ok t(1)])
      have "node_view d' = (\<lambda>(e', i). if e' = e then node_view d (e, i) else node_view d (e', i))"
        unfolding t(3) by auto
      from db_step_one [OF t(6,4,1) g t(2) this step_trigger] t(2,5,7,8) show ?thesis
        by (auto simp: posts_def trigger_row_def triggered_in_def)
    qed
  qed
  then show "db_step d d'" "task_tables d' = task_tables d" "posts (trigger_row d') d d'" by simp_all
qed

lemma completed_view_step:
  "st (tc_node_id ev) = Some RUNNING \<Longrightarrow> sched_step g (s, st) (settle g (completed_view g st ev) s, completed_view g st ev)"
  unfolding completed_view_def by (auto intro: sched_step.intros)

lemma ready_may_start:
  assumes inv: "sched_inv g (sched_of d e s)" and e: "exec_view d e = Some (w, s)" "s \<noteq> WPENDING"
    and g: "dag_view d w = Some g" "valid_graph g" and n: "n \<in> set (nodes g)" "ready (node_statuses d e) n"
  shows "may_start d e n"
proof -
  have "node_view d (e, dep) = Some COMPLETED" if "dep \<in> set (wn_dependencies n)" for dep
    using n(2) that by (auto simp: ready_def status_of_def split: option.splits)
  with e g n show ?thesis by (auto simp: may_start_def)
qed

lemma process_db_step:
  assumes ok: "sched_ok d" and inv: "task_inv (rp_max_attempts pol) d"
    and run: "process fl u5 pol fresh now ev d = (Inr x, d')"
  shows "db_step d d'" "task_inv (rp_max_attempts pol) d'" "posts quiet d d'"
    "i \<in> set (dec_ready_node_ids x) \<Longrightarrow> \<exists>n. wn_id n = i \<and> may_start d' (tc_execution_id ev) n"
proof -
  let ?e = "tc_execution_id ev"
  have keys: "core_keys d" by (rule sched_okD(1) [OF ok])
  have tx: "process_tx fl u5 pol fresh now ev d = Inr (x, d')"
    using run by (auto simp: process_def run_transaction_Inr split: if_splits)
  have valid: "\<forall>w s g. exec_view d ?e = Some (w, s) \<longrightarrow> dag_view d w = Some g \<longrightarrow> valid_graph g"
    using sched_ok_graph [OF ok] by blast
  show "task_inv (rp_max_attempts pol) d'" by (rule process_keeps_tasks [OF keys inv tx])
  have "db_step d d' \<and> posts quiet d d' \<and> (i \<in> set (dec_ready_node_ids x) \<longrightarrow> (\<exists>n. wn_id n = i \<and> may_start d' ?e n))"
    using keys tx valid
  proof (cases rule: process_cases)
    case same
    then show ?thesis using db_step_tables by (auto intro: posts_same)
  next
    case (moved w s g)
    let ?st = "completed_view g (node_statuses d ?e) ev"
    have step: "db_step d d'"
      by (rule db_step_one [OF moved(4,5,1,2,8,7)]) (rule completed_view_step [where st = "node_statuses d ?e", OF moved(3)])
    have ok': "sched_ok d'" by (rule db_step_keeps_ok [OF ok step])
    have e': "exec_view d' ?e = Some (w, settle g ?st s)" and st: "node_statuses d' ?e = ?st"
      using moved(7,8) by auto
    have g': "dag_view d' w = Some g" using moved(2,5) by simp
    have vg: "valid_graph g" and inv': "sched_inv g (sched_of d' ?e (settle g ?st s))"
      using sched_ok_graph [OF ok' e' g'] by simp_all
    have "s \<noteq> WPENDING"
      using sched_invD(1,2) [OF conjunct2 [OF sched_ok_graph [OF ok moved(1,2)]]] moved(3) by fastforce
    then have "settle g ?st s \<noteq> WPENDING" by (simp add: settle_pending)
    note may = ready_may_start [OF inv' e' this g' vg]
    have "\<exists>n. wn_id n = i \<and> may_start d' ?e n" if "i \<in> set (dec_ready_node_ids x)"
      using that may unfolding st moved(9) by (auto split: if_splits)
    with step moved(6) show ?thesis by blast
  qed
  then show "db_step d d'" "posts quiet d d'"
    "i \<in> set (dec_ready_node_ids x) \<Longrightarrow> \<exists>n. wn_id n = i \<and> may_start d' ?e n" by simp_all
qed

lemma dispatch_db_step:
  assumes ok: "sched_ok d" and inv: "task_inv m d" "1 \<le> m"
    and may: "may_start d (we_execution_id ex) n" and run: "dispatch fr u5 fresh now ex n d = (r, d')"
  shows "db_step d d'" "task_inv m d'" "posts quiet d d'"
proof -
  let ?e = "we_execution_id ex"
  have keys: "core_keys d" by (rule sched_okD(1) [OF ok])
  from may obtain w s g where e: "exec_view d ?e = Some (w, s)" "s \<noteq> WPENDING" and g: "dag_view d w = Some g"
    and n: "n \<in> set (nodes g)" and deps: "\<And>dep. dep \<in> set (wn_dependencies n) \<Longrightarrow> node_view d (?e, dep) = Some COMPLETED"
    by (auto simp: may_start_def)
  then have nofail: "\<forall>dep \<in> set (wn_dependencies n). node_view d (?e, dep) \<noteq> Some FAILED" by simp
  have "db_step d d' \<and> task_inv m d' \<and> posts quiet d d'"
    using run unfolding dispatch_def
  proof (cases rule: run_transaction_cases)
    case failed
    with db_step_refl [OF ok] inv show ?thesis by simp
  next
    case (committed x)
    show ?thesis using keys committed(2) nofail
    proof (cases rule: dispatch_effect)
      case started
      with db_step_refl [OF ok] inv show ?thesis by simp
    next
      case (claimed a d1 rin)
      have "node_view d' = (\<lambda>(e', i). if e' = ?e then ((node_statuses d ?e)(wn_id n \<mapsto> RUNNING)) i else node_view d (e', i))"
        unfolding claimed(7) by auto
      moreover have "exec_view d' = (exec_view d)(?e \<mapsto> (w, s))" using claimed(4) e(1) by auto
      moreover have "sched_step g (sched_of d ?e s) (s, (node_statuses d ?e)(wn_id n \<mapsto> RUNNING))"
        using e(2) n claimed(1) deps by (intro step_start) auto
      ultimately have step: "db_step d d'" using db_step_one [OF claimed(3,5) e(1) g] by blast
      have inv1: "task_inv m d1" by (rule task_inv_cong [OF inv(1) claimed(9)])
      have reg: "register_initial_task (create_task_id u5 ?e (wn_id n)) ?e (wn_id n) (wn_handler n) (wn_config n) rin fresh now d1 =
        Inr (fst a, snd a)" using claimed(8) by simp
      have "task_inv m (snd a)"
        using register_initial_task_keeps [OF _ reg] inv1 inv(2) by (simp add: task_inv_def)
      then have "task_inv m d'" by (rule task_inv_cong) (rule claimed(10))
      with step claimed(6) show ?thesis by blast
    qed
  qed
  then show "db_step d d'" "task_inv m d'" "posts quiet d d'" by simp_all
qed

lemma readiness_evaluate_effect:
  assumes ok: "sched_ok d" and t: "triggered_in d e" and run: "readiness_evaluate e d = (r, d')"
  shows "d' = d" and "r = Inr x \<Longrightarrow> i \<in> set (ready_node_ids x) \<Longrightarrow> \<exists>n. wn_id n = i \<and> may_start d e n"
proof -
  have keys: "core_keys d" by (rule sched_okD(1) [OF ok])
  from t obtain w s where e: "exec_view d e = Some (w, s)" "s \<noteq> WPENDING" by (auto simp: triggered_in_def)
  then obtain ex where ex: "executions_t.row d e = Some ex" "we_workflow_id ex = w" by (auto simp: exec_view_def)
  obtain g where g: "dag_view d w = Some g" "valid_graph g" "sched_inv g (sched_of d e s)" by (rule sched_okE [OF ok e(1)])
  then obtain q where q: "workflows_t.row d w = Some q" "wr_dag_definition q = g" by (auto simp: dag_view_def)
  have eq: "readiness_evaluate e d = (Inr \<lparr>rdy_execution_id = e,
      ready_node_ids = map wn_id (filter (ready (node_statuses d e)) (nodes g))\<rparr>, d)"
    using ex q by (simp add: readiness_evaluate_def run_transaction_def require_execution [OF keys]
        readiness_effect [OF keys] evaluate_ready_eq)
  show "d' = d" using run eq by simp
  show "\<exists>n. wn_id n = i \<and> may_start d e n" if "r = Inr x" "i \<in> set (ready_node_ids x)"
  proof -
    from that run eq obtain n where "wn_id n = i" "n \<in> set (nodes g)" "ready (node_statuses d e) n" by auto
    with ready_may_start [OF g(3) e g(1,2)] show ?thesis by blast
  qed
qed

lemma load_ready_effect:
  assumes ok: "sched_ok d" and ids: "\<forall>i \<in> set ids. \<exists>n. wn_id n = i \<and> may_start d e n"
    and run: "run_transaction (load_ready_nodes e ids) d = (r, d')"
  shows "d' = d" and "r = Inr (ex, ns) \<Longrightarrow> n \<in> set ns \<Longrightarrow> may_start d (we_execution_id ex) n"
proof -
  have keys: "core_keys d" by (rule sched_okD(1) [OF ok])
  note eq = load_ready_nodes_def require_execution [OF keys] require_workflow [OF keys] run_transaction_def
  show "d' = d" using run by (auto simp: eq split: option.splits sum.splits)
  assume rr: "r = Inr (ex, ns)" and n: "n \<in> set ns"
  from run rr obtain q where ex: "executions_t.row d e = Some ex" and q: "workflows_t.row d (we_workflow_id ex) = Some q"
    and ns: "ns = filter (\<lambda>node. wn_id node \<in> set ids) (nodes (wr_dag_definition q))"
    by (auto simp: eq split: option.splits sum.splits)
  have id: "we_execution_id ex = e" by (rule executions_t.row_key [OF ex])
  from n ns have nn: "n \<in> set (nodes (wr_dag_definition q))" "wn_id n \<in> set ids" by auto
  with ids obtain m where m: "wn_id m = wn_id n" "may_start d e m" by blast
  have e: "exec_view d e = Some (we_workflow_id ex, we_status ex)" using ex by (simp add: exec_view_def)
  have g: "dag_view d (we_workflow_id ex) = Some (wr_dag_definition q)" using q by (simp add: dag_view_def)
  have "m = n"
    using m sched_ok_graph [OF ok e g] valid_graph_unique [of "wr_dag_definition q" m n] nn(1) e g
    by (auto simp: may_start_def)
  with m id show "may_start d (we_execution_id ex) n" by simp
qed

subsection \<open>Publishers and workers\<close>

lemma same_messages_effect:
  assumes keys: "core_keys d" and same: "same_messages d d'"
  shows "core_keys d'" "sched_tables d' = sched_tables d" "task_tables d' = task_tables d"
    "\<forall>r' \<in> set (db_outbox d'). \<exists>r \<in> set (db_outbox d). ob_core r' = ob_core r"
proof -
  have core: "map ob_core (db_outbox d') = map ob_core (db_outbox d)" and d': "d' = db_outbox_update (\<lambda>_. db_outbox d') d"
    using same by (simp_all add: same_messages_def)
  have "map ob_event_id rows = map fst (map ob_core rows)" for rows by (simp add: ob_core_def)
  then have ids: "map ob_event_id (db_outbox d') = map ob_event_id (db_outbox d)" using core by metis
  have tabs: "db_workflows d' = db_workflows d" "db_executions d' = db_executions d" "db_nodes d' = db_nodes d"
    "db_logical_tasks d' = db_logical_tasks d" "db_attempts d' = db_attempts d" "db_retries d' = db_retries d"
    "db_processing d' = db_processing d"
    by (subst d', simp)+
  show "core_keys d'" "sched_tables d' = sched_tables d" "task_tables d' = task_tables d"
    using keys ids tabs by (simp_all add: core_keys_def sched_tables_def task_tables_def workflows_t.unique_def
        executions_t.unique_def nodes_t.unique_def outbox_t.unique_def)
  show "\<forall>r' \<in> set (db_outbox d'). \<exists>r \<in> set (db_outbox d). ob_core r' = ob_core r"
  proof
    fix r' assume "r' \<in> set (db_outbox d')"
    then have "ob_core r' \<in> set (map ob_core (db_outbox d'))" by simp
    then show "\<exists>r \<in> set (db_outbox d). ob_core r' = ob_core r" unfolding core by auto
  qed
qed

text \<open>\<open>worker_part\<close> is what the transactions of a worker leave alone.\<close>

definition worker_part :: "db \<Rightarrow> (WorkflowRecord list \<times> WorkflowExecutionRecord list \<times> NodeExecutionRecord list) \<times>
    OutboxEventRecord list \<times> attempt_view list \<times> TaskRetryDispatchRecord list \<times> string list" where
  "worker_part d = (sched_tables d, db_outbox d, map att_view (db_attempts d), db_retries d, map lt_task_id (db_logical_tasks d))"

lemma worker_part_inv:
  assumes "worker_part d' = worker_part d" and "task_inv m d"
  shows "task_inv m d'"
proof -
  have v: "map att_view (db_attempts d') = map att_view (db_attempts d)" using assms(1) by (simp add: worker_part_def)
  have num: "attempts_within m x \<longleftrightarrow> (\<forall>a \<in> set (map att_view (db_attempts x)). av_number a \<le> m)" for x
    by (auto simp: attempts_within_def)
  have "attempts_within m d \<Longrightarrow> attempts_within m d'" unfolding num v .
  moreover have "retry_inv d \<Longrightarrow> retry_inv d'"
    using assms(1) unfolding worker_part_def by (intro retry_inv_cong [of d d']) auto
  ultimately show ?thesis using assms(2) by (simp add: task_inv_def)
qed

lemma keeps_update_rows:
  "(\<And>d. g (upd (update_rows p f) d) = g d) \<Longrightarrow> keeps g (update_where get upd p f)"
  by (auto simp: keeps_def table_simps)

lemma keeps_require_row: "keeps g (require_row e rows)" "keeps g (scalar_one rows)"
  by (auto simp: keeps_def require_row_def scalar_one_def scalar_one_or_none_def split: list.splits)

lemma worker_part_updates:
  "(\<And>r. p r \<Longrightarrow> att_view (f r) = att_view r) \<Longrightarrow> worker_part (db_attempts_update (update_rows p f) d) = worker_part d"
  "worker_part (db_processing_update h d) = worker_part d"
  by (simp_all add: worker_part_def sched_tables_def map_update_rows)

text \<open>The transactions of a worker: claims on attempts and on tasks.\<close>

inductive worker_step :: "db \<Rightarrow> db \<Rightarrow> bool" where
  claim_attempt_step: "run_transaction (claim_attempt i t e n w now expires) d = (r, d') \<Longrightarrow> worker_step d d'"
| record_attempt_step: "run_transaction (record_attempt_result i ev v msg ty) d = (r, d') \<Longrightarrow> worker_step d d'"
| complete_attempt_step: "run_transaction (mark_attempt_completed i now) d = (r, d') \<Longrightarrow> worker_step d d'"
| renew_attempt_step: "run_transaction (renew_attempt_claim i w expires) d = (r, d') \<Longrightarrow> worker_step d d'"
| claim_task_step: "run_transaction (claim_task t e n w now expires) d = (r, d') \<Longrightarrow> worker_step d d'"
| record_task_step: "run_transaction (record_task_result t ev v msg ty) d = (r, d') \<Longrightarrow> worker_step d d'"
| complete_task_step: "run_transaction (mark_task_completed t now) d = (r, d') \<Longrightarrow> worker_step d d'"
| renew_task_step: "run_transaction (renew_task_claim t w expires) d = (r, d') \<Longrightarrow> worker_step d d'"

lemma keeps_run: "keeps g m \<Longrightarrow> run_transaction m d = (r, d') \<Longrightarrow> g d' = g d"
  by (auto elim!: run_transaction_cases dest: keepsD)

lemma keeps_attempt_claims:
  "keeps worker_part (claim_attempt i t e n w now expires)"
  "keeps worker_part (record_attempt_result i ev v msg ty)"
  "keeps worker_part (mark_attempt_completed i now)"
  "keeps worker_part (renew_attempt_claim i w expires)"
  unfolding claim_attempt_def record_attempt_result_def mark_attempt_completed_def renew_attempt_claim_def
    update_attempt_def
  by (intro keeps_bind keeps_basic keeps_if keeps_option keeps_scalar keeps_select keeps_update_rows keeps_require_row
      worker_part_updates; simp add: att_view_def)+

lemma keeps_task_claims:
  "keeps worker_part (claim_task t e n w now expires)"
  "keeps worker_part (record_task_result t ev v msg ty)"
  "keeps worker_part (mark_task_completed t now)"
  "keeps worker_part (renew_task_claim t w expires)"
  unfolding claim_task_def record_task_result_def mark_task_completed_def renew_task_claim_def
  by (intro keeps_bind keeps_basic keeps_if keeps_option keeps_scalar keeps_select keeps_update keeps_require_row
      worker_part_updates)+

lemma worker_step_part: "worker_step d d' \<Longrightarrow> worker_part d' = worker_part d"
  by (induction rule: worker_step.induct) (erule keeps_run [rotated], rule keeps_attempt_claims keeps_task_claims)+

lemma publish_retries_effect:
  assumes log: "accepts_to_log pub log" and keys: "core_keys d" and inv: "task_inv m d"
    and run: "publish_retries fr pub now rs k d b = (r, d', b')"
  shows "core_keys d' \<and> sched_tables d' = sched_tables d \<and> db_outbox d' = db_outbox d \<and> task_inv m d' \<and>
    (\<forall>x \<in> log b'. x \<in> log b \<or> fst x = WORKFLOW_TASKS_STREAM)"
  using keys inv run
proof (induction rs arbitrary: k d b)
  case Nil
  then show ?case by auto
next
  case (Cons q rs)
  show ?case
  proof (cases "task_to_stream_fields fr (retry_message q)")
    case (Inl e)
    with Cons.prems show ?thesis by auto
  next
    case (Inr fs)
    obtain x b1 where pub: "pub WORKFLOW_TASKS_STREAM fs b = (x, b1)" by fastforce
    have l: "\<forall>y \<in> log b1. y \<in> log b \<or> fst y = WORKFLOW_TASKS_STREAM"
      using accepts_to_logD(2) [OF log pub] by auto
    show ?thesis
    proof (cases x)
      case (Inl e)
      with Cons.prems Inr pub l show ?thesis by auto
    next
      case (Inr i)
      obtain y d1 where tx: "run_transaction (mark_retry_published (due_attempt_id q) now) d = (y, d1)" by fastforce
      have part: "sched_tables d1 = sched_tables d" "db_outbox d1 = db_outbox d"
        using keeps_run [OF keeps_mark_retry tx] by simp_all
      have keys1: "core_keys d1" by (rule core_keys_cong [OF Cons.prems(1) part])
      have inv1: "task_inv m d1"
        using tx
      proof (cases rule: run_transaction_cases)
        case failed
        with Cons.prems show ?thesis by simp
      next
        case (committed z)
        show ?thesis
          using mark_retry_published_keeps [OF _ committed(2)] Cons.prems(2) by (simp add: task_inv_def)
      qed
      show ?thesis
      proof (cases y)
        case (Inl e)
        have "d' = d1" "b' = b1"
          using Cons.prems(3) \<open>task_to_stream_fields fr (retry_message q) = Inr fs\<close> pub \<open>x = Inr i\<close> tx Inl by simp_all
        with part keys1 inv1 l show ?thesis by simp
      next
        case (Inr marked)
        have rest: "publish_retries fr pub now rs (if marked then k + 1 else k) d1 b1 = (r, d', b')"
          using Cons.prems(3) \<open>task_to_stream_fields fr (retry_message q) = Inr fs\<close> pub \<open>x = Inr i\<close> tx Inr by simp
        from Cons.IH [OF keys1 inv1 rest] part l show ?thesis by auto
      qed
    qed
  qed
qed

lemma due_retries_effect:
  assumes "accepts_to_log pub log" and "core_keys d" and "task_inv m d"
    and run: "publish_due_retries fr pub now d b = (r, d', b')"
  shows "core_keys d' \<and> sched_tables d' = sched_tables d \<and> db_outbox d' = db_outbox d \<and> task_inv m d' \<and>
    (\<forall>x \<in> log b'. x \<in> log b \<or> fst x = WORKFLOW_TASKS_STREAM)"
proof -
  from run obtain rs where "publish_retries fr pub now rs 0 d b = (r, d', b')"
    by (auto simp: publish_due_retries_def get_due_retries_def run_transaction_def)
  from publish_retries_effect [OF assms(1-3) this] show ?thesis .
qed

text \<open>What a trigger event in the stream says.\<close>

lemma trigger_decoded:
  assumes codec: "float_codec fr fp" and as: "published_as fr r (WORKFLOW_EVENTS_STREAM, fs)"
    and run: "trigger_execution_id fp fs = Inr e"
  shows "ob_event_type r = ''workflow.execution.triggered''"
    and "ob_payload r = [(PStr ''execution_id'', PStr (uuid_str e'))] \<Longrightarrow> e = e'"
proof -
  have "(if ob_target_stream r = [] then WORKFLOW_EVENTS_STREAM else ob_target_stream r) = WORKFLOW_EVENTS_STREAM"
    using as by (simp add: published_as_def target_stream_of_def)
  with as obtain t where t: "dumps fr (PDict (ob_payload r)) = Inr t"
    and fs: "map_of fs ''event_type'' = Some (ob_event_type r)" "map_of fs ''payload'' = Some t"
    by (auto simp: published_as_def stream_fields_def outbox_stream_fields_def Let_def rbind_Inr_iff split: option.splits
        simp del: dumps.simps)
  show "ob_event_type r = ''workflow.execution.triggered''"
    using run fs(1) by (auto simp: trigger_execution_id_def required_field_def EXECUTION_TRIGGERED_EVENT_TYPE_def
        rbind_Inr_iff split: if_splits)
  assume pl: "ob_payload r = [(PStr ''execution_id'', PStr (uuid_str e'))]"
  have "json_object (ob_payload r)" by (simp add: pl json_object_def)
  then obtain t' where t': "dumps fr (PDict (ob_payload r)) = Inr t'"
    "loads fp t' = Some (PDict (canon_object (ob_payload r)))" "\<not> blank t'" "is_json_value (PDict (canon_object (ob_payload r)))"
    by (rule loads_dumps_object [OF codec])
  have "canon_object (ob_payload r) = ob_payload r" by (simp add: pl canon_object_def)
  with t t' have l: "json_object_field fp fs ''payload'' mt = Inr (ob_payload r)" for mt
    by (intro json_object_field_ok [OF fs(2)]) (simp_all del: dumps.simps)
  show "e = e'"
    using run l by (auto simp: trigger_execution_id_def rbind_Inr_iff pl dict_get_def dict_lookup_def split: if_splits)
qed

section \<open>The engine\<close>

record 'b platform =
  p_env :: environment
  p_fr :: float_text
  p_fp :: "string \<Rightarrow> 64 word"
  p_fl :: float_platform
  p_u5 :: uuid5_hash
  p_model :: "pydict \<Rightarrow> error + Workflow"
  p_policy :: RetryPolicy
  p_publish :: "'b publish_call"
  p_log :: "'b \<Rightarrow> (string \<times> fields) set"
  p_broker :: 'b

text \<open>What is relied on: \<open>json\<close> reads back the floats it wrote, \<open>Workflow.model_validate\<close> takes over
  well-typed fields, the retry policy passed its own validation, and Redis starts without workflow events and adds
  the entries of accepted calls.\<close>

definition platform_ok :: "'b platform \<Rightarrow> bool" where
  "platform_ok P \<longleftrightarrow> float_codec (p_fr P) (p_fp P) \<and>
     (\<forall>d w. p_model P d = Inr w \<longrightarrow> reads_definition d w) \<and> 1 \<le> rp_max_attempts (p_policy P) \<and>
     accepts_to_log (p_publish P) (p_log P) \<and> (\<forall>fs. (WORKFLOW_EVENTS_STREAM, fs) \<notin> p_log P (p_broker P))"

record 'b engine =
  eng_db :: db
  eng_broker :: 'b
  eng_ready :: "(uuid \<times> string list) set"
  eng_calls :: "(WorkflowExecution \<times> WorkflowNode) set"

definition initial_engine :: "'b platform \<Rightarrow> 'b engine" where
  "initial_engine P = \<lparr>eng_db = empty_db, eng_broker = p_broker P, eng_ready = {}, eng_calls = {}\<rparr>"

text \<open>\<open>eng_redis\<close> is everything else that happens to Redis: reads, acknowledgements, the entries of the workers,
  lost entries; no event of the workflow stream appears by it.\<close>

inductive engine_step :: "'b platform \<Rightarrow> 'b engine \<Rightarrow> 'b engine \<Rightarrow> bool" for P where
  eng_submit: "submit (default_validator (p_env P) (p_fr P)) (p_model P) definition e now (eng_db s) = (r, d') \<Longrightarrow>
    engine_step P s (s\<lparr>eng_db := d'\<rparr>)"
| eng_trigger: "trigger fresh now e inp (eng_db s) = (r, d') \<Longrightarrow> engine_step P s (s\<lparr>eng_db := d'\<rparr>)"
| eng_publish: "publish_pending (p_fr P) (p_publish P) now (eng_db s) (eng_broker s) = (r, d', b') \<Longrightarrow>
    engine_step P s (s\<lparr>eng_db := d', eng_broker := b'\<rparr>)"
| eng_cleanup: "cleanup_published now retention batch (eng_db s) = (r, d') \<Longrightarrow> engine_step P s (s\<lparr>eng_db := d'\<rparr>)"
| eng_retries: "publish_due_retries (p_fr P) (p_publish P) now (eng_db s) (eng_broker s) = (r, d', b') \<Longrightarrow>
    engine_step P s (s\<lparr>eng_db := d', eng_broker := b'\<rparr>)"
| eng_redis: "(\<And>fs. (WORKFLOW_EVENTS_STREAM, fs) \<in> p_log P b' \<Longrightarrow> (WORKFLOW_EVENTS_STREAM, fs) \<in> p_log P (eng_broker s)) \<Longrightarrow>
    engine_step P s (s\<lparr>eng_broker := b'\<rparr>)"
| eng_trigger_event: "(WORKFLOW_EVENTS_STREAM, fs) \<in> p_log P (eng_broker s) \<Longrightarrow> trigger_execution_id (p_fp P) fs = Inr e \<Longrightarrow>
    readiness_evaluate e (eng_db s) = (Inr x, d') \<Longrightarrow>
    engine_step P s (s\<lparr>eng_db := d', eng_ready := insert (e, ready_node_ids x) (eng_ready s)\<rparr>)"
| eng_completion: "process (p_fl P) (p_u5 P) (p_policy P) fresh now ev (eng_db s) = (Inr x, d') \<Longrightarrow>
    engine_step P s (s\<lparr>eng_db := d', eng_ready := insert (tc_execution_id ev, dec_ready_node_ids x) (eng_ready s)\<rparr>)"
| eng_load: "(e, ids) \<in> eng_ready s \<Longrightarrow> run_transaction (load_ready_nodes e ids) (eng_db s) = (Inr (ex, ns), d') \<Longrightarrow>
    engine_step P s (s\<lparr>eng_db := d', eng_calls := eng_calls s \<union> {ex} \<times> set ns\<rparr>)"
| eng_dispatch: "(ex, n) \<in> eng_calls s \<Longrightarrow> dispatch (p_fr P) (p_u5 P) fresh now ex n (eng_db s) = (r, d') \<Longrightarrow>
    engine_step P s (s\<lparr>eng_db := d'\<rparr>)"
| eng_worker: "worker_step (eng_db s) d' \<Longrightarrow> engine_step P s (s\<lparr>eng_db := d'\<rparr>)"
| eng_clock: "db_now (eng_db s) \<le> t \<Longrightarrow> engine_step P s (s\<lparr>eng_db := (eng_db s)\<lparr>db_now := t\<rparr>\<rparr>)"

abbreviation engine_reachable :: "'b platform \<Rightarrow> 'b engine \<Rightarrow> bool" where
  "engine_reachable P \<equiv> (engine_step P)\<^sup>*\<^sup>* (initial_engine P)"

definition engine_inv :: "'b platform \<Rightarrow> 'b engine \<Rightarrow> bool" where
  "engine_inv P s \<longleftrightarrow> sched_ok (eng_db s) \<and> task_inv (rp_max_attempts (p_policy P)) (eng_db s) \<and>
     (\<forall>r \<in> set (db_outbox (eng_db s)). quiet r \<or> trigger_row (eng_db s) r) \<and>
     (\<forall>fs e. (WORKFLOW_EVENTS_STREAM, fs) \<in> p_log P (eng_broker s) \<longrightarrow> trigger_execution_id (p_fp P) fs = Inr e \<longrightarrow>
        triggered_in (eng_db s) e) \<and>
     (\<forall>(e, ids) \<in> eng_ready s. \<forall>i \<in> set ids. \<exists>n. wn_id n = i \<and> may_start (eng_db s) e n) \<and>
     (\<forall>(ex, n) \<in> eng_calls s. may_start (eng_db s) (we_execution_id ex) n)"

lemma engine_invD:
  assumes "engine_inv P s"
  shows "sched_ok (eng_db s)" "task_inv (rp_max_attempts (p_policy P)) (eng_db s)"
    "r \<in> set (db_outbox (eng_db s)) \<Longrightarrow> quiet r \<or> trigger_row (eng_db s) r"
    "(WORKFLOW_EVENTS_STREAM, fs) \<in> p_log P (eng_broker s) \<Longrightarrow> trigger_execution_id (p_fp P) fs = Inr e \<Longrightarrow> triggered_in (eng_db s) e"
    "(e, ids) \<in> eng_ready s \<Longrightarrow> \<forall>i \<in> set ids. \<exists>n. wn_id n = i \<and> may_start (eng_db s) e n"
    "(ex, n) \<in> eng_calls s \<Longrightarrow> may_start (eng_db s) (we_execution_id ex) n"
  using assms unfolding engine_inv_def by blast+

text \<open>What a step has to provide.\<close>

lemma engine_invI:
  assumes inv: "engine_inv P s" and step: "db_step (eng_db s) (eng_db s')"
    and tasks: "task_inv (rp_max_attempts (p_policy P)) (eng_db s')"
    and outbox: "\<And>r. r \<in> set (db_outbox (eng_db s')) \<Longrightarrow>
      quiet r \<or> trigger_row (eng_db s') r \<or> (\<exists>q \<in> set (db_outbox (eng_db s)). ob_core r = ob_core q)"
    and log: "\<And>fs e. (WORKFLOW_EVENTS_STREAM, fs) \<in> p_log P (eng_broker s') \<Longrightarrow> trigger_execution_id (p_fp P) fs = Inr e \<Longrightarrow>
      triggered_in (eng_db s') e \<or> (WORKFLOW_EVENTS_STREAM, fs) \<in> p_log P (eng_broker s)"
    and ready: "\<And>e ids i. (e, ids) \<in> eng_ready s' \<Longrightarrow> i \<in> set ids \<Longrightarrow>
      (\<exists>n. wn_id n = i \<and> may_start (eng_db s') e n) \<or> (e, ids) \<in> eng_ready s"
    and calls: "\<And>ex n. (ex, n) \<in> eng_calls s' \<Longrightarrow> may_start (eng_db s') (we_execution_id ex) n \<or> (ex, n) \<in> eng_calls s"
  shows "engine_inv P s'"
proof -
  note D = engine_invD [OF inv]
  note mono = triggered_in_step [OF D(1) step] may_start_step [OF step]
  have rows: "quiet r \<or> trigger_row (eng_db s') r" if r: "r \<in> set (db_outbox (eng_db s'))" for r
  proof -
    have "quiet r \<or> trigger_row (eng_db s') r" if q: "q \<in> set (db_outbox (eng_db s))" "ob_core r = ob_core q" for q
      using D(3) [OF q(1)] q(2) mono(1) by (auto simp: quiet_def trigger_row_def ob_core_def)
    with outbox [OF r] show ?thesis by blast
  qed
  have "triggered_in (eng_db s') e" if "(WORKFLOW_EVENTS_STREAM, fs) \<in> p_log P (eng_broker s')" "trigger_execution_id (p_fp P) fs = Inr e" for fs e
    using log [OF that] D(4) [OF _ that(2)] mono(1) by blast
  moreover have "\<exists>n. wn_id n = i \<and> may_start (eng_db s') e n" if "(e, ids) \<in> eng_ready s'" "i \<in> set ids" for e ids i
    using ready [OF that] D(5) [of e ids] that(2) mono(2) by blast
  moreover have "may_start (eng_db s') (we_execution_id ex) n" if "(ex, n) \<in> eng_calls s'" for ex n
    using calls [OF that] D(6) mono(2) by blast
  ultimately show ?thesis
    unfolding engine_inv_def using db_step_keeps_ok [OF D(1) step] tasks rows by blast
qed

lemma posts_rows:
  "posts Q d d' \<Longrightarrow> r \<in> set (db_outbox d') \<Longrightarrow> Q r \<or> (\<exists>q \<in> set (db_outbox d). ob_core r = ob_core q)"
  by (auto simp: posts_def)

lemma cleanup_effect:
  assumes keys: "core_keys d" and run: "cleanup_published now retention batch d = (r, d')"
  shows "core_keys d'" "sched_tables d' = sched_tables d" "task_tables d' = task_tables d"
    "set (db_outbox d') \<subseteq> set (db_outbox d)"
proof -
  from run obtain p where d': "d' = d \<or> d' = db_outbox_update (filter p) d"
    by (auto simp: cleanup_published_def Let_def split: if_splits)
  have "outbox_t.unique d'"
    using d' core_keysD(4) [OF keys] by (auto simp: outbox_t.unique_def distinct_map_filter_key)
  then show "core_keys d'"
    using d' keys by (auto simp: core_keys_def workflows_t.unique_def executions_t.unique_def nodes_t.unique_def)
  show "sched_tables d' = sched_tables d" "task_tables d' = task_tables d" "set (db_outbox d') \<subseteq> set (db_outbox d)"
    using d' by (auto simp: sched_tables_def task_tables_def)
qed

text \<open>Steps that leave the scheduling tables alone.\<close>

lemma engine_inv_quiet:
  assumes inv: "engine_inv P s" and keys: "core_keys d'" and tabs: "sched_tables d' = sched_tables (eng_db s)"
    and tasks: "task_inv (rp_max_attempts (p_policy P)) d'"
    and rows: "\<And>r. r \<in> set (db_outbox d') \<Longrightarrow> \<exists>q \<in> set (db_outbox (eng_db s)). ob_core r = ob_core q"
    and log: "\<And>fs e. (WORKFLOW_EVENTS_STREAM, fs) \<in> p_log P b' \<Longrightarrow> trigger_execution_id (p_fp P) fs = Inr e \<Longrightarrow>
      triggered_in (eng_db s) e \<or> (WORKFLOW_EVENTS_STREAM, fs) \<in> p_log P (eng_broker s)"
  shows "db_step (eng_db s) d' \<and> engine_inv P (s\<lparr>eng_db := d', eng_broker := b'\<rparr>)"
proof
  show step: "db_step (eng_db s) d'" by (rule db_step_tables [OF tabs keys])
  have "triggered_in d' e \<or> (WORKFLOW_EVENTS_STREAM, fs) \<in> p_log P (eng_broker s)"
    if "(WORKFLOW_EVENTS_STREAM, fs) \<in> p_log P b'" "trigger_execution_id (p_fp P) fs = Inr e" for fs e
    using log [OF that] triggered_in_step [OF engine_invD(1) [OF inv] step] by blast
  then show "engine_inv P (s\<lparr>eng_db := d', eng_broker := b'\<rparr>)"
    by (intro engine_invI [OF inv]) (use step tasks rows in auto)
qed

lemma engine_inv_quiet_db:
  assumes "engine_inv P s" and "core_keys d'" and "sched_tables d' = sched_tables (eng_db s)"
    and "task_inv (rp_max_attempts (p_policy P)) d'"
    and "\<And>r. r \<in> set (db_outbox d') \<Longrightarrow> \<exists>q \<in> set (db_outbox (eng_db s)). ob_core r = ob_core q"
  shows "db_step (eng_db s) d' \<and> engine_inv P (s\<lparr>eng_db := d'\<rparr>)"
  using engine_inv_quiet [OF assms, where b' = "eng_broker s"] by simp

text \<open>What a pass of the publisher adds to the stream of workflow events.\<close>

lemma published_triggered:
  assumes codec: "float_codec (p_fr P) (p_fp P)" and inv: "engine_inv P s" and accepts: "accepts_to_log (p_publish P) (p_log P)"
    and run: "publish_pending (p_fr P) (p_publish P) now (eng_db s) (eng_broker s) = (r, d', b')"
    and l: "(WORKFLOW_EVENTS_STREAM, fs) \<in> p_log P b'" and t: "trigger_execution_id (p_fp P) fs = Inr ex"
  shows "triggered_in (eng_db s) ex \<or> (WORKFLOW_EVENTS_STREAM, fs) \<in> p_log P (eng_broker s)"
proof (rule disjCI)
  assume "(WORKFLOW_EVENTS_STREAM, fs) \<notin> p_log P (eng_broker s)"
  with publish_pending_effect(3) [OF accepts run l] obtain q where q: "q \<in> set (db_outbox (eng_db s))"
    "published_as (p_fr P) q (WORKFLOW_EVENTS_STREAM, fs)" using pending_batch_subset by blast
  note dec = trigger_decoded [OF codec q(2) t]
  from engine_invD(3) [OF inv q(1)] dec(1) have "trigger_row (eng_db s) q" by (simp add: quiet_def)
  then show "triggered_in (eng_db s) ex" using dec(2) by (auto simp: trigger_row_def)
qed

text \<open>Steps inside Redis and on the tables that scheduling does not read.\<close>

lemma publisher_step_inv:
  assumes P: "platform_ok P" and inv: "engine_inv P s"
  shows "publish_pending (p_fr P) (p_publish P) now (eng_db s) (eng_broker s) = (r, d', b') \<Longrightarrow>
      db_step (eng_db s) d' \<and> engine_inv P (s\<lparr>eng_db := d', eng_broker := b'\<rparr>)"
    and "cleanup_published now retention batch (eng_db s) = (n, d') \<Longrightarrow> db_step (eng_db s) d' \<and> engine_inv P (s\<lparr>eng_db := d'\<rparr>)"
    and "publish_due_retries (p_fr P) (p_publish P) now (eng_db s) (eng_broker s) = (n, d', b') \<Longrightarrow>
      db_step (eng_db s) d' \<and> engine_inv P (s\<lparr>eng_db := d', eng_broker := b'\<rparr>)"
proof -
  note D = engine_invD [OF inv]
  have keys: "core_keys (eng_db s)" by (rule sched_okD(1) [OF D(1)])
  have codec: "float_codec (p_fr P) (p_fp P)" and accepts: "accepts_to_log (p_publish P) (p_log P)"
    using P by (simp_all add: platform_ok_def)
  show "db_step (eng_db s) d' \<and> engine_inv P (s\<lparr>eng_db := d', eng_broker := b'\<rparr>)"
    if run: "publish_pending (p_fr P) (p_publish P) now (eng_db s) (eng_broker s) = (r, d', b')"
  proof -
    note e = same_messages_effect [OF keys publish_pending_effect(1) [OF accepts run]]
    show ?thesis
      by (rule engine_inv_quiet [OF inv e(1,2) task_inv_cong [OF D(2) e(3)] bspec [OF e(4)] published_triggered [OF codec inv accepts run]])
  qed
  show "db_step (eng_db s) d' \<and> engine_inv P (s\<lparr>eng_db := d'\<rparr>)"
    if run: "cleanup_published now retention batch (eng_db s) = (n, d')"
  proof -
    note e = cleanup_effect [OF keys run]
    show ?thesis by (rule engine_inv_quiet_db [OF inv e(1,2) task_inv_cong [OF D(2) e(3)]]) (use e(4) in blast)
  qed
  show "db_step (eng_db s) d' \<and> engine_inv P (s\<lparr>eng_db := d', eng_broker := b'\<rparr>)"
    if run: "publish_due_retries (p_fr P) (p_publish P) now (eng_db s) (eng_broker s) = (n, d', b')"
  proof -
    note e = due_retries_effect [OF accepts keys D(2) run]
    have "WORKFLOW_EVENTS_STREAM \<noteq> WORKFLOW_TASKS_STREAM"
      by (simp add: WORKFLOW_EVENTS_STREAM_def WORKFLOW_TASKS_STREAM_def)
    then show ?thesis by (intro engine_inv_quiet [OF inv]) (use e in fastforce)+
  qed
qed

lemma outside_step_inv:
  assumes inv: "engine_inv P s"
  shows "worker_step (eng_db s) d' \<Longrightarrow> db_step (eng_db s) d' \<and> engine_inv P (s\<lparr>eng_db := d'\<rparr>)"
    and "db_step (eng_db s) ((eng_db s)\<lparr>db_now := t\<rparr>) \<and> engine_inv P (s\<lparr>eng_db := (eng_db s)\<lparr>db_now := t\<rparr>\<rparr>)"
proof -
  note D = engine_invD [OF inv]
  have keys: "core_keys (eng_db s)" by (rule sched_okD(1) [OF D(1)])
  show "db_step (eng_db s) d' \<and> engine_inv P (s\<lparr>eng_db := d'\<rparr>)" if "worker_step (eng_db s) d'"
  proof -
    note part = worker_step_part [OF that]
    then have tabs: "sched_tables d' = sched_tables (eng_db s)" "db_outbox d' = db_outbox (eng_db s)"
      by (simp_all add: worker_part_def)
    show ?thesis
      by (rule engine_inv_quiet_db [OF inv core_keys_cong [OF keys tabs] tabs(1) worker_part_inv [OF part D(2)]])
        (use tabs(2) in auto)
  qed
  let ?d = "(eng_db s)\<lparr>db_now := t\<rparr>"
  have tabs: "sched_tables ?d = sched_tables (eng_db s)" "db_outbox ?d = db_outbox (eng_db s)"
    "task_tables ?d = task_tables (eng_db s)" by (simp_all add: sched_tables_def task_tables_def)
  show "db_step (eng_db s) ?d \<and> engine_inv P (s\<lparr>eng_db := ?d\<rparr>)"
    by (rule engine_inv_quiet_db [OF inv core_keys_cong [OF keys tabs(1,2)] tabs(1) task_inv_cong [OF D(2) tabs(3)]])
      (use tabs(2) in auto)
qed

lemma engine_step_inv:
  assumes P: "platform_ok P" and inv: "engine_inv P s" and step: "engine_step P s s'"
  shows "db_step (eng_db s) (eng_db s') \<and> engine_inv P s'"
proof -
  note D = engine_invD [OF inv]
  have reads: "\<forall>d w. p_model P d = Inr w \<longrightarrow> reads_definition d w" and m: "1 \<le> rp_max_attempts (p_policy P)"
    using P by (simp_all add: platform_ok_def)
  from step show ?thesis
  proof cases
    case (eng_submit defn e now r d')
    note e = submit_db_step [OF D(1) reads eng_submit(2)]
    show ?thesis
      using e by (auto simp: eng_submit(1) intro!: engine_invI [OF inv] task_inv_cong [OF D(2) e(2)])
  next
    case (eng_trigger fresh now e inp r d')
    note e = trigger_db_step [OF D(1) eng_trigger(2)]
    have "engine_inv P s'"
      by (rule engine_invI [OF inv]) (use e task_inv_cong [OF D(2) e(2)] posts_rows [OF e(3)] in \<open>auto simp: eng_trigger(1)\<close>)
    with e(1) show ?thesis by (simp add: eng_trigger(1))
  next
    case (eng_trigger_event fs e x d')
    note r = readiness_evaluate_effect [OF D(1) D(4) [OF eng_trigger_event(2,3)] eng_trigger_event(4)]
    show ?thesis
      using db_step_refl [OF D(1)] r(1) r(2) [OF refl] D(2) by (auto simp: eng_trigger_event(1) intro!: engine_invI [OF inv])
  next
    case (eng_completion fresh now ev x d')
    note e = process_db_step [OF D(1,2) eng_completion(2)]
    have "engine_inv P s'"
      by (rule engine_invI [OF inv]) (use e posts_rows [OF e(3)] in \<open>auto simp: eng_completion(1)\<close>)
    with e(1) show ?thesis by (simp add: eng_completion(1))
  next
    case (eng_load e ids ex ns d')
    note l = load_ready_effect [OF D(1) D(5) [OF eng_load(2)] eng_load(3)]
    show ?thesis using db_step_refl [OF D(1)] l(1) l(2) [OF refl] D(2) by (auto simp: eng_load(1) intro!: engine_invI [OF inv])
  next
    case (eng_dispatch ex n fresh now r d')
    note e = dispatch_db_step [OF D(1,2) m D(6) [OF eng_dispatch(2)] eng_dispatch(3)]
    have "engine_inv P s'"
      by (rule engine_invI [OF inv]) (use e posts_rows [OF e(3)] in \<open>auto simp: eng_dispatch(1)\<close>)
    with e(1) show ?thesis by (simp add: eng_dispatch(1))
  next
    case (eng_redis b')
    show ?thesis using db_step_refl [OF D(1)] D(2) eng_redis(2) by (auto simp: eng_redis(1) intro!: engine_invI [OF inv])
  qed (use publisher_step_inv [OF P inv] outside_step_inv [OF inv] in auto)
qed

lemma engine_inv_initial: "platform_ok P \<Longrightarrow> engine_inv P (initial_engine P)"
  by (auto simp: platform_ok_def engine_inv_def initial_engine_def sched_ok_def core_keys_def empty_db_def workflows_t.unique_def
      executions_t.unique_def nodes_t.unique_def outbox_t.unique_def exec_view_def executions_t.row_def
      absent_execution_def node_view_def nodes_t.row_def task_inv_def retry_inv_def logical_t.unique_def
      retries_t.unique_def attempts_ok_def attempts_within_def)

lemma engine_reachable_inv:
  assumes "platform_ok P" and "engine_reachable P s"
  shows "engine_inv P s"
  using assms(2) by induction (auto intro: engine_inv_initial [OF assms(1)] dest: engine_step_inv [OF assms(1)])

lemma engine_reachable_sched:
  assumes "platform_ok P" and "engine_reachable P s" and "exec_view (eng_db s) e = Some (w, st)"
  obtains g where "dag_view (eng_db s) w = Some g" "valid_graph g" "sched_inv g (sched_of (eng_db s) e st)"
  using sched_okE [OF engine_invD(1) [OF engine_reachable_inv [OF assms(1,2)]] assms(3)] by blast

end
