(* ===== verification/Interference.thy ===== *)
theory Interference
  imports Processing
begin

text \<open>
  What the rest of the system may do to an attempt whose result is recorded. Besides the workers, the orchestrator
  writes the attempts: it registers tasks, records successes and failures and publishes retries. All of it but the
  failure of the attempt itself leaves a recorded result in place until the attempt is closed.
\<close>

section \<open>Relations kept by transactions\<close>

text \<open>A reflexive and transitive relation between the databases before and after a transaction holds across a sequence
  of statements when it holds across each.\<close>

locale kept_relation =
  fixes R :: "'d \<Rightarrow> 'd \<Rightarrow> bool"
  assumes refl: "R d d" and trans: "R d d1 \<Longrightarrow> R d1 d2 \<Longrightarrow> R d d2"
begin

definition kept_by :: "('d, 'a) tx \<Rightarrow> bool" where
  "kept_by m \<longleftrightarrow> (\<forall>d x d'. m d = Inr (x, d') \<longrightarrow> R d d')"

lemma kept_byD: "kept_by m \<Longrightarrow> m d = Inr (x, d') \<Longrightarrow> R d d'"
  by (auto simp: kept_by_def)

lemma kept_by_read:
  "kept_by (tx_return x)" "kept_by (tx_raise e)" "kept_by (select_where get p)" "kept_by (select_one get p)"
  "kept_by (scalar_one_or_none rows)" "kept_by (scalar_one rows)" "kept_by (require_row e rows)"
  by (auto simp: kept_by_def refl select_one_def scalar_one_or_none_def scalar_one_def require_row_def table_simps
      rbind_Inr_iff split: list.splits if_splits)

lemma kept_by_bind: "kept_by m \<Longrightarrow> (\<And>x. kept_by (f x)) \<Longrightarrow> kept_by (tx_bind m f)"
  unfolding kept_by_def by (fastforce simp: rbind_Inr_iff intro: trans)

lemma kept_by_if: "(b \<Longrightarrow> kept_by m) \<Longrightarrow> (\<not> b \<Longrightarrow> kept_by n) \<Longrightarrow> kept_by (if b then m else n)"
  by simp

lemma kept_by_option: "kept_by m \<Longrightarrow> (\<And>x. kept_by (f x)) \<Longrightarrow> kept_by (case a of None \<Rightarrow> m | Some x \<Rightarrow> f x)"
  by (cases a) simp_all

lemmas kept_by_control = kept_by_bind kept_by_if kept_by_option kept_by_read

end

section \<open>Attempts keep their identity\<close>

definition stays_known :: "uuid \<Rightarrow> db \<Rightarrow> db \<Rightarrow> bool" where
  "stays_known i d d' \<longleftrightarrow> (\<forall>ident. attempt_known d i ident \<longrightarrow> attempt_known d' i ident)"

interpretation known: kept_relation "stays_known i" for i
  by unfold_locales (simp_all add: stays_known_def)

lemma known_update_attempts:
  assumes "\<And>r. ta_attempt_id (f r) = ta_attempt_id r" and "\<And>r. ta_task_id (f r) = ta_task_id r"
  shows "stays_known i d (db_attempts_update (update_rows p f) d)"
  unfolding stays_known_def
proof (intro allI impI)
  fix ident assume "attempt_known d i ident"
  then obtain a l where "attempts_t.row d i = Some a" "logical_t.row d (ta_task_id a) = Some l"
    "ident = (ta_task_id a, lt_execution_id l, lt_node_id l)" by (auto simp: attempt_known_def split: prod.splits)
  then show "attempt_known (db_attempts_update (update_rows p f) d) i ident"
    using assms by (simp add: attempt_known_def attempts_t.row_update logical_t.row_def)
qed

lemma known_attempt_operations:
  "known.kept_by i (claim_attempt j t e n w now expires)" "known.kept_by i (record_attempt_result j ev v msg ty)"
  "known.kept_by i (mark_attempt_completed j now)" "known.kept_by i (renew_attempt_claim j w expires)"
proof -
  have upd: "known.kept_by i (update_where db_attempts db_attempts_update p f)"
    if "\<And>r. ta_attempt_id (f r) = ta_attempt_id r" and "\<And>r. ta_task_id (f r) = ta_task_id r" for p f
    using known_update_attempts [OF that] by (auto simp: known.kept_by_def table_simps)
  show "known.kept_by i (claim_attempt j t e n w now expires)" "known.kept_by i (record_attempt_result j ev v msg ty)"
    "known.kept_by i (mark_attempt_completed j now)" "known.kept_by i (renew_attempt_claim j w expires)"
    unfolding claim_attempt_def record_attempt_result_def mark_attempt_completed_def renew_attempt_claim_def update_attempt_def
    by (intro known.kept_by_control upd; simp)+
qed

lemma activity_known: "attempt_claims.activity T d d' \<Longrightarrow> stays_known i d d'"
proof (induction rule: attempt_claims.activity.induct)
  case (claimed d d1 k ident w now expires out d2)
  then show ?case
    using known.trans [OF _ known.kept_byD [OF known_attempt_operations(1)]] by (cases ident) (auto simp: claim_attempt_as_def)
qed (auto intro: known.refl known.trans known.kept_byD [OF known_attempt_operations(2)]
    known.kept_byD [OF known_attempt_operations(3)] known.kept_byD [OF known_attempt_operations(4)])

section \<open>Recorded results stay\<close>

text \<open>What a step leaves of an attempt: its identity, and a recorded result until the attempt is closed.\<close>

definition spares :: "uuid \<Rightarrow> db \<Rightarrow> db \<Rightarrow> bool" where
  "spares i d d' \<longleftrightarrow> stays_known i d d' \<and> (attempts_claim_ok d \<longrightarrow> attempts_claim_ok d' \<and>
     (\<forall>r. attempt_abs d i = Recorded r \<longrightarrow> attempt_abs d' i = Recorded r \<or> attempt_abs d' i = Closed) \<and>
     (attempt_abs d i = Closed \<longrightarrow> attempt_abs d' i = Closed))"

interpretation spared: kept_relation "spares i" for i
  by unfold_locales (auto simp: spares_def intro: known.refl known.trans)

lemma spares_activity: "attempt_claims.activity T d d' \<Longrightarrow> spares i d d'"
  unfolding spares_def by (auto dest: activity_known attempt_claims.activity_ok attempt_claims.result_final [of T d d' i])

text \<open>Statements: an update of attempts that does not touch the recorded result of \<open>i\<close>, new rows, and updates of
  logical tasks that keep their identity.\<close>

definition harmless_update :: "uuid \<Rightarrow> (TaskAttemptRecord \<Rightarrow> bool) \<Rightarrow> (TaskAttemptRecord \<Rightarrow> TaskAttemptRecord) \<Rightarrow> bool" where
  "harmless_update i p f \<longleftrightarrow> (\<forall>r. ta_attempt_id (f r) = ta_attempt_id r \<and> ta_task_id (f r) = ta_task_id r \<and>
     (p r \<longrightarrow> attempt_row_ok (f r)) \<and>
     (p r \<longrightarrow> ta_attempt_id r = i \<longrightarrow> ta_status r \<in> {''result_recorded'', ''completed''} \<longrightarrow> ta_status (f r) = ''completed''))"

lemma spared_update_attempts:
  assumes "harmless_update i p f"
  shows "spared.kept_by i (update_where db_attempts db_attempts_update p f)"
proof -
  have id: "ta_attempt_id (f r) = ta_attempt_id r" "ta_task_id (f r) = ta_task_id r" for r
    using assms by (simp_all add: harmless_update_def)
  let ?d = "\<lambda>d. db_attempts_update (update_rows p f) d"
  have "attempts_claim_ok (?d d)" if "attempts_claim_ok d" for d
    by (rule attempts_claim_ok_update [OF that]) (use assms id in \<open>auto simp: harmless_update_def\<close>)
  moreover have "attempt_state (f r) = Closed"
    if "p r" "ta_attempt_id r = i" "attempt_state r = Closed \<or> attempt_state r = Recorded x" for r x
    using that assms by (auto simp: harmless_update_def attempt_state_def split: if_splits)
  then have "(\<forall>r. attempt_abs d i = Recorded r \<longrightarrow> attempt_abs (?d d) i = Recorded r \<or> attempt_abs (?d d) i = Closed) \<and>
      (attempt_abs d i = Closed \<longrightarrow> attempt_abs (?d d) i = Closed)" for d
    using attempts_t.row_key [of d i]
    by (auto simp: attempt_abs_def attempts_t.row_update id split: option.splits)
  ultimately show ?thesis
    using known_update_attempts [OF id] by (auto simp: spared.kept_by_def spares_def table_simps)
qed

lemma spared_insert_attempt:
  assumes "attempt_row_ok a"
  shows "spared.kept_by i (insert_attempt a)"
  unfolding spared.kept_by_def
proof (intro allI impI)
  fix d x d' assume "insert_attempt a d = Inr (x, d')"
  then have d': "d' = db_attempts_update (\<lambda>rows. rows @ [a]) d" and new: "ta_attempt_id a \<notin> ta_attempt_id ` set (db_attempts d)"
    by (auto simp: insert_attempt_def table_simps split: if_splits)
  have row: "attempts_t.row d' i = (if i = ta_attempt_id a then Some a else attempts_t.row d i)"
    unfolding d' by (rule attempts_t.row_insert) (rule new)
  have none: "attempts_t.row d (ta_attempt_id a) = None" using attempts_t.row_absent [of a d] new by blast
  have "logical_t.row d' = logical_t.row d" by (simp add: d' logical_t.row_def fun_eq_iff)
  then have "stays_known i d d'" using none by (auto simp: stays_known_def attempt_known_def row)
  moreover have "attempts_claim_ok d'" if "attempts_claim_ok d"
    using that assms attempts_t.insert_keeps_unique [of d a] new
    by (auto simp: d' attempts_claim_ok_def logical_t.unique_def)
  ultimately show "spares i d d'"
    using none by (auto simp: spares_def attempt_abs_def row)
qed

lemma spares_same:
  "db_attempts d' = db_attempts d \<Longrightarrow> db_logical_tasks d' = db_logical_tasks d \<Longrightarrow> spares i d d'"
  by (simp add: spares_def stays_known_def attempt_known_def attempt_abs_def attempts_claim_ok_def attempts_t.row_def
      logical_t.row_def attempts_t.unique_def logical_t.unique_def)

lemma spares_logical:
  assumes "db_attempts d' = db_attempts d" and "logical_t.unique d \<Longrightarrow> logical_t.unique d'"
    and "\<And>t l. logical_t.row d t = Some l \<Longrightarrow>
      \<exists>l'. logical_t.row d' t = Some l' \<and> lt_execution_id l' = lt_execution_id l \<and> lt_node_id l' = lt_node_id l"
  shows "spares i d d'"
proof -
  have row: "attempts_t.row d' = attempts_t.row d" using assms(1) by (simp add: attempts_t.row_def fun_eq_iff)
  have "stays_known i d d'" using assms(3) by (fastforce simp: stays_known_def attempt_known_def row)
  then show ?thesis using assms(1,2) by (simp add: spares_def attempt_abs_def row attempts_claim_ok_def attempts_t.unique_def)
qed

lemma spared_logical_tasks:
  "(\<And>r. lt_task_id (f r) = lt_task_id r \<and> lt_execution_id (f r) = lt_execution_id r \<and> lt_node_id (f r) = lt_node_id r) \<Longrightarrow>
     spared.kept_by i (update_where db_logical_tasks db_logical_tasks_update p f)"
  "spared.kept_by i (insert_ignore db_logical_tasks db_logical_tasks_update lt_task_id l)"
proof -
  show "spared.kept_by i (update_where db_logical_tasks db_logical_tasks_update p f)"
    if "\<And>r. lt_task_id (f r) = lt_task_id r \<and> lt_execution_id (f r) = lt_execution_id r \<and> lt_node_id (f r) = lt_node_id r"
    unfolding spared.kept_by_def
    by (auto simp: table_simps that logical_t.row_update logical_t.update_keeps_unique intro!: spares_logical)
  show "spared.kept_by i (insert_ignore db_logical_tasks db_logical_tasks_update lt_task_id l)"
    unfolding spared.kept_by_def
  proof (intro allI impI)
    fix d d' :: db and x assume run: "insert_ignore db_logical_tasks db_logical_tasks_update lt_task_id l d = Inr (x, d')"
    show "spares i d d'"
    proof (cases "lt_task_id l \<in> lt_task_id ` set (db_logical_tasks d)")
      case True
      with run show ?thesis by (simp add: table_simps spared.refl)
    next
      case False
      with run have d': "d' = db_logical_tasks_update (\<lambda>rows. rows @ [l]) d" by (simp add: table_simps)
      have "logical_t.row d (lt_task_id l) = None" using logical_t.row_absent [of l d] False by blast
      with False show ?thesis
        unfolding d' by (intro spares_logical) (auto simp: logical_t.row_insert logical_t.insert_keeps_unique)
    qed
  qed
qed

lemma spared_retries:
  "spared.kept_by i (insert_row db_retries db_retries_update rd_attempt_id r)"
  "spared.kept_by i (update_where db_retries db_retries_update p f)"
  by (auto simp: spared.kept_by_def table_simps intro!: spares_same split: if_splits)

lemmas spared_statements = spared.kept_by_control spared_update_attempts spared_insert_attempt spared_logical_tasks spared_retries

text \<open>The operations of the orchestrator.\<close>

lemma spared_record_success: "spared.kept_by i (record_success t j e now)"
  unfolding record_success_def get_logical_task_def get_attempt_def update_attempt_def update_logical_task_def
  by (intro spared_statements; simp add: harmless_update_def attempt_row_ok_def)

lemma spared_record_failure:
  assumes "j \<noteq> i"
  shows "spared.kept_by i (record_failure fresh t j e msg ty now m later)"
  unfolding record_failure_def get_logical_task_def get_attempt_def update_attempt_def update_logical_task_def
    exhaust_task_def schedule_retry_def
  by (intro spared_statements; use assms in \<open>simp add: harmless_update_def attempt_row_ok_def attempt_row_def\<close>)

lemma spared_register: "spared.kept_by i (register_initial_task t e n h c rin j now)"
  unfolding register_initial_task_def
  by (intro spared_statements; simp add: attempt_row_ok_def attempt_row_def)

lemma spared_retry_published: "spared.kept_by i (mark_retry_published j now)"
  unfolding mark_retry_published_def
  by (intro spared_statements; auto simp: harmless_update_def attempt_row_ok_def)

section \<open>Undisturbed attempts\<close>

text \<open>What happens in the system while nobody records a failure of attempt \<open>i\<close>: any operations of workers, successes,
  failures of other attempts, new tasks, publications of retries, and whatever leaves attempts and tasks alone.\<close>

inductive undisturbed :: "uuid \<Rightarrow> db \<Rightarrow> db \<Rightarrow> bool" for i where
  no_change: "undisturbed i d d"
| by_workers: "undisturbed i d d1 \<Longrightarrow> attempt_claims.activity T d1 d2 \<Longrightarrow> undisturbed i d d2"
| by_success: "undisturbed i d d1 \<Longrightarrow> record_success t j e now d1 = Inr (x, d2) \<Longrightarrow> undisturbed i d d2"
| by_other_failure: "undisturbed i d d1 \<Longrightarrow> j \<noteq> i \<Longrightarrow> record_failure fresh t j e msg ty now m later d1 = Inr (y, d2) \<Longrightarrow>
    undisturbed i d d2"
| by_registration: "undisturbed i d d1 \<Longrightarrow> register_initial_task t e n h c rin j now d1 = Inr (z, d2) \<Longrightarrow> undisturbed i d d2"
| by_retry: "undisturbed i d d1 \<Longrightarrow> mark_retry_published j now d1 = Inr (u, d2) \<Longrightarrow> undisturbed i d d2"
| elsewhere: "undisturbed i d d1 \<Longrightarrow> db_attempts d2 = db_attempts d1 \<Longrightarrow> db_logical_tasks d2 = db_logical_tasks d1 \<Longrightarrow>
    undisturbed i d d2"

lemma undisturbed_spares: "undisturbed i d d' \<Longrightarrow> spares i d d'"
  by (induction rule: undisturbed.induct)
    (blast intro: spared.refl spared.trans spares_activity spares_same spared.kept_byD [OF spared_record_success]
      spared.kept_byD [OF spared_record_failure] spared.kept_byD [OF spared_register] spared.kept_byD [OF spared_retry_published])+

lemma undisturbed_recorded:
  assumes "undisturbed i d d'" and "attempts_claim_ok d" and "attempt_abs d i = Recorded r"
  shows "attempts_claim_ok d'" and "attempt_abs d' i = Recorded r \<or> attempt_abs d' i = Closed"
  using undisturbed_spares [OF assms(1)] assms(2,3) by (auto simp: spares_def)

text \<open>C29: a result is recorded once and replayed unchanged, as long as nobody records a failure of the attempt itself.
  After a worker recorded its result, whatever workers and the orchestrator do in between, every later attempt to
  record a result for it raises, and until the attempt is marked completed a replay reads exactly the recorded
  event, output and error.\<close>

theorem attempt_result_recorded_once:
  assumes "attempts_claim_ok d" and "record_attempt_result i e v m ty d = Inr (u, d1)" and "undisturbed i d1 d2"
  shows "(\<exists>err. record_attempt_result i e' v' m' ty' d2 = Inl err) \<and>
    (attempt_abs d2 i \<noteq> Closed \<longrightarrow> get_attempt_result i d2 =
      Inr (\<lparr>pr_event_id = e, pr_result_data = v, pr_error_message = m, pr_error_type = ty\<rparr>, d2))"
proof -
  let ?r = "\<lparr>pr_event_id = e, pr_result_data = v, pr_error_message = m, pr_error_type = ty\<rparr>"
  from record_attempt_refines(1) [OF assms(1,2)] have 1: "attempts_claim_ok d1" "attempt_abs d1 i = Recorded ?r" by simp_all
  note 2 = undisturbed_recorded [OF assms(3) 1]
  have "record_attempt_result i e' v' m' ty' d2 \<noteq> Inr (u', d3)" for u' d3
    using record_attempt_refines(1) [OF 2(1), of i e' v' m' ty' u' d3] 2(2) by auto
  then have "\<exists>err. record_attempt_result i e' v' m' ty' d2 = Inl err"
    by (cases "record_attempt_result i e' v' m' ty' d2") auto
  with get_attempt_refines [OF 2(1)] 2(2) show ?thesis by blast
qed

text \<open>The result of attempt 7 is recorded; then the orchestrator records the success it was told of.\<close>

theorem attempt_result_recorded_once_witness:
  "\<exists>d1 d2 d3 err. claim_attempt 7 ''t'' 1 ''a'' ''w1'' 0 20 retry_db = Inr (CLAIMED, d1) \<and>
     record_attempt_result 7 9 (PInt 1) None None d1 = Inr ((), d2) \<and> record_success ''t'' 7 9 5 d2 = Inr (False, d3) \<and>
     record_attempt_result 7 10 (PInt 2) None None d3 = Inl err"
proof -
  obtain d1 where c: "claim_attempt 7 ''t'' 1 ''a'' ''w1'' 0 20 retry_db = Inr (CLAIMED, d1)"
    and ok: "attempts_claim_ok d1" and held: "attempt_abs d1 7 = Held ''w1'' (Some 20)"
    by (rule retry_db_claimed) blast
  from attempt_claims.record_total [OF ok held] obtain d2
    where r: "record_attempt_result 7 9 (PInt 1) None None d1 = Inr ((), d2)" by blast
  note ok2 = record_attempt_refines(1) [OF ok r]
  from ok2 have "attempt_abs d2 7 = Recorded \<lparr>pr_event_id = 9, pr_result_data = PInt 1, pr_error_message = None, pr_error_type = None\<rparr>"
    by simp
  then obtain a where a: "attempts_t.row d2 7 = Some a" "ta_completion_event_id a = Some 9"
    using attempts_claim_okD(3) [OF conjunct1 [OF ok2], of 7]
    by (auto simp: attempt_abs_def attempt_state_def attempt_row_ok_def split: option.splits if_splits)
  have "stays_known 7 retry_db d2"
    using known.trans [OF known.kept_byD [OF known_attempt_operations(1) c] known.kept_byD [OF known_attempt_operations(2) r]] .
  then obtain l where "ta_task_id a = ''t''" "logical_t.row d2 ''t'' = Some l"
    using retry_db_claims(2) a(1) by (auto simp: stays_known_def attempt_known_def)
  then have s: "record_success ''t'' 7 9 5 d2 = Inr (False, d2)"
    using a attempts_claim_okD(1,2) [OF conjunct1 [OF ok2]]
    by (simp add: record_success_def get_logical_task_def get_attempt_def attempts_t.select_one_key logical_t.select_one_key)
  from attempt_result_recorded_once [OF ok r by_success [OF no_change s], of 10 "PInt 2" None None] c r s
  show ?thesis by blast
qed

end
