(* ===== verification/Worker_Guarantees.thy ===== *)
theory Worker_Guarantees
  imports Worker_Runtime Engine Interference
begin

text \<open>
  What a worker guarantees about a delivered task: the message is acknowledged only after the completion
  event is in the stream and the task is closed (or the claim says that it is somebody else's), and a
  recorded result is published by every later delivery as the same event.
\<close>

section \<open>The course of a task over a claim repository\<close>

context claim_repository
begin

text \<open>A recorded result is found, read and closed by every later claim.\<close>

lemma recorded_course:
  assumes "ok d" and "known d k i" and "abs d k = Recorded r"
  shows "\<exists>d1 d2. claim k i w now expires d = Inr (RESULT_RECORDED, d1) \<and> get_result k d1 = Inr (r, d1) \<and>
    mark_completed k now' d1 = Inr ((), d2) \<and> ok d2 \<and> abs d2 k = Closed"
proof -
  from claim_total [OF assms(1,2)] obtain out d1 where c: "claim k i w now expires d = Inr (out, d1)" by blast
  from claim_refines [OF assms(1) c] assms(3)
  have 1: "out = RESULT_RECORDED" "ok d1" "abs d1 k = Recorded r" by (simp_all add: claim_spec_def)
  from mark_total [OF 1(2,3)] obtain d2 where m: "mark_completed k now' d1 = Inr ((), d2)" by blast
  with mark_refines [OF 1(2) m] get_refines [OF 1(2,3)] c 1(1) show ?thesis by auto
qed

end

section \<open>Views of the processor\<close>

definition worker_state :: "'b WorkerTaskProcessor \<Rightarrow> NodeTaskMessage \<Rightarrow> db \<Rightarrow> claim_state" where
  "worker_state self task d =
     (if w_attempt_repository self then attempt_abs d (nt_attempt_id task) else task_abs d (nt_task_id task))"

definition worker_ok :: "'b WorkerTaskProcessor \<Rightarrow> db \<Rightarrow> bool" where
  "worker_ok self d \<longleftrightarrow> (if w_attempt_repository self then attempts_claim_ok d else tasks_claim_ok d)"

definition worker_known :: "'b WorkerTaskProcessor \<Rightarrow> NodeTaskMessage \<Rightarrow> db \<Rightarrow> bool" where
  "worker_known self task d \<longleftrightarrow>
     (if w_attempt_repository self
      then attempt_known d (nt_attempt_id task) (nt_task_id task, nt_execution_id task, nt_node_id task)
      else task_known d (nt_task_id task) (nt_execution_id task, nt_node_id task))"

text \<open>The recorded form of an event.\<close>

definition event_result :: "TaskCompletionEvent \<Rightarrow> TaskProcessingResult" where
  "event_result ev = \<lparr>pr_event_id = tc_event_id ev, pr_result_data = tc_output_data ev,
     pr_error_message = tc_error_message ev, pr_error_type = tc_error_type ev\<rparr>"

text \<open>The events a worker builds for a task.\<close>

definition event_of :: "NodeTaskMessage \<Rightarrow> TaskCompletionEvent \<Rightarrow> bool" where
  "event_of task ev \<longleftrightarrow> event_from_result task (event_result ev) = Inr ev"

lemma event_ofD:
  assumes "event_of task ev"
  shows "tc_task_id ev = nt_task_id task" "tc_attempt_id ev = nt_attempt_id task"
    "tc_execution_id ev = nt_execution_id task" "tc_node_id ev = nt_node_id task"
    "tc_attempt_number ev = nt_attempt_number task"
  using assms
  by (cases ev; auto simp: event_of_def event_result_def event_from_result_def completed_event_def failed_event_def
      split: option.splits)+

lemma outcome_event_of: "event_of task (outcome_event i task outcome)"
  by (auto simp: event_of_def event_result_def event_from_result_def outcome_event_def failure_event_def
      failed_event_def completed_event_def split: sum.split)

lemma event_from_result_of:
  "event_from_result task r = Inr ev \<Longrightarrow> event_of task ev"
  by (auto simp: event_of_def event_result_def event_from_result_def failed_event_def completed_event_def
      split: option.splits)

lemma with_unit_of_work_run:
  "w_unit_of_work self \<Longrightarrow> with_unit_of_work self what tx (d, b) =
     (case run_transaction tx d of (r, d') \<Rightarrow> (r, d', b))"
  by (simp add: with_unit_of_work_def io_db_def)

lemma with_unit_of_work_Inr:
  assumes "w_unit_of_work self"
  shows "with_unit_of_work self what tx (d, b) = (Inr x, d', b') \<longleftrightarrow> tx d = Inr (x, d') \<and> b' = b"
  using assms by (auto simp: with_unit_of_work_run run_transaction_Inr split: prod.splits)

section \<open>A recorded result survives its worker\<close>

text \<open>The transactions of a delivery of a recorded result, with either claim repository.\<close>

lemma recorded_transactions:
  assumes uow: "w_unit_of_work self" and ok: "worker_ok self d" and known: "worker_known self task d"
    and st: "worker_state self task d = Recorded (event_result ev)" and ev: "event_of task ev"
    and lease: "fl_seconds (w_floats self) (w_task_claim_lease_seconds self) = Inr lease"
  shows "\<exists>d1 d2. worker_claim_task self now task (d, b) = (Inr RESULT_RECORDED, d1, b) \<and>
      replay_result self task (d1, b) = (Inr ev, d1, b) \<and>
      with_unit_of_work self ''complete worker tasks''
       (if w_attempt_repository self then mark_attempt_completed (tc_attempt_id ev) now'
        else mark_task_completed (tc_task_id ev) now') (d1, b1) = (Inr (), d2, b1) \<and>
      worker_ok self d2 \<and> worker_state self task d2 = Closed"
proof (cases "w_attempt_repository self")
  case True
  with attempt_claims.recorded_course [of d "nt_attempt_id task" "(nt_task_id task, nt_execution_id task, nt_node_id task)"
      "event_result ev" "w_worker_id self" now "now + lease" now'] ok known st
  obtain d1 d2 where c: "claim_attempt (nt_attempt_id task) (nt_task_id task) (nt_execution_id task) (nt_node_id task)
      (w_worker_id self) now (now + lease) d = Inr (RESULT_RECORDED, d1)"
    "get_attempt_result (nt_attempt_id task) d1 = Inr (event_result ev, d1)"
    "mark_attempt_completed (nt_attempt_id task) now' d1 = Inr ((), d2)"
    "attempts_claim_ok d2" "attempt_abs d2 (nt_attempt_id task) = Closed"
    by (auto simp: worker_ok_def worker_known_def worker_state_def claim_attempt_as_tuple)
  show ?thesis
    using True c ev lease uow
    by (intro exI [of _ d1] exI [of _ d2])
      (simp add: worker_claim_task_def replay_result_def io_bind_def with_unit_of_work_run run_transaction_def
        event_ofD(2) [OF ev] event_of_def worker_ok_def worker_state_def)
next
  case False
  with task_claims.recorded_course [of d "nt_task_id task" "(nt_execution_id task, nt_node_id task)"
      "event_result ev" "w_worker_id self" now "now + lease" now'] ok known st
  obtain d1 d2 where c: "claim_task (nt_task_id task) (nt_execution_id task) (nt_node_id task)
      (w_worker_id self) now (now + lease) d = Inr (RESULT_RECORDED, d1)"
    "get_task_result (nt_task_id task) d1 = Inr (event_result ev, d1)"
    "mark_task_completed (nt_task_id task) now' d1 = Inr ((), d2)"
    "tasks_claim_ok d2" "task_abs d2 (nt_task_id task) = Closed"
    by (auto simp: worker_ok_def worker_known_def worker_state_def claim_task_as_def)
  show ?thesis
    using False c ev lease uow
    by (intro exI [of _ d1] exI [of _ d2])
      (simp add: worker_claim_task_def replay_result_def io_bind_def with_unit_of_work_run run_transaction_def
        event_ofD(1) [OF ev] event_of_def worker_ok_def worker_state_def)
qed

lemma recorded_delivery:
  assumes uow: "w_unit_of_work self" and ok: "worker_ok self d" and known: "worker_known self task d"
    and st: "worker_state self task d = Recorded (event_result ev)" and ev: "event_of task ev"
    and lease: "fl_seconds (w_floats self) (w_task_claim_lease_seconds self) = Inr lease"
    and fs: "completion_to_stream_fields (w_float_text self) ev = Inr fs"
    and add: "xadd (w_client self) WORKFLOW_TASK_COMPLETIONS_STREAM fs b = (Inr mid, b1)"
    and ack: "xack (w_client self) stream WORKFLOW_TASKS_GROUP message_id b1 = (Inr n, b2)"
  shows "\<exists>d'. process_task self event_id now ticks now' stream message_id task (d, b) = (Inr (), d', b2) \<and>
    worker_ok self d' \<and> worker_state self task d' = Closed"
proof -
  from recorded_transactions [OF uow ok known st ev lease] obtain d1 d2 where "worker_claim_task self now task (d, b) = (Inr RESULT_RECORDED, d1, b)"
      "replay_result self task (d1, b) = (Inr ev, d1, b)"
      "with_unit_of_work self ''complete worker tasks''
       (if w_attempt_repository self then mark_attempt_completed (tc_attempt_id ev) now'
        else mark_task_completed (tc_task_id ev) now') (d1, b1) = (Inr (), d2, b1)"
      "worker_ok self d2" "worker_state self task d2 = Closed" by blast
  with uow fs add ack show ?thesis
    by (intro exI [of _ d2])
      (simp add: process_task_def io_bind_def publish_complete_and_ack_def publish_event_def publish_def io_redis_def
        acknowledge_def ack_def)
qed

text \<open>The transactions of a worker keep the task of every attempt.\<close>

definition attempt_identity :: "db \<Rightarrow> (uuid \<times> string) list \<times> LogicalTaskRecord list" where
  "attempt_identity d = (map (\<lambda>a. (ta_attempt_id a, ta_task_id a)) (db_attempts d), db_logical_tasks d)"

lemma attempt_identity_row:
  "map_of (fst (attempt_identity d)) i = map_option ta_task_id (attempts_t.row d i)"
proof -
  have "map_of (map (\<lambda>a. (ta_attempt_id a, ta_task_id a)) as) i = map_option ta_task_id (find (\<lambda>a. ta_attempt_id a = i) as)" for as
    by (induction as) auto
  then show ?thesis by (simp add: attempt_identity_def attempts_t.row_def)
qed

lemma attempt_known_identity:
  "attempt_known d i (t, e, n) \<longleftrightarrow> map_of (fst (attempt_identity d)) i = Some t \<and>
     (\<exists>l. find (\<lambda>l. lt_task_id l = t) (snd (attempt_identity d)) = Some l \<and> lt_execution_id l = e \<and> lt_node_id l = n)"
  unfolding attempt_identity_row by (auto simp: attempt_known_def logical_t.row_def attempt_identity_def)

lemma attempt_identity_update:
  "(\<And>r. p r \<Longrightarrow> ta_attempt_id (f r) = ta_attempt_id r \<and> ta_task_id (f r) = ta_task_id r) \<Longrightarrow>
     attempt_identity (db_attempts_update (update_rows p f) d) = attempt_identity d"
  by (simp add: attempt_identity_def map_update_rows)

lemma keeps_attempt_identity:
  "keeps attempt_identity (claim_attempt i t e n w now expires)"
  "keeps attempt_identity (record_attempt_result i ev v msg ty)"
  "keeps attempt_identity (mark_attempt_completed i now)"
  "keeps attempt_identity (renew_attempt_claim i w expires)"
  unfolding claim_attempt_def record_attempt_result_def mark_attempt_completed_def renew_attempt_claim_def
    update_attempt_def
  by (intro keeps_bind keeps_basic keeps_if keeps_option keeps_scalar keeps_select keeps_update_rows keeps_require_row
      attempt_identity_update; simp)+

lemma renewals_keep:
  assumes "w_unit_of_work self" and "w_attempt_repository self"
    and "renew_claim_until_complete self task ticks (d, b) = (r, d', b')"
    and "attempts_claim_ok d"
  shows "attempts_claim_ok d' \<and> attempt_identity d' = attempt_identity d \<and> b' = b"
  using assms(3,4)
proof (induction ticks arbitrary: d)
  case (Cons now ticks)
  show ?case
  proof (cases "fl_seconds (w_floats self) (w_task_claim_lease_seconds self)")
    case (Inl e)
    with Cons show ?thesis by (simp add: io_bind_def)
  next
    case (Inr lease)
    show ?thesis
    proof (cases "renew_attempt_claim (nt_attempt_id task) (w_worker_id self) (now + lease) d")
      case (Inl e)
      with Inr Cons assms(1,2) show ?thesis
        by (simp add: io_bind_def with_unit_of_work_run run_transaction_def split: if_splits)
    next
      case (Inr y)
      obtain renewed d1 where y: "y = (renewed, d1)" by (cases y)
      from renew_attempt_refines [OF Cons.prems(2) Inr [unfolded y]] have "attempts_claim_ok d1" by simp
      moreover have "attempt_identity d1 = attempt_identity d"
        by (rule keepsD [OF keeps_attempt_identity(4) Inr [unfolded y]])
      ultimately have *: "attempts_claim_ok d1 \<and> attempt_identity d1 = attempt_identity d" by simp
      from * Cons.IH [of d1] Cons.prems(1) assms(1,2) Inr y \<open>fl_seconds _ _ = Inr lease\<close> show ?thesis
        by (simp add: io_bind_def with_unit_of_work_run run_transaction_def split: if_splits)
    qed
  qed
qed simp

text \<open>Executing and recording: the result is stored, as the event the worker goes on with.\<close>

lemma execute_and_record_effect:
  assumes "w_unit_of_work self" and "w_attempt_repository self" and "attempts_claim_ok d"
    and quiet: "fst (snd (w_executor self task (d, b))) = d"
    and run: "execute_and_record self event_id ticks task (d, b) = (Inr ev, d1, b1)"
  shows "attempts_claim_ok d1 \<and> attempt_identity d1 = attempt_identity d \<and> event_of task ev \<and> ev = outcome_event event_id task (fst (w_executor self task (d, b))) \<and>
    attempt_abs d1 (nt_attempt_id task) = Recorded (event_result ev)"
proof -
  obtain outcome b0 where h: "w_executor self task (d, b) = (outcome, d, b0)"
    using quiet by (cases "w_executor self task (d, b)") auto
  let ?ev = "outcome_event event_id task outcome"
  have ev: "event_of task ?ev" by (rule outcome_event_of)
  from run h obtain d0 b2 where r: "renew_claim_until_complete self task ticks (d, b0) = (Inr (), d0, b2)"
    and w: "worker_record_result self ?ev (d0, b2) = (Inr (), d1, b1)" and eq: "ev = ?ev"
    by (auto simp: execute_and_record_def io_bind_Inr run_handler_def Let_def)
  have ok: "attempts_claim_ok d0" "attempt_identity d0 = attempt_identity d"
    using renewals_keep [OF assms(1,2) r assms(3)] by simp_all
  from w assms(1,2) have rec: "record_attempt_result (nt_attempt_id task) (tc_event_id ?ev) (tc_output_data ?ev)
      (tc_error_message ?ev) (tc_error_type ?ev) d0 = Inr ((), d1)"
    by (simp add: worker_record_result_def with_unit_of_work_Inr event_ofD(2) [OF ev])
  from record_attempt_refines(1) [OF ok(1) rec] keepsD [OF keeps_attempt_identity(2) rec] ok(2) ev eq h
  show ?thesis by (simp add: event_result_def)
qed

text \<open>C17: a result survives its worker. Once a worker has recorded the result of an attempt, then,
  whatever workers and the orchestrator do in between, short of closing this attempt or recording a failure of it,
  the next delivery of the task to any worker publishes exactly the event of that result, whatever the handler
  would return now, closes the attempt and acknowledges the message.\<close>

theorem recorded_event_redelivered:
  assumes "w_unit_of_work self" and "w_attempt_repository self" and "attempts_claim_ok d"
    and "fst (snd (w_executor self task (d, b))) = d"
    and "execute_and_record self event_id ticks task (d, b) = (Inr ev, d1, b1)"
    and "undisturbed (nt_attempt_id task) d1 d2" and "attempt_abs d2 (nt_attempt_id task) \<noteq> Closed"
    and "w_unit_of_work self'" and "w_attempt_repository self'"
    and "attempt_known d (nt_attempt_id task) (nt_task_id task, nt_execution_id task, nt_node_id task)"
    and "fl_seconds (w_floats self') (w_task_claim_lease_seconds self') = Inr lease"
    and "completion_to_stream_fields (w_float_text self') ev = Inr fs"
    and "xadd (w_client self') WORKFLOW_TASK_COMPLETIONS_STREAM fs b2 = (Inr mid, b3)"
    and "xack (w_client self') stream WORKFLOW_TASKS_GROUP message_id b3 = (Inr n, b4)"
  shows "\<exists>d3. process_task self' event_id' now ticks' now' stream message_id task (d2, b2) = (Inr (), d3, b4) \<and>
    attempt_abs d3 (nt_attempt_id task) = Closed"
proof -
  from execute_and_record_effect [OF assms(1-5)]
  have e: "attempts_claim_ok d1" "event_of task ev" "attempt_abs d1 (nt_attempt_id task) = Recorded (event_result ev)"
    and id: "attempt_identity d1 = attempt_identity d" by blast+
  have "attempt_known d1 (nt_attempt_id task) (nt_task_id task, nt_execution_id task, nt_node_id task)"
    using assms(10) id by (simp add: attempt_known_identity)
  then have known: "attempt_known d2 (nt_attempt_id task) (nt_task_id task, nt_execution_id task, nt_node_id task)"
    using undisturbed_spares [OF assms(6)] by (simp add: spares_def stays_known_def)
  note later = undisturbed_recorded [OF assms(6) e(1,3)]
  have ok: "attempts_claim_ok d2" by (rule later(1))
  have "attempt_abs d2 (nt_attempt_id task) = Recorded (event_result ev)" using later(2) assms(7) by blast
  with recorded_delivery [OF assms(8), of d2 task ev lease fs b2 mid b3 stream message_id n b4 event_id' now ticks' now']
    ok e(2) known assms(9,11-14) show ?thesis
    by (auto simp: worker_ok_def worker_known_def worker_state_def)
qed

definition sample_worker :: "'b redis_client \<Rightarrow> 'b WorkerTaskProcessor" where
  "sample_worker client =
     \<lparr>w_executor = InputNodeHandler, w_client = client, w_unit_of_work = True, w_attempt_repository = True,
      w_worker_id = ''w2'', w_task_claim_lease_seconds = 0, w_float_text = (\<lambda>_. ''0.0''),
      w_floats = \<lparr>fl_mul = (\<lambda>x y. x), fl_pow = (\<lambda>x n. Inr x), fl_parse = (\<lambda>_. Inr 0), fl_seconds = (\<lambda>_. Inr 20)\<rparr>\<rparr>"

definition sample_delivered :: NodeTaskMessage where
  "sample_delivered =
     \<lparr>nt_message_id = None, nt_task_id = ''t'', nt_attempt_id = 7, nt_attempt_number = 1, nt_execution_id = 1,
      nt_node_id = ''a'', nt_handler = ''input'', nt_handler_config = [], nt_resolved_input = []\<rparr>"

definition sample_result_event :: TaskCompletionEvent where
  "sample_result_event = completed_event 9 sample_delivered (PDict [])"

lemma sample_worker_sel:
  "w_unit_of_work (sample_worker client)" "w_attempt_repository (sample_worker client)"
  "fl_seconds (w_floats (sample_worker client)) (w_task_claim_lease_seconds (sample_worker client)) = Inr 20"
  "w_client (sample_worker client) = client" "w_executor (sample_worker client) = InputNodeHandler"
  by (simp_all add: sample_worker_def)

lemma sample_recorded:
  "\<exists>d1 d2. claim_attempt 7 ''t'' 1 ''a'' ''w1'' 0 20 retry_db = Inr (CLAIMED, d1) \<and>
     attempts_claim_ok d1 \<and> attempt_known d1 7 (''t'', 1, ''a'') \<and>
     execute_and_record (sample_worker client) 9 [] sample_delivered (d1, b) = (Inr sample_result_event, d2, b)"
proof -
  obtain d1 where c: "claim_attempt 7 ''t'' 1 ''a'' ''w1'' 0 20 retry_db = Inr (CLAIMED, d1)"
    and ok: "attempts_claim_ok d1" and held: "attempt_abs d1 7 = Held ''w1'' (Some 20)"
    by (rule retry_db_claimed) blast
  have known: "attempt_known d1 7 (''t'', 1, ''a'')"
    using retry_db_claims(2) keepsD [OF keeps_attempt_identity(1) c] by (simp add: attempt_known_identity)
  from record_attempt_refines(2) [OF ok held, of 9 "PDict []" None None]
  obtain d2 where r: "record_attempt_result 7 9 (PDict []) None None d1 = Inr ((), d2)" by blast
  have "execute_and_record (sample_worker client) 9 [] sample_delivered (d1, b) = (Inr sample_result_event, d2, b)"
    using r by (simp add: execute_and_record_def io_bind_def run_handler_def sample_worker_def InputNodeHandler_def
        sample_delivered_def outcome_event_def worker_record_result_def with_unit_of_work_run run_transaction_def
        completed_event_def sample_result_event_def)
  with c ok known show ?thesis by blast
qed

lemma sample_result_fields: "\<exists>fs. completion_to_stream_fields (w_float_text (sample_worker client)) sample_result_event = Inr fs"
  by (simp add: completion_to_stream_fields_def completed_event_def sample_result_event_def)

lemma sample_delivered_sel:
  "nt_attempt_id sample_delivered = 7" "nt_task_id sample_delivered = ''t''" "nt_execution_id sample_delivered = 1"
  "nt_node_id sample_delivered = ''a''"
  by (simp_all add: sample_delivered_def)

theorem recorded_event_redelivered_witness:
  "\<exists>d1 d2 d3. claim_attempt 7 ''t'' 1 ''a'' ''w1'' 0 20 retry_db = Inr (CLAIMED, d1) \<and>
     execute_and_record (sample_worker sample_client) 9 [] sample_delivered (d1, 0) = (Inr sample_result_event, d2, 0) \<and>
     process_task (sample_worker sample_client) 10 50 [] 51 ''workflow.tasks'' ''1-0'' sample_delivered (d2, 0) = (Inr (), d3, 0) \<and>
     attempt_abs d3 7 = Closed"
proof -
  let ?w = "sample_worker sample_client"
  obtain d1 d2 where c: "claim_attempt 7 ''t'' 1 ''a'' ''w1'' 0 20 retry_db = Inr (CLAIMED, d1)"
    and ok: "attempts_claim_ok d1" and known: "attempt_known d1 7 (''t'', 1, ''a'')"
    and run: "execute_and_record ?w 9 [] sample_delivered (d1, 0) = (Inr sample_result_event, d2, 0)"
    using sample_recorded [of sample_client] by blast
  have quiet: "fst (snd (w_executor ?w sample_delivered (d1, 0))) = d1"
    by (simp add: sample_worker_sel InputNodeHandler_def)
  obtain fs where fs: "completion_to_stream_fields (w_float_text ?w) sample_result_event = Inr fs"
    using sample_result_fields by blast
  have not_closed: "attempt_abs d2 (nt_attempt_id sample_delivered) \<noteq> Closed"
    using execute_and_record_effect [OF sample_worker_sel(1,2) ok quiet run] by simp
  have known': "attempt_known d1 (nt_attempt_id sample_delivered)
      (nt_task_id sample_delivered, nt_execution_id sample_delivered, nt_node_id sample_delivered)"
    using known by (simp only: sample_delivered_sel)
  have calls: "xadd (w_client ?w) s fs b = (Inr ''1-0'', b)" "xack (w_client ?w) s g m b = (Inr 1, b)" for s fs b g m
    by (simp_all add: sample_worker_sel sample_client_def)
  obtain d3 where d3: "process_task ?w 10 50 [] 51 ''workflow.tasks'' ''1-0'' sample_delivered (d2, 0) = (Inr (), d3, 0)"
    "attempt_abs d3 (nt_attempt_id sample_delivered) = Closed"
    using recorded_event_redelivered [OF sample_worker_sel(1,2) ok quiet run undisturbed.no_change not_closed
      sample_worker_sel(1,2) known' sample_worker_sel(3) fs calls] by blast
  from d3(2) have "attempt_abs d3 7 = Closed" by (simp only: sample_delivered_sel)
  with d3(1) c run show ?thesis by blast
qed

section \<open>Acknowledgement comes last\<close>

text \<open>What is relied on of Redis: \<open>XADD\<close> acknowledges nothing, keeps the stream entries and, when it
  succeeds, adds its own; \<open>XACK\<close> changes no stream and acknowledges nothing but its message.\<close>

definition tracks_acks ::
    "'b redis_client \<Rightarrow> ('b \<Rightarrow> (string \<times> string \<times> string) set) \<Rightarrow> ('b \<Rightarrow> (string \<times> fields) set) \<Rightarrow> bool" where
  "tracks_acks client acked log \<longleftrightarrow>
     (\<forall>s fs b r b'. xadd client s fs b = (r, b') \<longrightarrow> acked b' = acked b \<and> log b \<subseteq> log b' \<and>
        (\<forall>i. r = Inr i \<longrightarrow> (s, fs) \<in> log b')) \<and>
     (\<forall>s g i b r b'. xack client s g i b = (r, b') \<longrightarrow> log b' = log b \<and> acked b' \<subseteq> insert (s, g, i) (acked b))"

text \<open>A handler neither touches the database nor acknowledges messages.\<close>

definition quiet_handler :: "('b \<Rightarrow> (string \<times> string \<times> string) set) \<Rightarrow> 'b NodeHandler \<Rightarrow> bool" where
  "quiet_handler acked h \<longleftrightarrow>
     (\<forall>task d b r d' b'. h task (d, b) = (r, d', b') \<longrightarrow> d' = d \<and> acked b' = acked b)"

text \<open>Programs that acknowledge nothing, and what an acknowledgement after one of them tells.\<close>

definition ack_free :: "('b \<Rightarrow> (string \<times> string \<times> string) set) \<Rightarrow> ('b, 'a) io \<Rightarrow> bool" where
  "ack_free acked m \<longleftrightarrow> (\<forall>d b r d' b'. m (d, b) = (r, d', b') \<longrightarrow> acked b' = acked b)"

lemma ack_free_basic:
  "ack_free acked (io_return x)" "ack_free acked (io_raise e)" "ack_free acked (io_lift r)" "ack_free acked (io_db f)"
  by (auto simp: ack_free_def io_db_def split: prod.splits)

lemma ack_free_bind:
  assumes "ack_free acked m" and "\<And>x. ack_free acked (f x)"
  shows "ack_free acked (io_bind m f)"
  unfolding ack_free_def
proof (intro allI impI)
  fix d b r d' b' assume run: "io_bind m f (d, b) = (r, d', b')"
  obtain r1 d1 b1 where m: "m (d, b) = (r1, d1, b1)" by (cases "m (d, b)") auto
  with assms run show "acked b' = acked b"
    by (cases r1) (auto simp: ack_free_def io_bind_def)
qed

lemma ack_free_transaction: "ack_free acked (with_unit_of_work self what tx)"
  by (simp add: with_unit_of_work_def ack_free_basic)

lemma ack_free_worker:
  "ack_free acked (worker_record_result self ev)" "ack_free acked (replay_result self task)"
  "ack_free acked (worker_claim_task self now task)" "ack_free acked (renew_claim_until_complete self task ticks)"
proof -
  show "ack_free acked (renew_claim_until_complete self task ticks)"
  proof (induction ticks)
    case (Cons now ticks)
    then show ?case
      unfolding renew_claim_until_complete.simps
      by (intro ack_free_bind ack_free_basic ack_free_transaction) (simp add: ack_free_basic)
  qed (simp add: ack_free_def)
qed (simp_all add: worker_record_result_def replay_result_def worker_claim_task_def ack_free_bind ack_free_basic
    ack_free_transaction)

lemma ack_free_execute:
  assumes "quiet_handler acked (w_executor self)"
  shows "ack_free acked (execute_and_record self event_id ticks task)"
proof -
  have "ack_free acked (run_handler self task)"
    using assms by (auto simp: ack_free_def run_handler_def quiet_handler_def split: prod.splits)
  then show ?thesis
    unfolding execute_and_record_def Let_def by (intro ack_free_bind ack_free_worker ack_free_basic)
qed

lemma ack_free_publish: "tracks_acks (w_client self) acked log \<Longrightarrow> ack_free acked (publish_event self ev)"
  unfolding publish_event_def
  by (intro ack_free_bind ack_free_basic)
    (auto simp: ack_free_def publish_def io_redis_def tracks_acks_def split: prod.splits)

lemma ack_in_bind:
  assumes "ack_free acked m" and "io_bind m f (d, b) = (r, d', b')" and "x \<in> acked b'" and "x \<notin> acked b"
  obtains y d1 b1 where "m (d, b) = (Inr y, d1, b1)" and "f y (d1, b1) = (r, d', b')" and "x \<notin> acked b1"
proof -
  obtain r1 d1 b1 where m: "m (d, b) = (r1, d1, b1)" by (cases "m (d, b)") auto
  with assms(1,4) have "x \<notin> acked b1" by (auto simp: ack_free_def)
  with assms(2,3) m that show thesis by (cases r1) (auto simp: io_bind_def)
qed

lemma acknowledge_log:
  assumes "tracks_acks (w_client self) acked log" and "acknowledge self stream message_id (d, b) = (r, d', b')"
  shows "d' = d \<and> log b' = log b"
proof -
  from assms(2) obtain r1 where "xack (w_client self) stream WORKFLOW_TASKS_GROUP message_id b = (r1, b')" "d' = d"
    by (auto simp: acknowledge_def io_bind_def ack_def io_redis_def split: prod.splits sum.splits)
  with assms(1) show ?thesis unfolding tracks_acks_def by blast
qed

lemma publish_event_log:
  assumes "tracks_acks (w_client self) acked log" and "publish_event self ev (d, b) = (Inr i, d', b')"
  shows "d' = d \<and> (\<exists>fs. completion_to_stream_fields (w_float_text self) ev = Inr fs \<and>
    (WORKFLOW_TASK_COMPLETIONS_STREAM, fs) \<in> log b')"
proof -
  from assms(2) obtain fs where "completion_to_stream_fields (w_float_text self) ev = Inr fs" "d' = d"
    "xadd (w_client self) WORKFLOW_TASK_COMPLETIONS_STREAM fs b = (Inr i, b')"
    by (auto simp: publish_event_def io_bind_Inr publish_def io_redis_Inr)
  moreover from this(3) have "(WORKFLOW_TASK_COMPLETIONS_STREAM, fs) \<in> log b'"
    using assms(1) unfolding tracks_acks_def by blast
  ultimately show ?thesis by blast
qed

text \<open>The message is acknowledged by the last step only.\<close>

lemma complete_and_ack_acks:
  assumes t: "tracks_acks (w_client self) acked log" and w: "w_unit_of_work self" "w_attempt_repository self"
    and run: "publish_complete_and_ack self now stream message_id ev (d, b) = (r, d', b')"
    and new: "x \<in> acked b'" "x \<notin> acked b" and ok: "attempts_claim_ok d"
  shows "(\<exists>fs. completion_to_stream_fields (w_float_text self) ev = Inr fs \<and>
    (WORKFLOW_TASK_COMPLETIONS_STREAM, fs) \<in> log b') \<and> attempt_abs d' (tc_attempt_id ev) = Closed"
proof -
  obtain i d1 b1 where p: "publish_event self ev (d, b) = (Inr i, d1, b1)"
    and rest: "io_bind (with_unit_of_work self ''complete worker tasks'' (mark_attempt_completed (tc_attempt_id ev) now))
      (\<lambda>_. acknowledge self stream message_id) (d1, b1) = (r, d', b')" and x: "x \<notin> acked b1"
    by (rule ack_in_bind [OF ack_free_publish [OF t] run [unfolded publish_complete_and_ack_def if_P [OF w(2)]] new]) blast
  obtain u d2 b2 where "with_unit_of_work self ''complete worker tasks'' (mark_attempt_completed (tc_attempt_id ev) now)
      (d1, b1) = (Inr u, d2, b2)" and a: "acknowledge self stream message_id (d2, b2) = (r, d', b')"
    by (rule ack_in_bind [OF ack_free_transaction rest new(1) x]) blast
  then have m: "mark_attempt_completed (tc_attempt_id ev) now d1 = Inr (u, d2)" and b2: "b2 = b1"
    using w(1) by (simp_all add: with_unit_of_work_Inr)
  from publish_event_log [OF t p] ok have "attempts_claim_ok d1" by simp
  from mark_attempt_refines(1) [OF this m] publish_event_log [OF t p] acknowledge_log [OF t a] b2 show ?thesis by auto
qed

text \<open>C16: a task is acknowledged only when it is done. If a run of the processor acknowledges its message,
  then the completion event of the task was accepted by Redis and the attempt is closed, or the claim was
  refused because the attempt was already completed or is held under a claim that has not expired.\<close>

theorem acknowledged_after_completion:
  assumes t: "tracks_acks (w_client self) acked log" and q: "quiet_handler acked (w_executor self)"
    and w: "w_unit_of_work self" "w_attempt_repository self" and ok: "attempts_claim_ok d"
    and run: "process_task self event_id now ticks now' stream message_id task (d, b) = (r, d', b')"
    and new: "(stream, WORKFLOW_TASKS_GROUP, message_id) \<in> acked b'" "(stream, WORKFLOW_TASKS_GROUP, message_id) \<notin> acked b"
  shows "(\<exists>expires. fst (claim_spec (attempt_abs d (nt_attempt_id task)) (w_worker_id self) now expires) \<in>
      {ALREADY_COMPLETED, CURRENTLY_CLAIMED}) \<or>
    (\<exists>ev fs. event_of task ev \<and> completion_to_stream_fields (w_float_text self) ev = Inr fs \<and>
       (WORKFLOW_TASK_COMPLETIONS_STREAM, fs) \<in> log b' \<and> attempt_abs d' (nt_attempt_id task) = Closed)"
proof -
  let ?k = "nt_attempt_id task" and ?i = "(nt_task_id task, nt_execution_id task, nt_node_id task)"
  note finish = complete_and_ack_acks [OF t w _ new(1)]
  obtain out d1 b1 where c: "worker_claim_task self now task (d, b) = (Inr out, d1, b1)"
    and rest: "(case out of CLAIMED \<Rightarrow> io_bind (execute_and_record self event_id ticks task)
          (publish_complete_and_ack self now' stream message_id)
        | RESULT_RECORDED \<Rightarrow> io_bind (replay_result self task) (publish_complete_and_ack self now' stream message_id)
        | _ \<Rightarrow> acknowledge self stream message_id) (d1, b1) = (r, d', b')"
    and x: "(stream, WORKFLOW_TASKS_GROUP, message_id) \<notin> acked b1"
    by (rule ack_in_bind [OF ack_free_worker(3) run [unfolded process_task_def if_P [OF w(1)]] new]) blast
  from c w obtain expires where "claim_attempt_as ?k ?i (w_worker_id self) now expires d = Inr (out, d1)"
    by (auto simp: worker_claim_task_def io_bind_Inr with_unit_of_work_Inr claim_attempt_as_tuple)
  from claim_attempt_refines [OF ok this]
  have 1: "attempts_claim_ok d1" "out = fst (claim_spec (attempt_abs d ?k) (w_worker_id self) now expires)" by simp_all
  show ?thesis
  proof (cases out)
    case CLAIMED
    obtain ev d2 b2 where e: "execute_and_record self event_id ticks task (d1, b1) = (Inr ev, d2, b2)"
      "publish_complete_and_ack self now' stream message_id ev (d2, b2) = (r, d', b')"
      "(stream, WORKFLOW_TASKS_GROUP, message_id) \<notin> acked b2"
      by (rule ack_in_bind [OF ack_free_execute [OF q] rest [unfolded CLAIMED TaskClaimOutcome.case] new(1) x]) blast
    have "fst (snd (w_executor self task (d1, b1))) = d1"
      using q by (cases "w_executor self task (d1, b1)") (auto simp: quiet_handler_def)
    with execute_and_record_effect [OF w 1(1) _ e(1)] have ev: "event_of task ev" "attempts_claim_ok d2" by blast+
    with finish [OF e(2,3) ev(2)] event_ofD(2) [OF ev(1)] show ?thesis by auto
  next
    case RESULT_RECORDED
    obtain ev d2 b2 where e: "replay_result self task (d1, b1) = (Inr ev, d2, b2)"
      "publish_complete_and_ack self now' stream message_id ev (d2, b2) = (r, d', b')"
      "(stream, WORKFLOW_TASKS_GROUP, message_id) \<notin> acked b2"
      by (rule ack_in_bind [OF ack_free_worker(2) rest [unfolded RESULT_RECORDED TaskClaimOutcome.case] new(1) x]) blast
    then have "event_of task ev" "d2 = d1"
      using w by (auto simp: replay_result_def io_bind_Inr with_unit_of_work_Inr get_attempt_result_def table_simps
          scalar_one_def rbind_Inr_iff dest: event_from_result_of split: list.splits option.splits)
    with finish [OF e(2,3)] 1(1) event_ofD(2) [of task ev] show ?thesis by auto
  qed (use 1 in \<open>auto intro: exI [of _ expires]\<close>)
qed

text \<open>A broker that keeps its entries and its acknowledgements.\<close>

definition recording_client :: "((string \<times> fields) list \<times> (string \<times> string \<times> string) list) redis_client" where
  "recording_client =
     \<lparr>xadd = (\<lambda>s fs (l, a). (Inr ''1-0'', l @ [(s, fs)], a)), xreadgroup = (\<lambda>g c ss n t b. (Inr [], b)),
      xack = (\<lambda>s g i (l, a). (Inr 1, l, a @ [(s, g, i)])), xautoclaim = (\<lambda>s g c t i n b. (Inr (''0-0'', [], []), b))\<rparr>"

lemma recording_client_tracks: "tracks_acks recording_client (\<lambda>b. set (snd b)) (\<lambda>b. set (fst b))"
  by (auto simp: tracks_acks_def recording_client_def)

theorem acknowledged_after_completion_witness:
  "\<exists>d d' ev fs b'. process_task (sample_worker recording_client) 10 50 [] 51 ''workflow.tasks'' ''1-0'' sample_delivered (d, [], []) =
       (Inr (), d', b') \<and> (''workflow.tasks'', ''workers'', ''1-0'') \<in> set (snd b') \<and>
     event_of sample_delivered ev \<and> (WORKFLOW_TASK_COMPLETIONS_STREAM, fs) \<in> set (fst b') \<and> attempt_abs d' 7 = Closed"
proof -
  let ?w = "sample_worker recording_client"
  let ?b = "([], []) :: (string \<times> fields) list \<times> (string \<times> string \<times> string) list"
  obtain d1 d2 where ok: "attempts_claim_ok d1" and known: "attempt_known d1 7 (''t'', 1, ''a'')"
    and run: "execute_and_record ?w 9 [] sample_delivered (d1, ?b) = (Inr sample_result_event, d2, ?b)"
    using sample_recorded [of recording_client ?b] by blast
  have quiet: "fst (snd (w_executor ?w sample_delivered (d1, ?b))) = d1"
    by (simp add: sample_worker_sel InputNodeHandler_def)
  note e = execute_and_record_effect [OF sample_worker_sel(1,2) ok quiet run]
  have known2: "worker_known ?w sample_delivered d2"
    using known e by (simp add: worker_known_def sample_worker_sel sample_delivered_sel attempt_known_identity)
  obtain fs where fs: "completion_to_stream_fields (w_float_text ?w) sample_result_event = Inr fs"
    using sample_result_fields by blast
  have calls: "xadd (w_client ?w) s fs ([], []) = (Inr ''1-0'', [(s, fs)], [])"
    "xack (w_client ?w) s g m ([(s', fs)], []) = (Inr 1, [(s', fs)], [(s, g, m)])" for s s' fs g m
    by (simp_all add: sample_worker_sel recording_client_def)
  have st: "worker_ok ?w d2" "worker_state ?w sample_delivered d2 = Recorded (event_result sample_result_event)"
    "event_of sample_delivered sample_result_event"
    using e by (simp_all add: worker_ok_def worker_state_def sample_worker_sel)
  obtain d' where p: "process_task ?w 10 50 [] 51 ''workflow.tasks'' ''1-0'' sample_delivered (d2, [], []) =
      (Inr (), d', [(WORKFLOW_TASK_COMPLETIONS_STREAM, fs)], [(''workflow.tasks'', WORKFLOW_TASKS_GROUP, ''1-0'')])"
    using recorded_delivery [OF sample_worker_sel(1) st(1) known2 st(2,3) sample_worker_sel(3) fs calls] by blast
  have q: "quiet_handler (\<lambda>b. set (snd b)) (w_executor ?w)"
    by (auto simp: quiet_handler_def sample_worker_sel InputNodeHandler_def)
  have refused: "\<nexists>expires. fst (claim_spec (attempt_abs d2 (nt_attempt_id sample_delivered)) (w_worker_id ?w) 50 expires) \<in>
      {ALREADY_COMPLETED, CURRENTLY_CLAIMED}"
    using e by (simp add: claim_spec_def)
  have t: "tracks_acks (w_client ?w) (\<lambda>b. set (snd b)) (\<lambda>b. set (fst b))"
    using recording_client_tracks by (simp add: sample_worker_sel)
  from acknowledged_after_completion [OF t q sample_worker_sel(1,2) _ p] e refused
  obtain ev fs' where "event_of sample_delivered ev" "(WORKFLOW_TASK_COMPLETIONS_STREAM, fs') \<in> {(WORKFLOW_TASK_COMPLETIONS_STREAM, fs)}"
    "attempt_abs d' (nt_attempt_id sample_delivered) = Closed" by auto
  with p show ?thesis
    unfolding sample_delivered_sel
    by (intro exI [of _ d2] exI [of _ d'] exI [of _ ev] exI [of _ fs'] exI conjI)
      (assumption, simp_all add: WORKFLOW_TASKS_GROUP_def)
qed

end
