(* ===== verification/Engine_Run.thy ===== *)
theory Engine_Run
  imports Engine
begin

text \<open>
  A run of the engine, step by step: a definition with two nodes, \<open>b\<close> depending on \<open>a\<close>, is submitted and
  triggered, the trigger event is published and consumed, \<open>a\<close> is dispatched and completed and \<open>b\<close> is
  dispatched. Every step is computed from the definitions of the services; the states reached are the
  concrete inputs at which the properties of the engine are applied.
\<close>

section \<open>The platform of the run\<close>

definition set_publish :: "(string \<times> fields) set publish_call" where
  "set_publish s f b = (Inr ''0-1'', insert (s, f) b)"

definition sample_platform :: "(string \<times> fields) set platform" where
  "sample_platform = \<lparr>p_env = Map.empty, p_fr = sample_float_text, p_fp = sample_float_parse,
     p_fl = \<lparr>fl_mul = (\<lambda>x y. x), fl_pow = (\<lambda>x n. Inr x), fl_parse = (\<lambda>s. Inr float_one), fl_seconds = (\<lambda>x. Inr 1000000)\<rparr>,
     p_u5 = (\<lambda>n s. foldl (\<lambda>h c. h + of_char c) n s), p_model = read_workflow, p_policy = default_retry_policy,
     p_publish = set_publish, p_log = (\<lambda>b. b), p_broker = {}\<rparr>"

definition node_a :: WorkflowNode where
  "node_a = \<lparr>wn_id = ''a'', wn_handler = ''input'', wn_dependencies = [], wn_config = [], wn_created_at = 0, wn_created_by = None\<rparr>"
definition node_b :: WorkflowNode where
  "node_b = \<lparr>wn_id = ''b'', wn_handler = ''llm_service'', wn_dependencies = [''a''], wn_config = [(PStr ''prompt'', PStr ''go'')],
     wn_created_at = 0, wn_created_by = None\<rparr>"

definition run_db :: "WorkflowExecutionStatus \<Rightarrow> datetime option \<Rightarrow> NodeExecution \<Rightarrow> NodeExecution \<Rightarrow> OutboxEventRecord list \<Rightarrow>
    LogicalTaskRecord list \<Rightarrow> TaskAttemptRecord list \<Rightarrow> db" where
 "run_db ws t a b ob ls as = empty_db\<lparr>db_workflows :=
    [\<lparr>wr_workflow_id = 1, wr_name = ''sample'', wr_dag_definition = \<lparr>nodes = [node_a, node_b]\<rparr>, wr_created_at = 0\<rparr>],
    db_executions := [(new_workflow_execution 1 1 0)\<lparr>we_status := ws, we_started_at := t\<rparr>],
    db_nodes := [a, b], db_outbox := ob, db_logical_tasks := ls, db_attempts := as\<rparr>"

abbreviation new_a where "new_a \<equiv> new_node_execution 1 ''a'' 0"
abbreviation new_b where "new_b \<equiv> new_node_execution 1 ''b'' 0"

definition trigger_event_row :: OutboxEventRecord where
  "trigger_event_row = \<lparr>ob_event_id = 9, ob_event_type = ''workflow.execution.triggered'', ob_aggregate_id = Some 1,
     ob_target_stream = WORKFLOW_EVENTS_STREAM, ob_payload = [(PStr ''execution_id'', PStr (uuid_str 1))],
     ob_status = ''pending'', ob_publish_attempts = 0, ob_last_error = None, ob_created_at = 0, ob_published_at = None\<rparr>"
definition db_submitted :: db where "db_submitted = run_db WPENDING None new_a new_b [] [] []"
definition db_triggered :: db where "db_triggered = run_db WRUNNING (Some 0) new_a new_b [trigger_event_row] [] []"

lemma submitted: "submit (default_validator (p_env sample_platform) (p_fr sample_platform)) (p_model sample_platform)
     sample_definition 1 0 empty_db = (Inr \<lparr>ws_execution_id = 1, ws_name = ''sample'', ws_created_at = 0\<rparr>, db_submitted)"
  by code_simp

lemmas read_simps = run_transaction_def require_def table_simps select_one_def scalar_one_or_none_def get_execution_by_id_def
  get_execution_by_id_for_update_def get_workflow_by_id_def get_node_executions_for_execution_def new_workflow_execution_def new_node_execution_def
  run_db_def

lemma triggered: "trigger 9 0 1 None db_submitted = (Inr \<lparr>td_execution_id = 1, td_status = WRUNNING\<rparr>, db_triggered)"
  by (simp add: trigger_def trigger_tx_def db_submitted_def db_triggered_def read_simps update_execution_status_if_current_def
   update_rows_def keep_or_def add_message_def empty_db_def trigger_event_row_def)

definition event_fields :: fields where
  "event_fields = projr (stream_fields (p_fr sample_platform) trigger_event_row)"
definition db_published :: db where "db_published = run_db WRUNNING (Some 0) new_a new_b [mark_published 0 trigger_event_row] [] []"

lemma event_fields: "stream_fields (p_fr sample_platform) trigger_event_row = Inr event_fields"
  by (simp add: event_fields_def stream_fields_def outbox_stream_fields_def trigger_event_row_def)
lemma published: "publish_pending (p_fr sample_platform) set_publish 0 db_triggered {} = (Inr 1, db_published, {(WORKFLOW_EVENTS_STREAM, event_fields)})"
proof -
  have "pending_batch db_triggered = [trigger_event_row]" "target_stream_of trigger_event_row = WORKFLOW_EVENTS_STREAM"
    by (simp_all add: pending_batch_def db_triggered_def run_db_def trigger_event_row_def target_stream_of_def)
  moreover have "set_outbox_row (ob_event_id trigger_event_row) (mark_published 0) db_triggered = db_published"
    by (simp add: set_outbox_row_def db_triggered_def db_published_def run_db_def update_rows_def)
  ultimately show ?thesis by (simp add: publish_pending_def event_fields set_publish_def)
qed
lemma decoded: "trigger_execution_id (p_fp sample_platform) event_fields = Inr 1" by code_simp
lemma roots_ready: "readiness_evaluate 1 db_published = (Inr \<lparr>rdy_execution_id = 1, ready_node_ids = [''a'']\<rparr>, db_published)" 
  by (simp add: readiness_evaluate_def readiness_in_transaction_def read_simps db_published_def
    evaluate_ready_eq node_a_def node_b_def ready_def status_of_def statuses_by_id_def)
definition sample_execution :: WorkflowExecution where
  "sample_execution = (new_workflow_execution 1 1 0)\<lparr>we_status := WRUNNING, we_started_at := Some 0\<rparr>"

lemma loaded_a: "run_transaction (load_ready_nodes 1 [''a'']) db_published = (Inr (sample_execution, [node_a]), db_published)"
  by (simp add: load_ready_nodes_def read_simps db_published_def sample_execution_def node_a_def node_b_def)
definition task_a :: string where "task_a = create_task_id (p_u5 sample_platform) 1 ''a''"
definition logical_a :: LogicalTaskRecord where
  "logical_a = \<lparr>lt_task_id = task_a, lt_execution_id = 1, lt_node_id = ''a'', lt_handler = ''input'', lt_handler_config = [],
     lt_resolved_input = [], lt_status = ''running'', lt_final_error_message = None, lt_final_error_type = None, lt_created_at = 0\<rparr>"
definition message_a :: uuid where "message_a = p_u5 sample_platform TASK_ID_NAMESPACE (uuid_str 1 @ '':'' @ ''a'')"
definition task_row_a :: OutboxEventRecord where
  "task_row_a = \<lparr>ob_event_id = message_a, ob_event_type = ''workflow.task'', ob_aggregate_id = Some 1,
     ob_target_stream = ''workflow.tasks'', ob_payload = task_payload (task_message task_a 11 1 node_a []),
     ob_status = ''pending'', ob_publish_attempts = 0, ob_last_error = None, ob_created_at = 0, ob_published_at = None\<rparr>"
definition db_dispatched :: db where
  "db_dispatched = run_db WRUNNING (Some 0) (new_a\<lparr>ne_status := RUNNING, ne_started_at := Some 0\<rparr>) new_b
     [mark_published 0 trigger_event_row, task_row_a] [logical_a] [attempt_row 11 task_a 1 ''running'' (Some 0) None 0]"
lemma task_a_uuid: "parse_uuid task_a = Inr message_a"
  by (simp add: task_a_def create_task_id_def message_a_def)
lemma message_a_new: "message_a \<noteq> 9" "message_a \<noteq> 21" by code_simp+
lemma resolve_a: "resolve (p_fr sample_platform) node_a [] [] = Inr []" by code_simp
lemma run_db_reads:
  "get_execution_by_id 1 (run_db ws t a b ob ls as) = Inr (Some ((new_workflow_execution 1 1 0)\<lparr>we_status := ws, we_started_at := t\<rparr>), run_db ws t a b ob ls as)"
  "get_execution_by_id_for_update 1 (run_db ws t a b ob ls as) = Inr (Some ((new_workflow_execution 1 1 0)\<lparr>we_status := ws, we_started_at := t\<rparr>), run_db ws t a b ob ls as)"
  "get_workflow_by_id 1 (run_db ws t a b ob ls as) = Inr (Some \<lparr>wf_workflow_id = 1, wf_name = ''sample'', wf_dag = \<lparr>nodes = [node_a, node_b]\<rparr>,
     wf_created_at = 0, wf_created_by = None\<rparr>, run_db ws t a b ob ls as)"
  "node_key a = (1, ''a'') \<Longrightarrow> node_key b = (1, ''b'') \<Longrightarrow>
     get_node_executions_for_execution 1 (run_db ws t a b ob ls as) = Inr ([a, b], run_db ws t a b ob ls as)"
  by (simp_all add: read_simps)

lemma run_db_writes:
  "node_key a = (1, ''a'') \<Longrightarrow> node_key b = (1, ''b'') \<Longrightarrow> ne_status a = PENDING \<Longrightarrow>
     claim_pending_nodes 1 [''a''] (run_db ws t a b ob ls as) = Inr ([''a''], run_db ws t (a\<lparr>ne_status := RUNNING, ne_started_at := Some 0\<rparr>) b ob ls as)"
  "node_key a = (1, ''a'') \<Longrightarrow> node_key b = (1, ''b'') \<Longrightarrow> ne_status b = PENDING \<Longrightarrow>
     claim_pending_nodes 1 [''b''] (run_db ws t a b ob ls as) = Inr ([''b''], run_db ws t a (b\<lparr>ne_status := RUNNING, ne_started_at := Some 0\<rparr>) ob ls as)"
  by (simp_all add: claim_pending_nodes_def table_simps run_db_def update_rows_def empty_db_def)

lemma keys_ab:
  "ne_workflow_execution_id new_a = 1" "ne_node_id new_a = ''a''" "ne_status new_a = PENDING"
  "ne_workflow_execution_id new_b = 1" "ne_node_id new_b = ''b''" "ne_status new_b = PENDING"
  by (simp_all add: new_node_execution_def)

lemma queued_a: "queue_task 0 task_a 11 1 node_a [] (run_db WRUNNING (Some 0) (new_a\<lparr>ne_status := RUNNING, ne_started_at := Some 0\<rparr>) new_b
     [mark_published 0 trigger_event_row] [] []) = Inr ((), db_dispatched)"
    using message_a_new
    by (simp add: queue_task_def register_initial_task_def read_simps insert_attempt_def insert_ignore_def add_task_def add_message_def task_a_uuid
     db_dispatched_def task_row_a_def logical_a_def node_a_def empty_db_def trigger_event_row_def)

lemma dispatched_a: "dispatch (p_fr sample_platform) (p_u5 sample_platform) 11 0 sample_execution node_a db_published = 
   (Inr (dispatch_result 1 ''a'' task_a DISPATCHED None), db_dispatched)"
proof -
  have n: "wn_id node_a = ''a''" "wn_dependencies node_a = []" "we_execution_id sample_execution = 1" "we_input_data sample_execution = []"
    by (simp_all add: node_a_def sample_execution_def new_workflow_execution_def)
  show ?thesis
  using queued_a resolve_a 
  by (simp add: dispatch_def run_transaction_def dispatch_tx_def db_published_def Let_def require_def run_db_reads run_db_writes keys_ab n
   completed_dependency_outputs_def task_a_def [symmetric] dict_of_pairs_def)
qed

definition event_a :: TaskCompletionEvent where
  "event_a = \<lparr>tc_event_id = 21, tc_task_id = task_a, tc_execution_id = 1,
     tc_node_id = ''a'', tc_status = TASK_COMPLETED, tc_attempt_id = 11, tc_attempt_number = 1,
     tc_output_data = PDict [], tc_error_message = None, tc_error_type = None\<rparr>"

definition node_row_a :: OutboxEventRecord where
  "node_row_a = \<lparr>ob_event_id = 21, ob_event_type = ''workflow.node.completed'', ob_aggregate_id = Some 1,
     ob_target_stream = WORKFLOW_EVENTS_STREAM, ob_payload = [(PStr ''execution_id'', PStr (uuid_str 1)),
        (PStr ''node_id'', PStr ''a''), (PStr ''status'', PStr ''completed''),
        (PStr ''task_id'', PStr task_a), (PStr ''attempt_id'', PStr (uuid_str 11)),
        (PStr ''attempt_number'', PInt 1), (PStr ''output_data'', PDict []),
        (PStr ''error_message'', PNone), (PStr ''error_type'', PNone)],
     ob_status = ''pending'', ob_publish_attempts = 0, ob_last_error = None, ob_created_at = 0, ob_published_at = None\<rparr>"

definition ran_a :: NodeExecution where "ran_a = new_a\<lparr>ne_status := RUNNING, ne_started_at := Some 0\<rparr>"
definition done_a :: NodeExecution where "done_a = ran_a\<lparr>ne_status := COMPLETED, ne_completed_at := Some 0\<rparr>"
definition done_logical where "done_logical = logical_a\<lparr>lt_status := ''completed''\<rparr>"
definition done_attempt where "done_attempt = (attempt_row 11 task_a 1 ''running'' (Some 0) None 0)\<lparr>ta_status := ''completed'',
  ta_completion_event_id := Some 21, ta_completed_at := Some 0\<rparr>"
definition db_completed_a :: db where
  "db_completed_a = run_db WRUNNING (Some 0) done_a new_b [mark_published 0 trigger_event_row, task_row_a, node_row_a] [done_logical] [done_attempt]"

lemma recorded_a: "record_success task_a 11 21 0 db_dispatched = Inr (True, run_db WRUNNING (Some 0) ran_a new_b
     [mark_published 0 trigger_event_row, task_row_a] [done_logical] [done_attempt])"
  by (simp add: record_success_def get_logical_task_def get_attempt_def db_dispatched_def read_simps logical_a_def attempt_row_def
    update_attempt_def update_logical_task_def update_rows_def done_logical_def done_attempt_def ran_a_def)

lemma keys_run:
  "ne_workflow_execution_id ran_a = 1" "ne_node_id ran_a = ''a''" "ne_status ran_a = RUNNING"
  "ne_workflow_execution_id done_a = 1" "ne_node_id done_a = ''a''" "ne_status done_a = COMPLETED"
  "ne_output_data done_a = PDict []"
  by (simp_all add: ran_a_def done_a_def new_node_execution_def)

lemma statuses_done: "statuses_by_id [done_a, new_b] = [''b'' \<mapsto> PENDING, ''a'' \<mapsto> COMPLETED]"
  by (auto simp: statuses_by_id_def fun_eq_iff keys_ab keys_run)

lemma node_done: "update_node_status_if_current 1 ''a'' RUNNING COMPLETED (Some (PDict [])) None None None (Some 0)
   (run_db WRUNNING (Some 0) ran_a new_b ob ls as) = Inr (True, run_db WRUNNING (Some 0) done_a new_b ob ls as)"
  by (simp add: update_node_status_if_current_def read_simps update_rows_def ran_a_def done_a_def keep_or_def)

lemma evented: "node_event event_a (run_db WRUNNING (Some 0) done_a new_b [mark_published 0 trigger_event_row, task_row_a] ls as) =
  Inr ((), run_db WRUNNING (Some 0) done_a new_b [mark_published 0 trigger_event_row, task_row_a, node_row_a] ls as)"
  using message_a_new by (simp add: node_event_def event_a_def add_message_def read_simps node_row_a_def opt_str_def trigger_event_row_def task_row_a_def empty_db_def)

lemma processed_a: "process (p_fl sample_platform) (p_u5 sample_platform) (p_policy sample_platform) 31 0 event_a db_dispatched =
  (Inr (completion_decision event_a PROCESSED [''b'']), db_completed_a)"
proof -
  have ev: "tc_task_id event_a = task_a" "tc_execution_id event_a = 1" "tc_node_id event_a = ''a''" "tc_status event_a = TASK_COMPLETED"
    "tc_attempt_id event_a = 11" "tc_event_id event_a = 21" "tc_output_data event_a = PDict []"
    by (simp_all add: event_a_def)
  have d: "db_dispatched = run_db WRUNNING (Some 0) ran_a new_b [mark_published 0 trigger_event_row, task_row_a] [logical_a] [attempt_row 11 task_a 1 ''running'' (Some 0) None 0]"
    by (simp add: db_dispatched_def ran_a_def)
  have w: "we_workflow_id ((new_workflow_execution 1 1 0)\<lparr>we_status := ws, we_started_at := t\<rparr>) = 1" for ws t
    by (simp add: new_workflow_execution_def)
  have ready: "evaluate_ready_node_ids \<lparr>wf_workflow_id = 1, wf_name = ''sample'', wf_dag = \<lparr>nodes = [node_a, node_b]\<rparr>,
     wf_created_at = 0, wf_created_by = None\<rparr> [''b'' \<mapsto> PENDING, ''a'' \<mapsto> COMPLETED] = [''b'']"
    by code_simp
  have nb: "wn_id node_b = ''b''" "wn_id node_a = ''a''" by (simp_all add: node_a_def node_b_def)
  have after: "after_node_transition (p_u5 sample_platform) 31 0 event_a ((new_workflow_execution 1 1 0)\<lparr>we_status := WRUNNING, we_started_at := Some 0\<rparr>)
     [ran_a, new_b] (run_db WRUNNING (Some 0) done_a new_b [mark_published 0 trigger_event_row, task_row_a] [done_logical] [done_attempt])
     = Inr (completion_decision event_a PROCESSED [''b''], db_completed_a)"
    by (simp add: after_node_transition_def ev evented readiness_in_transaction_def require_def w run_db_reads keys_run keys_ab statuses_done ready
      finalization_in_transaction_def nb db_completed_a_def)
  have tx: "process_tx (p_fl sample_platform) (p_u5 sample_platform) (p_policy sample_platform) 31 0 event_a db_dispatched =
     Inr (completion_decision event_a PROCESSED [''b''], db_completed_a)"
    using recorded_a
    by (simp add: process_tx_def d ev require_def run_db_reads keys_run keys_ab apply_retry_state_def complete_node_def Let_def node_done after)
  show ?thesis using tx by (simp add: process_def ev task_a_def)
qed

lemma loaded_b: "run_transaction (load_ready_nodes 1 [''b'']) db_completed_a = (Inr (sample_execution, [node_b]), db_completed_a)"
  by (simp add: load_ready_nodes_def read_simps db_completed_a_def sample_execution_def node_a_def node_b_def)

definition task_b :: string where "task_b = create_task_id (p_u5 sample_platform) 1 ''b''"
definition message_b :: uuid where "message_b = p_u5 sample_platform TASK_ID_NAMESPACE (uuid_str 1 @ '':'' @ ''b'')"
definition prompt_b :: pydict where "prompt_b = [(PStr ''prompt'', PStr ''go'')]"
definition ran_b :: NodeExecution where "ran_b = new_b\<lparr>ne_status := RUNNING, ne_started_at := Some 0\<rparr>"

lemma task_b_uuid: "parse_uuid task_b = Inr message_b" by (simp add: task_b_def create_task_id_def message_b_def)
lemma message_b_fresh: "message_b \<noteq> 9" "message_b \<noteq> 21" "message_b \<noteq> message_a"
  by code_simp+
lemma message_b_new: "message_b \<noteq> 9" "message_b \<noteq> 21" "message_b \<noteq> message_a" "task_b \<noteq> task_a"
  using message_b_fresh task_a_uuid task_b_uuid by auto
lemma resolve_b: "resolve (p_fr sample_platform) node_b [] [(''a'', PDict [])] = Inr prompt_b" by code_simp

lemma queued_b: "\<exists>d. queue_task 0 task_b 12 1 node_b prompt_b (run_db WRUNNING (Some 0) done_a ran_b
     [mark_published 0 trigger_event_row, task_row_a, node_row_a] [done_logical] [done_attempt]) = Inr ((), d) \<and>
     db_executions d = [sample_execution] \<and> db_nodes d = [done_a, ran_b] \<and> db_workflows d = db_workflows db_completed_a"
    using message_b_new
    by (simp add: queue_task_def register_initial_task_def read_simps insert_attempt_def insert_ignore_def add_task_def add_message_def task_b_uuid
     task_row_a_def node_row_a_def done_logical_def logical_a_def done_attempt_def attempt_row_def trigger_event_row_def sample_execution_def db_completed_a_def)

lemma dispatched_b: "\<exists>d. dispatch (p_fr sample_platform) (p_u5 sample_platform) 12 0 sample_execution node_b db_completed_a = 
   (Inr (dispatch_result 1 ''b'' task_b DISPATCHED None), d) \<and> db_executions d = [sample_execution] \<and> db_nodes d = [done_a, ran_b] \<and> db_workflows d = db_workflows db_completed_a"
proof -
  have n: "wn_id node_b = ''b''" "wn_dependencies node_b = [''a'']" "we_execution_id sample_execution = 1" "we_input_data sample_execution = []"
    by (simp_all add: node_b_def sample_execution_def new_workflow_execution_def)
  have o: "completed_dependency_outputs 1 node_b [done_a, new_b] = [(''a'', PDict [])]"
    using n by (simp add: keys_run keys_ab completed_dependency_outputs_def dict_of_pairs_def)
  obtain d where d: "queue_task 0 task_b 12 1 node_b prompt_b (run_db WRUNNING (Some 0) done_a ran_b
     [mark_published 0 trigger_event_row, task_row_a, node_row_a] [done_logical] [done_attempt]) = Inr ((), d)"
    "db_executions d = [sample_execution]" "db_nodes d = [done_a, ran_b]" "db_workflows d = db_workflows db_completed_a"
    using queued_b by blast
  show ?thesis
  using d resolve_b 
  by (simp add: dispatch_def run_transaction_def dispatch_tx_def db_completed_a_def Let_def require_def run_db_reads run_db_writes keys_ab keys_run n statuses_done o
   task_b_def [symmetric] ran_b_def [symmetric])
qed

section \<open>The states of the run\<close>

lemma sample_platform_ok: "platform_ok sample_platform"
  using sample_float_codec read_workflow_reads
  by (auto simp: platform_ok_def sample_platform_def default_retry_policy_def accepts_to_log_def set_publish_def)

definition engine_submitted :: "(string \<times> fields) set engine" where
  "engine_submitted = (initial_engine sample_platform)\<lparr>eng_db := db_submitted\<rparr>"

definition engine_triggered :: "(string \<times> fields) set engine" where
  "engine_triggered = engine_submitted\<lparr>eng_db := db_triggered\<rparr>"

definition engine_published :: "(string \<times> fields) set engine" where
  "engine_published = engine_triggered\<lparr>eng_db := db_published, eng_broker := {(WORKFLOW_EVENTS_STREAM, event_fields)}\<rparr>"

definition engine_called :: "(string \<times> fields) set engine" where
  "engine_called = engine_published\<lparr>eng_ready := {(1, [''a''])}, eng_calls := {(sample_execution, node_a)}\<rparr>"

definition engine_dispatched :: "(string \<times> fields) set engine" where
  "engine_dispatched = engine_called\<lparr>eng_db := db_dispatched\<rparr>"

definition engine_completed_a :: "(string \<times> fields) set engine" where
  "engine_completed_a = engine_dispatched\<lparr>eng_db := db_completed_a, eng_ready := {(1, [''b'']), (1, [''a''])}\<rparr>"

lemma reach_submitted: "engine_reachable sample_platform engine_submitted"
proof -
  have db: "eng_db (initial_engine sample_platform) = empty_db" by (simp add: initial_engine_def)
  have "engine_step sample_platform (initial_engine sample_platform) engine_submitted"
    unfolding engine_submitted_def by (rule eng_submit [OF submitted [folded db]])
  then show ?thesis by (rule r_into_rtranclp)
qed

lemma step_triggered: "engine_step sample_platform engine_submitted engine_triggered"
proof -
  have db: "eng_db engine_submitted = db_submitted" by (simp add: engine_submitted_def)
  show ?thesis unfolding engine_triggered_def by (rule eng_trigger [OF triggered [folded db]])
qed

lemma reach_triggered: "engine_reachable sample_platform engine_triggered"
  using reach_submitted step_triggered by (rule rtranclp.rtrancl_into_rtrancl)

lemma reach_published: "engine_reachable sample_platform engine_published"
proof (rule rtranclp.rtrancl_into_rtrancl [OF reach_triggered])
  have "eng_db engine_triggered = db_triggered" "eng_broker engine_triggered = {}" "p_publish sample_platform = set_publish"
    by (simp_all add: engine_triggered_def engine_submitted_def initial_engine_def sample_platform_def)
  then have "publish_pending (p_fr sample_platform) (p_publish sample_platform) 0 (eng_db engine_triggered) (eng_broker engine_triggered) =
      (Inr 1, db_published, {(WORKFLOW_EVENTS_STREAM, event_fields)})" using published by simp
  from eng_publish [OF this] show "engine_step sample_platform engine_triggered engine_published"
    by (simp add: engine_published_def)
qed

lemma reach_called: "engine_reachable sample_platform engine_called"
proof -
  let ?s = "engine_published\<lparr>eng_db := db_published, eng_ready := {(1, [''a''])}\<rparr>"
  have d: "eng_db engine_published = db_published" "p_log sample_platform (eng_broker engine_published) = {(WORKFLOW_EVENTS_STREAM, event_fields)}"
    "eng_ready engine_published = {}" "eng_calls engine_published = {}"
    by (simp_all add: engine_published_def engine_triggered_def engine_submitted_def initial_engine_def sample_platform_def)
  have "engine_step sample_platform engine_published ?s"
    using eng_trigger_event [of event_fields sample_platform engine_published 1] d decoded roots_ready by simp
  moreover have "engine_step sample_platform ?s (?s\<lparr>eng_db := db_published, eng_calls := eng_calls ?s \<union> {sample_execution} \<times> set [node_a]\<rparr>)"
    by (rule eng_load [of 1 "[''a'']"]) (simp_all add: loaded_a)
  moreover have "?s\<lparr>eng_db := db_published, eng_calls := eng_calls ?s \<union> {sample_execution} \<times> set [node_a]\<rparr> = engine_called"
    by (simp add: engine_called_def d)
  ultimately show ?thesis using reach_published by (metis rtranclp.rtrancl_into_rtrancl)
qed

lemma called_sel:
  "eng_db engine_called = db_published" "eng_ready engine_called = {(1, [''a''])}"
  "eng_calls engine_called = {(sample_execution, node_a)}"
  by (simp_all add: engine_called_def engine_published_def)

lemma step_dispatched: "engine_step sample_platform engine_called engine_dispatched"
  unfolding engine_dispatched_def
  using eng_dispatch [OF _ dispatched_a [folded called_sel(1)]] called_sel(3) by simp

lemma reach_dispatched: "engine_reachable sample_platform engine_dispatched"
  using reach_called step_dispatched by (rule rtranclp.rtrancl_into_rtrancl)

lemma reach_completed_a: "engine_reachable sample_platform engine_completed_a"
proof (rule rtranclp.rtrancl_into_rtrancl [OF reach_dispatched])
  show "engine_step sample_platform engine_dispatched engine_completed_a"
    using eng_completion [of sample_platform 31 0 event_a engine_dispatched] processed_a
    by (simp add: engine_dispatched_def engine_completed_a_def called_sel event_a_def)
qed

lemma reach_dispatched_b:
  "\<exists>s. engine_reachable sample_platform s \<and> db_executions (eng_db s) = [sample_execution] \<and>
     db_nodes (eng_db s) = [done_a, ran_b] \<and> db_workflows (eng_db s) = db_workflows db_completed_a"
proof -
  let ?s = "engine_completed_a\<lparr>eng_db := db_completed_a, eng_calls := eng_calls engine_completed_a \<union> {sample_execution} \<times> set [node_b]\<rparr>"
  have d: "eng_db engine_completed_a = db_completed_a" "eng_ready engine_completed_a = {(1, [''b'']), (1, [''a''])}"
    by (simp_all add: engine_completed_a_def)
  have "engine_step sample_platform engine_completed_a ?s"
    by (rule eng_load [of 1 "[''b'']"]) (simp_all add: d loaded_b)
  with reach_completed_a have r: "engine_reachable sample_platform ?s" by (rule rtranclp.rtrancl_into_rtrancl)
  obtain d' where d': "dispatch (p_fr sample_platform) (p_u5 sample_platform) 12 0 sample_execution node_b db_completed_a =
       (Inr (dispatch_result 1 ''b'' task_b DISPATCHED None), d')"
    "db_executions d' = [sample_execution]" "db_nodes d' = [done_a, ran_b]" "db_workflows d' = db_workflows db_completed_a"
    using dispatched_b by blast
  have "engine_step sample_platform ?s (?s\<lparr>eng_db := d'\<rparr>)"
  proof (rule eng_dispatch)
    show "(sample_execution, node_b) \<in> eng_calls ?s" by simp
    show "dispatch (p_fr sample_platform) (p_u5 sample_platform) 12 0 sample_execution node_b (eng_db ?s) =
       (Inr (dispatch_result 1 ''b'' task_b DISPATCHED None), d')" using d'(1) by simp
  qed
  with r have "engine_reachable sample_platform (?s\<lparr>eng_db := d'\<rparr>)" by (rule rtranclp.rtrancl_into_rtrancl)
  with d' show ?thesis by (intro exI [of _ "?s\<lparr>eng_db := d'\<rparr>"]) simp
qed

end
