(* ===== verification/Delivery.thy ===== *)
theory Delivery
  imports Worker_Guarantees Engine_Run
begin

text \<open>
  The path of a completion event from the worker to the orchestrator: the consumers acknowledge a message
  only after the services have returned, and a failure with a blank message, which the worker publishes,
  stops the orchestrator.
\<close>

section \<open>Acknowledgement by the consumers\<close>

lemma ack_free_handled:
  assumes "ack_free acked m" and "io_bind m (\<lambda>_. io_bind (ack client stream g message_id) (\<lambda>_. io_return ())) (d, b) = (r, d', b')"
    and "x \<in> acked b'" and "x \<notin> acked b"
  obtains y b1 where "m (d, b) = (Inr y, d', b1)"
proof -
  obtain y d1 b1 where m: "m (d, b) = (Inr y, d1, b1)"
    and rest: "io_bind (ack client stream g message_id) (\<lambda>_. io_return ()) (d1, b1) = (r, d', b')"
    by (rule ack_in_bind [OF assms]) blast
  from rest have "d' = d1" by (auto simp: io_bind_def ack_def io_redis_def split: prod.splits sum.splits)
  with m that show thesis by simp
qed

lemma io_db_Inr: "io_db f (d, b) = (Inr x, d', b') \<longleftrightarrow> f d = (Inr x, d') \<and> b' = b"
  by (auto simp: io_db_def split: prod.splits)

text \<open>The barrier of integration tests acknowledges nothing and leaves the database alone.\<close>

definition harmless_barrier ::
    "('b \<Rightarrow> (string \<times> string \<times> string) set) \<Rightarrow> (string \<Rightarrow> string \<Rightarrow> 64 word \<Rightarrow> ('b, unit) io) \<Rightarrow> bool" where
  "harmless_barrier acked participate \<longleftrightarrow>
     (\<forall>n i t. ack_free acked (participate n i t) \<and>
        (\<forall>d b r d' b'. participate n i t (d, b) = (r, d', b') \<longrightarrow> d' = d))"

lemma barrier_harmless:
  assumes "harmless_barrier acked participate"
  shows "ack_free acked (wait_for_integration_barrier env fl participate ev)"
    and "wait_for_integration_barrier env fl participate ev (d, b) = (Inr u, d', b') \<Longrightarrow> d' = d"
proof -
  have p: "ack_free acked (participate n i t)" "participate n i t (d, b) = (r, d', b') \<Longrightarrow> d' = d" for n i t d b r d' b'
    using assms unfolding harmless_barrier_def by blast+
  show "ack_free acked (wait_for_integration_barrier env fl participate ev)"
    unfolding wait_for_integration_barrier_def Let_def
    by (simp add: ack_free_basic) (intro impI ack_free_bind ack_free_basic; simp add: p ack_free_basic)
  show "d' = d" if "wait_for_integration_barrier env fl participate ev (d, b) = (Inr u, d', b')"
    using that by (auto simp: wait_for_integration_barrier_def Let_def io_bind_Inr split: if_splits dest: p(2))
qed

text \<open>C18: the orchestrator acknowledges what it has applied. If handling a message of the completion stream
  acknowledges it, then its fields were decoded to an event, the completion service committed the event
  and the nodes it reported ready were all handed to the dispatcher.\<close>

theorem completion_acknowledged_after_processing:
  assumes barrier: "harmless_barrier acked participate"
    and run: "handle_completion_message client env fr fp fl u5 pol participate fresh now stream (message_id, fs) (d, b) = (r, d', b')"
    and new: "x \<in> acked b'" "x \<notin> acked b"
  shows "\<exists>ev decided d1 results. completion_from_stream_fields fp fs = Inr ev \<and>
    process fl u5 pol (fresh None) now ev d = (Inr decided, d1) \<and>
    dispatch_ready fr u5 (\<lambda>i. fresh (Some i)) now (tc_execution_id ev) (dec_ready_node_ids decided) d1 = (Inr results, d')"
proof -
  from run new obtain ev where ev: "completion_from_stream_fields fp fs = Inr ev"
    by (cases "completion_from_stream_fields fp fs") (auto simp: handle_completion_message_def io_bind_def)
  let ?process = "io_db (process fl u5 pol (fresh None) now ev)"
  let ?dispatch = "\<lambda>decided. io_db (dispatch_ready fr u5 (\<lambda>i. fresh (Some i)) now (tc_execution_id ev) (dec_ready_node_ids decided))"
  have eq: "handle_completion_message client env fr fp fl u5 pol participate fresh now stream (message_id, fs) (d, b) =
      io_bind (wait_for_integration_barrier env fl participate ev) (\<lambda>_. io_bind ?process (\<lambda>decided.
        io_bind (?dispatch decided) (\<lambda>_. io_bind (ack client stream ORCHESTRATOR_COMPLETIONS_GROUP message_id) (\<lambda>_. io_return ())))) (d, b)"
    by (simp add: handle_completion_message_def ev io_bind_apply(2) [of "io_lift (Inr ev)" "(d, b)" ev "(d, b)"])
  obtain u d0 b0 where w: "wait_for_integration_barrier env fl participate ev (d, b) = (Inr u, d0, b0)"
    and rest: "io_bind ?process (\<lambda>decided. io_bind (?dispatch decided)
        (\<lambda>_. io_bind (ack client stream ORCHESTRATOR_COMPLETIONS_GROUP message_id) (\<lambda>_. io_return ()))) (d0, b0) = (r, d', b')"
    and x: "x \<notin> acked b0"
    by (rule ack_in_bind [OF barrier_harmless(1) [OF barrier] run [unfolded eq] new]) blast
  obtain decided d1 b1 where p: "?process (d0, b0) = (Inr decided, d1, b1)"
    and rest': "io_bind (?dispatch decided)
        (\<lambda>_. io_bind (ack client stream ORCHESTRATOR_COMPLETIONS_GROUP message_id) (\<lambda>_. io_return ())) (d1, b1) = (r, d', b')"
    and x1: "x \<notin> acked b1"
    by (rule ack_in_bind [OF ack_free_basic(4) rest new(1) x]) blast
  obtain results b2 where s: "?dispatch decided (d1, b1) = (Inr results, d', b2)"
    by (rule ack_free_handled [OF ack_free_basic(4) rest' new(1) x1]) blast
  from barrier_harmless(2) [OF barrier w] ev p s show ?thesis by (auto simp: io_db_Inr)
qed

text \<open>The completion of node \<open>a\<close> in the sample run, delivered to the consumer.\<close>

definition sample_fresh :: "string option \<Rightarrow> uuid" where
  "sample_fresh k = (case k of None \<Rightarrow> 31 | Some _ \<Rightarrow> 12)"

lemma event_a_fields:
  "\<exists>fs. completion_to_stream_fields (p_fr sample_platform) event_a = Inr fs \<and>
     completion_from_stream_fields (p_fp sample_platform) fs = Inr event_a"
proof -
  have nb: "\<not> blank task_a" using uuid_str_nonblank by (simp add: task_a_def create_task_id_def)
  have "\<not> blank ''a''" by (simp add: blank_iff is_space_def code_def)
  with nb have v: "valid_event event_a" by (simp add: valid_event_def event_a_def)
  have "norm_event event_a = event_a" by (simp add: norm_event_def event_a_def)
  with completion_roundtrip [OF sample_float_codec v] show ?thesis by (simp add: sample_platform_def)
qed

lemma dispatched_ready_b:
  "\<exists>r d. dispatch_ready (p_fr sample_platform) (p_u5 sample_platform) (\<lambda>i. sample_fresh (Some i)) 0 1 [''b''] db_completed_a = (Inr r, d)"
  using dispatched_b loaded_b
  by (auto simp: dispatch_ready_def dispatch_many_def sample_fresh_def)

lemma sample_handled:
  "\<exists>fs d'. completion_to_stream_fields (p_fr sample_platform) event_a = Inr fs \<and>
     handle_completion_message recording_client Map.empty (p_fr sample_platform) (p_fp sample_platform) (p_fl sample_platform)
       (p_u5 sample_platform) (p_policy sample_platform) (\<lambda>_ _ _. io_return ()) sample_fresh 0 ''s'' (''5-0'', fs) (db_dispatched, [], []) =
     (Inr (), d', [], [(''s'', ORCHESTRATOR_COMPLETIONS_GROUP, ''5-0'')])"
proof -
  obtain fs where fs: "completion_to_stream_fields (p_fr sample_platform) event_a = Inr fs"
    "completion_from_stream_fields (p_fp sample_platform) fs = Inr event_a" using event_a_fields by blast
  obtain r d' where r: "dispatch_ready (p_fr sample_platform) (p_u5 sample_platform) (\<lambda>i. sample_fresh (Some i)) 0 1 [''b''] db_completed_a =
      (Inr r, d')" using dispatched_ready_b by blast
  have e: "tc_execution_id event_a = 1" "dec_ready_node_ids (completion_decision event_a PROCESSED [''b'']) = [''b'']" "sample_fresh None = 31"
    by (simp_all add: event_a_def completion_decision_def sample_fresh_def)
  show ?thesis
    by (intro exI [of _ fs] exI [of _ d'])
      (simp add: fs handle_completion_message_def io_bind_def wait_for_integration_barrier_def io_db_def e processed_a r
        ack_def io_redis_def recording_client_def)
qed

theorem completion_acknowledged_after_processing_witness:
  "\<exists>fs d' b' results. handle_completion_message recording_client Map.empty (p_fr sample_platform) (p_fp sample_platform) (p_fl sample_platform)
       (p_u5 sample_platform) (p_policy sample_platform) (\<lambda>_ _ _. io_return ()) sample_fresh 0 ''s'' (''5-0'', fs) (db_dispatched, [], []) =
     (Inr (), d', b') \<and>
     dispatch_ready (p_fr sample_platform) (p_u5 sample_platform) (\<lambda>i. sample_fresh (Some i)) 0 1 [''b''] db_completed_a = (Inr results, d')"
proof -
  let ?x = "(''s'', ORCHESTRATOR_COMPLETIONS_GROUP, ''5-0'')"
  obtain fs d' where fs: "completion_to_stream_fields (p_fr sample_platform) event_a = Inr fs"
    and run: "handle_completion_message recording_client Map.empty (p_fr sample_platform) (p_fp sample_platform) (p_fl sample_platform)
       (p_u5 sample_platform) (p_policy sample_platform) (\<lambda>_ _ _. io_return ()) sample_fresh 0 ''s'' (''5-0'', fs) (db_dispatched, [], []) =
     (Inr (), d', [], [?x])" using sample_handled by blast
  have h: "harmless_barrier (\<lambda>b. set (snd b)) (\<lambda>_ _ _. io_return () :: ((string \<times> fields) list \<times> (string \<times> string \<times> string) list, unit) io)"
    by (auto simp: harmless_barrier_def ack_free_def)
  have new: "?x \<in> set (snd (([]::(string \<times> fields) list), [?x]))" "?x \<notin> set (snd (([]::(string \<times> fields) list), []))" by simp_all
  obtain ev decided d1 results where c: "completion_from_stream_fields (p_fp sample_platform) fs = Inr ev"
    "process (p_fl sample_platform) (p_u5 sample_platform) (p_policy sample_platform) (sample_fresh None) 0 ev db_dispatched = (Inr decided, d1)"
    "dispatch_ready (p_fr sample_platform) (p_u5 sample_platform) (\<lambda>i. sample_fresh (Some i)) 0 (tc_execution_id ev)
       (dec_ready_node_ids decided) d1 = (Inr results, d')"
    using completion_acknowledged_after_processing [OF h run new] by blast
  have "ev = event_a" using c(1) fs event_a_fields by auto
  with c(2) processed_a have "decided = completion_decision event_a PROCESSED [''b'']" "d1 = db_completed_a"
    by (simp_all add: sample_fresh_def)
  with c(3) \<open>ev = event_a\<close> have "dispatch_ready (p_fr sample_platform) (p_u5 sample_platform) (\<lambda>i. sample_fresh (Some i)) 0 1 [''b'']
      db_completed_a = (Inr results, d')" by (simp add: completion_decision_def event_a_def)
  with run show ?thesis by blast
qed

section \<open>Blank failures\<close>

lemma decode_errors:
  "required_field fs k mt = Inl e \<Longrightarrow> is_value_error e" "parse_uuid s = Inl e \<Longrightarrow> is_value_error e"
  "parse_int s = Inl e \<Longrightarrow> is_value_error e" "parse_completion_status s = Inl e \<Longrightarrow> is_value_error e"
  "json_value_field fp fs k mt = Inl e \<Longrightarrow> is_value_error e"
  by (auto simp: required_field_def parse_uuid_def parse_int_def parse_completion_status_def json_value_field_def
      of_option_def rbind_Inl_iff split: option.splits if_splits)

lemma completion_decode_error:
  "completion_from_stream_fields fp fs = Inl e \<Longrightarrow> is_value_error e"
  by (auto simp: completion_from_stream_fields_def Let_def rbind_Inl_iff
      split: option.splits if_splits TaskCompletionStatus.splits dest: decode_errors)
    (metis TaskCompletionStatus.exhaust)+

lemma failed_decode_blank:
  assumes "completion_to_stream_fields fr ev = Inr fs" and "tc_status ev = TASK_FAILED" and "tc_error_message ev = Some m"
    and "blank m"
  shows "completion_from_stream_fields fp fs \<noteq> Inr ev'"
proof -
  from assms obtain t where fs: "fs = event_header ev @ [(''error_message'', m), (''error_type'', t)]"
    by (auto simp: completion_encode split: option.splits)
  have s: "map_of fs ''status'' = Some ''failed''"
    by (simp add: fs event_header_def assms(2))
  have "map_of fs ''error_message'' = Some m" by (simp add: fs header_keys map_add_def)
  then have m: "required_field fs ''error_message'' mt = Inr y \<Longrightarrow> False" for mt y
    using assms(4) by (simp add: required_field_def)
  show ?thesis
    using s m by (auto simp: completion_from_stream_fields_def Let_def rbind_Inr_iff parse_completion_status_def
        required_field_def [of fs "''status''"] of_option_def split: TaskCompletionStatus.splits if_splits option.splits)
qed

text \<open>C19: a blank failure message stops the orchestrator. When a handler raises an exception with a blank
  message (the mock services accept a blank failure message), the worker publishes its completion event,
  but the consumer that reads it raises before it applies anything, the message stays unacknowledged,
  the messages after it are skipped, and the exception is not the \<open>RedisError\<close> that the loop of the
  orchestrator catches.\<close>

theorem blank_failure_stops_orchestrator:
  assumes "blank (error_message err)"
    and "completion_to_stream_fields fr (outcome_event event_id task (Inl err)) = Inr fs"
    and "xreadgroup client ORCHESTRATOR_COMPLETIONS_GROUP consumer [(WORKFLOW_TASK_COMPLETIONS_STREAM, ''>'')] 100 1000 b =
      (Inr [(stream, (message_id, fs) # rest)], b1)"
  shows "\<exists>e. completion_consume_once client env fr' fp fl u5 pol participate fresh now consumer (d, b) = (Inl e, d, b1) \<and>
    is_value_error e \<and> \<not> is_redis_error e"
proof -
  let ?ev = "outcome_event event_id task (Inl err)"
  have ev: "tc_status ?ev = TASK_FAILED" "tc_error_message ?ev = Some (error_message err)"
    by (simp_all add: outcome_event_def failure_event_def failed_event_def)
  obtain e where e: "completion_from_stream_fields fp fs = Inl e"
    using failed_decode_blank [OF assms(2) ev assms(1)] by (cases "completion_from_stream_fields fp fs") auto
  then have "is_value_error e" by (rule completion_decode_error)
  moreover from this have "\<not> is_redis_error e" by (cases e) auto
  moreover have "handle_completion_message client env fr' fp fl u5 pol participate (fresh message_id) now stream (message_id, fs) (d, b1) =
      (Inl e, d, b1)"
    by (simp add: handle_completion_message_def io_bind_def e)
  ultimately show ?thesis
    using assms(3) by (simp add: completion_consume_once_def io_bind_def consume_def io_redis_def delivered_messages_def)
qed

definition delivering_client :: "fields \<Rightarrow> nat redis_client" where
  "delivering_client fs = sample_client\<lparr>xreadgroup := (\<lambda>g c ss n t b. (Inr [(''s'', [(''5-0'', fs)])], b))\<rparr>"

theorem blank_failure_stops_orchestrator_witness:
  "\<exists>fs e. completion_to_stream_fields (p_fr sample_platform) (outcome_event 9 sample_delivered (Inl (ValueError '' ''))) = Inr fs \<and>
     completion_consume_once (delivering_client fs) Map.empty (p_fr sample_platform) (p_fp sample_platform) (p_fl sample_platform)
       (p_u5 sample_platform) (p_policy sample_platform) (\<lambda>_ _ _. io_return ()) (\<lambda>_. sample_fresh) 0 ''o1'' (empty_db, 0) =
       (Inl e, empty_db, 0) \<and> \<not> is_redis_error e"
proof -
  let ?ev = "outcome_event 9 sample_delivered (Inl (ValueError '' ''))"
  have b: "blank (error_message (ValueError '' ''))" by (simp add: blank_iff is_space_def code_def)
  obtain fs where fs: "completion_to_stream_fields (p_fr sample_platform) ?ev = Inr fs"
    by (simp add: completion_encode outcome_event_def failure_event_def failed_event_def)
  have read: "xreadgroup (delivering_client fs) ORCHESTRATOR_COMPLETIONS_GROUP ''o1'' [(WORKFLOW_TASK_COMPLETIONS_STREAM, ''>'')] 100 1000 0 =
      (Inr [(''s'', (''5-0'', fs) # [])], 0)" by (simp add: delivering_client_def)
  from blank_failure_stops_orchestrator [OF b fs read] fs show ?thesis by blast
qed

end
