(* ===== verification/Service_Guarantees.thy ===== *)
theory Service_Guarantees
  imports Effects
begin

text \<open>
  What a single service promises, for every database: the trigger happens once, a completion event is
  applied once, a submission is stored completely or not at all, and a retry is never delayed beyond
  the configured maximum.
\<close>

section \<open>Trigger\<close>

lemma trigger_refused:
  assumes "core_keys d" and "executions_t.row d e = Some ex" and "we_status ex \<noteq> WPENDING"
  shows "trigger fresh now e inp d = (Inl (WorkflowExecutionNotTriggerableError (uuid_str e) (we_status ex)), d)"
  using assms by (simp add: trigger_def run_transaction_def trigger_tx_def require_execution)

lemma trigger_pending:
  assumes "core_keys d" and "executions_t.row d e = Some ex" and "we_status ex = WPENDING"
    and "fresh \<notin> ob_event_id ` set (db_outbox d)"
  shows "\<exists>d1 ex1 row. trigger fresh now e inp d = (Inr \<lparr>td_execution_id = e, td_status = WRUNNING\<rparr>, d1) \<and>
    executions_t.row d1 = (executions_t.row d)(e \<mapsto> ex1) \<and> we_status ex1 = WRUNNING \<and> we_started_at ex1 = Some now \<and>
    we_input_data ex1 = (case inp of None \<Rightarrow> we_input_data ex | Some i \<Rightarrow> i) \<and> db_nodes d1 = db_nodes d \<and>
    db_outbox d1 = db_outbox d @ [row] \<and> ob_event_id row = fresh \<and> ob_event_type row = ''workflow.execution.triggered'' \<and>
    ob_payload row = [(PStr ''execution_id'', PStr (uuid_str e))] \<and>
    (\<forall>fresh' now' inp'. trigger fresh' now' e inp' d1 =
       (Inl (WorkflowExecutionNotTriggerableError (uuid_str e) WRUNNING), d1))"
proof -
  let ?ex1 = "ex\<lparr>we_status := WRUNNING, we_started_at := keep_or (Some now) (we_started_at ex),
     we_completed_at := keep_or None (we_completed_at ex),
     we_input_data := (case inp of None \<Rightarrow> we_input_data ex | Some i \<Rightarrow> i)\<rparr>"
  have view: "map_option snd (exec_view d e) = Some WPENDING" using assms(2,3) by (simp add: exec_view_def)
  obtain d1 where upd: "update_execution_status_if_current e WPENDING WRUNNING (Some now) None inp d =
      Inr (map_option snd (exec_view d e) = Some WPENDING, d1)"
    and 1: "core_keys d1" "db_outbox d1 = db_outbox d" "db_nodes d1 = db_nodes d"
    and row: "executions_t.row d1 = (case executions_t.row d e of
       Some r \<Rightarrow> if we_status r = WPENDING then (executions_t.row d)(e \<mapsto> r\<lparr>we_status := WRUNNING,
          we_started_at := keep_or (Some now) (we_started_at r), we_completed_at := keep_or None (we_completed_at r),
          we_input_data := (case inp of None \<Rightarrow> we_input_data r | Some i \<Rightarrow> i)\<rparr>) else executions_t.row d
     | None \<Rightarrow> executions_t.row d)"
    by (rule update_execution_effect [OF assms(1), where e = e and s = WPENDING and s' = WRUNNING and st = "Some now"
          and ct = None and inp = inp]) blast
  let ?m = "add_message fresh ''workflow.execution.triggered'' WORKFLOW_EVENTS_STREAM
       [(PStr ''execution_id'', PStr (uuid_str e))] (Some e)"
  obtain d2 where add: "?m d1 = Inr ((), d2)"
    using assms(4) 1(2) by (auto simp: add_message_def table_simps)
  have run: "trigger fresh now e inp d = (Inr \<lparr>td_execution_id = e, td_status = WRUNNING\<rparr>, d2)"
    using assms(2,3) upd view add by (simp add: trigger_def run_transaction_def trigger_tx_def require_execution [OF assms(1)])
  show ?thesis
  proof (rule add_message_effect [OF 1(1) add])
    fix q
    assume q: "db_outbox d2 = db_outbox d1 @ [q]" "ob_event_id q = fresh" "ob_event_type q = ''workflow.execution.triggered''"
      "ob_payload q = [(PStr ''execution_id'', PStr (uuid_str e))]" "core_keys d2" "sched_tables d2 = sched_tables d1"
    have rows: "executions_t.row d2 = (executions_t.row d)(e \<mapsto> ?ex1)"
      using sched_tables_view(4) [OF q(6)] row assms(2,3) by simp
    have again: "trigger fresh' now' e inp' d2 = (Inl (WorkflowExecutionNotTriggerableError (uuid_str e) WRUNNING), d2)"
      for fresh' now' inp'
      using trigger_refused [OF q(5), of e ?ex1] rows by simp
    have "db_nodes d2 = db_nodes d" using q(6) 1(3) by (simp add: sched_tables_def)
    with run rows q 1 again show ?thesis
      by (intro exI [of _ d2] exI [of _ ?ex1] exI [of _ q]) (simp add: keep_or_def)
  qed
qed

text \<open>C11: triggering a pending execution marks it running, stores the given input (or keeps the stored one)
  and posts exactly one trigger event; every further trigger is refused with the not-triggerable error
  and changes nothing.\<close>

theorem trigger_exactly_once:
  assumes "core_keys d" and "executions_t.row d e = Some ex" and "we_status ex = WPENDING"
    and "fresh \<notin> ob_event_id ` set (db_outbox d)"
  shows "\<exists>d1 ex1 row. trigger fresh now e inp d = (Inr \<lparr>td_execution_id = e, td_status = WRUNNING\<rparr>, d1) \<and>
    executions_t.row d1 = (executions_t.row d)(e \<mapsto> ex1) \<and> we_status ex1 = WRUNNING \<and> we_started_at ex1 = Some now \<and>
    we_input_data ex1 = (case inp of None \<Rightarrow> we_input_data ex | Some i \<Rightarrow> i) \<and> db_nodes d1 = db_nodes d \<and>
    db_outbox d1 = db_outbox d @ [row] \<and> ob_event_id row = fresh \<and> ob_event_type row = ''workflow.execution.triggered'' \<and>
    ob_payload row = [(PStr ''execution_id'', PStr (uuid_str e))] \<and>
    (\<forall>fresh' now' inp'. trigger fresh' now' e inp' d1 =
       (Inl (WorkflowExecutionNotTriggerableError (uuid_str e) WRUNNING), d1))"
  using assms by (rule trigger_pending)

definition pending_db :: db where
  "pending_db = empty_db\<lparr>db_executions := [new_workflow_execution 1 1 0]\<rparr>"

theorem trigger_exactly_once_witness:
  "\<exists>d1. trigger 9 5 1 None pending_db = (Inr \<lparr>td_execution_id = 1, td_status = WRUNNING\<rparr>, d1) \<and>
     trigger 10 6 1 None d1 = (Inl (WorkflowExecutionNotTriggerableError (uuid_str 1) WRUNNING), d1)"
proof -
  have "core_keys pending_db" "executions_t.row pending_db 1 = Some (new_workflow_execution 1 1 0)"
    by (simp_all add: pending_db_def core_keys_def workflows_t.unique_def executions_t.unique_def nodes_t.unique_def
        outbox_t.unique_def executions_t.row_def empty_db_def new_workflow_execution_def)
  moreover have "we_status (new_workflow_execution 1 1 0) = WPENDING" "(9 :: uuid) \<notin> ob_event_id ` set (db_outbox pending_db)"
    by (simp_all add: new_workflow_execution_def pending_db_def empty_db_def)
  ultimately show ?thesis using trigger_exactly_once [of pending_db 1 "new_workflow_execution 1 1 0" 9 5 None] by blast
qed

section \<open>Retry delay\<close>

text \<open>With a configured maximum, the delay before a retry is never longer than the maximum, whatever the
  platform's arithmetic yields; without one it is the product the policy describes. Attempt numbers below
  one are refused.\<close>

theorem delay_within_maximum:
  assumes "delay_for fl pol n = Inr delay"
  shows "1 \<le> n \<and> (case rp_max_delay_seconds pol of Some m \<Rightarrow> \<not> float_lt m delay
    | None \<Rightarrow> \<exists>factor. fl_pow fl (rp_backoff_multiplier pol) (n - 1) = Inr factor \<and>
        delay = fl_mul fl (rp_initial_delay_seconds pol) factor)"
proof -
  have irrefl: "\<not> float_lt m m" for m by (simp add: float_lt_def)
  from assms obtain factor where n: "1 \<le> n" and f: "fl_pow fl (rp_backoff_multiplier pol) (n - 1) = Inr factor"
    and d: "delay = (case rp_max_delay_seconds pol of None \<Rightarrow> fl_mul fl (rp_initial_delay_seconds pol) factor
      | Some m \<Rightarrow> if float_lt m (fl_mul fl (rp_initial_delay_seconds pol) factor) then m
          else fl_mul fl (rp_initial_delay_seconds pol) factor)"
    by (auto simp: delay_for_def rbind_Inr_iff Let_def split: if_splits)
  with irrefl show ?thesis by (auto split: option.splits)
qed

theorem delay_within_maximum_witness:
  "\<not> float_lt float_one (projr (delay_for \<lparr>fl_mul = \<lambda>x y. float_two, fl_pow = \<lambda>x n. Inr x, fl_parse = \<lambda>s. Inr 0, fl_seconds = \<lambda>x. Inr 0\<rparr>
     (default_retry_policy\<lparr>rp_max_delay_seconds := Some float_one\<rparr>) 3))"
proof -
  let ?fl = "\<lparr>fl_mul = \<lambda>x y. float_two, fl_pow = \<lambda>x n. Inr x, fl_parse = \<lambda>s. Inr 0, fl_seconds = \<lambda>x. Inr 0\<rparr>"
  let ?pol = "default_retry_policy\<lparr>rp_max_delay_seconds := Some float_one\<rparr>"
  have "delay_for ?fl ?pol 3 = Inr (if float_lt float_one float_two then float_one else float_two)"
    by (simp add: delay_for_def default_retry_policy_def)
  from delay_within_maximum [OF this] this show ?thesis by simp
qed

section \<open>Submission\<close>

text \<open>A submission either raises and leaves the database unchanged, or stores the accepted workflow with a
  pending execution and one pending node execution for each node of its graph, and nothing else.\<close>

theorem submission_all_or_nothing:
  assumes "core_keys d" and "submit validator model_validate definition e now d = (r, d')"
  shows "case r of Inl _ \<Rightarrow> d' = d
    | Inr x \<Rightarrow> \<exists>w. accept validator model_validate definition = Inr w \<and> ws_execution_id x = e \<and> ws_name x = wf_name w \<and>
        exec_view d e = None \<and> exec_view d' = (exec_view d)(e \<mapsto> (wf_workflow_id w, WPENDING)) \<and>
        dag_view d' = (dag_view d)(wf_workflow_id w \<mapsto> wf_dag w) \<and>
        node_view d' = (\<lambda>(e', i). if e' = e \<and> i \<in> graph_ids (wf_dag w) then Some PENDING else node_view d (e', i)) \<and>
        task_tables d' = task_tables d \<and> db_outbox d' = db_outbox d"
proof (cases "accept validator model_validate definition")
  case (Inl err)
  with assms(2) show ?thesis by (auto simp: submit_def)
next
  case (Inr w)
  show ?thesis
  proof (cases "submit_tx w e now d")
    case (Inl err)
    with assms(2) Inr show ?thesis by (auto simp: submit_def)
  next
    case tx: (Inr y)
    obtain u d1 where y: "y = (u, d1)" by (cases y) simp
    with assms(2) Inr tx have r: "r = Inr \<lparr>ws_execution_id = e, ws_name = wf_name w, ws_created_at = wf_created_at w\<rparr>" "d' = d1"
      by (auto simp: submit_def)
    note eff = submit_effect [OF assms(1) tx [unfolded y, folded r(2)]]
    show ?thesis unfolding r(1) sum.case
      using Inr eff by (intro exI [of _ w]) simp
  qed
qed

theorem submission_all_or_nothing_witness:
  "\<exists>d'. submit (\<lambda>_. Inr []) (\<lambda>_. Inr sample_workflow) [] 5 0 empty_db = (Inr \<lparr>ws_execution_id = 5, ws_name = ''sample'', ws_created_at = 0\<rparr>, d') \<and>
     exec_view d' 5 = Some (1, WPENDING)"
proof -
  have acc: "accept (\<lambda>_. Inr []) (\<lambda>_. Inr sample_workflow) [] = Inr sample_workflow" by (simp add: accept_def)
  have sel: "wf_name sample_workflow = ''sample''" "wf_created_at sample_workflow = 0" "wf_workflow_id sample_workflow = 1"
    by (simp_all add: sample_workflow_def)
  have "\<exists>d'. submit (\<lambda>_. Inr []) (\<lambda>_. Inr sample_workflow) [] 5 0 empty_db =
      (Inr \<lparr>ws_execution_id = 5, ws_name = ''sample'', ws_created_at = 0\<rparr>, d')"
    by (simp add: submit_def acc submit_tx_def create_workflow_def create_execution_def table_simps empty_db_def
        run_transaction_def upsert_node_execution_def upsert_row_def sel)
  then obtain d' where run: "submit (\<lambda>_. Inr []) (\<lambda>_. Inr sample_workflow) [] 5 0 empty_db =
      (Inr \<lparr>ws_execution_id = 5, ws_name = ''sample'', ws_created_at = 0\<rparr>, d')" by blast
  have "core_keys empty_db"
    by (simp add: empty_db_def core_keys_def workflows_t.unique_def executions_t.unique_def nodes_t.unique_def outbox_t.unique_def)
  from submission_all_or_nothing [OF this run] acc run show ?thesis by (auto simp: sel)
qed

section \<open>Completion\<close>

abbreviation same_tasks :: "db \<Rightarrow> db \<Rightarrow> bool" where
  "same_tasks d d' \<equiv> db_logical_tasks d' = db_logical_tasks d \<and> db_attempts d' = db_attempts d \<and> db_retries d' = db_retries d"

text \<open>The retry half of the processing, repeated for the same event.\<close>

lemma apply_retry_completed_again:
  assumes inv: "retry_inv d" and run: "apply_retry_state fl pol fresh now ev st d = Inr (dec, d0)" and same: "same_tasks d0 d1"
    and c: "tc_status ev = TASK_COMPLETED"
  shows "(logical_t.row d (tc_task_id ev) = None \<longrightarrow> dec = None \<and> apply_retry_state fl pol fresh' now' ev st' d1 = Inr (None, d1)) \<and>
    (logical_t.row d (tc_task_id ev) \<noteq> None \<longrightarrow> tc_status ev = TASK_FAILED \<or> st' \<noteq> RUNNING \<longrightarrow>
      apply_retry_state fl pol fresh' now' ev st' d1 = Inr (Some (completion_decision ev DUPLICATE []), d1))"
proof -
  let ?t = "tc_task_id ev"
  from run c obtain b where rs: "record_success ?t (tc_attempt_id ev) (tc_event_id ev) now d = Inr (b, d0)"
    and dec: "dec = (if \<not> b \<and> st \<noteq> RUNNING then Some (completion_decision ev DUPLICATE []) else None)"
    by (auto simp: apply_retry_state_def rbind_Inr_iff)
  show ?thesis
  proof (cases "logical_t.row d ?t")
    case None
    with rs have b: "b" "d0 = d" by (auto simp: record_success_def get_logical_task_eq [OF inv])
    have inv1: "retry_inv d1" using inv by (rule retry_inv_cong) (use same b(2) in simp_all)
    have "logical_t.row d1 ?t = None" using None same b(2) by (simp add: logical_t.row_def)
    then have "record_success ?t (tc_attempt_id ev) (tc_event_id ev) now' d1 = Inr (True, d1)"
      by (simp add: record_success_def get_logical_task_eq [OF inv1])
    with None b dec c show ?thesis by (simp add: apply_retry_state_def)
  next
    case (Some l)
    with record_success_again [OF inv _ rs, of d1 now'] same c show ?thesis
      by (simp add: apply_retry_state_def)
  qed
qed

lemma apply_retry_failed_again:
  assumes inv: "retry_inv d" and run: "apply_retry_state fl pol fresh now ev st d = Inr (dec, d0)" and same: "same_tasks d0 d1"
    and c: "tc_status ev = TASK_FAILED"
  shows "(logical_t.row d (tc_task_id ev) = None \<longrightarrow> dec = None \<and> apply_retry_state fl pol fresh' now' ev st' d1 = Inr (None, d1)) \<and>
    (logical_t.row d (tc_task_id ev) \<noteq> None \<longrightarrow> tc_status ev = TASK_FAILED \<or> st' \<noteq> RUNNING \<longrightarrow>
      apply_retry_state fl pol fresh' now' ev st' d1 = Inr (Some (completion_decision ev DUPLICATE []), d1))"
proof -
  let ?t = "tc_task_id ev"
  from run c obtain msg ty delay y where e: "tc_error_message ev = Some msg" "tc_error_type ev = Some ty"
    and delay: "rbind (delay_for fl pol (tc_attempt_number ev)) (fl_seconds fl) = Inr delay"
    and rf: "record_failure fresh ?t (tc_attempt_id ev) (tc_event_id ev) msg ty now (rp_max_attempts pol) (now + delay) d = Inr (y, d0)"
    and dec: "rt_outcome y = RETRY_EXHAUSTED \<longrightarrow> dec = None"
    by (auto simp: apply_retry_state_def rbind_Inr_iff split: option.splits)
  have m: "1 \<le> rp_max_attempts pol" using rf by (auto simp: record_failure_def split: if_splits)
  show ?thesis
  proof (cases "logical_t.row d ?t")
    case None
    with rf m have y: "y = decision RETRY_EXHAUSTED" "d0 = d"
      by (auto simp: record_failure_def get_logical_task_eq [OF inv])
    have inv1: "retry_inv d1" using inv by (rule retry_inv_cong) (use same y(2) in simp_all)
    have "logical_t.row d1 ?t = None" using None same y(2) by (simp add: logical_t.row_def)
    then have "record_failure fresh' ?t (tc_attempt_id ev) (tc_event_id ev) msg ty now' (rp_max_attempts pol) (now' + delay) d1 =
        Inr (decision RETRY_EXHAUSTED, d1)"
      using m by (simp add: record_failure_def get_logical_task_eq [OF inv1])
    with None y dec c e delay show ?thesis by (simp add: apply_retry_state_def decision_def)
  next
    case (Some l)
    have "record_failure fresh' ?t (tc_attempt_id ev) (tc_event_id ev) msg ty now' (rp_max_attempts pol) (now' + delay) d1 =
        Inr (decision RETRY_DUPLICATE, d1)"
      using record_failure_again [OF inv _ rf m] Some same by simp
    with Some c e delay show ?thesis by (simp add: apply_retry_state_def decision_def)
  qed
qed

lemma apply_retry_again:
  assumes inv: "retry_inv d"
    and run: "apply_retry_state fl pol fresh now ev st d = Inr (dec, d0)" and same: "same_tasks d0 d1"
  shows "logical_t.row d (tc_task_id ev) = None \<Longrightarrow>
      dec = None \<and> apply_retry_state fl pol fresh' now' ev st' d1 = Inr (None, d1)"
    and "logical_t.row d (tc_task_id ev) \<noteq> None \<Longrightarrow> tc_status ev = TASK_FAILED \<or> st' \<noteq> RUNNING \<Longrightarrow>
      apply_retry_state fl pol fresh' now' ev st' d1 = Inr (Some (completion_decision ev DUPLICATE []), d1)"
  using apply_retry_completed_again [OF assms] apply_retry_failed_again [OF assms] by (cases "tc_status ev"; blast)+

lemma complete_node_outcome:
  assumes "complete_node u5 fresh now ev ex ns n d = Inr (x, d')" and "dec_outcome x \<noteq> PROCESSED"
  shows "ne_status n \<in> {COMPLETED, FAILED}"
  using assms by (auto simp: complete_node_def after_node_transition_def Let_def rbind_Inr_iff split: if_splits)

text \<open>The state in which a processed event leaves its node.\<close>

lemma process_after:
  assumes keys: "core_keys d" and run: "process_tx fl u5 pol fresh now ev d = Inr (x, d')"
    and valid: "\<forall>w s g. exec_view d (tc_execution_id ev) = Some (w, s) \<longrightarrow> dag_view d w = Some g \<longrightarrow> valid_graph g"
  obtains status dec d0 n' where "apply_retry_state fl pol fresh now ev status d = Inr (dec, d0)" "same_tasks d0 d'"
    "core_keys d'" "executions_t.row d' (tc_execution_id ev) \<noteq> None"
    "nodes_t.row d' (tc_execution_id ev, tc_node_id ev) = Some n'"
    "dec = None \<Longrightarrow> ne_status n' \<in> {COMPLETED, FAILED}" "dec \<noteq> None \<Longrightarrow> ne_status n' = status"
proof -
  let ?e = "tc_execution_id ev" and ?i = "tc_node_id ev"
  from run obtain ex where ex: "executions_t.row d ?e = Some ex"
    by (auto simp: process_tx_def require_execution [OF keys] split: option.splits)
  note simps = process_tx_def require_execution [OF keys] ex get_nodes_eq find_node
  from run obtain n where n: "nodes_t.row d (?e, ?i) = Some n" by (auto simp: simps split: option.splits)
  from run obtain dec d0 where ar: "apply_retry_state fl pol fresh now ev (ne_status n) d = Inr (dec, d0)"
    and rest: "(case dec of Some outcome \<Rightarrow> tx_return outcome
       | None \<Rightarrow> complete_node u5 fresh now ev ex (nodes_of d ?e) n) d0 = Inr (x, d')"
    by (auto simp: simps n rbind_Inr_iff)
  have "keeps task_tables (case dec of Some outcome \<Rightarrow> tx_return outcome | None \<Rightarrow> complete_node u5 fresh now ev ex (nodes_of d ?e) n)"
    by (cases dec) (simp_all add: keeps_complete_node keeps_basic)
  from keepsD [OF this rest] have t: "same_tasks d0 d'" by (simp add: task_tables_def)
  have e': "exec_view d' ?e \<noteq> None \<and> core_keys d' \<and> (\<exists>n'. nodes_t.row d' (?e, ?i) = Some n' \<and>
      (dec = None \<longrightarrow> ne_status n' \<in> {COMPLETED, FAILED}) \<and> (dec \<noteq> None \<longrightarrow> ne_status n' = ne_status n))"
    using keys run valid
  proof (cases rule: process_cases)
    case same
    note v = sched_tables_view(4,5) [OF same(1)]
    have "dec = None \<longrightarrow> ne_status n \<in> {COMPLETED, FAILED}"
      using complete_node_outcome [of u5 fresh now ev ex "nodes_of d ?e" n d0 x d'] rest same(5) by auto
    with v ex n same(3) show ?thesis by (simp add: exec_view_def)
  next
    case (moved w s g)
    have "node_view d' (?e, ?i) = Some COMPLETED \<or> node_view d' (?e, ?i) = Some FAILED"
      unfolding moved(7) by (auto simp: completed_view_def fail_node_Some)
    moreover have "dec = None"
    proof (rule ccontr)
      assume "dec \<noteq> None"
      then obtain o1 where o1: "dec = Some o1" by blast
      with rest have "x = o1" by simp
      with apply_retry_decided(2) [OF ar [unfolded o1]] moved(9) show False by simp
    qed
    ultimately show ?thesis using moved(4,8) by (auto simp: node_view_def)
  qed
  then show thesis
    using that [OF ar t] by (auto simp: exec_view_def)
qed

text \<open>Processing an event a second time finds everything recorded.\<close>

lemma process_again:
  assumes "core_keys d" and "retry_inv d"
    and "\<forall>w s g. exec_view d (tc_execution_id ev) = Some (w, s) \<longrightarrow> dag_view d w = Some g \<longrightarrow> valid_graph g"
    and "process fl u5 pol fresh now ev d = (Inr x, d')"
  shows "process fl u5 pol fresh' now' ev d' = (Inr (completion_decision ev DUPLICATE []), d')"
proof -
  let ?e = "tc_execution_id ev" and ?i = "tc_node_id ev"
  have id: "tc_task_id ev = create_task_id u5 ?e ?i" and tx: "process_tx fl u5 pol fresh now ev d = Inr (x, d')"
    using assms(4) by (auto simp: process_def run_transaction_Inr split: if_splits)
  show ?thesis
  proof (rule process_after [OF assms(1) tx assms(3)])
    fix status dec d0 n'
    assume ar: "apply_retry_state fl pol fresh now ev status d = Inr (dec, d0)" and same: "same_tasks d0 d'"
      and keys': "core_keys d'" and ex': "executions_t.row d' ?e \<noteq> None" and n': "nodes_t.row d' (?e, ?i) = Some n'"
      and st: "dec = None \<Longrightarrow> ne_status n' \<in> {COMPLETED, FAILED}" "dec \<noteq> None \<Longrightarrow> ne_status n' = status"
    from ex' obtain ex where ex: "executions_t.row d' ?e = Some ex" by blast
    note again = apply_retry_again [OF assms(2) ar same, where fresh' = fresh' and now' = now' and st' = "ne_status n'"]
    note simps = process_tx_def require_execution [OF keys'] ex get_nodes_eq find_node n'
    show ?thesis
    proof (cases "logical_t.row d (tc_task_id ev)")
      case None
      from again(1) [OF None] have dec: "dec = None"
        and second: "apply_retry_state fl pol fresh' now' ev (ne_status n') d' = Inr (None, d')" by simp_all
      have settled: "ne_status n' \<in> {COMPLETED, FAILED}" by (rule st(1) [OF dec])
      let ?s' = "if tc_status ev = TASK_FAILED then FAILED else COMPLETED"
      let ?out = "Some (if tc_status ev = TASK_FAILED then PNone else tc_output_data ev)"
        and ?msg = "if tc_status ev = TASK_FAILED then tc_error_message ev else None"
        and ?ty = "if tc_status ev = TASK_FAILED then tc_error_type ev else None"
      have "node_view d' (?e, ?i) \<noteq> Some RUNNING" using n' settled by (auto simp: node_view_def)
      then have "update_node_status_if_current ?e ?i RUNNING ?s' ?out ?msg ?ty None (Some now') d' = Inr (False, d')"
        by (rule_tac update_node_effect [OF keys', where e = ?e and i = ?i and s = RUNNING and s' = ?s' and out = ?out
              and msg = ?msg and ty = ?ty and st = None and ct = "Some now'"]) simp
      with second settled show ?thesis
        by (simp add: process_def id run_transaction_def simps complete_node_def Let_def)
    next
      case (Some l)
      have "tc_status ev = TASK_FAILED \<or> ne_status n' \<noteq> RUNNING"
      proof (cases "tc_status ev")
        case TASK_COMPLETED
        with ar have "dec = None \<or> status \<noteq> RUNNING"
          by (auto simp: apply_retry_state_def rbind_Inr_iff split: if_splits)
        with st show ?thesis by (cases dec) auto
      qed simp
      with again(2) Some have "apply_retry_state fl pol fresh' now' ev (ne_status n') d' =
          Inr (Some (completion_decision ev DUPLICATE []), d')" by simp
      then show ?thesis by (simp add: process_def id run_transaction_def simps)
    qed
  qed
qed

end
