(* ===== verification/Api.thy ===== *)
theory Api
  imports Service_Guarantees
begin

text \<open>
  The HTTP interface: the request and response models (\<open>app/api/requests.py\<close>, \<open>app/api/responses.py\<close>) and
  the endpoints (\<open>app/api/workflows.py\<close>, \<open>app/api/main.py\<close>). Routing, the parsing of requests into their
  models and the text of a \<open>datetime\<close> (\<open>iso_time\<close>) belong to the framework; an exception that an endpoint does
  not handle is left to it. A response is a status code with its JSON body.
\<close>

section \<open>Requests\<close>

record WorkflowSubmissionRequest =
  sr_name :: string
  sr_nodes :: "WorkflowNode list"
  sr_created_by :: "string option"

definition optional :: "('a \<Rightarrow> pyval) \<Rightarrow> 'a option \<Rightarrow> pyval" where
  "optional f x = (case x of None \<Rightarrow> PNone | Some y \<Rightarrow> f y)"

text \<open>\<open>model_dump()\<close>; the creation time of a node stays a \<open>datetime\<close>.\<close>

definition node_dump :: "(datetime \<Rightarrow> string) \<Rightarrow> WorkflowNode \<Rightarrow> pyval" where
  "node_dump iso_time n = PDict
     [(PStr ''id'', PStr (wn_id n)), (PStr ''handler'', PStr (wn_handler n)),
      (PStr ''dependencies'', PList (map PStr (wn_dependencies n))), (PStr ''config'', PDict (wn_config n)),
      (PStr ''created_at'', POther ''datetime'' (iso_time (wn_created_at n))),
      (PStr ''created_by'', optional PStr (wn_created_by n))]"

definition model_dump :: "(datetime \<Rightarrow> string) \<Rightarrow> WorkflowSubmissionRequest \<Rightarrow> pydict" where
  "model_dump iso_time request =
     [(PStr ''name'', PStr (sr_name request)),
      (PStr ''dag'', PDict [(PStr ''nodes'', PList (map (node_dump iso_time) (sr_nodes request)))]),
      (PStr ''created_by'', optional PStr (sr_created_by request))]"

section \<open>Responses\<close>

record http_response =
  http_status :: int
  http_body :: pyval

text \<open>\<open>str.upper\<close> on the status values, which are ASCII.\<close>

definition upper_char :: "char \<Rightarrow> char" where
  "upper_char c = (if code c \<in> {97..122} then char_of (code c - 32) else c)"

definition serialize_status :: "string \<Rightarrow> string" where
  "serialize_status s = map upper_char s"

definition time_or_null :: "(datetime \<Rightarrow> string) \<Rightarrow> datetime option \<Rightarrow> pyval" where
  "time_or_null iso_time t = optional (\<lambda>x. PStr (iso_time x)) t"

definition WorkflowSubmissionResponse :: "(datetime \<Rightarrow> string) \<Rightarrow> WorkflowSubmission \<Rightarrow> pyval" where
  "WorkflowSubmissionResponse iso_time s = PDict
     [(PStr ''execution_id'', PStr (uuid_str (ws_execution_id s))), (PStr ''name'', PStr (ws_name s)),
      (PStr ''created_at'', PStr (iso_time (ws_created_at s)))]"

definition ValidationErrorItemResponse :: "WorkflowValidationError \<Rightarrow> pyval" where
  "ValidationErrorItemResponse e = PDict
     [(PStr ''code'', PStr (err_code e)), (PStr ''message'', PStr (err_message e)), (PStr ''path'', PStr (err_path e)),
      (PStr ''node_id'', optional PStr (err_node_id e)), (PStr ''dependency_id'', optional PStr (err_dependency_id e)),
      (PStr ''meta'', PDict (map (\<lambda>(k, v). (PStr k, PStr v)) (err_meta e)))]"

definition ValidationErrorResponse :: "WorkflowValidationError list \<Rightarrow> pyval" where
  "ValidationErrorResponse errors = PDict
     [(PStr ''error_code'', PStr ''workflow_validation_failed''),
      (PStr ''message'', PStr ''Workflow definition failed validation.''),
      (PStr ''errors'', PList (map ValidationErrorItemResponse errors))]"

definition PersistenceErrorResponse :: "string \<Rightarrow> string \<Rightarrow> pyval" where
  "PersistenceErrorResponse error_code message =
     PDict [(PStr ''error_code'', PStr error_code), (PStr ''message'', PStr message)]"

definition NodeExecutionStatusResponseItem :: "(datetime \<Rightarrow> string) \<Rightarrow> NodeExecution \<Rightarrow> pyval" where
  "NodeExecutionStatusResponseItem iso_time n = PDict
     [(PStr ''node_id'', PStr (ne_node_id n)), (PStr ''status'', PStr (serialize_status (node_status_value (ne_status n)))),
      (PStr ''created_at'', PStr (iso_time (ne_created_at n))), (PStr ''started_at'', time_or_null iso_time (ne_started_at n)),
      (PStr ''completed_at'', time_or_null iso_time (ne_completed_at n))]"

text \<open>The members that the status and the results of an execution share.\<close>

definition execution_members :: "(datetime \<Rightarrow> string) \<Rightarrow> WorkflowExecution \<Rightarrow> pydict" where
  "execution_members iso_time e =
     [(PStr ''execution_id'', PStr (uuid_str (we_execution_id e))),
      (PStr ''workflow_id'', PStr (uuid_str (we_workflow_id e))),
      (PStr ''status'', PStr (serialize_status (workflow_status_value (we_status e)))),
      (PStr ''created_at'', PStr (iso_time (we_created_at e))), (PStr ''started_at'', time_or_null iso_time (we_started_at e)),
      (PStr ''completed_at'', time_or_null iso_time (we_completed_at e))]"

definition WorkflowExecutionStatusResponsePayload :: "(datetime \<Rightarrow> string) \<Rightarrow> ExecutionStatus \<Rightarrow> pyval" where
  "WorkflowExecutionStatusResponsePayload iso_time s = PDict
     (execution_members iso_time (es_execution s) @
      [(PStr ''nodes'', PList (map (NodeExecutionStatusResponseItem iso_time) (es_node_executions s)))])"

text \<open>The one model whose status has no serializer: the value of the enumeration is sent as it is.\<close>

definition WorkflowTriggerResponse :: "WorkflowTriggerDecision \<Rightarrow> pyval" where
  "WorkflowTriggerResponse t = PDict
     [(PStr ''execution_id'', PStr (uuid_str (td_execution_id t))),
      (PStr ''status'', PStr (workflow_status_value (td_status t)))]"

definition WorkflowResultNodeResponseItem :: "(datetime \<Rightarrow> string) \<Rightarrow> WorkflowNodeResult \<Rightarrow> pyval" where
  "WorkflowResultNodeResponseItem iso_time r = PDict
     [(PStr ''node_id'', PStr (nres_node_id r)), (PStr ''status'', PStr (serialize_status (node_status_value (nres_status r)))),
      (PStr ''output_data'', nres_output_data r), (PStr ''error_message'', optional PStr (nres_error_message r)),
      (PStr ''error_type'', optional PStr (nres_error_type r)), (PStr ''created_at'', PStr (iso_time (nres_created_at r))),
      (PStr ''started_at'', time_or_null iso_time (nres_started_at r)), (PStr ''completed_at'', time_or_null iso_time (nres_completed_at r))]"

definition WorkflowExecutionResultsResponsePayload :: "(datetime \<Rightarrow> string) \<Rightarrow> WorkflowExecutionResults \<Rightarrow> pyval" where
  "WorkflowExecutionResultsResponsePayload iso_time r = PDict
     (execution_members iso_time (res_execution r) @
      [(PStr ''message'', optional PStr (res_message r)),
       (PStr ''results'', optional (\<lambda>rs. PList (map (WorkflowResultNodeResponseItem iso_time) rs)) (res_results r))])"

text \<open>\<open>HTTPException(404, "Workflow execution not found.")\<close> as the framework renders it.\<close>

definition not_found :: http_response where
  "not_found = \<lparr>http_status = 404, http_body = PDict [(PStr ''detail'', PStr ''Workflow execution not found.'')]\<rparr>"

section \<open>Endpoints\<close>

definition submit_workflow ::
    "rule \<Rightarrow> (pydict \<Rightarrow> error + Workflow) \<Rightarrow> (datetime \<Rightarrow> string) \<Rightarrow> WorkflowSubmissionRequest \<Rightarrow> uuid \<Rightarrow> datetime \<Rightarrow> db \<Rightarrow>
     (error + http_response) \<times> db" where
  "submit_workflow validator model_validate iso_time request execution_id now d =
     (case submit validator model_validate (model_dump iso_time request) execution_id now d of
        (Inl (InvalidWorkflowDefinitionError errors), d') \<Rightarrow>
          (Inr \<lparr>http_status = 422, http_body = ValidationErrorResponse errors\<rparr>, d')
      | (Inl (WorkflowPersistenceError _), d') \<Rightarrow>
          (Inr \<lparr>http_status = 503, http_body = PersistenceErrorResponse ''workflow_persistence_failed''
             ''Workflow could not be persisted. Please try again later.''\<rparr>, d')
      | (Inl error, d') \<Rightarrow> (Inl error, d')
      | (Inr submission, d') \<Rightarrow>
          (Inr \<lparr>http_status = 201, http_body = WorkflowSubmissionResponse iso_time submission\<rparr>, d'))"

definition get_workflow_execution_results :: "(datetime \<Rightarrow> string) \<Rightarrow> uuid \<Rightarrow> db \<Rightarrow> (error + http_response) \<times> db" where
  "get_workflow_execution_results iso_time execution_id d =
     (case get_results execution_id d of
        (Inl error, d') \<Rightarrow> (Inl error, d')
      | (Inr None, d') \<Rightarrow> (Inr not_found, d')
      | (Inr (Some result), d') \<Rightarrow>
          (Inr \<lparr>http_status = 200, http_body = WorkflowExecutionResultsResponsePayload iso_time result\<rparr>, d'))"

definition get_workflow_execution :: "(datetime \<Rightarrow> string) \<Rightarrow> uuid \<Rightarrow> db \<Rightarrow> (error + http_response) \<times> db" where
  "get_workflow_execution iso_time execution_id d =
     (case get_status execution_id d of
        (Inl error, d') \<Rightarrow> (Inl error, d')
      | (Inr None, d') \<Rightarrow> (Inr not_found, d')
      | (Inr (Some result), d') \<Rightarrow>
          (Inr \<lparr>http_status = 200, http_body = WorkflowExecutionStatusResponsePayload iso_time result\<rparr>, d'))"

text \<open>The request body is optional; its \<open>input\<close> is the argument.\<close>

definition trigger_workflow_execution ::
    "uuid \<Rightarrow> datetime \<Rightarrow> uuid \<Rightarrow> pydict option \<Rightarrow> db \<Rightarrow> (error + http_response) \<times> db" where
  "trigger_workflow_execution fresh_id now execution_id input d =
     (case trigger fresh_id now execution_id input d of
        (Inl (WorkflowExecutionNotFoundError _), d') \<Rightarrow>
          (Inr \<lparr>http_status = 404, http_body = PersistenceErrorResponse ''workflow_execution_not_found''
             ''Workflow execution was not found.''\<rparr>, d')
      | (Inl (WorkflowExecutionNotTriggerableError _ _), d') \<Rightarrow>
          (Inr \<lparr>http_status = 422, http_body = PersistenceErrorResponse ''workflow_execution_not_triggerable''
             ''Workflow execution cannot be triggered from its current state.''\<rparr>, d')
      | (Inl (WorkflowPersistenceError _), d') \<Rightarrow>
          (Inr \<lparr>http_status = 503, http_body = PersistenceErrorResponse ''workflow_trigger_persistence_failed''
             ''Workflow trigger could not be accepted. Please try again later.''\<rparr>, d')
      | (Inl error, d') \<Rightarrow> (Inl error, d')
      | (Inr decided, d') \<Rightarrow> (Inr \<lparr>http_status = 202, http_body = WorkflowTriggerResponse decided\<rparr>, d'))"

text \<open>\<open>_application_version\<close> on the manifest that was read from \<open>manifest_path\<close>.\<close>

definition application_version :: "string \<Rightarrow> pyval \<Rightarrow> error + string" where
  "application_version manifest_path manifest =
     (let version_value = (case manifest of PDict d \<Rightarrow> dict_get d ''.'' | _ \<Rightarrow> PNone) in
      case version_value of
        PStr v \<Rightarrow> Inr v
      | _ \<Rightarrow> Inl (RuntimeError (''Invalid release-please manifest: '' @ manifest_path)))"

definition root_endpoint :: http_response where
  "root_endpoint = \<lparr>http_status = 200, http_body = PDict [(PStr ''status'', PStr ''ok'')]\<rparr>"

definition health_endpoint :: http_response where
  "health_endpoint = \<lparr>http_status = 200, http_body = PDict [(PStr ''status'', PStr ''healthy'')]\<rparr>"

section \<open>What the status codes tell\<close>

text \<open>C22: the answers to a trigger request. An unknown execution is answered 404 and one that is not pending
  422, both without any change; a pending one is answered 202, with its status in lower case, and is from
  then on running with its trigger event posted.\<close>

theorem trigger_endpoint_answers:
  assumes "core_keys d" and "fresh \<notin> ob_event_id ` set (db_outbox d)"
    and "trigger_workflow_execution fresh now e inp d = (r, d')"
  shows "case executions_t.row d e of
      None \<Rightarrow> d' = d \<and> (\<exists>body. r = Inr \<lparr>http_status = 404, http_body = body\<rparr>)
    | Some ex \<Rightarrow>
        if we_status ex \<noteq> WPENDING then d' = d \<and> (\<exists>body. r = Inr \<lparr>http_status = 422, http_body = body\<rparr>)
        else r = Inr \<lparr>http_status = 202, http_body = PDict [(PStr ''execution_id'', PStr (uuid_str e)),
               (PStr ''status'', PStr ''running'')]\<rparr> \<and>
          (\<exists>ex' row. executions_t.row d' = (executions_t.row d)(e \<mapsto> ex') \<and> we_status ex' = WRUNNING \<and>
             db_outbox d' = db_outbox d @ [row] \<and> ob_event_type row = ''workflow.execution.triggered'')"
proof (cases "executions_t.row d e")
  case None
  then have "trigger fresh now e inp d = (Inl (execution_not_found e), d)"
    by (simp add: trigger_def run_transaction_def trigger_tx_def require_execution [OF assms(1)])
  with None assms(3) show ?thesis by (auto simp: trigger_workflow_execution_def execution_not_found_def)
next
  case (Some ex)
  show ?thesis
  proof (cases "we_status ex = WPENDING")
    case True
    obtain d1 ex1 row where "trigger fresh now e inp d = (Inr \<lparr>td_execution_id = e, td_status = WRUNNING\<rparr>, d1)"
      "executions_t.row d1 = (executions_t.row d)(e \<mapsto> ex1)" "we_status ex1 = WRUNNING"
      "db_outbox d1 = db_outbox d @ [row]" "ob_event_type row = ''workflow.execution.triggered''"
      using trigger_pending [OF assms(1) Some True assms(2), of now inp] by blast
    with Some True assms(3) show ?thesis
      by (auto simp: trigger_workflow_execution_def WorkflowTriggerResponse_def)
  next
    case False
    with Some assms(3) trigger_refused [OF assms(1) Some False, of fresh now inp] show ?thesis
      by (auto simp: trigger_workflow_execution_def)
  qed
qed

theorem trigger_endpoint_answers_witness:
  "\<exists>r d'. trigger_workflow_execution 9 5 1 None pending_db = (r, d') \<and>
     r = Inr \<lparr>http_status = 202, http_body = PDict [(PStr ''execution_id'', PStr (uuid_str 1)), (PStr ''status'', PStr ''running'')]\<rparr>"
proof -
  obtain r d' where run: "trigger_workflow_execution 9 5 1 None pending_db = (r, d')"
    by (cases "trigger_workflow_execution 9 5 1 None pending_db")
  have keys: "core_keys pending_db" and row: "executions_t.row pending_db 1 = Some (new_workflow_execution 1 1 0)"
    by (simp_all add: pending_db_def core_keys_def workflows_t.unique_def executions_t.unique_def nodes_t.unique_def
        outbox_t.unique_def executions_t.row_def empty_db_def new_workflow_execution_def)
  have "(9 :: uuid) \<notin> ob_event_id ` set (db_outbox pending_db)" by (simp add: pending_db_def empty_db_def)
  from trigger_endpoint_answers [OF keys this run] row run show ?thesis by (simp add: new_workflow_execution_def)
qed

lemma submit_tx_error:
  assumes "submit_tx w e now d = Inl err"
  shows "err = integrity_error"
proof -
  have "\<exists>d'. tx_each (\<lambda>node. tx_bind (upsert_node_execution (new_node_execution e (wn_id node) now)) (\<lambda>_. tx_return ())) ns d =
      Inr ((), d')" for ns d
    by (induction ns arbitrary: d) (auto simp: upsert_node_execution_def upsert_row_def)
  then have "tx_each (\<lambda>node. tx_bind (upsert_node_execution (new_node_execution e (wn_id node) now)) (\<lambda>_. tx_return ())) ns d \<noteq> Inl err"
    for ns d by (metis Inl_Inr_False)
  with assms show ?thesis
    by (auto simp: submit_tx_def create_workflow_def create_execution_def table_simps rbind_Inl_iff split: if_splits)
qed

text \<open>C23: the answers to a submission. 201 means that the definition was accepted and that the workflow, its
  pending execution and one pending row per node are stored; 422 means that the rules reported exactly the
  errors of the body; every answer but 201, and every exception, leaves the database as it was.\<close>

theorem submission_endpoint_answers:
  assumes "core_keys d" and "submit_workflow validator model_validate iso_time request e now d = (r, d')"
  shows "case r of
      Inl err \<Rightarrow> d' = d
    | Inr response \<Rightarrow>
        (http_status response = 201 \<and>
          (\<exists>w. accept validator model_validate (model_dump iso_time request) = Inr w \<and>
             exec_view d' = (exec_view d)(e \<mapsto> (wf_workflow_id w, WPENDING)) \<and>
             dag_view d' = (dag_view d)(wf_workflow_id w \<mapsto> wf_dag w) \<and>
             node_view d' = (\<lambda>(e', i). if e' = e \<and> i \<in> graph_ids (wf_dag w) then Some PENDING else node_view d (e', i)))) \<or>
        (d' = d \<and> http_status response = 422 \<and>
          (\<exists>errors. accept validator model_validate (model_dump iso_time request) = Inl (InvalidWorkflowDefinitionError errors) \<and>
             http_body response = ValidationErrorResponse errors)) \<or>
        (d' = d \<and> http_status response = 503)"
proof (cases "accept validator model_validate (model_dump iso_time request)")
  case (Inl err)
  then have "submit validator model_validate (model_dump iso_time request) e now d = (Inl err, d)" by (simp add: submit_def)
  with assms(2) Inl show ?thesis by (cases err) (auto simp: submit_workflow_def)
next
  case (Inr w)
  show ?thesis
  proof (cases "submit_tx w e now d")
    case (Inl err)
    with submit_tx_error [OF Inl] Inr
    have "submit validator model_validate (model_dump iso_time request) e now d = (Inl integrity_error, d)"
      by (simp add: submit_def)
    with assms(2) show ?thesis by (auto simp: submit_workflow_def integrity_error_def)
  next
    case tx: (Inr y)
    obtain u d1 where y: "y = (u, d1)" by (cases y)
    with tx Inr have "submit validator model_validate (model_dump iso_time request) e now d =
        (Inr \<lparr>ws_execution_id = e, ws_name = wf_name w, ws_created_at = wf_created_at w\<rparr>, d1)" by (simp add: submit_def)
    with assms(2) have r: "r = Inr \<lparr>http_status = 201, http_body = WorkflowSubmissionResponse iso_time
        \<lparr>ws_execution_id = e, ws_name = wf_name w, ws_created_at = wf_created_at w\<rparr>\<rparr>" "d' = d1"
      by (auto simp: submit_workflow_def)
    show ?thesis
      unfolding r(1) sum.case using Inr submit_effect(6-8) [OF assms(1) tx [unfolded y, folded r(2)]] by simp
  qed
qed

definition sample_request :: WorkflowSubmissionRequest where
  "sample_request = \<lparr>sr_name = ''sample'', sr_nodes = [], sr_created_by = None\<rparr>"

theorem submission_endpoint_answers_witness:
  "\<exists>response. submit_workflow (\<lambda>_. Inr [\<lparr>err_code = ''missing_nodes'', err_message = ''m'', err_path = ''dag.nodes'',
         err_node_id = None, err_dependency_id = None, err_meta = []\<rparr>]) (\<lambda>_. Inr sample_workflow) (\<lambda>_. ''t'') sample_request 5 0 empty_db =
       (Inr response, empty_db) \<and> http_status response = 422"
proof -
  let ?rules = "\<lambda>_. Inr [\<lparr>err_code = ''missing_nodes'', err_message = ''m'', err_path = ''dag.nodes'',
         err_node_id = None, err_dependency_id = None, err_meta = []\<rparr>] :: error + WorkflowValidationError list"
  let ?errors = "[\<lparr>err_code = ''missing_nodes'', err_message = ''m'', err_path = ''dag.nodes'',
         err_node_id = None, err_dependency_id = None, err_meta = []\<rparr>]"
  have run: "submit_workflow ?rules (\<lambda>_. Inr sample_workflow) (\<lambda>_. ''t'') sample_request 5 0 empty_db =
      (Inr \<lparr>http_status = 422, http_body = ValidationErrorResponse ?errors\<rparr>, empty_db)"
    by (simp add: submit_workflow_def submit_def accept_def)
  have keys: "core_keys empty_db"
    by (simp add: empty_db_def core_keys_def workflows_t.unique_def executions_t.unique_def nodes_t.unique_def outbox_t.unique_def)
  from submission_endpoint_answers [OF keys run] run show ?thesis by auto
qed

text \<open>C24: reading is only reading. The status and the results endpoint never change the database, answer 404
  exactly for an unknown execution, and otherwise 200 with the stored status in upper case; the results
  are null unless the execution is completed.\<close>

theorem read_endpoints_answer:
  assumes "core_keys d"
  shows "get_workflow_execution iso_time e d = (case executions_t.row d e of
      None \<Rightarrow> (Inr not_found, d)
    | Some ex \<Rightarrow> (Inr \<lparr>http_status = 200, http_body = WorkflowExecutionStatusResponsePayload iso_time
        \<lparr>es_execution = ex, es_node_executions = nodes_of d e\<rparr>\<rparr>, d)) \<and>
    (case executions_t.row d e of
      None \<Rightarrow> get_workflow_execution_results iso_time e d = (Inr not_found, d)
    | Some ex \<Rightarrow> \<exists>message results. get_workflow_execution_results iso_time e d =
        (Inr \<lparr>http_status = 200, http_body = PDict
          ([(PStr ''execution_id'', PStr (uuid_str e)), (PStr ''workflow_id'', PStr (uuid_str (we_workflow_id ex))),
            (PStr ''status'', PStr (case we_status ex of WPENDING \<Rightarrow> ''PENDING'' | WRUNNING \<Rightarrow> ''RUNNING''
                | WCOMPLETED \<Rightarrow> ''COMPLETED'' | WFAILED \<Rightarrow> ''FAILED'')),
            (PStr ''created_at'', PStr (iso_time (we_created_at ex))), (PStr ''started_at'', time_or_null iso_time (we_started_at ex)),
            (PStr ''completed_at'', time_or_null iso_time (we_completed_at ex)), (PStr ''message'', message), (PStr ''results'', results)])\<rparr>, d) \<and>
        (we_status ex \<noteq> WCOMPLETED \<longrightarrow> results = PNone))"
proof -
  have s: "get_status e d = (Inr (map_option (\<lambda>ex. \<lparr>es_execution = ex, es_node_executions = nodes_of d e\<rparr>) (executions_t.row d e)), d)"
    by (cases "executions_t.row d e") (simp_all add: get_status_def run_transaction_def get_execution_eq [OF assms] get_nodes_eq)
  have status: "serialize_status (workflow_status_value st) = (case st of WPENDING \<Rightarrow> ''PENDING'' | WRUNNING \<Rightarrow> ''RUNNING''
      | WCOMPLETED \<Rightarrow> ''COMPLETED'' | WFAILED \<Rightarrow> ''FAILED'')" for st
    by (cases st; simp; code_simp)
  show ?thesis
  proof (cases "executions_t.row d e")
    case None
    with s show ?thesis
      by (simp add: get_workflow_execution_def get_workflow_execution_results_def get_results_def)
  next
    case (Some ex)
    then have id: "we_execution_id ex = e" by (rule executions_t.row_key)
    have "res_execution (results_of \<lparr>es_execution = ex, es_node_executions = ns\<rparr>) = ex"
      "we_status ex \<noteq> WCOMPLETED \<Longrightarrow> res_results (results_of \<lparr>es_execution = ex, es_node_executions = ns\<rparr>) = None" for ns
      by (cases "we_status ex"; simp add: results_of_def withheld_def)+
    with Some s id status show ?thesis
      by (auto simp: get_workflow_execution_def get_workflow_execution_results_def get_results_def
          WorkflowExecutionResultsResponsePayload_def execution_members_def optional_def)
  qed
qed

theorem read_endpoints_answer_witness:
  "get_workflow_execution (\<lambda>_. ''t'') 2 pending_db = (Inr not_found, pending_db)"
proof -
  have keys: "core_keys pending_db" and row: "executions_t.row pending_db 2 = None"
    by (simp_all add: pending_db_def core_keys_def workflows_t.unique_def executions_t.unique_def nodes_t.unique_def
        outbox_t.unique_def executions_t.row_def empty_db_def new_workflow_execution_def)
  from read_endpoints_answer [OF keys, of "\<lambda>_. ''t''" 2] row show ?thesis by simp
qed

end
