(* ===== verification/Simulation.thy ===== *)
theory Simulation
  imports Delivery Api
begin

text \<open>
  The processes take only steps of the engine. A program of the orchestrator or of a worker is simulated when
  each of its runs, whatever Redis answers and wherever it stops with an exception, leads from an engine state
  to an engine state by engine steps. The rules below follow the structure of programs; the results are that
  the rounds of the orchestrator and the processing of a message by a worker are simulated, so that what is
  proved of reachable engine states holds of the states the processes leave behind.
\<close>

section \<open>Simulated programs\<close>

definition event_entries :: "'b platform \<Rightarrow> 'b \<Rightarrow> fields set" where
  "event_entries P b = {fs. (WORKFLOW_EVENTS_STREAM, fs) \<in> p_log P b}"

text \<open>What is never taken back while a process runs.\<close>

definition grows :: "'b platform \<Rightarrow> 'b engine \<Rightarrow> 'b engine \<Rightarrow> bool" where
  "grows P s s' \<longleftrightarrow> event_entries P (eng_broker s) \<subseteq> event_entries P (eng_broker s') \<and>
     eng_ready s \<subseteq> eng_ready s' \<and> eng_calls s \<subseteq> eng_calls s'"

definition engine_run :: "'b platform \<Rightarrow> 'b engine \<Rightarrow> 'b engine \<Rightarrow> bool" where
  "engine_run P s s' \<longleftrightarrow> (engine_step P)\<^sup>*\<^sup>* s s' \<and> grows P s s'"

lemma engine_run_refl [simp]: "engine_run P s s"
  by (simp add: engine_run_def grows_def)

lemma engine_run_trans: "engine_run P s s1 \<Longrightarrow> engine_run P s1 s2 \<Longrightarrow> engine_run P s s2"
  unfolding engine_run_def grows_def by (blast intro: rtranclp_trans)

lemma engine_run_step: "engine_step P s s' \<Longrightarrow> grows P s s' \<Longrightarrow> engine_run P s s'"
  by (simp add: engine_run_def r_into_rtranclp)

definition stable :: "'b platform \<Rightarrow> ('b engine \<Rightarrow> bool) \<Rightarrow> bool" where
  "stable P I \<longleftrightarrow> (\<forall>s s'. I s \<longrightarrow> engine_run P s s' \<longrightarrow> I s')"

definition simulated ::
    "'b platform \<Rightarrow> ('b engine \<Rightarrow> bool) \<Rightarrow> ('b, 'a) io \<Rightarrow> ('a \<Rightarrow> 'b engine \<Rightarrow> bool) \<Rightarrow> bool" where
  "simulated P pre m post \<longleftrightarrow> (\<forall>s r d' b'. pre s \<longrightarrow> m (eng_db s, eng_broker s) = (r, d', b') \<longrightarrow>
     (\<exists>s'. engine_run P s s' \<and> eng_db s' = d' \<and> eng_broker s' = b' \<and> (\<forall>x. r = Inr x \<longrightarrow> post x s')))"

abbreviation harmless :: "'b platform \<Rightarrow> ('b, 'a) io \<Rightarrow> bool" where
  "harmless P m \<equiv> simulated P (\<lambda>_. True) m (\<lambda>_ _. True)"

lemma simulatedI:
  assumes "\<And>s r d' b'. pre s \<Longrightarrow> m (eng_db s, eng_broker s) = (r, d', b') \<Longrightarrow>
    \<exists>s'. engine_run P s s' \<and> eng_db s' = d' \<and> eng_broker s' = b' \<and> (\<forall>x. r = Inr x \<longrightarrow> post x s')"
  shows "simulated P pre m post"
  using assms unfolding simulated_def by blast

lemma simulatedE:
  assumes "simulated P pre m post" and "pre s" and "m (eng_db s, eng_broker s) = (r, d', b')"
  obtains s' where "engine_run P s s'" "eng_db s' = d'" "eng_broker s' = b'" "\<forall>x. r = Inr x \<longrightarrow> post x s'"
proof -
  have "\<exists>s'. engine_run P s s' \<and> eng_db s' = d' \<and> eng_broker s' = b' \<and> (\<forall>x. r = Inr x \<longrightarrow> post x s')"
    using assms(1) [unfolded simulated_def, rule_format, OF assms(2,3)] by simp
  with that show thesis by blast
qed

lemma simulated_weaken:
  "simulated P pre m post \<Longrightarrow> (\<And>s. pre' s \<Longrightarrow> pre s) \<Longrightarrow> (\<And>x s. post x s \<Longrightarrow> post' x s) \<Longrightarrow> simulated P pre' m post'"
  unfolding simulated_def by meson

lemma simulated_basic:
  "(\<And>s. pre s \<Longrightarrow> post x s) \<Longrightarrow> simulated P pre (io_return x) post"
  "simulated P pre (io_raise e) post'"
  "(\<And>y s. r = Inr y \<Longrightarrow> pre s \<Longrightarrow> post y s) \<Longrightarrow> simulated P pre (io_lift r) post"
  by (auto intro!: simulatedI exI [where P = "\<lambda>s'. engine_run P s s' \<and> Q s'" for s Q])

lemma simulated_bind:
  assumes m: "simulated P pre m mid" and f: "\<And>x. simulated P (mid x) (f x) post"
  shows "simulated P pre (io_bind m f) post"
proof (rule simulatedI)
  fix s r d' b' assume s: "pre s" and run: "io_bind m f (eng_db s, eng_broker s) = (r, d', b')"
  obtain r1 d1 b1 where m1: "m (eng_db s, eng_broker s) = (r1, d1, b1)" by (cases "m (eng_db s, eng_broker s)") auto
  obtain s1 where s1: "engine_run P s s1" "eng_db s1 = d1" "eng_broker s1 = b1" "\<forall>x. r1 = Inr x \<longrightarrow> mid x s1"
    by (rule simulatedE [OF m s m1])
  show "\<exists>s'. engine_run P s s' \<and> eng_db s' = d' \<and> eng_broker s' = b' \<and> (\<forall>x. r = Inr x \<longrightarrow> post x s')"
  proof (cases r1)
    case (Inl e)
    with run m1 s1 show ?thesis by (auto simp: io_bind_def)
  next
    case (Inr x)
    with run m1 s1 have "f x (eng_db s1, eng_broker s1) = (r, d', b')" by (simp add: io_bind_def)
    then obtain s' where "engine_run P s1 s'" "eng_db s' = d'" "eng_broker s' = b'" "\<forall>y. r = Inr y \<longrightarrow> post y s'"
      by (rule simulatedE [OF f [of x] s1(4) [rule_format, OF Inr]])
    with engine_run_trans [OF s1(1)] show ?thesis by blast
  qed
qed

lemma simulated_catch:
  assumes m: "simulated P pre m post" and h: "\<And>e. simulated P (\<lambda>_. True) (h e) post"
  shows "simulated P pre (io_catch m p h) post"
proof (rule simulatedI)
  fix s r d' b' assume s: "pre s" and run: "io_catch m p h (eng_db s, eng_broker s) = (r, d', b')"
  obtain r1 d1 b1 where m1: "m (eng_db s, eng_broker s) = (r1, d1, b1)" by (cases "m (eng_db s, eng_broker s)") auto
  obtain s1 where s1: "engine_run P s s1" "eng_db s1 = d1" "eng_broker s1 = b1" "\<forall>x. r1 = Inr x \<longrightarrow> post x s1"
    by (rule simulatedE [OF m s m1])
  show "\<exists>s'. engine_run P s s' \<and> eng_db s' = d' \<and> eng_broker s' = b' \<and> (\<forall>x. r = Inr x \<longrightarrow> post x s')"
  proof (cases "\<exists>e. r1 = Inl e \<and> p e")
    case True
    then obtain e where "r1 = Inl e" "p e" by blast
    with run m1 s1 have "h e (eng_db s1, eng_broker s1) = (r, d', b')" by (simp add: io_catch_def)
    then obtain s' where "engine_run P s1 s'" "eng_db s' = d'" "eng_broker s' = b'" "\<forall>y. r = Inr y \<longrightarrow> post y s'"
      by (rule simulatedE [OF h TrueI])
    with engine_run_trans [OF s1(1)] show ?thesis by blast
  next
    case False
    with run m1 have "r = r1" "d' = d1" "b' = b1" by (auto simp: io_catch_def split: sum.splits if_splits)
    with s1 show ?thesis by blast
  qed
qed

lemma simulated_each:
  assumes "stable P I" and "\<And>x. x \<in> set xs \<Longrightarrow> simulated P I (f x) (\<lambda>_ _. True)"
  shows "simulated P I (io_each f xs) (\<lambda>_ _. True)"
  using assms(2)
proof (induction xs)
  case Nil
  show ?case unfolding io_each.simps by (rule simulated_basic) simp
next
  case (Cons x xs)
  have "simulated P I (f x) (\<lambda>_. I)"
    unfolding simulated_def
  proof (intro allI impI)
    fix s r d' b' assume s: "I s" "f x (eng_db s, eng_broker s) = (r, d', b')"
    obtain s' where "engine_run P s s'" "eng_db s' = d'" "eng_broker s' = b'"
      by (rule simulatedE [OF Cons.prems [OF list.set_intros(1)] s])
    with s(1) assms(1) show "\<exists>s'. engine_run P s s' \<and> eng_db s' = d' \<and> eng_broker s' = b' \<and> (\<forall>y. r = Inr y \<longrightarrow> I s')"
      unfolding stable_def by blast
  qed
  with Cons show ?case unfolding io_each.simps by (intro simulated_bind) auto
qed

section \<open>Calls of the services and of Redis\<close>

lemma simulated_skip:
  assumes "\<And>s r d' b'. pre s \<Longrightarrow> m (eng_db s, eng_broker s) = (r, d', b') \<Longrightarrow>
    d' = eng_db s \<and> event_entries P b' = event_entries P (eng_broker s) \<and> (\<forall>x s'. r = Inr x \<longrightarrow> grows P s s' \<longrightarrow> post x s')"
  shows "simulated P pre m post"
proof (rule simulatedI)
  fix s r d' b' assume "pre s" "m (eng_db s, eng_broker s) = (r, d', b')"
  note a = assms [OF this]
  let ?s = "s\<lparr>eng_broker := b'\<rparr>"
  have "engine_step P s ?s" by (rule eng_redis) (use a in \<open>auto simp: event_entries_def\<close>)
  moreover have "grows P s ?s" using a by (simp add: grows_def)
  ultimately have "engine_run P s ?s" by (rule engine_run_step)
  then show "\<exists>s'. engine_run P s s' \<and> eng_db s' = d' \<and> eng_broker s' = b' \<and> (\<forall>x. r = Inr x \<longrightarrow> post x s')"
    using a \<open>grows P s ?s\<close> by (intro exI [of _ ?s]) simp
qed

lemma simulated_db:
  assumes "\<And>s r d'. pre s \<Longrightarrow> f (eng_db s) = (r, d') \<Longrightarrow>
    \<exists>s'. engine_run P s s' \<and> eng_db s' = d' \<and> eng_broker s' = eng_broker s \<and> (\<forall>x. r = Inr x \<longrightarrow> post x s')"
  shows "simulated P pre (io_db f) post"
proof (rule simulatedI)
  fix s r d' b' assume s: "pre s" and run: "io_db f (eng_db s, eng_broker s) = (r, d', b')"
  then have f: "f (eng_db s) = (r, d')" and b: "b' = eng_broker s" by (auto simp: io_db_def split: prod.splits)
  from assms [OF s f] show "\<exists>s'. engine_run P s s' \<and> eng_db s' = d' \<and> eng_broker s' = b' \<and> (\<forall>x. r = Inr x \<longrightarrow> post x s')"
    unfolding b .
qed

text \<open>A transaction that is one step of the engine, and one that changes nothing.\<close>

lemma simulated_db_step:
  assumes "\<And>s r d'. pre s \<Longrightarrow> f (eng_db s) = (r, d') \<Longrightarrow> engine_step P s (s\<lparr>eng_db := d'\<rparr>)"
  shows "simulated P pre (io_db f) (\<lambda>_ _. True)"
proof (rule simulated_db)
  fix s r d' assume "pre s" "f (eng_db s) = (r, d')"
  from assms [OF this] have "engine_run P s (s\<lparr>eng_db := d'\<rparr>)" by (rule engine_run_step) (simp add: grows_def)
  then show "\<exists>s'. engine_run P s s' \<and> eng_db s' = d' \<and> eng_broker s' = eng_broker s \<and> (\<forall>x. r = Inr x \<longrightarrow> True)"
    by (intro exI [of _ "s\<lparr>eng_db := d'\<rparr>"]) simp
qed

lemma failed_transaction: "run_transaction m d = (Inl e, d') \<Longrightarrow> d' = d"
  by (auto elim: run_transaction_cases)

lemma simulated_readiness:
  assumes "trigger_execution_id (p_fp P) fs = Inr e"
  shows "simulated P (\<lambda>s. fs \<in> event_entries P (eng_broker s)) (io_db (readiness_evaluate e))
    (\<lambda>x s. (e, ready_node_ids x) \<in> eng_ready s)"
proof (rule simulated_db)
  fix s :: "'a engine" and r d' assume fs: "fs \<in> event_entries P (eng_broker s)" and run: "readiness_evaluate e (eng_db s) = (r, d')"
  show "\<exists>s'. engine_run P s s' \<and> eng_db s' = d' \<and> eng_broker s' = eng_broker s \<and>
      (\<forall>x. r = Inr x \<longrightarrow> (e, ready_node_ids x) \<in> eng_ready s')"
  proof (cases r)
    case (Inl err)
    with run have "d' = eng_db s" by (auto simp: readiness_evaluate_def dest: failed_transaction)
    with Inl show ?thesis by (intro exI [of _ s]) simp
  next
    case (Inr x)
    let ?s = "s\<lparr>eng_db := d', eng_ready := insert (e, ready_node_ids x) (eng_ready s)\<rparr>"
    have "engine_step P s ?s"
      using eng_trigger_event [of fs P s e x d'] fs assms run Inr by (simp add: event_entries_def)
    then have "engine_run P s ?s" by (rule engine_run_step) (auto simp: grows_def)
    then show ?thesis using Inr by (intro exI [of _ ?s]) simp
  qed
qed

lemma simulated_process:
  "simulated P (\<lambda>_. True) (io_db (process (p_fl P) (p_u5 P) (p_policy P) fresh now ev))
    (\<lambda>x s. (tc_execution_id ev, dec_ready_node_ids x) \<in> eng_ready s)"
proof (rule simulated_db)
  fix s :: "'a engine" and r d' assume run: "process (p_fl P) (p_u5 P) (p_policy P) fresh now ev (eng_db s) = (r, d')"
  show "\<exists>s'. engine_run P s s' \<and> eng_db s' = d' \<and> eng_broker s' = eng_broker s \<and>
      (\<forall>x. r = Inr x \<longrightarrow> (tc_execution_id ev, dec_ready_node_ids x) \<in> eng_ready s')"
  proof (cases r)
    case (Inl err)
    with run have "d' = eng_db s" by (auto simp: process_def dest: failed_transaction split: if_splits)
    with Inl show ?thesis by (intro exI [of _ s]) simp
  next
    case (Inr x)
    let ?s = "s\<lparr>eng_db := d', eng_ready := insert (tc_execution_id ev, dec_ready_node_ids x) (eng_ready s)\<rparr>"
    have "engine_step P s ?s" using eng_completion run Inr by blast
    then have "engine_run P s ?s" by (rule engine_run_step) (auto simp: grows_def)
    then show ?thesis using Inr by (intro exI [of _ ?s]) simp
  qed
qed

text \<open>The nodes of a dispatch call, one after the other.\<close>

lemma dispatch_each_run:
  assumes "dispatch_each (p_fr P) (p_u5 P) fresh now ex ns (eng_db s) = (rs, d')" and "{ex} \<times> set ns \<subseteq> eng_calls s"
  shows "\<exists>s'. engine_run P s s' \<and> eng_db s' = d' \<and> eng_broker s' = eng_broker s"
  using assms
proof (induction ns arbitrary: s rs)
  case Nil
  then show ?case by (intro exI [of _ s]) simp
next
  case (Cons n ns)
  obtain r d1 where d1: "dispatch (p_fr P) (p_u5 P) (fresh (wn_id n)) now ex n (eng_db s) = (r, d1)" by fastforce
  let ?s = "s\<lparr>eng_db := d1\<rparr>"
  have call: "(ex, n) \<in> eng_calls s" using Cons.prems(2) by simp
  have run: "engine_run P s ?s"
    by (rule engine_run_step [OF eng_dispatch [OF call d1]]) (simp add: grows_def)
  obtain rs' where "dispatch_each (p_fr P) (p_u5 P) fresh now ex ns (eng_db ?s) = (rs', d')"
    using Cons.prems(1) d1 by (auto split: prod.splits)
  from Cons.IH [OF this] Cons.prems(2) obtain s' where "engine_run P ?s s'" "eng_db s' = d'" "eng_broker s' = eng_broker ?s"
    by auto
  with engine_run_trans [OF run] show ?case by auto
qed

lemma simulated_dispatch_ready:
  "simulated P (\<lambda>s. (e, ids) \<in> eng_ready s) (io_db (dispatch_ready (p_fr P) (p_u5 P) fresh now e ids)) (\<lambda>_ _. True)"
proof (rule simulated_db)
  fix s :: "'a engine" and r d' assume call: "(e, ids) \<in> eng_ready s"
    and run: "dispatch_ready (p_fr P) (p_u5 P) fresh now e ids (eng_db s) = (r, d')"
  show "\<exists>s'. engine_run P s s' \<and> eng_db s' = d' \<and> eng_broker s' = eng_broker s \<and> (\<forall>x. r = Inr x \<longrightarrow> True)"
  proof (cases "ids = []")
    case True
    with run show ?thesis by (intro exI [of _ s]) (simp add: dispatch_ready_def)
  next
    case False
    obtain lr d1 where load: "run_transaction (load_ready_nodes e ids) (eng_db s) = (lr, d1)" by fastforce
    show ?thesis
    proof (cases lr)
      case (Inl err)
      with run load False have "d' = eng_db s" by (auto simp: dispatch_ready_def dest: failed_transaction)
      then show ?thesis by (intro exI [of _ s]) simp
    next
      case (Inr x)
      obtain ex ns where x: "x = (ex, ns)" by fastforce
      let ?s = "s\<lparr>eng_db := d1, eng_calls := eng_calls s \<union> {ex} \<times> set ns\<rparr>"
      have "engine_step P s ?s" by (rule eng_load [OF call]) (use load Inr x in simp)
      then have s1: "engine_run P s ?s" by (rule engine_run_step) (auto simp: grows_def)
      obtain rs where "dispatch_each (p_fr P) (p_u5 P) fresh now ex ns (eng_db ?s) = (rs, d')"
        using run load Inr x False by (auto simp: dispatch_ready_def dispatch_many_def split: prod.splits sum.splits)
      from dispatch_each_run [OF this] obtain s' where "engine_run P ?s s'" "eng_db s' = d'" "eng_broker s' = eng_broker ?s"
        by auto
      with engine_run_trans [OF s1] show ?thesis by auto
    qed
  qed
qed

subsection \<open>Redis\<close>

text \<open>What is relied on of the client: it publishes as the platform does, a read returns entries of the streams it
  names, and reads, claims and acknowledgements change no stream.\<close>

definition redis_ok :: "'b platform \<Rightarrow> 'b redis_client \<Rightarrow> bool" where
  "redis_ok P client \<longleftrightarrow> xadd client = p_publish P \<and>
     (\<forall>g c ss n t b r b'. xreadgroup client g c ss n t b = (r, b') \<longrightarrow> p_log P b' = p_log P b \<and>
        (\<forall>ms s i fs. r = Inr ms \<longrightarrow> (s, i, fs) \<in> set (delivered_messages ms) \<longrightarrow> s \<in> fst ` set ss \<and> (s, fs) \<in> p_log P b)) \<and>
     (\<forall>s g i b r b'. xack client s g i b = (r, b') \<longrightarrow> p_log P b' = p_log P b) \<and>
     (\<forall>s g c t i n b r b'. xautoclaim client s g c t i n b = (r, b') \<longrightarrow> p_log P b' = p_log P b)"

text \<open>Programs that change neither the database nor the stream of workflow events.\<close>

definition leaves_alone :: "'b platform \<Rightarrow> ('b, 'a) io \<Rightarrow> bool" where
  "leaves_alone P m \<longleftrightarrow> (\<forall>d b r d' b'. m (d, b) = (r, d', b') \<longrightarrow> d' = d \<and> event_entries P b' = event_entries P b)"

lemma leaves_alone_harmless: "leaves_alone P m \<Longrightarrow> harmless P m"
  by (rule simulated_skip) (auto simp: leaves_alone_def)

lemma event_entries_cong: "p_log P b' = p_log P b \<Longrightarrow> event_entries P b' = event_entries P b"
  by (simp add: event_entries_def)

lemma leaves_alone_ack: "redis_ok P client \<Longrightarrow> leaves_alone P (ack client stream g i)"
  unfolding leaves_alone_def ack_def io_redis_def redis_ok_def
  by (auto split: prod.splits intro!: event_entries_cong)

lemma leaves_alone_autoclaim: "redis_ok P client \<Longrightarrow> leaves_alone P (autoclaim client s g c t i n)"
  unfolding leaves_alone_def autoclaim_def io_redis_def redis_ok_def
  by (auto split: prod.splits intro!: event_entries_cong)

lemma leaves_alone_consume: "redis_ok P client \<Longrightarrow> leaves_alone P (consume client g c ss n t)"
  unfolding leaves_alone_def consume_def io_redis_def redis_ok_def
  by (auto split: prod.splits intro!: event_entries_cong)

lemma leaves_alone_publish:
  assumes "platform_ok P" and "redis_ok P client" and "stream \<noteq> WORKFLOW_EVENTS_STREAM"
  shows "leaves_alone P (publish client stream fs)"
proof -
  have log: "accepts_to_log (xadd client) (p_log P)" using assms(1,2) by (simp add: platform_ok_def redis_ok_def)
  have "event_entries P b' = event_entries P b" if "xadd client stream fs b = (r, b')" for b r b'
    using accepts_to_logD(1,2) [OF log that] assms(3) by (auto simp: event_entries_def)
  then show ?thesis by (auto simp: leaves_alone_def publish_def io_redis_def split: prod.splits)
qed

lemma simulated_consume:
  assumes "redis_ok P client"
  shows "simulated P (\<lambda>_. True) (consume client g c [(WORKFLOW_EVENTS_STREAM, i)] n t)
    (\<lambda>ms s. \<forall>(stream, m) \<in> set (delivered_messages ms). snd m \<in> event_entries P (eng_broker s))"
proof (rule simulated_skip)
  fix s :: "'a engine" and r d' b'
  assume run: "consume client g c [(WORKFLOW_EVENTS_STREAM, i)] n t (eng_db s, eng_broker s) = (r, d', b')"
  then have x: "xreadgroup client g c [(WORKFLOW_EVENTS_STREAM, i)] n t (eng_broker s) = (r, b')" and d: "d' = eng_db s"
    by (auto simp: consume_def io_redis_def split: prod.splits)
  have same: "p_log P b' = p_log P (eng_broker s)" and
    del: "\<And>ms stream j fs. r = Inr ms \<Longrightarrow> (stream, j, fs) \<in> set (delivered_messages ms) \<Longrightarrow>
      stream = WORKFLOW_EVENTS_STREAM \<and> (stream, fs) \<in> p_log P (eng_broker s)"
    using assms x unfolding redis_ok_def by fastforce+
  have "snd m \<in> event_entries P (eng_broker s')"
    if "r = Inr ms" "(stream, m) \<in> set (delivered_messages ms)" "grows P s s'" for ms stream m s'
    using del [of ms stream "fst m" "snd m"] that by (auto simp: event_entries_def grows_def)
  then show "d' = eng_db s \<and> event_entries P b' = event_entries P (eng_broker s) \<and>
      (\<forall>ms s'. r = Inr ms \<longrightarrow> grows P s s' \<longrightarrow>
        (\<forall>(stream, m) \<in> set (delivered_messages ms). snd m \<in> event_entries P (eng_broker s')))"
    using d event_entries_cong [OF same] by auto
qed

section \<open>The orchestrator\<close>

definition shares_platform :: "'b platform \<Rightarrow> 'b orchestrator \<Rightarrow> bool" where
  "shares_platform P orc \<longleftrightarrow> o_float_text orc = p_fr P \<and> o_float_parse orc = p_fp P \<and> o_floats orc = p_fl P \<and>
     o_uuid5 orc = p_u5 P \<and> o_policy orc = p_policy P"

definition orchestrates :: "'b platform \<Rightarrow> 'b orchestrator \<Rightarrow> bool" where
  "orchestrates P orc \<longleftrightarrow> redis_ok P (o_client orc) \<and> (\<forall>n i t. leaves_alone P (o_barrier orc n i t)) \<and> shares_platform P orc"

lemma simulated_trigger_message:
  assumes "redis_ok P client"
  shows "simulated P (\<lambda>s. snd message \<in> event_entries P (eng_broker s))
    (handle_trigger_message client (p_fr P) (p_fp P) (p_u5 P) fresh now stream message) (\<lambda>_ _. True)"
proof -
  obtain i fs where m: "message = (i, fs)" by fastforce
  let ?pre = "\<lambda>s. fs \<in> event_entries P (eng_broker s)"
  have acked: "harmless P (io_bind (ack client stream ORCHESTRATOR_EVENTS_GROUP i) (\<lambda>_. io_return ()))"
    by (rule simulated_bind [OF leaves_alone_harmless [OF leaves_alone_ack [OF assms]] simulated_basic(1)]) simp
  have ready: "simulated P ?pre (io_bind (io_lift (trigger_execution_id (p_fp P) fs)) (\<lambda>e.
      io_bind (io_db (readiness_evaluate e)) (\<lambda>readiness.
      io_bind (io_db (dispatch_ready (p_fr P) (p_u5 P) fresh now e (ready_node_ids readiness))) (\<lambda>_. io_return ())))) (\<lambda>_ _. True)"
  proof (rule simulated_bind [where mid = "\<lambda>e s. trigger_execution_id (p_fp P) fs = Inr e \<and> ?pre s"])
    show "simulated P ?pre (io_lift (trigger_execution_id (p_fp P) fs)) (\<lambda>e s. trigger_execution_id (p_fp P) fs = Inr e \<and> ?pre s)"
      by (rule simulated_basic(3)) simp
    fix e
    show "simulated P (\<lambda>s. trigger_execution_id (p_fp P) fs = Inr e \<and> ?pre s) (io_bind (io_db (readiness_evaluate e)) (\<lambda>readiness.
      io_bind (io_db (dispatch_ready (p_fr P) (p_u5 P) fresh now e (ready_node_ids readiness))) (\<lambda>_. io_return ()))) (\<lambda>_ _. True)"
    proof (cases "trigger_execution_id (p_fp P) fs = Inr e")
      case True
      have "simulated P ?pre (io_bind (io_db (readiness_evaluate e)) (\<lambda>readiness.
        io_bind (io_db (dispatch_ready (p_fr P) (p_u5 P) fresh now e (ready_node_ids readiness))) (\<lambda>_. io_return ()))) (\<lambda>_ _. True)"
        by (rule simulated_bind [OF simulated_readiness [OF True]],
            rule simulated_bind [OF simulated_dispatch_ready simulated_basic(1)]) simp
      then show ?thesis by (rule simulated_weaken) auto
    qed (simp add: simulated_def)
  qed
  show ?thesis
    unfolding handle_trigger_message_def m prod.case
  proof (rule simulated_bind [where mid = "\<lambda>_ s. ?pre s"])
    show "simulated P (\<lambda>s. snd (i, fs) \<in> event_entries P (eng_broker s)) (io_lift (required_field fs ''event_type'' ''Workflow event''))
      (\<lambda>_ s. ?pre s)"
      by (rule simulated_basic(3)) simp
  next
    fix event_type
    show "simulated P ?pre (io_bind
        (if event_type \<noteq> EXECUTION_TRIGGERED_EVENT_TYPE then io_return ()
         else io_bind (io_lift (trigger_execution_id (p_fp P) fs)) (\<lambda>e.
           io_bind (io_db (readiness_evaluate e)) (\<lambda>readiness.
           io_bind (io_db (dispatch_ready (p_fr P) (p_u5 P) fresh now e (ready_node_ids readiness))) (\<lambda>_. io_return ()))))
        (\<lambda>_. io_bind (ack client stream ORCHESTRATOR_EVENTS_GROUP i) (\<lambda>_. io_return ()))) (\<lambda>_ _. True)"
      by (rule simulated_bind [OF _ acked], cases "event_type = EXECUTION_TRIGGERED_EVENT_TYPE") (simp_all add: ready, rule simulated_basic(1), simp)
  qed
qed

lemma leaves_alone_return: "leaves_alone P (io_return x)" "leaves_alone P (io_raise e)" "leaves_alone P (io_lift r)"
  by (auto simp: leaves_alone_def)

lemma leaves_alone_bind: "leaves_alone P m \<Longrightarrow> (\<And>x. leaves_alone P (f x)) \<Longrightarrow> leaves_alone P (io_bind m f)"
  unfolding leaves_alone_def io_bind_def by (fastforce split: prod.splits sum.splits)

lemma leaves_alone_barrier:
  "(\<And>n i t. leaves_alone P (participate n i t)) \<Longrightarrow> leaves_alone P (wait_for_integration_barrier env fl participate ev)"
  unfolding wait_for_integration_barrier_def Let_def
  by (auto intro!: leaves_alone_bind leaves_alone_return)

lemma harmless_ack: "redis_ok P client \<Longrightarrow> harmless P (io_bind (ack client stream g i) (\<lambda>_. io_return ()))"
  by (intro leaves_alone_harmless leaves_alone_bind leaves_alone_ack leaves_alone_return)

lemma simulated_then: "simulated P pre m (\<lambda>_ _. True) \<Longrightarrow> (\<And>x. harmless P (f x)) \<Longrightarrow> simulated P pre (io_bind m f) (\<lambda>_ _. True)"
  by (rule simulated_bind)

lemma harmless_return: "harmless P (io_return x)" "harmless P (io_lift r)"
  by (rule leaves_alone_harmless [OF leaves_alone_return(1)] leaves_alone_harmless [OF leaves_alone_return(3)])+

lemma harmless_completion_message:
  assumes "redis_ok P client" and "\<And>n i t. leaves_alone P (participate n i t)"
  shows "harmless P (handle_completion_message client env (p_fr P) (p_fp P) (p_fl P) (p_u5 P) (p_policy P)
    participate fresh now stream message)"
  unfolding handle_completion_message_def
  by (cases message) (simp only: prod.case,
      intro simulated_then [OF harmless_return(2)] simulated_then [OF leaves_alone_harmless [OF leaves_alone_barrier [OF assms(2)]]]
        simulated_bind [OF simulated_process] simulated_then [OF simulated_dispatch_ready] harmless_ack assms(1))

lemma harmless_each: "(\<And>x. x \<in> set xs \<Longrightarrow> harmless P (f x)) \<Longrightarrow> harmless P (io_each f xs)"
  by (rule simulated_each) (simp_all add: stable_def)

lemma harmless_completions:
  assumes "redis_ok P client" and "\<And>n i t. leaves_alone P (participate n i t)"
  shows "harmless P (completion_consume_once client env (p_fr P) (p_fp P) (p_fl P) (p_u5 P) (p_policy P)
    participate fresh now consumer)"
  unfolding completion_consume_once_def
  by (intro simulated_then leaves_alone_harmless [OF leaves_alone_consume] harmless_each harmless_return assms(1))
    (auto intro: harmless_completion_message assms)

lemma harmless_triggers:
  assumes "redis_ok P client"
  shows "harmless P (trigger_consume_once client (p_fr P) (p_fp P) (p_u5 P) fresh now consumer)"
  unfolding trigger_consume_once_def
proof (rule simulated_bind [OF simulated_consume [OF assms]])
  fix ms :: delivery
  let ?I = "\<lambda>s. \<forall>(stream, m) \<in> set (delivered_messages ms). snd m \<in> event_entries P (eng_broker s)"
  have "stable P ?I" unfolding stable_def engine_run_def grows_def by blast
  then have "simulated P ?I (io_each (\<lambda>(stream, m). handle_trigger_message client (p_fr P) (p_fp P) (p_u5 P) (fresh (fst m)) now
      stream m) (delivered_messages ms)) (\<lambda>_ _. True)"
  proof (rule simulated_each)
    fix x assume x: "x \<in> set (delivered_messages ms)"
    obtain stream m where xm: "x = (stream, m)" by (rule prod.exhaust)
    show "simulated P ?I (case x of (stream, m) \<Rightarrow> handle_trigger_message client (p_fr P) (p_fp P) (p_u5 P) (fresh (fst m)) now
      stream m) (\<lambda>_ _. True)"
      unfolding xm prod.case by (rule simulated_weaken [OF simulated_trigger_message [OF assms]]) (use x xm in auto)
  qed
  then show "simulated P ?I (io_bind (io_each (\<lambda>(stream, m). handle_trigger_message client (p_fr P) (p_fp P) (p_u5 P)
      (fresh (fst m)) now stream m) (delivered_messages ms)) (\<lambda>_. io_return (length (delivered_messages ms)))) (\<lambda>_ _. True)"
    by (intro simulated_then harmless_return)
qed

subsection \<open>The passes of the publisher\<close>

lemma harmless_outbox:
  assumes "platform_ok P"
  shows "harmless P (\<lambda>(d, b). publish_pending (p_fr P) (p_publish P) now d b)"
proof (rule simulatedI)
  fix s :: "'a engine" and r d' b'
  assume "(\<lambda>(d, b). publish_pending (p_fr P) (p_publish P) now d b) (eng_db s, eng_broker s) = (r, d', b')"
  then have run: "publish_pending (p_fr P) (p_publish P) now (eng_db s) (eng_broker s) = (r, d', b')" by simp
  let ?s = "s\<lparr>eng_db := d', eng_broker := b'\<rparr>"
  have "p_log P (eng_broker s) \<subseteq> p_log P b'"
    using publish_pending_effect(2) [OF _ run] assms by (simp add: platform_ok_def)
  then have "engine_run P s ?s" by (intro engine_run_step [OF eng_publish [OF run]]) (auto simp: grows_def event_entries_def)
  then show "\<exists>s'. engine_run P s s' \<and> eng_db s' = d' \<and> eng_broker s' = b' \<and> (\<forall>x. r = Inr x \<longrightarrow> True)"
    by (intro exI [of _ ?s]) simp
qed

lemma harmless_cleanup: "harmless P (io_db (cleanup_published_outbox td retention now))"
proof (rule simulated_db)
  fix s :: "'a engine" and r d' assume run: "cleanup_published_outbox td retention now (eng_db s) = (r, d')"
  have "engine_step P s (s\<lparr>eng_db := d'\<rparr>)"
  proof (cases "td retention")
    case (Inl e)
    with run have "d' = eng_db s" by (simp add: cleanup_published_outbox_def)
    then show ?thesis using eng_redis [of P "eng_broker s" s] by simp
  next
    case (Inr t)
    with run show ?thesis by (intro eng_cleanup) (simp add: cleanup_published_outbox_def)
  qed
  then have "engine_run P s (s\<lparr>eng_db := d'\<rparr>)" by (rule engine_run_step) (simp add: grows_def)
  then show "\<exists>s'. engine_run P s s' \<and> eng_db s' = d' \<and> eng_broker s' = eng_broker s \<and> (\<forall>x. r = Inr x \<longrightarrow> True)"
    by (intro exI [of _ "s\<lparr>eng_db := d'\<rparr>"]) simp
qed

lemma publish_retries_log:
  assumes "accepts_to_log pub log" and "publish_retries fr pub now rs k d b = (r, d', b')"
  shows "log b \<subseteq> log b'"
  using assms(2)
proof (induction rs arbitrary: k d b)
  case (Cons q rs)
  from Cons.prems show ?case
    by (auto split: sum.splits prod.splits dest!: Cons.IH accepts_to_logD(1) [OF assms(1)])
qed simp

lemma harmless_retries:
  assumes "platform_ok P"
  shows "harmless P (\<lambda>(d, b). publish_due_retries (p_fr P) (p_publish P) now d b)"
proof (rule simulatedI)
  fix s :: "'a engine" and r d' b'
  assume "(\<lambda>(d, b). publish_due_retries (p_fr P) (p_publish P) now d b) (eng_db s, eng_broker s) = (r, d', b')"
  then have run: "publish_due_retries (p_fr P) (p_publish P) now (eng_db s) (eng_broker s) = (r, d', b')" by simp
  let ?s = "s\<lparr>eng_db := d', eng_broker := b'\<rparr>"
  have "accepts_to_log (p_publish P) (p_log P)" using assms by (simp add: platform_ok_def)
  from publish_retries_log [OF this] run have "p_log P (eng_broker s) \<subseteq> p_log P b'"
    by (auto simp: publish_due_retries_def split: prod.splits sum.splits)
  then have "engine_run P s ?s" by (intro engine_run_step [OF eng_retries [OF run]]) (auto simp: grows_def event_entries_def)
  then show "\<exists>s'. engine_run P s s' \<and> eng_db s' = d' \<and> eng_broker s' = b' \<and> (\<forall>x. r = Inr x \<longrightarrow> True)"
    by (intro exI [of _ ?s]) simp
qed

lemma harmless_round:
  assumes "platform_ok P" and "orchestrates P orc"
  shows "harmless P (orchestrator_round orc fresh now)"
proof -
  have parts: "o_float_text orc = p_fr P" "o_float_parse orc = p_fp P" "o_floats orc = p_fl P" "o_uuid5 orc = p_u5 P"
    "o_policy orc = p_policy P" "redis_ok P (o_client orc)" "\<And>n i t. leaves_alone P (o_barrier orc n i t)"
    using assms(2) by (simp_all add: orchestrates_def shares_platform_def)
  have xadd: "xadd (o_client orc) = p_publish P" using parts(6) by (simp add: redis_ok_def)
  show ?thesis
    unfolding orchestrator_round_def parts(1-5) xadd
    by (intro simulated_catch simulated_then harmless_outbox harmless_cleanup harmless_triggers harmless_completions
        harmless_retries harmless_return assms(1) parts(6,7))
qed

lemma harmless_rounds:
  "platform_ok P \<Longrightarrow> orchestrates P orc \<Longrightarrow> harmless P (orchestrator_rounds orc fresh now k n)"
  by (induction n arbitrary: k) (simp_all add: harmless_return harmless_round simulated_then)

section \<open>The workers\<close>

definition works :: "'b platform \<Rightarrow> 'b WorkerTaskProcessor \<Rightarrow> bool" where
  "works P self \<longleftrightarrow> redis_ok P (w_client self) \<and> (\<forall>task. leaves_alone P (w_executor self task))"

lemma harmless_transaction:
  assumes "\<And>d r d'. run_transaction tx d = (r, d') \<Longrightarrow> d' = d \<or> worker_step d d'"
  shows "harmless (P :: 'b platform) (with_unit_of_work self what tx)"
proof (cases "w_unit_of_work self")
  case True
  have "engine_step P s (s\<lparr>eng_db := d'\<rparr>)" if "run_transaction tx (eng_db s) = (r, d')" for s :: "'b engine" and r d'
    using assms [OF that] eng_redis [of P "eng_broker s" s] eng_worker [of s d'] by auto
  then have "harmless P (io_db (run_transaction tx))" by (intro simulated_db_step)
  with True show ?thesis by (simp add: with_unit_of_work_def)
next
  case False
  then show ?thesis by (simp add: with_unit_of_work_def simulated_basic(2))
qed

lemma keeps_all_results: "keeps (\<lambda>d. d) (get_attempt_result i)" "keeps (\<lambda>d. d) (get_task_result t)"
  unfolding get_attempt_result_def get_task_result_def
  by (auto simp: scalar_one_def intro!: keeps_bind keeps_basic keeps_option keeps_select split: list.split)

lemmas harmless_worker_tx = harmless_transaction [OF disjI2 [OF claim_attempt_step]] harmless_transaction [OF disjI2 [OF claim_task_step]]
  harmless_transaction [OF disjI2 [OF renew_attempt_step]] harmless_transaction [OF disjI2 [OF renew_task_step]]
  harmless_transaction [OF disjI2 [OF record_attempt_step]] harmless_transaction [OF disjI2 [OF record_task_step]]
  harmless_transaction [OF disjI2 [OF complete_attempt_step]] harmless_transaction [OF disjI2 [OF complete_task_step]]
  harmless_transaction [OF disjI1 [OF keeps_run [OF keeps_all_results(1)]]] harmless_transaction [OF disjI1 [OF keeps_run [OF keeps_all_results(2)]]]

lemma harmless_claim: "harmless P (worker_claim_task self claimed_at task)"
  unfolding worker_claim_task_def
  by (intro simulated_then harmless_return, cases "w_attempt_repository self") (simp_all add: harmless_worker_tx)

lemma harmless_renew: "harmless P (renew_claim_until_complete self task ticks)"
proof (induction ticks)
  case Nil
  show ?case unfolding renew_claim_until_complete.simps by (rule harmless_return)
next
  case (Cons now ticks)
  then show ?case
    unfolding renew_claim_until_complete.simps
    by (intro simulated_then harmless_return; cases "w_attempt_repository self") (auto simp: harmless_worker_tx simulated_basic(2))
qed

lemma harmless_record: "harmless P (worker_record_result self ev)"
  unfolding worker_record_result_def by (cases "w_attempt_repository self") (simp_all add: harmless_worker_tx)

lemma harmless_replay: "harmless P (replay_result self task)"
  unfolding replay_result_def
  by (intro simulated_then harmless_return, cases "w_attempt_repository self") (simp_all add: harmless_worker_tx)

lemma harmless_handler: "works P self \<Longrightarrow> harmless P (run_handler self task)"
  by (rule leaves_alone_harmless) (fastforce simp: works_def leaves_alone_def run_handler_def split: prod.splits)

lemma harmless_execute: "works P self \<Longrightarrow> harmless P (execute_and_record self event_id ticks task)"
  unfolding execute_and_record_def Let_def
  by (intro simulated_then harmless_handler harmless_renew harmless_record harmless_return)

text \<open>The workers publish to other streams than the one of workflow events.\<close>

lemma worker_streams [simp]:
  "WORKFLOW_TASK_COMPLETIONS_STREAM \<noteq> WORKFLOW_EVENTS_STREAM" "WORKFLOW_TASK_DEAD_LETTER_STREAM \<noteq> WORKFLOW_EVENTS_STREAM"
  by (simp_all add: WORKFLOW_TASK_COMPLETIONS_STREAM_def WORKFLOW_TASK_DEAD_LETTER_STREAM_def WORKFLOW_EVENTS_STREAM_def)

lemma harmless_acknowledge: "works P self \<Longrightarrow> harmless P (acknowledge self stream i)"
  unfolding acknowledge_def by (rule harmless_ack) (simp add: works_def)

lemma harmless_publish_event:
  "platform_ok P \<Longrightarrow> works P self \<Longrightarrow> harmless P (publish_event self ev)"
  unfolding publish_event_def
  by (intro simulated_then harmless_return leaves_alone_harmless [OF leaves_alone_publish]) (simp_all add: works_def)

lemma harmless_close:
  "platform_ok P \<Longrightarrow> works P self \<Longrightarrow> harmless P (publish_complete_and_ack self now stream i ev)"
  unfolding publish_complete_and_ack_def
  by (intro simulated_then harmless_publish_event harmless_acknowledge; cases "w_attempt_repository self")
    (simp_all add: harmless_worker_tx)

lemma harmless_publish_and_ack:
  "platform_ok P \<Longrightarrow> works P self \<Longrightarrow> harmless P (publish_and_ack self stream i ev)"
  unfolding publish_and_ack_def by (intro simulated_then harmless_publish_event harmless_acknowledge)

lemma harmless_process_task:
  assumes "platform_ok P" and "works P self"
  shows "harmless P (process_task self event_id claimed_at ticks completed_at stream i task)"
proof -
  have "harmless P (case x of
          CLAIMED \<Rightarrow> io_bind (execute_and_record self event_id ticks task) (publish_complete_and_ack self completed_at stream i)
        | RESULT_RECORDED \<Rightarrow> io_bind (replay_result self task) (publish_complete_and_ack self completed_at stream i)
        | _ \<Rightarrow> acknowledge self stream i)" for x
    by (cases x) (auto intro!: simulated_then harmless_execute harmless_replay harmless_close harmless_acknowledge assms)
  moreover have "harmless P (io_bind (run_handler self task) (\<lambda>outcome. publish_and_ack self stream i (outcome_event event_id task outcome)))"
    by (intro simulated_then harmless_handler harmless_publish_and_ack assms)
  ultimately show ?thesis
    unfolding process_task_def by (auto intro: simulated_then [OF harmless_claim])
qed

lemma harmless_malformed:
  assumes "platform_ok P" and "works P self"
  shows "harmless P (process_malformed self event_id stream i fs err)"
proof -
  have "harmless P (publish_dead_letter_and_ack self stream i fs err e)" for e
    unfolding publish_dead_letter_and_ack_def
    by (intro simulated_then harmless_return harmless_acknowledge leaves_alone_harmless [OF leaves_alone_publish])
      (use assms in \<open>simp_all add: works_def\<close>)
  then show ?thesis
    unfolding process_malformed_def
    by (auto split: sum.split intro: harmless_publish_and_ack assms simulated_basic(2))
qed

lemma harmless_logged: "harmless P m \<Longrightarrow> harmless P (logged m)"
  unfolding logged_def by (rule simulated_catch [OF _ harmless_return(1)])

lemma harmless_process_one:
  assumes "\<And>s i t. harmless P (f s i t)" and "\<And>s i fs e. harmless P (g s i fs e)"
  shows "harmless P (process_one decode f (Some g) stream message)"
  unfolding process_one_def
  by (auto split: prod.split sum.split intro!: harmless_logged assms harmless_return simulated_basic(2))

lemma harmless_poll:
  assumes "redis_ok P client"
  shows "harmless P (reclaim_available_messages client ws start_id max_count)" "harmless P (consume_available_messages client ws max_count)"
proof -
  show "harmless P (reclaim_available_messages client ws start_id max_count)"
    unfolding reclaim_available_messages_def
    by (intro simulated_catch simulated_then leaves_alone_harmless [OF leaves_alone_autoclaim] assms harmless_return)
      (simp add: harmless_return split: prod.split)
  show "harmless P (consume_available_messages client ws max_count)"
    unfolding consume_available_messages_def
    by (intro simulated_catch leaves_alone_harmless [OF leaves_alone_consume] assms harmless_return)
qed

end
