(* ===== verification/Barriers.thy ===== *)
theory Barriers
  imports Streams Completion
begin

text \<open>
  The synchronization of integration tests over Redis streams (\<open>app/messaging/redis/barriers.py\<close>). A participant
  announces its arrival and reads the stream of releases until its own release is there or the time is over.
\<close>

text \<open>\<open>XREAD\<close> of the client; the values of \<open>remaining_seconds\<close> in the passes of the loop, after which the time is
  over; the float conversions \<open>int(x * 1000)\<close> and \<open>f"{x:.1f}"\<close>.\<close>

record 'b barrier_platform =
  bp_xread :: "(string \<times> string) list \<Rightarrow> int \<Rightarrow> int \<Rightarrow> 'b \<Rightarrow> (error + delivery) \<times> 'b"
  bp_remaining :: "string \<Rightarrow> string \<Rightarrow> 64 word \<Rightarrow> 64 word list"
  bp_millis :: "64 word \<Rightarrow> error + int"
  bp_text :: "64 word \<Rightarrow> string"

definition arrival_stream :: "string \<Rightarrow> string" where
  "arrival_stream name = ''integration.barrier:'' @ name @ '':arrivals''"

definition release_stream :: "string \<Rightarrow> string" where
  "release_stream name = ''integration.barrier:'' @ name @ '':releases''"

text \<open>The inner loops: whether the release of the participant is among the messages, and the last identifier
  read.\<close>

fun scan_releases :: "string \<Rightarrow> string \<Rightarrow> message list \<Rightarrow> bool \<times> string" where
  "scan_releases participant stream_id [] = (False, stream_id)"
| "scan_releases participant stream_id ((message_id, fs) # ms) =
     (if map_of fs ''participant'' = Some participant then (True, message_id)
      else scan_releases participant message_id ms)"

definition barrier_timeout :: "'b barrier_platform \<Rightarrow> string \<Rightarrow> string \<Rightarrow> 64 word \<Rightarrow> error" where
  "barrier_timeout bp name participant timeout_seconds =
     RedisBarrierTimeout (''Timed out after '' @ bp_text bp timeout_seconds @ ''s waiting for release of '' @
       quoted participant @ '' on barrier '' @ quoted name @ ''.'')"

fun await_release ::
    "'b barrier_platform \<Rightarrow> string \<Rightarrow> string \<Rightarrow> 64 word \<Rightarrow> 64 word list \<Rightarrow> string \<Rightarrow> ('b, unit) io" where
  "await_release bp name participant timeout_seconds [] stream_id =
     io_raise (barrier_timeout bp name participant timeout_seconds)"
| "await_release bp name participant timeout_seconds (remaining_seconds # rest) stream_id =
     (if float_le remaining_seconds 0 then io_raise (barrier_timeout bp name participant timeout_seconds)
      else
        io_bind (io_lift (bp_millis bp remaining_seconds)) (\<lambda>millis.
        io_bind (io_redis (bp_xread bp [(release_stream name, stream_id)] 100 (max 1 (min 1000 millis)))) (\<lambda>messages.
        case scan_releases participant stream_id (map snd (delivered_messages messages)) of
          (True, _) \<Rightarrow> io_return ()
        | (False, stream_id') \<Rightarrow> await_release bp name participant timeout_seconds rest stream_id')))"

definition participate_in_barrier ::
    "'b redis_client \<Rightarrow> 'b barrier_platform \<Rightarrow> string \<Rightarrow> string \<Rightarrow> 64 word \<Rightarrow> ('b, unit) io" where
  "participate_in_barrier client bp name participant timeout_seconds =
     (if float_le timeout_seconds 0 then io_raise (ValueError ''Barrier timeout must be greater than zero.'')
      else
        io_bind (io_redis (xadd client (arrival_stream name) [(''participant'', participant)])) (\<lambda>_.
        await_release bp name participant timeout_seconds (bp_remaining bp name participant timeout_seconds) ''0-0''))"

section \<open>A barrier opens only by a release\<close>

text \<open>What is relied on: a read changes no stream and returns entries of the stream it names.\<close>

definition reads_log :: "('b \<Rightarrow> (string \<times> fields) set) \<Rightarrow> 'b barrier_platform \<Rightarrow> bool" where
  "reads_log log bp \<longleftrightarrow> (\<forall>s i n t b r b'. bp_xread bp [(s, i)] n t b = (r, b') \<longrightarrow> log b' = log b \<and>
     (\<forall>ms m. r = Inr ms \<longrightarrow> m \<in> set (delivered_messages ms) \<longrightarrow> fst m = s \<and> (s, snd (snd m)) \<in> log b))"

lemma scan_releases_found:
  "fst (scan_releases participant stream_id ms) \<Longrightarrow> \<exists>m \<in> set ms. map_of (snd m) ''participant'' = Some participant"
  by (induction participant stream_id ms rule: scan_releases.induct) (auto split: if_splits)

lemma await_release_log:
  assumes log: "reads_log log bp"
    and run: "await_release bp name participant timeout_seconds rs stream_id (d, b) = (r, d', b')"
  shows "d' = d \<and> log b' = log b \<and>
    (\<forall>u. r = Inr u \<longrightarrow> (\<exists>fs. (release_stream name, fs) \<in> log b \<and> map_of fs ''participant'' = Some participant))"
  using run
proof (induction rs arbitrary: stream_id b)
  case Nil
  then show ?case by auto
next
  case (Cons t rs)
  show ?case
  proof (cases "float_le t 0 \<or> (\<exists>e. bp_millis bp t = Inl e)")
    case True
    with Cons.prems show ?thesis by (auto simp: io_bind_def split: if_splits)
  next
    case False
    then obtain ms where ms: "bp_millis bp t = Inr ms" "\<not> float_le t 0" by (cases "bp_millis bp t") auto
    obtain x b1 where x: "bp_xread bp [(release_stream name, stream_id)] 100 (max 1 (min 1000 ms)) b = (x, b1)" by fastforce
    have same: "log b1 = log b" and entries: "\<And>del m. x = Inr del \<Longrightarrow> m \<in> set (delivered_messages del) \<Longrightarrow>
        (release_stream name, snd (snd m)) \<in> log b"
      using log x unfolding reads_log_def by blast+
    show ?thesis
    proof (cases x)
      case (Inl e)
      with Cons.prems ms x same show ?thesis by (auto simp: io_bind_def io_redis_def)
    next
      case (Inr del)
      obtain found i where f: "scan_releases participant stream_id (map snd (delivered_messages del)) = (found, i)" by fastforce
      show ?thesis
      proof (cases found)
        case True
        with f have "fst (scan_releases participant stream_id (map snd (delivered_messages del)))" by simp
        from scan_releases_found [OF this] obtain m where "m \<in> set (delivered_messages del)"
          "map_of (snd (snd m)) ''participant'' = Some participant" by auto
        with entries [OF Inr] have "\<exists>fs. (release_stream name, fs) \<in> log b \<and> map_of fs ''participant'' = Some participant" by blast
        with Cons.prems ms x same f Inr True show ?thesis by (auto simp: io_bind_def io_redis_def)
      next
        case False
        with Cons.prems ms x f Inr have "await_release bp name participant timeout_seconds rs i (d, b1) = (r, d', b')"
          by (simp add: io_bind_def io_redis_def)
        from Cons.IH [OF this] same show ?thesis by simp
      qed
    qed
  qed
qed

lemma participate_log:
  assumes "reads_log log bp" and "accepts_to_log (xadd client) log"
    and run: "participate_in_barrier client bp name participant timeout_seconds (d, b) = (r, d', b')"
  shows "d' = d \<and> log b \<subseteq> log b' \<and> log b' \<subseteq> insert (arrival_stream name, [(''participant'', participant)]) (log b) \<and>
    (\<forall>u. r = Inr u \<longrightarrow> (arrival_stream name, [(''participant'', participant)]) \<in> log b' \<and>
       (\<exists>fs. (release_stream name, fs) \<in> log b' \<and> map_of fs ''participant'' = Some participant))"
proof (cases "float_le timeout_seconds 0")
  case True
  with run show ?thesis by (auto simp: participate_in_barrier_def)
next
  case False
  obtain x b1 where x: "xadd client (arrival_stream name) [(''participant'', participant)] b = (x, b1)" by fastforce
  note l = accepts_to_logD [OF assms(2) x]
  show ?thesis
  proof (cases x)
    case (Inl e)
    with run False x l show ?thesis by (auto simp: participate_in_barrier_def io_bind_def io_redis_def)
  next
    case (Inr i)
    with run False x have "await_release bp name participant timeout_seconds (bp_remaining bp name participant timeout_seconds) ''0-0'' (d, b1) =
        (r, d', b')" by (simp add: participate_in_barrier_def io_bind_def io_redis_def)
    from await_release_log [OF assms(1) this] l(1,2) l(3) [OF Inr] show ?thesis by auto
  qed
qed

text \<open>A barrier opens only by a release. A participant that returns has announced its arrival and found its own
  release in the stream of the barrier; whatever happens, nothing but the arrival is added to the streams and
  the database is left alone; without a release in the stream it ends with an exception.\<close>

theorem barrier_opens_by_release:
  assumes "reads_log log bp" and "accepts_to_log (xadd client) log"
    and "participate_in_barrier client bp name participant timeout_seconds (d, b) = (r, d', b')"
  shows "d' = d \<and> log b' \<subseteq> insert (arrival_stream name, [(''participant'', participant)]) (log b) \<and>
    (case r of
       Inr u \<Rightarrow> (arrival_stream name, [(''participant'', participant)]) \<in> log b' \<and>
         (\<exists>fs. (release_stream name, fs) \<in> log b' \<and> map_of fs ''participant'' = Some participant)
     | Inl e \<Rightarrow> log b \<subseteq> log b')"
  using participate_log [OF assms] by (auto split: sum.split)

text \<open>A barrier whose release is already in the stream, after one of another participant.\<close>

definition barrier_broker :: "(string \<times> fields) list" where
  "barrier_broker = [(release_stream ''x'', [(''participant'', ''p'')]), (release_stream ''x'', [(''participant'', ''q'')])]"

definition barrier_client :: "(string \<times> fields) list redis_client" where
  "barrier_client =
     \<lparr>xadd = (\<lambda>s fs b. (Inr ''0-1'', b @ [(s, fs)])), xreadgroup = (\<lambda>g c ss n t b. (Inr [], b)),
      xack = (\<lambda>s g i b. (Inr 1, b)), xautoclaim = (\<lambda>s g c t i n b. (Inr (''0-0'', [], []), b))\<rparr>"

definition sample_barrier :: "(string \<times> fields) list barrier_platform" where
  "sample_barrier =
     \<lparr>bp_xread = (\<lambda>ss n t b. (Inr (map (\<lambda>(s, i). (s, map (\<lambda>x. (''1-0'', snd x)) (filter (\<lambda>x. fst x = s) b))) ss), b)),
      bp_remaining = (\<lambda>_ _ _. [float_one]), bp_millis = (\<lambda>_. Inr 1000), bp_text = (\<lambda>_. ''1.0'')\<rparr>"

lemma sample_barrier_log: "reads_log set sample_barrier" "accepts_to_log (xadd barrier_client) set"
  by (auto simp: reads_log_def sample_barrier_def delivered_messages_def accepts_to_log_def barrier_client_def)

theorem barrier_opens_by_release_witness:
  "\<exists>b'. participate_in_barrier barrier_client sample_barrier ''x'' ''q'' float_one (empty_db, barrier_broker) = (Inr (), empty_db, b') \<and>
     (arrival_stream ''x'', [(''participant'', ''q'')]) \<in> set b'"
proof -
  have f: "\<not> float_le float_one 0" by (simp add: float_le_def float_one_def float_is_nan_def float_order_def)
  have "\<exists>b'. participate_in_barrier barrier_client sample_barrier ''x'' ''q'' float_one (empty_db, barrier_broker) = (Inr (), empty_db, b')"
    by (simp add: participate_in_barrier_def f io_bind_def io_redis_def barrier_client_def sample_barrier_def barrier_broker_def
        delivered_messages_def arrival_stream_def release_stream_def)
  then obtain b' where run: "participate_in_barrier barrier_client sample_barrier ''x'' ''q'' float_one (empty_db, barrier_broker) =
      (Inr (), empty_db, b')" by blast
  from barrier_opens_by_release [OF sample_barrier_log run] run show ?thesis by simp
qed

end
