(* ===== verification/System.thy ===== *)
theory System
  imports Simulation Barriers
begin

text \<open>
  The deployed system: requests to the API, rounds of the orchestrator and the work of workers, in any order, over
  one database and one Redis. Each is run as a whole here; the engine of theory \<open>Engine\<close> interleaves their
  transactions. The states the system reaches are states of the engine.
\<close>

section \<open>A deployment\<close>

record 'b deployment =
  dp_orchestrator :: "'b orchestrator"
  dp_worker :: "'b WorkerTaskProcessor"
  dp_handlers :: "'b handler_platform"
  dp_barrier :: "'b barrier_platform"
  dp_settings :: worker_settings
  dp_uuid :: "string \<Rightarrow> uuid option"
  dp_int :: "string \<Rightarrow> int option"
  dp_time :: "datetime \<Rightarrow> string"

text \<open>The counter of the integration tests touches no stream.\<close>

definition counter_ok :: "'b platform \<Rightarrow> 'b handler_platform \<Rightarrow> bool" where
  "counter_ok P hp \<longleftrightarrow> (\<forall>k b r b'. hp_incr hp k b = (r, b') \<longrightarrow> p_log P b' = p_log P b)"

text \<open>All processes share the platform, the workers run the built-in handlers, and both sides use the barrier of
  theory \<open>Barriers\<close>.\<close>

definition deployed :: "'b platform \<Rightarrow> 'b deployment \<Rightarrow> bool" where
  "deployed P D \<longleftrightarrow>
     (let orc = dp_orchestrator D; self = dp_worker D; hp = dp_handlers D in
      redis_ok P (o_client orc) \<and> redis_ok P (w_client self) \<and> reads_log (p_log P) (dp_barrier D) \<and> counter_ok P hp \<and>
      shares_platform P orc \<and> o_barrier orc = participate_in_barrier (o_client orc) (dp_barrier D) \<and>
      hp_barrier hp = participate_in_barrier (w_client self) (dp_barrier D) \<and> w_executor self = execute_task hp None)"

inductive system_step :: "'b platform \<Rightarrow> 'b deployment \<Rightarrow> 'b world \<Rightarrow> 'b world \<Rightarrow> bool" for P D where
  sys_submit: "submit_workflow (default_validator (p_env P) (p_fr P)) (p_model P) (dp_time D) request e now d = (r, d') \<Longrightarrow>
    system_step P D (d, b) (d', b)"
| sys_trigger: "trigger_workflow_execution fresh now e inp d = (r, d') \<Longrightarrow> system_step P D (d, b) (d', b)"
| sys_round: "orchestrator_round (dp_orchestrator D) fresh now w = (r, w') \<Longrightarrow> system_step P D w w'"
| sys_reclaim: "reclaim_available_messages (w_client (dp_worker D)) (dp_settings D) start_id n w = (r, w') \<Longrightarrow> system_step P D w w'"
| sys_consume: "consume_available_messages (w_client (dp_worker D)) (dp_settings D) n w = (r, w') \<Longrightarrow> system_step P D w w'"
| sys_task: "process_one (task_from_stream_fields (dp_uuid D) (dp_int D) (p_fp P))
      (process_task (dp_worker D) event_id claimed_at ticks completed_at) (Some (process_malformed (dp_worker D) event_id))
      stream message w = (r, w') \<Longrightarrow> system_step P D w w'"
| sys_clock: "db_now d \<le> t \<Longrightarrow> system_step P D (d, b) (d\<lparr>db_now := t\<rparr>, b)"

abbreviation system_reachable :: "'b platform \<Rightarrow> 'b deployment \<Rightarrow> 'b world \<Rightarrow> bool" where
  "system_reachable P D \<equiv> (system_step P D)\<^sup>*\<^sup>* (empty_db, p_broker P)"

section \<open>The built-in handlers leave the streams alone\<close>

lemma leaves_alone_participate:
  assumes "platform_ok P" and "redis_ok P client" and "reads_log (p_log P) bp"
  shows "leaves_alone P (participate_in_barrier client bp n i t)"
proof -
  have "accepts_to_log (xadd client) (p_log P)" using assms(1,2) by (simp add: platform_ok_def redis_ok_def)
  note log = participate_log [OF assms(3) this]
  have ne: "arrival_stream n \<noteq> WORKFLOW_EVENTS_STREAM" by (simp add: arrival_stream_def WORKFLOW_EVENTS_STREAM_def)
  have "d' = d \<and> event_entries P b' = event_entries P b"
    if "participate_in_barrier client bp n i t (d, b) = (r, d', b')" for d b r d' b'
    using log [OF that] ne by (auto simp: event_entries_def)
  then show ?thesis by (simp add: leaves_alone_def)
qed

definition handlers_ok :: "'b platform \<Rightarrow> 'b handler_platform \<Rightarrow> bool" where
  "handlers_ok P hp \<longleftrightarrow> counter_ok P hp \<and> (\<forall>n i t. leaves_alone P (hp_barrier hp n i t))"

lemma leaves_alone_incr: "handlers_ok P hp \<Longrightarrow> leaves_alone P (io_redis (hp_incr hp k))"
  by (auto simp: leaves_alone_def io_redis_def handlers_ok_def counter_ok_def split: prod.splits intro!: event_entries_cong)

lemma leaves_alone_services:
  "leaves_alone P (MockExternalServiceNodeHandler hp s task)" "leaves_alone P (MockLlmServiceNodeHandler hp s task)"
  unfolding MockExternalServiceNodeHandler_def MockLlmServiceNodeHandler_def Let_def
  by (auto split: pyval.split intro!: leaves_alone_bind leaves_alone_return)

lemma leaves_alone_barrier_handler:
  "handlers_ok P hp \<Longrightarrow> leaves_alone P (IntegrationBarrierNodeHandler hp task)"
  unfolding IntegrationBarrierNodeHandler_def
  by (auto split: option.split prod.split intro!: leaves_alone_bind leaves_alone_return leaves_alone_incr)
    (simp add: handlers_ok_def)

lemma leaves_alone_execute:
  assumes "handlers_ok P hp"
  shows "leaves_alone P (execute_task hp None task)"
proof -
  have "leaves_alone P (h task)" if "resolve_handler hp None name = Inr h" for name h
    using that assms leaves_alone_services leaves_alone_barrier_handler leaves_alone_return(1)
    by (auto simp: resolve_handler_def Let_def rbind_Inr_iff InputNodeHandler_def [abs_def] OutputNodeHandler_def [abs_def]
        split: if_splits)
  then show ?thesis
    by (cases "resolve_handler hp None (nt_handler task)")
      (auto simp: execute_task_def io_bind_def leaves_alone_def split: prod.splits)
qed

lemma deployed_processes:
  assumes "platform_ok P" and "deployed P D"
  shows "orchestrates P (dp_orchestrator D)" and "works P (dp_worker D)"
  using assms(2) leaves_alone_participate [OF assms(1)] leaves_alone_execute [of P "dp_handlers D"]
  by (auto simp: deployed_def Let_def orchestrates_def works_def handlers_ok_def)

section \<open>The system is simulated by the engine\<close>

lemma submit_workflow_db:
  "submit_workflow v m iso_time request e now d = (r, d') \<Longrightarrow> \<exists>r'. submit v m (model_dump iso_time request) e now d = (r', d')"
  by (auto simp: submit_workflow_def split: prod.splits sum.splits error.splits)

lemma trigger_workflow_db:
  "trigger_workflow_execution fresh now e inp d = (r, d') \<Longrightarrow> \<exists>r'. trigger fresh now e inp d = (r', d')"
  by (auto simp: trigger_workflow_execution_def split: prod.splits sum.splits error.splits)

lemma harmless_run:
  assumes "harmless P m" and "m (eng_db s, eng_broker s) = (r, w')"
  shows "\<exists>s'. (engine_step P)\<^sup>*\<^sup>* s s' \<and> eng_db s' = fst w' \<and> eng_broker s' = snd w'"
  using simulatedE [OF assms(1) TrueI, of s r "fst w'" "snd w'"] assms(2) unfolding engine_run_def by (metis prod.collapse)

lemma system_step_engine:
  assumes P: "platform_ok P" and D: "deployed P D" and step: "system_step P D (eng_db s, eng_broker s) w'"
  shows "\<exists>s'. (engine_step P)\<^sup>*\<^sup>* s s' \<and> eng_db s' = fst w' \<and> eng_broker s' = snd w'"
proof -
  have redis: "redis_ok P (w_client (dp_worker D))" using D by (simp add: deployed_def Let_def)
  from step show ?thesis
  proof cases
    case (sys_submit request e now r d')
    obtain r' where "submit (default_validator (p_env P) (p_fr P)) (p_model P) (model_dump (dp_time D) request) e now (eng_db s) = (r', d')"
      using submit_workflow_db [OF sys_submit(2)] by blast
    from eng_submit [OF this] sys_submit(1) show ?thesis by (intro exI [of _ "s\<lparr>eng_db := d'\<rparr>"]) auto
  next
    case (sys_trigger fresh now e inp r d')
    obtain r' where "trigger fresh now e inp (eng_db s) = (r', d')" using trigger_workflow_db [OF sys_trigger(2)] by blast
    from eng_trigger [OF this] sys_trigger(1) show ?thesis by (intro exI [of _ "s\<lparr>eng_db := d'\<rparr>"]) auto
  next
    case (sys_round fresh now r)
    from harmless_run [OF harmless_round [OF P deployed_processes(1) [OF P D]] sys_round] show ?thesis .
  next
    case (sys_reclaim start_id n r)
    from harmless_run [OF harmless_poll(1) [OF redis] sys_reclaim] show ?thesis .
  next
    case (sys_consume n r)
    from harmless_run [OF harmless_poll(2) [OF redis] sys_consume] show ?thesis .
  next
    case (sys_task event_id claimed_at ticks completed_at stream message r)
    note w = deployed_processes(2) [OF P D]
    from harmless_run [OF harmless_process_one [OF harmless_process_task [OF P w] harmless_malformed [OF P w]] sys_task]
    show ?thesis .
  next
    case (sys_clock t)
    from eng_clock [OF sys_clock(2)] sys_clock(1) show ?thesis
      by (intro exI [of _ "s\<lparr>eng_db := (eng_db s)\<lparr>db_now := t\<rparr>\<rparr>"]) auto
  qed
qed

text \<open>C2: the processes refine the engine. Whatever requests, rounds of the orchestrator, calls and tasks of workers run
  one after the other on the shared database and Redis, in whatever order and with whatever answers and failures of Redis, the state
  they leave is one the engine reaches, and what is proved of the reachable states of the engine holds of it. Runs
  that overlap are interleaved by the engine at the level of their transactions.\<close>

theorem processes_refine_engine:
  assumes "platform_ok P" and "deployed P D" and "system_reachable P D (d, b)"
  shows "\<exists>s. engine_reachable P s \<and> eng_db s = d \<and> eng_broker s = b"
proof -
  have "\<exists>s. engine_reachable P s \<and> (eng_db s, eng_broker s) = w" if "system_reachable P D w" for w
    using that
  proof induction
    case base
    show ?case by (intro exI [of _ "initial_engine P"]) (simp add: initial_engine_def)
  next
    case (step w w')
    then obtain s where s: "engine_reachable P s" "(eng_db s, eng_broker s) = w" by blast
    with step(2) system_step_engine [OF assms(1,2), of s w'] obtain s' where
      "(engine_step P)\<^sup>*\<^sup>* s s'" "eng_db s' = fst w'" "eng_broker s' = snd w'" by blast
    with rtranclp_trans [OF s(1)] show ?case by (intro exI [of _ s']) auto
  qed
  from this [OF assms(3)] show ?thesis by auto
qed

subsection \<open>A run of the system\<close>

text \<open>A deployment over the platform of theory \<open>Engine_Run\<close>, with a client that delivers the trigger event once it
  was published.\<close>

definition event_client :: "(string \<times> fields) set redis_client" where
  "event_client =
     \<lparr>xadd = set_publish,
      xreadgroup = (\<lambda>g c ss n t b.
        (Inr (if (WORKFLOW_EVENTS_STREAM, event_fields) \<in> b \<and> WORKFLOW_EVENTS_STREAM \<in> fst ` set ss
              then [(WORKFLOW_EVENTS_STREAM, [(''1-0'', event_fields)])] else []), b)),
      xack = (\<lambda>s g i b. (Inr 1, b)), xautoclaim = (\<lambda>s g c t i n b. (Inr (''0-0'', [], []), b))\<rparr>"

definition closed_barrier :: "(string \<times> fields) set barrier_platform" where
  "closed_barrier = \<lparr>bp_xread = (\<lambda>ss n t b. (Inr [], b)), bp_remaining = (\<lambda>_ _ _. []), bp_millis = (\<lambda>_. Inr 0), bp_text = (\<lambda>_. [])\<rparr>"

definition sample_orchestrator :: "(string \<times> fields) set orchestrator" where
  "sample_orchestrator =
     \<lparr>o_client = event_client, o_env = Map.empty, o_float_text = p_fr sample_platform, o_float_parse = p_fp sample_platform,
      o_floats = p_fl sample_platform, o_uuid5 = p_u5 sample_platform, o_policy = p_policy sample_platform,
      o_barrier = participate_in_barrier event_client closed_barrier, o_consumer = ''o1'', o_retention = 0\<rparr>"

definition system_handlers :: "(string \<times> fields) set handler_platform" where
  "system_handlers =
     \<lparr>hp_env = Map.empty, hp_floats = p_fl sample_platform, hp_digest = (\<lambda>_. 0), hp_random = (\<lambda>_. 0), hp_choice = (\<lambda>_ _. 0),
      hp_sleep_ms = (\<lambda>_. Inr ()), hp_incr = (\<lambda>k b. (Inr 1, b)), hp_barrier = participate_in_barrier event_client closed_barrier\<rparr>"

definition sample_deployment :: "(string \<times> fields) set deployment" where
  "sample_deployment =
     \<lparr>dp_orchestrator = sample_orchestrator,
      dp_worker = \<lparr>w_executor = execute_task system_handlers None, w_client = event_client, w_unit_of_work = True,
        w_attempt_repository = True, w_worker_id = ''w1'', w_task_claim_lease_seconds = 0, w_float_text = p_fr sample_platform,
        w_floats = p_fl sample_platform\<rparr>,
      dp_handlers = system_handlers, dp_barrier = closed_barrier, dp_settings = sample_settings, dp_uuid = (\<lambda>_. None), dp_int = (\<lambda>_. None),
      dp_time = (\<lambda>_. ''t'')\<rparr>"

definition two_node_request :: WorkflowSubmissionRequest where
  "two_node_request = \<lparr>sr_name = ''sample'', sr_nodes = [node_a, node_b], sr_created_by = None\<rparr>"

lemma snd_result: "snd x = y \<Longrightarrow> x = (fst x, y)"
  by auto

lemma event_client_ok: "redis_ok sample_platform event_client"
  by (auto simp: redis_ok_def event_client_def sample_platform_def delivered_messages_def split: if_splits)

lemma sample_deployed: "deployed sample_platform sample_deployment"
  using event_client_ok
  by (simp add: deployed_def Let_def shares_platform_def counter_ok_def reads_log_def sample_deployment_def sample_orchestrator_def
      system_handlers_def closed_barrier_def delivered_messages_def)

lemma request_submitted:
  "snd (submit_workflow (default_validator (p_env sample_platform) (p_fr sample_platform)) (p_model sample_platform)
     (dp_time sample_deployment) two_node_request 1 0 empty_db) = db_submitted"
  by code_simp

lemma request_triggered: "snd (trigger_workflow_execution 9 0 1 None db_submitted) = db_triggered"
  by (simp add: trigger_workflow_execution_def triggered)

lemma round_dispatches:
  "snd (orchestrator_round sample_orchestrator (\<lambda>_ _. 11) 0 (db_triggered, {})) = (db_dispatched, {(WORKFLOW_EVENTS_STREAM, event_fields)})"
proof -
  let ?b = "{(WORKFLOW_EVENTS_STREAM, event_fields)}"
  have cleanup: "cleanup_published_outbox (fl_seconds (p_fl sample_platform)) 0 0 db_published = (Inr 0, db_published)"
    by (simp add: cleanup_published_outbox_def sample_platform_def cleanup_published_def expired_rows_def db_published_def
        run_db_def mark_published_def)
  have type: "required_field event_fields ''event_type'' ''Workflow event'' = Inr EXECUTION_TRIGGERED_EVENT_TYPE" by code_simp
  have "wn_id node_a = ''a''" by (simp add: node_a_def)
  then have ready: "\<exists>rs. dispatch_ready (p_fr sample_platform) (p_u5 sample_platform) (\<lambda>_. 11) 0 1 [''a''] db_published = (Inr rs, db_dispatched)"
    by (simp add: dispatch_ready_def dispatch_many_def loaded_a dispatched_a)
  have retries: "publish_due_retries (p_fr sample_platform) set_publish 0 db_dispatched ?b = (Inr 0, db_dispatched, ?b)"
    by (simp add: publish_due_retries_def get_due_retries_def db_dispatched_def run_db_def table_simps run_transaction_def attempt_row_def empty_db_def)
  from ready show ?thesis
    by (auto simp: orchestrator_round_def sample_orchestrator_def io_catch_def io_bind_def event_client_def published io_db_def cleanup
        trigger_consume_once_def consume_def io_redis_def delivered_messages_def handle_trigger_message_def type decoded roots_ready
        ack_def completion_consume_once_def retries worker_streams [symmetric])
qed

theorem processes_refine_engine_witness:
  "\<exists>s. engine_reachable sample_platform s \<and> eng_db s = db_dispatched \<and> eng_broker s = {(WORKFLOW_EVENTS_STREAM, event_fields)}"
proof -
  have "system_step sample_platform sample_deployment (empty_db, {}) (db_submitted, {})"
    by (rule sys_submit [OF snd_result [OF request_submitted]])
  moreover have "system_step sample_platform sample_deployment (db_submitted, {}) (db_triggered, {})"
    by (rule sys_trigger [OF snd_result [OF request_triggered]])
  moreover have "system_step sample_platform sample_deployment (db_triggered, {}) (db_dispatched, {(WORKFLOW_EVENTS_STREAM, event_fields)})"
    by (rule sys_round, unfold sample_deployment_def deployment.select_convs, rule snd_result [OF round_dispatches])
  moreover have "p_broker sample_platform = {}" by (simp add: sample_platform_def)
  ultimately have "system_reachable sample_platform sample_deployment (db_dispatched, {(WORKFLOW_EVENTS_STREAM, event_fields)})"
    by (auto intro: rtranclp.rtrancl_into_rtrancl)
  then show ?thesis by (rule processes_refine_engine [OF sample_platform_ok sample_deployed])
qed

end
