(* ===== verification/Stream_Setup.thy ===== *)
theory Stream_Setup
  imports Orchestrator
begin

text \<open>
  The script that creates the consumer groups before the processes start (\<open>scripts/init-redis-streams.py\<close>). The client
  of the redis package is an argument; its output on the terminal is left out.
\<close>

definition TASKS_STREAM :: string where "TASKS_STREAM = ''workflow.tasks''"
definition EVENTS_STREAM :: string where "EVENTS_STREAM = ''workflow.events''"
definition TASK_COMPLETIONS_STREAM :: string where "TASK_COMPLETIONS_STREAM = ''workflow.task-completions''"
definition WORKER_GROUP :: string where "WORKER_GROUP = ''workers''"
definition ORCHESTRATOR_GROUP :: string where "ORCHESTRATOR_GROUP = ''orchestrator''"
definition COMPLETIONS_GROUP :: string where "COMPLETIONS_GROUP = ''orchestrator-completions''"

record 'b admin_client =
  ac_ping :: "'b \<Rightarrow> (error + bool) \<times> 'b"
  ac_xgroup_create :: "string \<Rightarrow> string \<Rightarrow> string \<Rightarrow> bool \<Rightarrow> 'b \<Rightarrow> (error + unit) \<times> 'b"
  ac_close :: "'b \<Rightarrow> (error + unit) \<times> 'b"

text \<open>\<open>pattern in text\<close>\<close>

fun py_contains :: "string \<Rightarrow> string \<Rightarrow> bool" where
  "py_contains pat [] \<longleftrightarrow> pat = []"
| "py_contains pat (c # cs) \<longleftrightarrow> strip_prefix pat (c # cs) \<noteq> None \<or> py_contains pat cs"

definition is_busy_group :: "error \<Rightarrow> bool" where
  "is_busy_group e = (case e of ResponseError m \<Rightarrow> py_contains ''BUSYGROUP'' m | _ \<Rightarrow> False)"

definition ensure_group :: "'b admin_client \<Rightarrow> string \<Rightarrow> string \<Rightarrow> 'b \<Rightarrow> (error + unit) \<times> 'b" where
  "ensure_group client stream groupname b =
     (case ac_xgroup_create client stream groupname ''0'' True b of
        (Inl e, b') \<Rightarrow> if is_busy_group e then (Inr (), b') else (Inl e, b')
      | (Inr _, b') \<Rightarrow> (Inr (), b'))"

fun ensure_groups :: "'b admin_client \<Rightarrow> (string \<times> string) list \<Rightarrow> 'b \<Rightarrow> (error + unit) \<times> 'b" where
  "ensure_groups client [] b = (Inr (), b)"
| "ensure_groups client ((stream, groupname) # gs) b =
     (case ensure_group client stream groupname b of
        (Inl e, b') \<Rightarrow> (Inl e, b')
      | (Inr _, b') \<Rightarrow> ensure_groups client gs b')"

text \<open>\<open>try: ... finally: client.close()\<close>: an exception of \<open>close\<close> replaces the outcome.\<close>

definition init_main :: "environment \<Rightarrow> (string \<Rightarrow> error + 'b admin_client) \<Rightarrow> 'b \<Rightarrow> (error + unit) \<times> 'b" where
  "init_main env from_url b =
     (case env ''REDIS_URL'' of
        None \<Rightarrow> (Inl (RuntimeError ''REDIS_URL environment variable is required''), b)
      | Some redis_url \<Rightarrow>
          if redis_url = [] then (Inl (RuntimeError ''REDIS_URL environment variable is required''), b)
          else
            (case from_url redis_url of
               Inl e \<Rightarrow> (Inl e, b)
             | Inr client \<Rightarrow>
                 (case (case ac_ping client b of
                          (Inl e, b1) \<Rightarrow> (Inl e, b1)
                        | (Inr _, b1) \<Rightarrow> ensure_groups client [(TASKS_STREAM, WORKER_GROUP), (EVENTS_STREAM, ORCHESTRATOR_GROUP),
                            (TASK_COMPLETIONS_STREAM, COMPLETIONS_GROUP)] b1) of
                    (r, b2) \<Rightarrow>
                      (case ac_close client b2 of
                         (Inl e, b3) \<Rightarrow> (Inl e, b3)
                       | (Inr _, b3) \<Rightarrow> (r, b3)))))"

section \<open>The groups the processes read with\<close>

text \<open>What is relied on of Redis, with \<open>grp b\<close> the groups of state \<open>b\<close>: a created group is there, a creation that
  fails changes no group and is refused as \<open>BUSYGROUP\<close> only when the group exists.\<close>

definition group_semantics :: "('b \<Rightarrow> (string \<times> string) set) \<Rightarrow> 'b admin_client \<Rightarrow> bool" where
  "group_semantics grp client \<longleftrightarrow>
     (\<forall>b r b'. ac_ping client b = (r, b') \<longrightarrow> grp b' = grp b) \<and> (\<forall>b r b'. ac_close client b = (r, b') \<longrightarrow> grp b' = grp b) \<and>
     (\<forall>s g i m b r b'. ac_xgroup_create client s g i m b = (r, b') \<longrightarrow>
        (case r of Inr _ \<Rightarrow> grp b' = insert (s, g) (grp b) | Inl e \<Rightarrow> grp b' = grp b \<and> (is_busy_group e \<longrightarrow> (s, g) \<in> grp b)))"

text \<open>While Redis is reachable, the only refusal of a creation is \<open>BUSYGROUP\<close>.\<close>

definition admin_reachable :: "'b admin_client \<Rightarrow> bool" where
  "admin_reachable client \<longleftrightarrow> (\<forall>b. \<exists>x b'. ac_ping client b = (Inr x, b')) \<and> (\<forall>b. \<exists>b'. ac_close client b = (Inr (), b')) \<and>
     (\<forall>s g i m b e b'. ac_xgroup_create client s g i m b = (Inl e, b') \<longrightarrow> is_busy_group e)"

definition consumer_groups :: "(string \<times> string) set" where
  "consumer_groups = {(WORKFLOW_TASKS_STREAM, WORKFLOW_TASKS_GROUP), (WORKFLOW_EVENTS_STREAM, ORCHESTRATOR_EVENTS_GROUP),
     (WORKFLOW_TASK_COMPLETIONS_STREAM, ORCHESTRATOR_COMPLETIONS_GROUP)}"

lemma consumer_groups_script:
  "consumer_groups = set [(TASKS_STREAM, WORKER_GROUP), (EVENTS_STREAM, ORCHESTRATOR_GROUP), (TASK_COMPLETIONS_STREAM, COMPLETIONS_GROUP)]"
  by (simp add: consumer_groups_def WORKFLOW_TASKS_STREAM_def WORKFLOW_TASKS_GROUP_def WORKFLOW_EVENTS_STREAM_def
      ORCHESTRATOR_EVENTS_GROUP_def WORKFLOW_TASK_COMPLETIONS_STREAM_def ORCHESTRATOR_COMPLETIONS_GROUP_def TASKS_STREAM_def
      EVENTS_STREAM_def TASK_COMPLETIONS_STREAM_def WORKER_GROUP_def ORCHESTRATOR_GROUP_def COMPLETIONS_GROUP_def)

lemma ensure_group_effect:
  assumes "group_semantics grp client" and "ensure_group client s g b = (r, b')"
  shows "grp b \<subseteq> grp b' \<and> grp b' \<subseteq> insert (s, g) (grp b) \<and> (r = Inr () \<longrightarrow> (s, g) \<in> grp b') \<and>
    (admin_reachable client \<longrightarrow> r = Inr ())"
proof -
  obtain x b1 where x: "ac_xgroup_create client s g ''0'' True b = (x, b1)" by fastforce
  have "case x of Inr _ \<Rightarrow> grp b1 = insert (s, g) (grp b) | Inl e \<Rightarrow> grp b1 = grp b \<and> (is_busy_group e \<longrightarrow> (s, g) \<in> grp b)"
    using assms(1) x unfolding group_semantics_def by blast
  moreover have "is_busy_group e" if "admin_reachable client" "x = Inl e" for e
    using that x unfolding admin_reachable_def by blast
  ultimately show ?thesis
    using assms(2) x by (cases x) (auto simp: ensure_group_def split: if_splits)
qed

lemma ensure_groups_effect:
  assumes "group_semantics grp client" and "ensure_groups client gs b = (r, b')"
  shows "grp b \<subseteq> grp b' \<and> grp b' \<subseteq> grp b \<union> set gs \<and> (r = Inr () \<longrightarrow> set gs \<subseteq> grp b') \<and>
    (admin_reachable client \<longrightarrow> r = Inr ())"
  using assms(2)
proof (induction gs arbitrary: b)
  case Nil
  then show ?case by auto
next
  case (Cons x gs)
  obtain s g where x: "x = (s, g)" by fastforce
  obtain r1 b1 where r1: "ensure_group client s g b = (r1, b1)" by fastforce
  note e = ensure_group_effect [OF assms(1) r1]
  show ?case
  proof (cases r1)
    case (Inl err)
    with Cons.prems r1 e x show ?thesis by auto
  next
    case (Inr u)
    with Cons.prems r1 x have "ensure_groups client gs b1 = (r, b')" by simp
    from Cons.IH [OF this] e Inr x show ?thesis by auto
  qed
qed

text \<open>C31: the groups exist before they are read. When the script ends without an exception, every stream the workers
  and the orchestrator read has the group they read it with, and no other group was created; while Redis is
  reachable it does so however often it is run; a failing run removes nothing.\<close>

theorem consumer_groups_initialized:
  assumes "env ''REDIS_URL'' = Some url" and "url \<noteq> []" and "from_url url = Inr client" and "group_semantics grp client"
    and "init_main env from_url b = (r, b')"
  shows "grp b \<subseteq> grp b' \<and> grp b' \<subseteq> grp b \<union> consumer_groups \<and> (r = Inr () \<longrightarrow> grp b' = grp b \<union> consumer_groups) \<and>
    (admin_reachable client \<longrightarrow> r = Inr ())"
proof -
  define gs where "gs = [(TASKS_STREAM, WORKER_GROUP), (EVENTS_STREAM, ORCHESTRATOR_GROUP), (TASK_COMPLETIONS_STREAM, COMPLETIONS_GROUP)]"
  obtain p b1 where p: "ac_ping client b = (p, b1)" by fastforce
  obtain r2 b2 where r2: "(case p of Inl e \<Rightarrow> (Inl e, b1) | Inr _ \<Rightarrow> ensure_groups client gs b1) = (r2, b2)" by fastforce
  obtain c b3 where c: "ac_close client b2 = (c, b3)" by fastforce
  have same: "grp b1 = grp b" "grp b3 = grp b2" using assms(4) p c unfolding group_semantics_def by blast+
  have reach: "admin_reachable client \<Longrightarrow> (\<exists>x. p = Inr x) \<and> c = Inr ()"
    using p c unfolding admin_reachable_def by (metis fst_conv)
  have r: "b' = b3" "r = (case c of Inl e \<Rightarrow> Inl e | Inr _ \<Rightarrow> r2)"
    using assms(1-3,5) p r2 c by (auto simp: init_main_def gs_def [symmetric] split: sum.splits prod.splits)
  have "grp b1 \<subseteq> grp b2 \<and> grp b2 \<subseteq> grp b1 \<union> set gs \<and> (r2 = Inr () \<longrightarrow> set gs \<subseteq> grp b2) \<and>
      (admin_reachable client \<longrightarrow> r2 = Inr ())"
    using r2 reach ensure_groups_effect [OF assms(4), of gs b1 r2 b2] by (cases p) auto
  then show ?thesis
    unfolding consumer_groups_script gs_def [symmetric] r(1) same(2) unfolding same(1) using r(2) reach by (auto split: sum.splits)
qed

definition group_client :: "(string \<times> string) list admin_client" where
  "group_client =
     \<lparr>ac_ping = (\<lambda>b. (Inr True, b)),
      ac_xgroup_create = (\<lambda>s g i m b. if (s, g) \<in> set b then (Inl (ResponseError ''BUSYGROUP Consumer Group name already exists''), b)
        else (Inr (), (s, g) # b)),
      ac_close = (\<lambda>b. (Inr (), b))\<rparr>"

theorem consumer_groups_initialized_witness:
  "\<exists>b'. init_main [''REDIS_URL'' \<mapsto> ''redis://redis''] (\<lambda>_. Inr group_client) [(''workflow.tasks'', ''workers'')] = (Inr (), b') \<and>
     set b' = consumer_groups"
proof -
  let ?b = "[(''workflow.tasks'', ''workers'')]"
  obtain r b' where run: "init_main [''REDIS_URL'' \<mapsto> ''redis://redis''] (\<lambda>_. Inr group_client) ?b = (r, b')" by fastforce
  have busy: "is_busy_group (ResponseError ''BUSYGROUP Consumer Group name already exists'')" by code_simp
  have sem: "group_semantics set group_client" by (auto simp: group_semantics_def group_client_def split: if_splits)
  have ok: "admin_reachable group_client" by (auto simp: admin_reachable_def group_client_def busy split: if_splits)
  have "set ?b \<subseteq> consumer_groups"
    by (simp add: consumer_groups_def WORKFLOW_TASKS_STREAM_def WORKFLOW_TASKS_GROUP_def)
  moreover from consumer_groups_initialized [OF _ _ _ sem run, of "''redis://redis''"] ok
  have "r = Inr ()" "set b' = set ?b \<union> consumer_groups" by auto
  ultimately show ?thesis using run by auto
qed

end
