(* ===== verification/Catalog.thy ===== *)
theory Catalog
  imports Py_Values "HOL-Library.AList"
begin

text \<open>
  The schema operations the migrations use (\<open>alembic.op\<close>): what each does to a catalog of tables with their
  columns, constraints, indexes and rows. An operation fails, as the statement it issues does in PostgreSQL, when
  what it names is missing, already there or still needed, or when a stored row violates the new constraint.
\<close>

section \<open>Tables\<close>

datatype column_type = SqlUUID | SqlString nat | SqlText | SqlInteger | SqlJSONB | SqlTimestamp

datatype server_default = ServerNow | ServerText string

record column =
  col_name :: string
  col_type :: column_type
  col_nullable :: bool
  col_default :: "server_default option"

text \<open>A foreign key names its columns, the referenced table and columns, and the action on deletion; the check
  constraints of the program restrict a column to given texts.\<close>

datatype table_constraint =
    PrimaryKeyConstraint "string list"
  | ForeignKeyConstraint "string list" string "string list" string
  | UniqueConstraint "string list"
  | CheckIn string "string list"

type_synonym row = "(string \<times> pyval option) list"

record table_def =
  tab_columns :: "column list"
  tab_constraints :: "(string \<times> table_constraint) set"
  tab_indexes :: "(string \<times> string list \<times> bool) set"
  tab_rows :: "row list"

type_synonym schema = "(string \<times> table_def) list"

datatype ddl_error =
    DuplicateTable string | UndefinedTable string | DuplicateColumn string | UndefinedColumn string
  | DuplicateObject string | UndefinedObject string | DependentObjects string
  | NotNullViolation string | CheckViolation string | ForeignKeyViolation string | UniqueViolation string

definition cell :: "row \<Rightarrow> string \<Rightarrow> pyval option" where
  "cell r c = (case map_of r c of None \<Rightarrow> None | Some v \<Rightarrow> v)"

definition has_columns :: "table_def \<Rightarrow> string list \<Rightarrow> bool" where
  "has_columns tab cs = list_all (\<lambda>c. c \<in> col_name ` set (tab_columns tab)) cs"

definition on_table :: "string \<Rightarrow> (table_def \<Rightarrow> ddl_error + table_def) \<Rightarrow> schema \<Rightarrow> ddl_error + schema" where
  "on_table t f sch =
     (case map_of sch t of
        None \<Rightarrow> Inl (UndefinedTable t)
      | Some tab \<Rightarrow> (case f tab of Inl e \<Rightarrow> Inl e | Inr tab' \<Rightarrow> Inr (AList.update t tab' sch)))"

text \<open>The names PostgreSQL gives to constraints without one.\<close>

fun joined :: "string list \<Rightarrow> string" where
  "joined [] = []"
| "joined (c # cs) = ''_'' @ c @ joined cs"

fun constraint_name :: "string \<Rightarrow> string option \<times> table_constraint \<Rightarrow> string" where
  "constraint_name t (Some name, c) = name"
| "constraint_name t (None, PrimaryKeyConstraint cs) = t @ ''_pkey''"
| "constraint_name t (None, ForeignKeyConstraint cs _ _ _) = t @ joined cs @ ''_fkey''"
| "constraint_name t (None, UniqueConstraint cs) = t @ joined cs @ ''_key''"
| "constraint_name t (None, CheckIn c _) = t @ ''_'' @ c @ ''_check''"

fun constraint_columns :: "table_constraint \<Rightarrow> string list" where
  "constraint_columns (PrimaryKeyConstraint cs) = cs"
| "constraint_columns (ForeignKeyConstraint cs _ _ _) = cs"
| "constraint_columns (UniqueConstraint cs) = cs"
| "constraint_columns (CheckIn c _) = [c]"

text \<open>A foreign key needs a key of the referenced table.\<close>

fun target_exists :: "schema \<Rightarrow> table_constraint \<Rightarrow> bool" where
  "target_exists sch (ForeignKeyConstraint _ t cs _) =
     (case map_of sch t of
        None \<Rightarrow> False
      | Some tab \<Rightarrow> PrimaryKeyConstraint cs \<in> snd ` tab_constraints tab \<or> UniqueConstraint cs \<in> snd ` tab_constraints tab)"
| "target_exists sch _ = True"

fun references :: "string \<Rightarrow> table_constraint \<Rightarrow> bool" where
  "references t (ForeignKeyConstraint _ t' _ _) = (t' = t)"
| "references t _ = False"

definition referenced_elsewhere :: "schema \<Rightarrow> string \<Rightarrow> bool" where
  "referenced_elsewhere sch t =
     list_ex (\<lambda>(t', tab). t' \<noteq> t \<and> (\<exists>(_, c) \<in> tab_constraints tab. references t c)) sch"

section \<open>Schema operations\<close>

definition keep :: "('a \<Rightarrow> bool) \<Rightarrow> 'a set \<Rightarrow> 'a set" where
  "keep P A = {x \<in> A. P x}"

lemma keep_insert [simp]:
  "keep P {} = {}"
  "keep P (insert x A) = (if P x then insert x (keep P A) else keep P A)"
  by (auto simp: keep_def)

definition create_table ::
    "string \<Rightarrow> column list \<Rightarrow> (string option \<times> table_constraint) list \<Rightarrow> schema \<Rightarrow> ddl_error + schema" where
  "create_table t cols cons sch =
     (if t \<in> fst ` set sch then Inl (DuplicateTable t)
      else if \<not> list_all (\<lambda>(_, c). target_exists sch c) cons then Inl (UndefinedObject t)
      else Inr (sch @ [(t, \<lparr>tab_columns = cols, tab_constraints = set (map (\<lambda>c. (constraint_name t c, snd c)) cons),
                         tab_indexes = {}, tab_rows = []\<rparr>)]))"

definition drop_table :: "string \<Rightarrow> schema \<Rightarrow> ddl_error + schema" where
  "drop_table t sch =
     (if t \<notin> fst ` set sch then Inl (UndefinedTable t)
      else if referenced_elsewhere sch t then Inl (DependentObjects t)
      else Inr (AList.delete t sch))"

definition unique_rows :: "row list \<Rightarrow> string list \<Rightarrow> bool" where
  "unique_rows rows cs = distinct (filter (\<lambda>k. None \<notin> set k) (map (\<lambda>r. map (cell r) cs) rows))"

definition create_index :: "string \<Rightarrow> string \<Rightarrow> string list \<Rightarrow> bool \<Rightarrow> schema \<Rightarrow> ddl_error + schema" where
  "create_index name t cs uniq sch =
     (if list_ex (\<lambda>(_, tab). name \<in> fst ` tab_indexes tab) sch then Inl (DuplicateObject name)
      else on_table t (\<lambda>tab.
        if \<not> has_columns tab cs then Inl (UndefinedColumn name)
        else if uniq \<and> \<not> unique_rows (tab_rows tab) cs then Inl (UniqueViolation name)
        else Inr (tab\<lparr>tab_indexes := insert (name, cs, uniq) (tab_indexes tab)\<rparr>)) sch)"

definition drop_index :: "string \<Rightarrow> string \<Rightarrow> schema \<Rightarrow> ddl_error + schema" where
  "drop_index name t =
     on_table t (\<lambda>tab.
       if name \<notin> fst ` tab_indexes tab then Inl (UndefinedObject name)
       else Inr (tab\<lparr>tab_indexes := keep (\<lambda>i. fst i \<noteq> name) (tab_indexes tab)\<rparr>))"

text \<open>The revisions add only nullable columns without a default: the rows get the null value.\<close>

definition add_column :: "string \<Rightarrow> column \<Rightarrow> schema \<Rightarrow> ddl_error + schema" where
  "add_column t c =
     on_table t (\<lambda>tab.
       if col_name c \<in> col_name ` set (tab_columns tab) then Inl (DuplicateColumn (col_name c))
       else if \<not> col_nullable c \<and> tab_rows tab \<noteq> [] then Inl (NotNullViolation (col_name c))
       else Inr (tab\<lparr>tab_columns := tab_columns tab @ [c], tab_rows := map (\<lambda>r. r @ [(col_name c, None)]) (tab_rows tab)\<rparr>))"

text \<open>Indexes and constraints that use the column go with it.\<close>

definition drop_column :: "string \<Rightarrow> string \<Rightarrow> schema \<Rightarrow> ddl_error + schema" where
  "drop_column t c sch =
     (if list_ex (\<lambda>(_, tab). \<exists>(_, k) \<in> tab_constraints tab.
          case k of ForeignKeyConstraint _ t' cs _ \<Rightarrow> t' = t \<and> c \<in> set cs | _ \<Rightarrow> False) sch
      then Inl (DependentObjects c)
      else on_table t (\<lambda>tab.
       if c \<notin> col_name ` set (tab_columns tab) then Inl (UndefinedColumn c)
       else Inr \<lparr>tab_columns = filter (\<lambda>x. col_name x \<noteq> c) (tab_columns tab),
                 tab_constraints = keep (\<lambda>k. c \<notin> set (constraint_columns (snd k))) (tab_constraints tab),
                 tab_indexes = keep (\<lambda>(n, cs, u). c \<notin> set cs) (tab_indexes tab),
                 tab_rows = map (filter (\<lambda>x. fst x \<noteq> c)) (tab_rows tab)\<rparr>) sch)"

definition renamed :: "string \<Rightarrow> string \<Rightarrow> string \<Rightarrow> string" where
  "renamed c c' x = (if x = c then c' else x)"

fun rename_own :: "string \<Rightarrow> string \<Rightarrow> table_constraint \<Rightarrow> table_constraint" where
  "rename_own c c' (PrimaryKeyConstraint cs) = PrimaryKeyConstraint (map (renamed c c') cs)"
| "rename_own c c' (ForeignKeyConstraint cs t cs' d) = ForeignKeyConstraint (map (renamed c c') cs) t cs' d"
| "rename_own c c' (UniqueConstraint cs) = UniqueConstraint (map (renamed c c') cs)"
| "rename_own c c' (CheckIn x vs) = CheckIn (renamed c c' x) vs"

fun rename_target :: "string \<Rightarrow> string \<Rightarrow> string \<Rightarrow> table_constraint \<Rightarrow> table_constraint" where
  "rename_target t c c' (ForeignKeyConstraint cs t' cs' d) =
     ForeignKeyConstraint cs t' (if t' = t then map (renamed c c') cs' else cs') d"
| "rename_target t c c' k = k"

definition rename_column_in :: "string \<Rightarrow> string \<Rightarrow> table_def \<Rightarrow> table_def" where
  "rename_column_in c c' tab =
     \<lparr>tab_columns = map (\<lambda>x. x\<lparr>col_name := renamed c c' (col_name x)\<rparr>) (tab_columns tab),
      tab_constraints = (\<lambda>(n, k). (n, rename_own c c' k)) ` tab_constraints tab,
      tab_indexes = (\<lambda>(n, cs, u). (n, map (renamed c c') cs, u)) ` tab_indexes tab,
      tab_rows = map (map (\<lambda>(x, v). (renamed c c' x, v))) (tab_rows tab)\<rparr>"

text \<open>\<open>alter_column(\<dots>, new_column_name=\<dots>)\<close>: constraints, indexes and foreign keys of other tables follow.\<close>

definition rename_column :: "string \<Rightarrow> string \<Rightarrow> string \<Rightarrow> schema \<Rightarrow> ddl_error + schema" where
  "rename_column t c c' sch =
     rbind (on_table t (\<lambda>tab.
        if c \<notin> col_name ` set (tab_columns tab) then Inl (UndefinedColumn c)
        else if c' \<in> col_name ` set (tab_columns tab) then Inl (DuplicateColumn c')
        else Inr (rename_column_in c c' tab)) sch) (\<lambda>sch'.
     Inr (map (\<lambda>(t', tab). (t', tab\<lparr>tab_constraints := (\<lambda>(n, k). (n, rename_target t c c' k)) ` tab_constraints tab\<rparr>)) sch'))"

text \<open>\<open>alter_column(\<dots>, nullable=\<dots>)\<close>\<close>

definition set_nullable :: "string \<Rightarrow> string \<Rightarrow> bool \<Rightarrow> schema \<Rightarrow> ddl_error + schema" where
  "set_nullable t c b =
     on_table t (\<lambda>tab.
       if c \<notin> col_name ` set (tab_columns tab) then Inl (UndefinedColumn c)
       else if b \<and> (\<exists>(_, k) \<in> tab_constraints tab. case k of PrimaryKeyConstraint cs \<Rightarrow> c \<in> set cs | _ \<Rightarrow> False)
       then Inl (DependentObjects c)
       else if \<not> b \<and> list_ex (\<lambda>r. cell r c = None) (tab_rows tab) then Inl (NotNullViolation c)
       else Inr (tab\<lparr>tab_columns := map (\<lambda>x. if col_name x = c then x\<lparr>col_nullable := b\<rparr> else x) (tab_columns tab)\<rparr>))"

text \<open>The revisions drop foreign keys and check constraints, on which nothing else depends.\<close>

definition drop_constraint :: "string \<Rightarrow> string \<Rightarrow> schema \<Rightarrow> ddl_error + schema" where
  "drop_constraint name t =
     on_table t (\<lambda>tab.
       if name \<notin> fst ` tab_constraints tab then Inl (UndefinedObject name)
       else Inr (tab\<lparr>tab_constraints := keep (\<lambda>k. fst k \<noteq> name) (tab_constraints tab)\<rparr>))"

definition add_constraint :: "string \<Rightarrow> table_constraint \<Rightarrow> table_def \<Rightarrow> ddl_error + table_def" where
  "add_constraint name k tab =
     (if name \<in> fst ` tab_constraints tab then Inl (DuplicateObject name)
      else if \<not> has_columns tab (constraint_columns k) then Inl (UndefinedColumn name)
      else Inr (tab\<lparr>tab_constraints := insert (name, k) (tab_constraints tab)\<rparr>))"

text \<open>A check constraint accepts the null value.\<close>

definition create_check_constraint :: "string \<Rightarrow> string \<Rightarrow> string \<Rightarrow> string list \<Rightarrow> schema \<Rightarrow> ddl_error + schema" where
  "create_check_constraint name t c vs =
     on_table t (\<lambda>tab.
       rbind (add_constraint name (CheckIn c vs) tab) (\<lambda>tab'.
       if list_all (\<lambda>r. cell r c = None \<or> cell r c \<in> Some ` PStr ` set vs) (tab_rows tab) then Inr tab'
       else Inl (CheckViolation name)))"

definition create_foreign_key ::
    "string \<Rightarrow> string \<Rightarrow> string \<Rightarrow> string list \<Rightarrow> string list \<Rightarrow> string \<Rightarrow> schema \<Rightarrow> ddl_error + schema" where
  "create_foreign_key name t t' cs cs' ondelete sch =
     (if \<not> target_exists sch (ForeignKeyConstraint cs t' cs' ondelete) then Inl (UndefinedObject t')
      else on_table t (\<lambda>tab.
        rbind (add_constraint name (ForeignKeyConstraint cs t' cs' ondelete) tab) (\<lambda>tab'.
        if list_all (\<lambda>r. (\<exists>c \<in> set cs. cell r c = None) \<or>
             map (cell r) cs \<in> (\<lambda>r'. map (cell r') cs') ` set (tab_rows (the (map_of sch t')))) (tab_rows tab)
        then Inr tab' else Inl (ForeignKeyViolation name))) sch)"

text \<open>\<open>UPDATE t SET c = v WHERE c = w\<close>, with \<open>IS NULL\<close> for \<open>None\<close>.\<close>

definition update_column :: "string \<Rightarrow> string \<Rightarrow> string \<Rightarrow> string option \<Rightarrow> schema \<Rightarrow> ddl_error + schema" where
  "update_column t c v w =
     on_table t (\<lambda>tab.
       if c \<notin> col_name ` set (tab_columns tab) then Inl (UndefinedColumn c)
       else Inr (tab\<lparr>tab_rows := map (\<lambda>r. if cell r c = map_option PStr w then AList.update c (Some (PStr v)) r else r)
          (tab_rows tab)\<rparr>))"

datatype operation =
    CreateTable string "column list" "(string option \<times> table_constraint) list"
  | DropTable string
  | CreateIndex string string "string list" bool
  | DropIndex string string
  | AddColumn string column
  | DropColumn string string
  | RenameColumn string string string
  | SetNullable string string bool
  | DropConstraint string string
  | CreateCheckConstraint string string string "string list"
  | CreateForeignKey string string string "string list" "string list" string
  | UpdateColumn string string string "string option"

fun operate :: "operation \<Rightarrow> schema \<Rightarrow> ddl_error + schema" where
  "operate (CreateTable t cols cons) = create_table t cols cons"
| "operate (DropTable t) = drop_table t"
| "operate (CreateIndex name t cs uniq) = create_index name t cs uniq"
| "operate (DropIndex name t) = drop_index name t"
| "operate (AddColumn t c) = add_column t c"
| "operate (DropColumn t c) = drop_column t c"
| "operate (RenameColumn t c c') = rename_column t c c'"
| "operate (SetNullable t c b) = set_nullable t c b"
| "operate (DropConstraint name t) = drop_constraint name t"
| "operate (CreateCheckConstraint name t c vs) = create_check_constraint name t c vs"
| "operate (CreateForeignKey name t t' cs cs' ondelete) = create_foreign_key name t t' cs cs' ondelete"
| "operate (UpdateColumn t c v w) = update_column t c v w"

fun operate_all :: "operation list \<Rightarrow> schema \<Rightarrow> ddl_error + schema" where
  "operate_all [] sch = Inr sch"
| "operate_all (p # ps) sch = rbind (operate p sch) (operate_all ps)"

section \<open>Schemas and stored rows\<close>

text \<open>The schema of a database: its tables without their rows.\<close>

definition erase_table :: "table_def \<Rightarrow> table_def" where
  "erase_table tab = tab\<lparr>tab_rows := []\<rparr>"

definition erase_rows :: "schema \<Rightarrow> schema" where
  "erase_rows sch = map (\<lambda>(t, tab). (t, erase_table tab)) sch"

text \<open>The errors by which an operation reports that a stored row stands in its way.\<close>

fun violations :: "operation \<Rightarrow> ddl_error set" where
  "violations (CreateIndex name t cs uniq) = (if uniq then {UniqueViolation name} else {})"
| "violations (AddColumn t c) = (if col_nullable c then {} else {NotNullViolation (col_name c)})"
| "violations (SetNullable t c b) = (if b then {} else {NotNullViolation c})"
| "violations (CreateCheckConstraint name t c vs) = {CheckViolation name}"
| "violations (CreateForeignKey name t t' cs cs' d) = {ForeignKeyViolation name}"
| "violations p = {}"

text \<open>The outcome on a database against the outcome on its schema: the schema of the result, the same error, or an error
  in \<open>V\<close> where the schema allows the operation.\<close>

definition erased_outcome :: "ddl_error set \<Rightarrow> ('a \<Rightarrow> 'a) \<Rightarrow> ddl_error + 'a \<Rightarrow> ddl_error + 'a \<Rightarrow> bool" where
  "erased_outcome V er r r0 \<longleftrightarrow>
     (case r of Inr x \<Rightarrow> r0 = Inr (er x) | Inl e \<Rightarrow> r0 = Inl e \<or> e \<in> V \<and> (\<exists>x. r0 = Inr x))"

lemma erase_table_sel [simp]:
  "tab_columns (erase_table tab) = tab_columns tab" "tab_constraints (erase_table tab) = tab_constraints tab"
  "tab_indexes (erase_table tab) = tab_indexes tab" "tab_rows (erase_table tab) = []"
  by (simp_all add: erase_table_def)

lemma erase_rows_simps [simp]:
  "erase_rows [] = []" "erase_rows ((t, tab) # sch) = (t, erase_table tab) # erase_rows sch"
  "erase_rows (sch @ sch') = erase_rows sch @ erase_rows sch'"
  "erase_rows (erase_rows sch) = erase_rows sch" "fst ` set (erase_rows sch) = fst ` set sch"
  by (auto simp: erase_rows_def erase_table_def image_image case_prod_beta)

lemma erase_rows_lookup [simp]: "map_of (erase_rows sch) t = map_option erase_table (map_of sch t)"
  by (induction sch) auto

lemma erase_rows_update [simp]: "AList.update t (erase_table tab) (erase_rows sch) = erase_rows (AList.update t tab sch)"
  by (induction sch) auto

lemma erase_rows_delete [simp]: "AList.delete t (erase_rows sch) = erase_rows (AList.delete t sch)"
  by (induction sch) (auto simp: AList.delete_eq)

lemma list_ex_erase: "(\<And>t tab. f (t, erase_table tab) = f (t, tab)) \<Longrightarrow> list_ex f (erase_rows sch) = list_ex f sch"
  by (induction sch) auto

lemma target_exists_erase [simp]: "target_exists (erase_rows sch) c = target_exists sch c"
  by (cases c) (auto split: option.split)

lemma on_table_erased:
  assumes "\<And>tab. map_of sch t = Some tab \<Longrightarrow> erased_outcome V erase_table (f tab) (f' (erase_table tab))"
  shows "erased_outcome V erase_rows (on_table t f sch) (on_table t f' (erase_rows sch))"
  using assms by (auto simp: on_table_def erased_outcome_def split: option.splits sum.splits)

lemma rename_column_erased: "erased_outcome {} erase_rows (rename_column t c c' sch) (rename_column t c c' (erase_rows sch))"
proof -
  let ?f = "\<lambda>tab. if c \<notin> col_name ` set (tab_columns tab) then Inl (UndefinedColumn c)
        else if c' \<in> col_name ` set (tab_columns tab) then Inl (DuplicateColumn c') else Inr (rename_column_in c c' tab)"
  let ?g = "map (\<lambda>(t', tab). (t', tab\<lparr>tab_constraints := (\<lambda>(n, k). (n, rename_target t c c' k)) ` tab_constraints tab\<rparr>))"
  have "erased_outcome {} erase_rows (on_table t ?f sch) (on_table t ?f (erase_rows sch))"
    by (rule on_table_erased) (simp add: erased_outcome_def rename_column_in_def erase_table_def)
  moreover have "?g (erase_rows sch') = erase_rows (?g sch')" for sch'
    by (induction sch') (auto simp: erase_table_def)
  ultimately show ?thesis
    by (cases "on_table t ?f sch") (auto simp: rename_column_def erased_outcome_def)
qed

lemma create_foreign_key_erased:
  "erased_outcome {ForeignKeyViolation name} erase_rows (create_foreign_key name t t' cs cs' d sch)
     (create_foreign_key name t t' cs cs' d (erase_rows sch))"
proof (cases "target_exists sch (ForeignKeyConstraint cs t' cs' d)")
  case True
  then show ?thesis
    unfolding create_foreign_key_def target_exists_erase
    by (simp del: target_exists.simps, intro on_table_erased)
      (auto simp: erased_outcome_def add_constraint_def has_columns_def erase_table_def)
next
  case False
  then show ?thesis unfolding create_foreign_key_def target_exists_erase by (simp add: erased_outcome_def del: target_exists.simps)
qed

lemma operate_erased: "erased_outcome (violations p) erase_rows (operate p sch) (operate p (erase_rows sch))"
proof (cases p)
  case (CreateTable t cols cons)
  then show ?thesis by (auto simp: erased_outcome_def create_table_def erase_table_def list_all_iff)
next
  case (DropTable t)
  then show ?thesis by (auto simp: erased_outcome_def drop_table_def referenced_elsewhere_def list_ex_erase)
next
  case (CreateIndex name t cs uniq)
  have ex: "list_ex (\<lambda>(_, tab). name \<in> fst ` tab_indexes tab) (erase_rows sch) = list_ex (\<lambda>(_, tab). name \<in> fst ` tab_indexes tab) sch"
    by (rule list_ex_erase) simp
  show ?thesis
    unfolding CreateIndex operate.simps create_index_def ex violations.simps
    by (auto simp: erased_outcome_def [of _ _ "Inl _"] intro!: on_table_erased)
      (auto simp: erased_outcome_def has_columns_def unique_rows_def erase_table_def)
next
  case (DropColumn t c)
  have ex: "list_ex (\<lambda>(_, tab). \<exists>(_, k) \<in> tab_constraints tab.
      case k of ForeignKeyConstraint _ t' cs _ \<Rightarrow> t' = t \<and> c \<in> set cs | _ \<Rightarrow> False) (erase_rows sch) =
    list_ex (\<lambda>(_, tab). \<exists>(_, k) \<in> tab_constraints tab.
      case k of ForeignKeyConstraint _ t' cs _ \<Rightarrow> t' = t \<and> c \<in> set cs | _ \<Rightarrow> False) sch"
    by (rule list_ex_erase) simp
  show ?thesis
    unfolding DropColumn operate.simps drop_column_def ex violations.simps
    by (auto simp: erased_outcome_def [of _ _ "Inl _"] intro!: on_table_erased) (auto simp: erased_outcome_def erase_table_def)
next
  case (RenameColumn t c c')
  then show ?thesis using rename_column_erased by simp
next
  case (CreateForeignKey name t t' cs cs' d)
  then show ?thesis using create_foreign_key_erased by simp
next
  case (DropIndex name t)
  show ?thesis unfolding DropIndex operate.simps violations.simps drop_index_def
    by (rule on_table_erased) (auto simp: erased_outcome_def add_constraint_def has_columns_def erase_table_def)
next
  case (AddColumn t c)
  show ?thesis unfolding AddColumn operate.simps violations.simps add_column_def
    by (rule on_table_erased) (auto simp: erased_outcome_def add_constraint_def has_columns_def erase_table_def)
next
  case (SetNullable t c b)
  show ?thesis unfolding SetNullable operate.simps violations.simps set_nullable_def
    by (rule on_table_erased) (auto simp: erased_outcome_def add_constraint_def has_columns_def erase_table_def)
next
  case (DropConstraint name t)
  show ?thesis unfolding DropConstraint operate.simps violations.simps drop_constraint_def
    by (rule on_table_erased) (auto simp: erased_outcome_def add_constraint_def has_columns_def erase_table_def)
next
  case (CreateCheckConstraint name t c vs)
  show ?thesis unfolding CreateCheckConstraint operate.simps violations.simps create_check_constraint_def
    by (rule on_table_erased) (auto simp: erased_outcome_def add_constraint_def has_columns_def erase_table_def)
next
  case (UpdateColumn t c v w)
  show ?thesis unfolding UpdateColumn operate.simps violations.simps update_column_def
    by (rule on_table_erased) (auto simp: erased_outcome_def add_constraint_def has_columns_def erase_table_def)
qed

lemma operate_all_erased: "operate_all ps sch = Inr sch' \<Longrightarrow> operate_all ps (erase_rows sch) = Inr (erase_rows sch')"
proof (induction ps arbitrary: sch)
  case (Cons p ps)
  then obtain sch1 where "operate p sch = Inr sch1" "operate_all ps sch1 = Inr sch'" by (auto simp: rbind_Inr_iff)
  with Cons.IH operate_erased [of p sch] show ?case by (auto simp: erased_outcome_def)
qed simp

text \<open>When a list of operations fails on a database whose schema allows it, the first that fails reports a violation.\<close>

lemma operate_all_blame:
  assumes "operate_all ps sch = Inl e" and "operate_all ps (erase_rows sch) = Inr s"
  shows "\<exists>qs p rs sch1. ps = qs @ p # rs \<and> operate_all qs sch = Inr sch1 \<and> operate p sch1 = Inl e \<and> e \<in> violations p"
  using assms
proof (induction ps arbitrary: sch)
  case (Cons p ps)
  show ?case
  proof (cases "operate p sch")
    case (Inl e')
    with Cons.prems operate_erased [of p sch] show ?thesis
      by (intro exI [of _ "[]"] exI [of _ p] exI [of _ ps] exI [of _ sch]) (auto simp: erased_outcome_def)
  next
    case (Inr sch1)
    with Cons.prems operate_erased [of p sch] have "operate_all ps sch1 = Inl e" "operate_all ps (erase_rows sch1) = Inr s"
      by (simp_all add: erased_outcome_def)
    from Cons.IH [OF this] obtain qs p' rs sch2 where "ps = qs @ p' # rs" "operate_all qs sch1 = Inr sch2" "operate p' sch2 = Inl e"
      "e \<in> violations p'" by blast
    with Inr show ?thesis by (intro exI [of _ "p # qs"] exI [of _ p'] exI [of _ rs] exI [of _ sch2]) simp
  qed
qed simp

text \<open>Operations that no row can stop do on a database what they do on its schema.\<close>

lemma operate_all_safe:
  assumes "operate_all ps (erase_rows sch) = Inr s" and "list_all (\<lambda>p. violations p = {}) ps"
  shows "\<exists>sch'. operate_all ps sch = Inr sch'"
proof (cases "operate_all ps sch")
  case (Inl e)
  from operate_all_blame [OF this assms(1)] assms(2) show ?thesis by auto
qed simp

subsection \<open>Columns\<close>

text \<open>The values of a column, and the operations that change them.\<close>

definition column_values :: "schema \<Rightarrow> string \<Rightarrow> string \<Rightarrow> pyval option list" where
  "column_values sch t c = (case map_of sch t of None \<Rightarrow> [] | Some tab \<Rightarrow> map (\<lambda>r. cell r c) (tab_rows tab))"

fun touches :: "string \<Rightarrow> string \<Rightarrow> operation \<Rightarrow> bool" where
  "touches t c (CreateTable t' _ _) \<longleftrightarrow> t' = t"
| "touches t c (DropTable t') \<longleftrightarrow> t' = t"
| "touches t c (AddColumn t' c') \<longleftrightarrow> t' = t \<and> col_name c' = c"
| "touches t c (DropColumn t' c') \<longleftrightarrow> t' = t \<and> c' = c"
| "touches t c (RenameColumn t' c1 c2) \<longleftrightarrow> t' = t \<and> c \<in> {c1, c2}"
| "touches t c (UpdateColumn t' c' _ _) \<longleftrightarrow> t' = t \<and> c' = c"
| "touches t c p \<longleftrightarrow> False"

lemma cell_simps:
  "cell (AList.update c v r) c' = (if c' = c then v else cell r c')"
  "c \<noteq> c' \<Longrightarrow> cell (r @ [(c', v)]) c = cell r c" "c \<noteq> c' \<Longrightarrow> cell (filter (\<lambda>x. fst x \<noteq> c') r) c = cell r c"
  "c \<noteq> c1 \<Longrightarrow> c \<noteq> c2 \<Longrightarrow> cell (map (\<lambda>(x, v). (renamed c1 c2 x, v)) r) c = cell r c"
proof -
  show "cell (AList.update c v r) c' = (if c' = c then v else cell r c')" by (simp add: cell_def update_conv')
  show "cell (r @ [(c', v)]) c = cell r c" if "c \<noteq> c'" using that by (simp add: cell_def map_add_def split: option.split)
  show "cell (filter (\<lambda>x. fst x \<noteq> c') r) c = cell r c" if "c \<noteq> c'" using that by (induction r) (auto simp: cell_def)
  show "cell (map (\<lambda>(x, v). (renamed c1 c2 x, v)) r) c = cell r c" if "c \<noteq> c1" "c \<noteq> c2"
    using that by (induction r) (auto simp: cell_def renamed_def)
qed

lemma on_table_values:
  assumes "on_table t' f sch = Inr sch'"
    and "\<And>tab tab'. t' = t \<Longrightarrow> f tab = Inr tab' \<Longrightarrow> map (\<lambda>r. cell r c) (tab_rows tab') = map (\<lambda>r. cell r c) (tab_rows tab)"
  shows "column_values sch' t c = column_values sch t c"
  using assms by (auto simp: on_table_def column_values_def update_conv' split: option.splits sum.splits if_splits)

lemma operate_values:
  assumes "operate p sch = Inr sch'" and "\<not> touches t c p"
  shows "column_values sch' t c = column_values sch t c"
proof (cases p)
  case (CreateTable t' cols cons)
  with assms show ?thesis
    by (auto simp: create_table_def column_values_def map_add_def split: if_splits option.split)
next
  case (DropTable t')
  with assms show ?thesis by (auto simp: drop_table_def column_values_def delete_conv' split: if_splits)
next
  case (RenameColumn t' c1 c2)
  let ?g = "map (\<lambda>(x, tab). (x, tab\<lparr>tab_constraints := (\<lambda>(n, k). (n, rename_target t' c1 c2 k)) ` tab_constraints tab\<rparr>))"
  have g: "column_values (?g s) t c = column_values s t c" for s by (induction s) (auto simp: column_values_def)
  from RenameColumn assms(1) obtain s where s: "sch' = ?g s" "on_table t' (\<lambda>tab.
        if c1 \<notin> col_name ` set (tab_columns tab) then Inl (UndefinedColumn c1)
        else if c2 \<in> col_name ` set (tab_columns tab) then Inl (DuplicateColumn c2)
        else Inr (rename_column_in c1 c2 tab)) sch = Inr s"
    by (auto simp: rename_column_def rbind_Inr_iff)
  have "column_values s t c = column_values sch t c"
    by (rule on_table_values [OF s(2)]) (use RenameColumn assms(2) in \<open>auto simp: rename_column_in_def cell_simps split: if_splits\<close>)
  then show ?thesis by (simp add: s(1) g)
next
  case (UpdateColumn t' c' v w)
  with assms show ?thesis
    by (auto simp: update_column_def cell_simps split: if_splits elim!: on_table_values)
qed (use assms in \<open>auto simp: create_index_def drop_index_def add_column_def drop_column_def set_nullable_def drop_constraint_def
    create_check_constraint_def add_constraint_def create_foreign_key_def rbind_Inr_iff cell_simps
    split: if_splits elim!: on_table_values\<close>)

lemma operate_all_values:
  "operate_all ps sch = Inr sch' \<Longrightarrow> list_all (\<lambda>p. \<not> touches t c p) ps \<Longrightarrow> column_values sch' t c = column_values sch t c"
  by (induction ps arbitrary: sch) (auto simp: rbind_Inr_iff dest: operate_values)

lemma update_values:
  "operate (UpdateColumn t c v w) sch = Inr sch' \<Longrightarrow>
     column_values sch' t c = map (\<lambda>x. if x = map_option PStr w then Some (PStr v) else x) (column_values sch t c)"
  by (auto simp: update_column_def on_table_def column_values_def update_conv' cell_simps split: option.splits if_splits)

text \<open>The row behind a violation.\<close>

lemma violation_row:
  "operate (SetNullable t c False) sch = Inl (NotNullViolation c) \<Longrightarrow> None \<in> set (column_values sch t c)"
  "operate (CreateCheckConstraint name t c vs) sch = Inl (CheckViolation name) \<Longrightarrow>
     \<exists>v. Some v \<in> set (column_values sch t c) \<and> v \<notin> PStr ` set vs"
  "operate (CreateForeignKey name t t' [c] [c'] d) sch = Inl (ForeignKeyViolation name) \<Longrightarrow>
     \<exists>v. Some v \<in> set (column_values sch t c) \<and> Some v \<notin> set (column_values sch t' c')"
proof -
  show "None \<in> set (column_values sch t c)" if "operate (SetNullable t c False) sch = Inl (NotNullViolation c)"
    using that by (force simp: set_nullable_def on_table_def column_values_def list_ex_iff split: option.splits if_splits)
  show "\<exists>v. Some v \<in> set (column_values sch t c) \<and> v \<notin> PStr ` set vs"
    if "operate (CreateCheckConstraint name t c vs) sch = Inl (CheckViolation name)"
  proof -
    from that obtain tab r where "map_of sch t = Some tab" "r \<in> set (tab_rows tab)" "cell r c \<noteq> None" "cell r c \<notin> Some ` PStr ` set vs"
      by (auto simp: create_check_constraint_def add_constraint_def on_table_def list_all_iff split: option.splits if_splits)
    then show ?thesis by (force simp: column_values_def)
  qed
  show "\<exists>v. Some v \<in> set (column_values sch t c) \<and> Some v \<notin> set (column_values sch t' c')"
    if "operate (CreateForeignKey name t t' [c] [c'] d) sch = Inl (ForeignKeyViolation name)"
  proof -
    from that obtain tab tab' r where "map_of sch t = Some tab" "map_of sch t' = Some tab'" "r \<in> set (tab_rows tab)"
      "cell r c \<noteq> None" "[cell r c] \<notin> (\<lambda>r'. [cell r' c']) ` set (tab_rows tab')"
      by (auto simp: create_foreign_key_def add_constraint_def on_table_def list_all_iff split: option.splits if_splits)
    then show ?thesis by (force simp: column_values_def)
  qed
qed

lemma accepted_rows:
  "operate (SetNullable t c False) sch = Inr sch' \<Longrightarrow> None \<notin> set (column_values sch t c)"
  "operate (CreateCheckConstraint name t c vs) sch = Inr sch' \<Longrightarrow> Some v \<in> set (column_values sch t c) \<Longrightarrow> v \<in> PStr ` set vs"
  "operate (CreateForeignKey name t t' [c] [c'] d) sch = Inr sch' \<Longrightarrow> Some v \<in> set (column_values sch t c) \<Longrightarrow>
     Some v \<in> set (column_values sch t' c')"
proof -
  show "None \<notin> set (column_values sch t c)" if "operate (SetNullable t c False) sch = Inr sch'"
    using that by (auto simp: set_nullable_def on_table_def column_values_def list_ex_iff split: option.splits if_splits)
  show "v \<in> PStr ` set vs"
    if "operate (CreateCheckConstraint name t c vs) sch = Inr sch'" "Some v \<in> set (column_values sch t c)"
    using that by (fastforce simp: create_check_constraint_def add_constraint_def on_table_def column_values_def list_all_iff
        split: option.splits if_splits)
  show "Some v \<in> set (column_values sch t' c')"
    if "operate (CreateForeignKey name t t' [c] [c'] d) sch = Inr sch'" "Some v \<in> set (column_values sch t c)"
    using that by (fastforce simp: create_foreign_key_def add_constraint_def on_table_def column_values_def list_all_iff
        split: option.splits if_splits)
qed

lemma operate_all_append: "operate_all (ps @ qs) sch = rbind (operate_all ps sch) (operate_all qs)"
  by (induction ps arbitrary: sch) (auto simp: rbind_def split: sum.split)

end
