(* ===== verification/Migrations.thy ===== *)
theory Migrations
  imports Catalog
begin

text \<open>
  The history of the database schema: the revisions under \<open>alembic/versions\<close> as lists of schema operations, and the
  tables the SQLAlchemy models of \<open>app/infrastructure/persistence/models\<close> declare. The order of the two branches
  between \<open>571dc8014b2c\<close> and the merge revision is left open, as alembic leaves it.
\<close>

section \<open>The revisions\<close>

record revision =
  rev_id :: string
  rev_down :: "string list"
  rev_upgrade :: "operation list"
  rev_downgrade :: "operation list"

abbreviation col :: "string \<Rightarrow> column_type \<Rightarrow> column" where
  "col name ty \<equiv> \<lparr>col_name = name, col_type = ty, col_nullable = False, col_default = None\<rparr>"

abbreviation null_col :: "string \<Rightarrow> column_type \<Rightarrow> column" where
  "null_col name ty \<equiv> \<lparr>col_name = name, col_type = ty, col_nullable = True, col_default = None\<rparr>"

abbreviation default_col :: "string \<Rightarrow> column_type \<Rightarrow> server_default \<Rightarrow> column" where
  "default_col name ty v \<equiv> \<lparr>col_name = name, col_type = ty, col_nullable = False, col_default = Some v\<rparr>"

abbreviation cascade_to :: "string list \<Rightarrow> string \<Rightarrow> string list \<Rightarrow> string option \<times> table_constraint" where
  "cascade_to cs t cs' \<equiv> (None, ForeignKeyConstraint cs t cs' ''CASCADE'')"

definition baseline :: revision where
  "baseline = \<lparr>rev_id = ''39323f5e8e55'', rev_down = [],
     rev_upgrade =
      [CreateTable ''workflows''
         [col ''workflow_id'' SqlUUID, col ''name'' (SqlString 255), col ''dag_definition'' SqlJSONB,
          default_col ''created_at'' SqlTimestamp ServerNow]
         [(None, PrimaryKeyConstraint [''workflow_id''])],
       CreateTable ''workflow_executions''
         [col ''execution_id'' SqlUUID, col ''workflow_id'' SqlUUID, col ''status'' (SqlString 32),
          col ''input_data'' SqlJSONB, default_col ''created_at'' SqlTimestamp ServerNow,
          null_col ''started_at'' SqlTimestamp, null_col ''completed_at'' SqlTimestamp,
          default_col ''updated_at'' SqlTimestamp ServerNow]
         [(None, ForeignKeyConstraint [''workflow_id''] ''workflows'' [''workflow_id''] ''RESTRICT''),
          (None, PrimaryKeyConstraint [''execution_id''])],
       CreateIndex ''ix_workflow_executions_status'' ''workflow_executions'' [''status''] False,
       CreateIndex ''ix_workflow_executions_execution_id_status'' ''workflow_executions''
         [''execution_id'', ''status''] False,
       CreateTable ''node_executions''
         [col ''workflow_execution_id'' SqlUUID, col ''node_id'' (SqlString 255), col ''status'' (SqlString 32),
          col ''output_data'' SqlJSONB, null_col ''error_message'' SqlText, null_col ''error_type'' (SqlString 255),
          default_col ''created_at'' SqlTimestamp ServerNow, default_col ''updated_at'' SqlTimestamp ServerNow,
          null_col ''started_at'' SqlTimestamp, null_col ''completed_at'' SqlTimestamp]
         [cascade_to [''workflow_execution_id''] ''workflow_executions'' [''execution_id''],
          (None, PrimaryKeyConstraint [''workflow_execution_id'', ''node_id''])],
       CreateIndex ''ix_node_executions_status'' ''node_executions'' [''status''] False,
       CreateIndex ''ix_node_executions_execution_id_status'' ''node_executions''
         [''workflow_execution_id'', ''status''] False],
     rev_downgrade =
      [DropIndex ''ix_node_executions_execution_id_status'' ''node_executions'',
       DropIndex ''ix_node_executions_status'' ''node_executions'',
       DropTable ''node_executions'',
       DropIndex ''ix_workflow_executions_execution_id_status'' ''workflow_executions'',
       DropIndex ''ix_workflow_executions_status'' ''workflow_executions'',
       DropTable ''workflow_executions'',
       DropTable ''workflows'']\<rparr>"

definition add_outbox_events :: revision where
  "add_outbox_events = \<lparr>rev_id = ''571dc8014b2c'', rev_down = [''39323f5e8e55''],
     rev_upgrade =
      [CreateTable ''outbox_events''
         [col ''event_id'' SqlUUID, col ''event_type'' (SqlString 128), col ''aggregate_id'' SqlUUID,
          col ''payload'' SqlJSONB, col ''status'' (SqlString 32), col ''publish_attempts'' SqlInteger,
          null_col ''last_error'' SqlText, default_col ''created_at'' SqlTimestamp ServerNow,
          null_col ''published_at'' SqlTimestamp]
         [cascade_to [''aggregate_id''] ''workflow_executions'' [''execution_id''],
          (None, PrimaryKeyConstraint [''event_id''])],
       CreateIndex ''ix_outbox_events_event_type'' ''outbox_events'' [''event_type''] False,
       CreateIndex ''ix_outbox_events_aggregate_id'' ''outbox_events'' [''aggregate_id''] False,
       CreateIndex ''ix_outbox_events_status'' ''outbox_events'' [''status''] False],
     rev_downgrade =
      [DropIndex ''ix_outbox_events_status'' ''outbox_events'',
       DropIndex ''ix_outbox_events_aggregate_id'' ''outbox_events'',
       DropIndex ''ix_outbox_events_event_type'' ''outbox_events'',
       DropTable ''outbox_events'']\<rparr>"

definition generalize_outbox_messages :: revision where
  "generalize_outbox_messages = \<lparr>rev_id = ''6c2e1f4a9b70'', rev_down = [''571dc8014b2c''],
     rev_upgrade =
      [DropConstraint ''outbox_events_aggregate_id_fkey'' ''outbox_events'',
       RenameColumn ''outbox_events'' ''event_id'' ''message_id'',
       RenameColumn ''outbox_events'' ''event_type'' ''message_type'',
       SetNullable ''outbox_events'' ''aggregate_id'' True,
       AddColumn ''outbox_events'' (null_col ''target_stream'' (SqlString 128)),
       UpdateColumn ''outbox_events'' ''target_stream'' ''workflow.events'' None,
       SetNullable ''outbox_events'' ''target_stream'' False,
       CreateIndex ''ix_outbox_events_target_stream_status'' ''outbox_events'' [''target_stream'', ''status''] False,
       CreateIndex ''ix_outbox_events_published_at'' ''outbox_events'' [''published_at''] False],
     rev_downgrade =
      [DropIndex ''ix_outbox_events_published_at'' ''outbox_events'',
       DropIndex ''ix_outbox_events_target_stream_status'' ''outbox_events'',
       DropColumn ''outbox_events'' ''target_stream'',
       SetNullable ''outbox_events'' ''aggregate_id'' False,
       RenameColumn ''outbox_events'' ''message_type'' ''event_type'',
       RenameColumn ''outbox_events'' ''message_id'' ''event_id'',
       CreateForeignKey ''outbox_events_aggregate_id_fkey'' ''outbox_events'' ''workflow_executions''
         [''aggregate_id''] [''execution_id''] ''CASCADE'']\<rparr>"

definition normalize_node_execution_states :: revision where
  "normalize_node_execution_states = \<lparr>rev_id = ''7f3a2c1d9e80'', rev_down = [''6c2e1f4a9b70''],
     rev_upgrade =
      [UpdateColumn ''node_executions'' ''status'' ''pending'' (Some ''ready''),
       UpdateColumn ''node_executions'' ''status'' ''failed'' (Some ''skipped''),
       CreateCheckConstraint ''ck_node_executions_status'' ''node_executions'' ''status''
         [''pending'', ''running'', ''completed'', ''failed'']],
     rev_downgrade = [DropConstraint ''ck_node_executions_status'' ''node_executions'']\<rparr>"

definition allow_null_node_outputs :: revision where
  "allow_null_node_outputs = \<lparr>rev_id = ''8a1f4c2d7e90'', rev_down = [''571dc8014b2c''],
     rev_upgrade = [SetNullable ''node_executions'' ''output_data'' True],
     rev_downgrade = [SetNullable ''node_executions'' ''output_data'' False]\<rparr>"

definition add_task_processing :: revision where
  "add_task_processing = \<lparr>rev_id = ''9c4e2a7b1d60'', rev_down = [''8a1f4c2d7e90''],
     rev_upgrade =
      [CreateTable ''task_processing''
         [col ''task_id'' (SqlString 255), col ''execution_id'' SqlUUID, col ''node_id'' (SqlString 255),
          default_col ''status'' (SqlString 32) (ServerText ''claimed''), null_col ''claimed_by'' (SqlString 255),
          default_col ''claimed_at'' SqlTimestamp ServerNow, null_col ''claim_expires_at'' SqlTimestamp,
          null_col ''result_data'' SqlJSONB, null_col ''error_message'' SqlText,
          null_col ''error_type'' (SqlString 255), null_col ''completion_event_id'' SqlUUID,
          null_col ''completion_published_at'' SqlTimestamp, null_col ''completed_at'' SqlTimestamp,
          default_col ''updated_at'' SqlTimestamp ServerNow]
         [cascade_to [''execution_id''] ''workflow_executions'' [''execution_id''],
          (None, PrimaryKeyConstraint [''task_id''])],
       CreateIndex ''ix_task_processing_status'' ''task_processing'' [''status''] False,
       CreateIndex ''ix_task_processing_execution_id_node_id'' ''task_processing'' [''execution_id'', ''node_id''] False],
     rev_downgrade =
      [DropIndex ''ix_task_processing_execution_id_node_id'' ''task_processing'',
       DropIndex ''ix_task_processing_status'' ''task_processing'',
       DropTable ''task_processing'']\<rparr>"

definition add_durable_task_attempts :: revision where
  "add_durable_task_attempts = \<lparr>rev_id = ''2d6f8a1c4b70'', rev_down = [''9c4e2a7b1d60''],
     rev_upgrade =
      [CreateTable ''logical_tasks''
         [col ''task_id'' (SqlString 255), col ''execution_id'' SqlUUID, col ''node_id'' (SqlString 255),
          col ''handler'' (SqlString 255), col ''handler_config'' SqlJSONB, col ''resolved_input'' SqlJSONB,
          default_col ''status'' (SqlString 32) (ServerText ''pending''), null_col ''final_error_message'' SqlText,
          null_col ''final_error_type'' (SqlString 255), default_col ''created_at'' SqlTimestamp ServerNow,
          default_col ''updated_at'' SqlTimestamp ServerNow]
         [cascade_to [''execution_id''] ''workflow_executions'' [''execution_id''],
          (None, PrimaryKeyConstraint [''task_id''])],
       CreateIndex ''ix_logical_tasks_execution_id_node_id'' ''logical_tasks'' [''execution_id'', ''node_id''] True,
       CreateTable ''task_attempts''
         [col ''attempt_id'' SqlUUID, col ''task_id'' (SqlString 255), col ''attempt_number'' SqlInteger,
          col ''status'' (SqlString 32), null_col ''failure_event_id'' SqlUUID, null_col ''completion_event_id'' SqlUUID,
          null_col ''error_message'' SqlText, null_col ''error_type'' (SqlString 255),
          null_col ''started_at'' SqlTimestamp, null_col ''failed_at'' SqlTimestamp, null_col ''scheduled_at'' SqlTimestamp,
          null_col ''completed_at'' SqlTimestamp, default_col ''created_at'' SqlTimestamp ServerNow,
          default_col ''updated_at'' SqlTimestamp ServerNow]
         [cascade_to [''task_id''] ''logical_tasks'' [''task_id''],
          (None, PrimaryKeyConstraint [''attempt_id'']),
          (Some ''uq_task_attempts_task_number'', UniqueConstraint [''task_id'', ''attempt_number'']),
          (Some ''uq_task_attempts_failure_event_id'', UniqueConstraint [''failure_event_id''])],
       CreateIndex ''ix_task_attempts_task_id_status'' ''task_attempts'' [''task_id'', ''status''] False,
       CreateTable ''task_retry_dispatches''
         [col ''attempt_id'' SqlUUID, col ''available_at'' SqlTimestamp,
          default_col ''status'' (SqlString 32) (ServerText ''pending''), null_col ''published_at'' SqlTimestamp,
          default_col ''created_at'' SqlTimestamp ServerNow]
         [cascade_to [''attempt_id''] ''task_attempts'' [''attempt_id''],
          (None, PrimaryKeyConstraint [''attempt_id''])],
       CreateIndex ''ix_task_retry_dispatches_due'' ''task_retry_dispatches'' [''status'', ''available_at''] False],
     rev_downgrade =
      [DropIndex ''ix_task_retry_dispatches_due'' ''task_retry_dispatches'',
       DropTable ''task_retry_dispatches'',
       DropIndex ''ix_task_attempts_task_id_status'' ''task_attempts'',
       DropTable ''task_attempts'',
       DropIndex ''ix_logical_tasks_execution_id_node_id'' ''logical_tasks'',
       DropTable ''logical_tasks'']\<rparr>"

definition add_attempt_processing_state :: revision where
  "add_attempt_processing_state = \<lparr>rev_id = ''4e8b2c6d1f90'', rev_down = [''2d6f8a1c4b70''],
     rev_upgrade =
      [AddColumn ''task_attempts'' (null_col ''claimed_by'' (SqlString 255)),
       AddColumn ''task_attempts'' (null_col ''claimed_at'' SqlTimestamp),
       AddColumn ''task_attempts'' (null_col ''claim_expires_at'' SqlTimestamp),
       AddColumn ''task_attempts'' (null_col ''result_data'' SqlJSONB),
       AddColumn ''task_attempts'' (null_col ''completion_published_at'' SqlTimestamp)],
     rev_downgrade =
      [DropColumn ''task_attempts'' ''completion_published_at'',
       DropColumn ''task_attempts'' ''result_data'',
       DropColumn ''task_attempts'' ''claim_expires_at'',
       DropColumn ''task_attempts'' ''claimed_at'',
       DropColumn ''task_attempts'' ''claimed_by'']\<rparr>"

definition merge_workflow_heads :: revision where
  "merge_workflow_heads = \<lparr>rev_id = ''b8c7d6e5f4a3'', rev_down = [''7f3a2c1d9e80'', ''4e8b2c6d1f90''],
     rev_upgrade = [], rev_downgrade = []\<rparr>"

definition versions :: "revision list" where
  "versions = [baseline, add_outbox_events, generalize_outbox_messages, normalize_node_execution_states,
     allow_null_node_outputs, add_task_processing, add_durable_task_attempts, add_attempt_processing_state,
     merge_workflow_heads]"


section \<open>The schema at each point of the history\<close>

definition workflows_table :: table_def where
  "workflows_table =
     \<lparr>tab_columns = [col ''workflow_id'' SqlUUID, col ''name'' (SqlString 255), col ''dag_definition'' SqlJSONB,
        default_col ''created_at'' SqlTimestamp ServerNow],
      tab_constraints = {(''workflows_pkey'', PrimaryKeyConstraint [''workflow_id''])},
      tab_indexes = {}, tab_rows = []\<rparr>"

definition executions_table :: table_def where
  "executions_table =
     \<lparr>tab_columns = [col ''execution_id'' SqlUUID, col ''workflow_id'' SqlUUID, col ''status'' (SqlString 32),
        col ''input_data'' SqlJSONB, default_col ''created_at'' SqlTimestamp ServerNow,
        null_col ''started_at'' SqlTimestamp, null_col ''completed_at'' SqlTimestamp,
        default_col ''updated_at'' SqlTimestamp ServerNow],
      tab_constraints =
       {(''workflow_executions_workflow_id_fkey'',
           ForeignKeyConstraint [''workflow_id''] ''workflows'' [''workflow_id''] ''RESTRICT''),
        (''workflow_executions_pkey'', PrimaryKeyConstraint [''execution_id''])},
      tab_indexes =
       {(''ix_workflow_executions_status'', [''status''], False),
        (''ix_workflow_executions_execution_id_status'', [''execution_id'', ''status''], False)},
      tab_rows = []\<rparr>"

definition nodes_table :: "bool \<Rightarrow> bool \<Rightarrow> table_def" where
  "nodes_table null_output checked =
     \<lparr>tab_columns = [col ''workflow_execution_id'' SqlUUID, col ''node_id'' (SqlString 255), col ''status'' (SqlString 32),
        \<lparr>col_name = ''output_data'', col_type = SqlJSONB, col_nullable = null_output, col_default = None\<rparr>,
        null_col ''error_message'' SqlText, null_col ''error_type'' (SqlString 255),
        default_col ''created_at'' SqlTimestamp ServerNow, default_col ''updated_at'' SqlTimestamp ServerNow,
        null_col ''started_at'' SqlTimestamp, null_col ''completed_at'' SqlTimestamp],
      tab_constraints =
       (if checked then {(''ck_node_executions_status'', CheckIn ''status'' [''pending'', ''running'', ''completed'', ''failed''])}
        else {}) \<union>
       {(''node_executions_workflow_execution_id_fkey'',
           ForeignKeyConstraint [''workflow_execution_id''] ''workflow_executions'' [''execution_id''] ''CASCADE''),
        (''node_executions_pkey'', PrimaryKeyConstraint [''workflow_execution_id'', ''node_id''])},
      tab_indexes =
       {(''ix_node_executions_status'', [''status''], False),
        (''ix_node_executions_execution_id_status'', [''workflow_execution_id'', ''status''], False)},
      tab_rows = []\<rparr>"

definition outbox_table :: "bool \<Rightarrow> table_def" where
  "outbox_table general =
     \<lparr>tab_columns = [col (if general then ''message_id'' else ''event_id'') SqlUUID,
        col (if general then ''message_type'' else ''event_type'') (SqlString 128),
        \<lparr>col_name = ''aggregate_id'', col_type = SqlUUID, col_nullable = general, col_default = None\<rparr>,
        col ''payload'' SqlJSONB, col ''status'' (SqlString 32), col ''publish_attempts'' SqlInteger,
        null_col ''last_error'' SqlText, default_col ''created_at'' SqlTimestamp ServerNow,
        null_col ''published_at'' SqlTimestamp] @ (if general then [col ''target_stream'' (SqlString 128)] else []),
      tab_constraints =
       (if general then {} else {(''outbox_events_aggregate_id_fkey'',
           ForeignKeyConstraint [''aggregate_id''] ''workflow_executions'' [''execution_id''] ''CASCADE'')}) \<union>
       {(''outbox_events_pkey'', PrimaryKeyConstraint [if general then ''message_id'' else ''event_id''])},
      tab_indexes =
       {(''ix_outbox_events_event_type'', [if general then ''message_type'' else ''event_type''], False),
        (''ix_outbox_events_aggregate_id'', [''aggregate_id''], False),
        (''ix_outbox_events_status'', [''status''], False)} \<union>
       (if general
        then {(''ix_outbox_events_target_stream_status'', [''target_stream'', ''status''], False),
              (''ix_outbox_events_published_at'', [''published_at''], False)}
        else {}),
      tab_rows = []\<rparr>"

definition processing_table :: table_def where
  "processing_table =
     \<lparr>tab_columns = [col ''task_id'' (SqlString 255), col ''execution_id'' SqlUUID, col ''node_id'' (SqlString 255),
        default_col ''status'' (SqlString 32) (ServerText ''claimed''), null_col ''claimed_by'' (SqlString 255),
        default_col ''claimed_at'' SqlTimestamp ServerNow, null_col ''claim_expires_at'' SqlTimestamp,
        null_col ''result_data'' SqlJSONB, null_col ''error_message'' SqlText,
        null_col ''error_type'' (SqlString 255), null_col ''completion_event_id'' SqlUUID,
        null_col ''completion_published_at'' SqlTimestamp, null_col ''completed_at'' SqlTimestamp,
        default_col ''updated_at'' SqlTimestamp ServerNow],
      tab_constraints =
       {(''task_processing_execution_id_fkey'',
           ForeignKeyConstraint [''execution_id''] ''workflow_executions'' [''execution_id''] ''CASCADE''),
        (''task_processing_pkey'', PrimaryKeyConstraint [''task_id''])},
      tab_indexes =
       {(''ix_task_processing_status'', [''status''], False),
        (''ix_task_processing_execution_id_node_id'', [''execution_id'', ''node_id''], False)},
      tab_rows = []\<rparr>"

definition logical_tasks_table :: table_def where
  "logical_tasks_table =
     \<lparr>tab_columns = [col ''task_id'' (SqlString 255), col ''execution_id'' SqlUUID, col ''node_id'' (SqlString 255),
        col ''handler'' (SqlString 255), col ''handler_config'' SqlJSONB, col ''resolved_input'' SqlJSONB,
        default_col ''status'' (SqlString 32) (ServerText ''pending''), null_col ''final_error_message'' SqlText,
        null_col ''final_error_type'' (SqlString 255), default_col ''created_at'' SqlTimestamp ServerNow,
        default_col ''updated_at'' SqlTimestamp ServerNow],
      tab_constraints =
       {(''logical_tasks_execution_id_fkey'',
           ForeignKeyConstraint [''execution_id''] ''workflow_executions'' [''execution_id''] ''CASCADE''),
        (''logical_tasks_pkey'', PrimaryKeyConstraint [''task_id''])},
      tab_indexes = {(''ix_logical_tasks_execution_id_node_id'', [''execution_id'', ''node_id''], True)},
      tab_rows = []\<rparr>"

definition attempts_table :: "bool \<Rightarrow> table_def" where
  "attempts_table claims =
     \<lparr>tab_columns = [col ''attempt_id'' SqlUUID, col ''task_id'' (SqlString 255), col ''attempt_number'' SqlInteger,
        col ''status'' (SqlString 32), null_col ''failure_event_id'' SqlUUID, null_col ''completion_event_id'' SqlUUID,
        null_col ''error_message'' SqlText, null_col ''error_type'' (SqlString 255),
        null_col ''started_at'' SqlTimestamp, null_col ''failed_at'' SqlTimestamp, null_col ''scheduled_at'' SqlTimestamp,
        null_col ''completed_at'' SqlTimestamp, default_col ''created_at'' SqlTimestamp ServerNow,
        default_col ''updated_at'' SqlTimestamp ServerNow] @
       (if claims
        then [null_col ''claimed_by'' (SqlString 255), null_col ''claimed_at'' SqlTimestamp,
              null_col ''claim_expires_at'' SqlTimestamp, null_col ''result_data'' SqlJSONB,
              null_col ''completion_published_at'' SqlTimestamp]
        else []),
      tab_constraints =
       {(''task_attempts_task_id_fkey'', ForeignKeyConstraint [''task_id''] ''logical_tasks'' [''task_id''] ''CASCADE''),
        (''task_attempts_pkey'', PrimaryKeyConstraint [''attempt_id'']),
        (''uq_task_attempts_task_number'', UniqueConstraint [''task_id'', ''attempt_number'']),
        (''uq_task_attempts_failure_event_id'', UniqueConstraint [''failure_event_id''])},
      tab_indexes = {(''ix_task_attempts_task_id_status'', [''task_id'', ''status''], False)},
      tab_rows = []\<rparr>"

definition retries_table :: table_def where
  "retries_table =
     \<lparr>tab_columns = [col ''attempt_id'' SqlUUID, col ''available_at'' SqlTimestamp,
        default_col ''status'' (SqlString 32) (ServerText ''pending''), null_col ''published_at'' SqlTimestamp,
        default_col ''created_at'' SqlTimestamp ServerNow],
      tab_constraints =
       {(''task_retry_dispatches_attempt_id_fkey'',
           ForeignKeyConstraint [''attempt_id''] ''task_attempts'' [''attempt_id''] ''CASCADE''),
        (''task_retry_dispatches_pkey'', PrimaryKeyConstraint [''attempt_id''])},
      tab_indexes = {(''ix_task_retry_dispatches_due'', [''status'', ''available_at''], False)},
      tab_rows = []\<rparr>"

definition core_tables :: "bool \<Rightarrow> bool \<Rightarrow> schema" where
  "core_tables null_output checked =
     [(''workflows'', workflows_table), (''workflow_executions'', executions_table),
      (''node_executions'', nodes_table null_output checked)]"

definition task_tables :: "bool \<Rightarrow> bool \<Rightarrow> bool \<Rightarrow> schema" where
  "task_tables processing attempts claims =
     (if processing then [(''task_processing'', processing_table)] else []) @
     (if attempts
      then [(''logical_tasks'', logical_tasks_table), (''task_attempts'', attempts_table claims),
            (''task_retry_dispatches'', retries_table)]
      else [])"

definition schema_at :: "string set \<Rightarrow> schema" where
  "schema_at revs =
     (if ''39323f5e8e55'' \<notin> revs then [] else
      core_tables (''8a1f4c2d7e90'' \<in> revs) (''7f3a2c1d9e80'' \<in> revs) @
      (if ''571dc8014b2c'' \<notin> revs then [] else
       (''outbox_events'', outbox_table (''6c2e1f4a9b70'' \<in> revs)) #
       task_tables (''9c4e2a7b1d60'' \<in> revs) (''2d6f8a1c4b70'' \<in> revs) (''4e8b2c6d1f90'' \<in> revs)))"

lemmas catalog_defs = create_table_def drop_table_def create_index_def drop_index_def add_column_def drop_column_def
  rename_column_def rename_column_in_def set_nullable_def drop_constraint_def add_constraint_def
  create_check_constraint_def create_foreign_key_def update_column_def on_table_def has_columns_def
  referenced_elsewhere_def renamed_def unique_rows_def

lemmas catalog_tables = workflows_table_def executions_table_def nodes_table_def outbox_table_def processing_table_def
  logical_tasks_table_def attempts_table_def retries_table_def

lemma up_baseline: "operate_all (rev_upgrade baseline) [] = Inr (core_tables False False)"
  by (simp add: baseline_def catalog_defs catalog_tables core_tables_def insert_commute)

lemma down_baseline: "operate_all (rev_downgrade baseline) (core_tables False False) = Inr []"
  by (simp add: baseline_def catalog_defs catalog_tables core_tables_def)

text \<open>What the revisions of one branch need to know of the tables of the other.\<close>

lemma tables_outside:
  "map_of (task_tables p a c) ''outbox_events'' = None"
  "map_of (task_tables p a c) ''node_executions'' = None"
  "\<not> list_ex (\<lambda>(_, tab). ''ix_outbox_events_target_stream_status'' \<in> fst ` tab_indexes tab) (task_tables p a c)"
  "\<not> list_ex (\<lambda>(_, tab). ''ix_outbox_events_published_at'' \<in> fst ` tab_indexes tab) (task_tables p a c)"
  "\<not> list_ex (\<lambda>(_, tab). ''ix_outbox_events_target_stream_status'' \<in> fst ` tab_indexes tab) (core_tables out chk)"
  "\<not> list_ex (\<lambda>(_, tab). ''ix_outbox_events_published_at'' \<in> fst ` tab_indexes tab) (core_tables out chk)"
  by (simp_all add: task_tables_def core_tables_def catalog_tables)

lemma rename_outside:
  "map (\<lambda>(t', tab). (t', tab\<lparr>tab_constraints := (\<lambda>(n, k). (n, rename_target ''outbox_events'' x y k)) ` tab_constraints tab\<rparr>))
     (task_tables p a c) = task_tables p a c"
  "map (\<lambda>(t', tab). (t', tab\<lparr>tab_constraints := (\<lambda>(n, k). (n, rename_target ''outbox_events'' x y k)) ` tab_constraints tab\<rparr>))
     (core_tables out chk) = core_tables out chk"
  by (simp_all add: task_tables_def core_tables_def catalog_tables)

lemma outbox_references:
  "\<not> list_ex (\<lambda>(_, tab). \<exists>(_, k) \<in> tab_constraints tab.
      case k of ForeignKeyConstraint _ t' cs _ \<Rightarrow> t' = ''outbox_events'' \<and> x \<in> set cs | _ \<Rightarrow> False) (task_tables p a c)"
  "\<not> list_ex (\<lambda>(_, tab). \<exists>(_, k) \<in> tab_constraints tab.
      case k of ForeignKeyConstraint _ t' cs _ \<Rightarrow> t' = ''outbox_events'' \<and> x \<in> set cs | _ \<Rightarrow> False) (core_tables out chk)"
  by (simp_all add: task_tables_def core_tables_def catalog_tables)

lemma core_executions: "map_of (core_tables out chk) ''workflow_executions'' = Some executions_table"
  by (simp add: core_tables_def)

lemma up_outbox: "operate_all (rev_upgrade add_outbox_events) (core_tables out chk) =
    Inr (core_tables out chk @ [(''outbox_events'', outbox_table False)])"
  by (simp add: add_outbox_events_def catalog_defs catalog_tables core_tables_def insert_commute)

lemma down_outbox: "operate_all (rev_downgrade add_outbox_events) (core_tables out chk @ [(''outbox_events'', outbox_table False)]) =
    Inr (core_tables out chk)"
  by (simp add: add_outbox_events_def catalog_defs catalog_tables core_tables_def)

text \<open>An operation on the outbox table leaves the tables around it alone.\<close>

lemma on_outbox:
  "on_table ''outbox_events'' f (core_tables out chk @ (''outbox_events'', tab) # task_tables p a c) =
     (case f tab of Inl e \<Rightarrow> Inl e | Inr tab' \<Rightarrow> Inr (core_tables out chk @ (''outbox_events'', tab') # task_tables p a c))"
  by (simp add: on_table_def core_tables_def split: sum.split)

lemma rename_around:
  "rename_column ''outbox_events'' x y (core_tables out chk @ (''outbox_events'', tab) # task_tables p a c) =
     (if x \<notin> col_name ` set (tab_columns tab) then Inl (UndefinedColumn x)
      else if y \<in> col_name ` set (tab_columns tab) then Inl (DuplicateColumn y)
      else Inr (core_tables out chk @ (''outbox_events'', (rename_column_in x y tab)\<lparr>tab_constraints :=
         (\<lambda>(n, k). (n, rename_target ''outbox_events'' x y k)) ` tab_constraints (rename_column_in x y tab)\<rparr>) # task_tables p a c))"
  by (simp add: rename_column_def on_outbox rename_outside)

lemma up_generalize:
  "operate_all (rev_upgrade generalize_outbox_messages) (core_tables out chk @ (''outbox_events'', outbox_table False) # task_tables p a c) =
     Inr (core_tables out chk @ (''outbox_events'', outbox_table True) # task_tables p a c)"
  by (simp add: generalize_outbox_messages_def drop_constraint_def set_nullable_def add_column_def update_column_def
    create_index_def on_outbox tables_outside rename_around outbox_table_def rename_column_in_def renamed_def has_columns_def
    insert_commute)

lemma down_generalize:
  "operate_all (rev_downgrade generalize_outbox_messages) (core_tables out chk @ (''outbox_events'', outbox_table True) # task_tables p a c) =
     Inr (core_tables out chk @ (''outbox_events'', outbox_table False) # task_tables p a c)"
  by (simp add: generalize_outbox_messages_def drop_index_def drop_column_def set_nullable_def create_foreign_key_def
    add_constraint_def on_outbox outbox_references rename_around outbox_table_def rename_column_in_def renamed_def has_columns_def
    core_executions executions_table_def insert_commute)

lemma up_normalize:
  "operate_all (rev_upgrade normalize_node_execution_states) (core_tables out False @ rest) = Inr (core_tables out True @ rest)"
  by (simp add: normalize_node_execution_states_def update_column_def create_check_constraint_def add_constraint_def
    on_table_def core_tables_def nodes_table_def has_columns_def insert_commute)

lemma down_normalize:
  "operate_all (rev_downgrade normalize_node_execution_states) (core_tables out True @ rest) = Inr (core_tables out False @ rest)"
  by (simp add: normalize_node_execution_states_def drop_constraint_def on_table_def core_tables_def nodes_table_def)

lemma up_null_outputs:
  "operate_all (rev_upgrade allow_null_node_outputs) (core_tables False chk @ rest) = Inr (core_tables True chk @ rest)"
  by (simp add: allow_null_node_outputs_def set_nullable_def on_table_def core_tables_def nodes_table_def)

lemma down_null_outputs:
  "operate_all (rev_downgrade allow_null_node_outputs) (core_tables True chk @ rest) = Inr (core_tables False chk @ rest)"
  by (simp add: allow_null_node_outputs_def set_nullable_def on_table_def core_tables_def nodes_table_def)

text \<open>The tables the tasks build on, and operations on the tables after them.\<close>

definition base_tables :: "bool \<Rightarrow> bool \<Rightarrow> bool \<Rightarrow> schema" where
  "base_tables out chk general = core_tables out chk @ [(''outbox_events'', outbox_table general)]"

lemma base_names: "fst ` set (base_tables out chk g) = {''workflows'', ''workflow_executions'', ''node_executions'', ''outbox_events''}"
  by (auto simp: base_tables_def core_tables_def)

lemma base_lookup:
  "t \<notin> {''workflows'', ''workflow_executions'', ''node_executions'', ''outbox_events''} \<Longrightarrow> map_of (base_tables out chk g) t = None"
  by (simp add: map_of_eq_None_iff base_names)

lemma base_executions: "map_of (base_tables out chk g) ''workflow_executions'' = Some executions_table"
  by (simp add: base_tables_def core_tables_def)

lemma base_indexes:
  "i \<in> {''ix_task_processing_status'', ''ix_task_processing_execution_id_node_id'', ''ix_logical_tasks_execution_id_node_id'',
      ''ix_task_attempts_task_id_status'', ''ix_task_retry_dispatches_due''} \<Longrightarrow>
   \<not> list_ex (\<lambda>(_, tab). i \<in> fst ` tab_indexes tab) (base_tables out chk g)"
  by (elim insertE emptyE) (simp_all add: base_tables_def core_tables_def catalog_tables)

lemma base_references:
  "t \<in> {''task_processing'', ''logical_tasks'', ''task_attempts'', ''task_retry_dispatches''} \<Longrightarrow>
   \<not> list_ex (\<lambda>(t', tab). t' \<noteq> t \<and> (\<exists>(_, c) \<in> tab_constraints tab. references t c)) (base_tables out chk g)"
  by (elim insertE emptyE) (simp_all add: base_tables_def core_tables_def catalog_tables)

lemma base_column_references:
  "\<not> list_ex (\<lambda>(_, tab). \<exists>(_, k) \<in> tab_constraints tab.
      case k of ForeignKeyConstraint _ t' cs _ \<Rightarrow> t' = ''task_attempts'' \<and> x \<in> set cs | _ \<Rightarrow> False) (base_tables out chk g)"
  by (simp add: base_tables_def core_tables_def catalog_tables)

lemma update_append: "k \<notin> fst ` set xs \<Longrightarrow> AList.update k v (xs @ ys) = xs @ AList.update k v ys"
  by (induction xs) auto

lemma delete_append: "k \<notin> fst ` set xs \<Longrightarrow> AList.delete k (xs @ ys) = xs @ AList.delete k ys"
  by (induction xs) auto

lemma lookup_after: "n k = None \<Longrightarrow> (m ++ n) k = m k"
  by (simp add: map_add_def)

lemma on_table_after:
  assumes "map_of base t = None"
  shows "on_table t f (base @ rest) = map_sum id ((@) base) (on_table t f rest)"
proof -
  have "t \<notin> fst ` set base" using assms by (simp add: map_of_eq_None_iff)
  then show ?thesis
    using assms by (simp add: on_table_def lookup_after update_append split: option.split sum.split)
qed

lemmas after_base = base_lookup base_executions base_indexes base_references base_column_references on_table_after
  executions_table_def base_names delete_append lookup_after

lemmas task_catalog = create_table_def create_index_def drop_index_def drop_table_def add_column_def drop_column_def
  has_columns_def referenced_elsewhere_def unique_rows_def

lemma on_task_table:
  "on_table t f [] = Inl (UndefinedTable t)"
  "on_table t f ((t', tab) # rest) =
     (if t = t' then (case f tab of Inl e \<Rightarrow> Inl e | Inr tab' \<Rightarrow> Inr ((t, tab') # rest))
      else map_sum id ((#) (t', tab)) (on_table t f rest))"
  by (auto simp: on_table_def split: option.split sum.split)

lemma up_processing:
  "operate_all (rev_upgrade add_task_processing) (base_tables out chk g) = Inr (base_tables out chk g @ task_tables True False False)"
  by (simp add: add_task_processing_def task_catalog after_base on_task_table task_tables_def processing_table_def insert_commute)

lemma down_processing:
  "operate_all (rev_downgrade add_task_processing) (base_tables out chk g @ task_tables True False False) = Inr (base_tables out chk g)"
  by (simp add: add_task_processing_def task_catalog after_base on_task_table task_tables_def processing_table_def)

lemma up_attempts:
  "operate_all (rev_upgrade add_durable_task_attempts) (base_tables out chk g @ task_tables True False False) =
     Inr (base_tables out chk g @ task_tables True True False)"
  by (simp add: add_durable_task_attempts_def task_catalog after_base on_task_table task_tables_def catalog_tables insert_commute)

lemma down_attempts:
  "operate_all (rev_downgrade add_durable_task_attempts) (base_tables out chk g @ task_tables True True False) =
     Inr (base_tables out chk g @ task_tables True False False)"
  by (simp add: add_durable_task_attempts_def task_catalog after_base on_task_table task_tables_def catalog_tables)

lemma up_claims:
  "operate_all (rev_upgrade add_attempt_processing_state) (base_tables out chk g @ task_tables True True False) =
     Inr (base_tables out chk g @ task_tables True True True)"
  by (simp add: add_attempt_processing_state_def task_catalog after_base on_task_table task_tables_def attempts_table_def)

lemma down_claims:
  "operate_all (rev_downgrade add_attempt_processing_state) (base_tables out chk g @ task_tables True True True) =
     Inr (base_tables out chk g @ task_tables True True False)"
  by (simp add: add_attempt_processing_state_def task_catalog after_base on_task_table task_tables_def catalog_tables)

section \<open>Moving along the history\<close>

text \<open>A revision can be applied when those it revises are, and taken back when no applied revision revises it.\<close>

definition upgrade_applies :: "string set \<Rightarrow> revision \<Rightarrow> bool" where
  "upgrade_applies revs r \<longleftrightarrow> r \<in> set versions \<and> rev_id r \<notin> revs \<and> set (rev_down r) \<subseteq> revs"

definition downgrade_applies :: "string set \<Rightarrow> revision \<Rightarrow> bool" where
  "downgrade_applies revs r \<longleftrightarrow> r \<in> set versions \<and> rev_id r \<in> revs \<and>
     (\<forall>q \<in> set versions. rev_id q \<in> revs \<longrightarrow> rev_id r \<notin> set (rev_down q))"

text \<open>The databases a deployment reaches from an empty one by upgrades and downgrades in any order, with the program
  storing, changing and deleting rows in between. Nothing is assumed of the rows.\<close>

inductive migrated :: "string set \<Rightarrow> schema \<Rightarrow> bool" where
  empty_database: "migrated {} []"
| upgraded: "migrated revs sch \<Longrightarrow> upgrade_applies revs r \<Longrightarrow> operate_all (rev_upgrade r) sch = Inr sch' \<Longrightarrow>
    migrated (insert (rev_id r) revs) sch'"
| downgraded: "migrated revs sch \<Longrightarrow> downgrade_applies revs r \<Longrightarrow> operate_all (rev_downgrade r) sch = Inr sch' \<Longrightarrow>
    migrated (revs - {rev_id r}) sch'"
| written: "migrated revs sch \<Longrightarrow> erase_rows sch' = erase_rows sch \<Longrightarrow> migrated revs sch'"

definition history :: "string set \<Rightarrow> bool" where
  "history revs \<longleftrightarrow> revs \<subseteq> rev_id ` set versions \<and> (\<forall>r \<in> set versions. rev_id r \<in> revs \<longrightarrow> set (rev_down r) \<subseteq> revs)"

lemmas revision_ids = baseline_def add_outbox_events_def generalize_outbox_messages_def normalize_node_execution_states_def
  allow_null_node_outputs_def add_task_processing_def add_durable_task_attempts_def add_attempt_processing_state_def
  merge_workflow_heads_def

lemma rev_id_simps [simp]:
  "rev_id baseline = ''39323f5e8e55''" "rev_down baseline = []"
  "rev_id add_outbox_events = ''571dc8014b2c''" "rev_down add_outbox_events = [''39323f5e8e55'']"
  "rev_id generalize_outbox_messages = ''6c2e1f4a9b70''" "rev_down generalize_outbox_messages = [''571dc8014b2c'']"
  "rev_id normalize_node_execution_states = ''7f3a2c1d9e80''" "rev_down normalize_node_execution_states = [''6c2e1f4a9b70'']"
  "rev_id allow_null_node_outputs = ''8a1f4c2d7e90''" "rev_down allow_null_node_outputs = [''571dc8014b2c'']"
  "rev_id add_task_processing = ''9c4e2a7b1d60''" "rev_down add_task_processing = [''8a1f4c2d7e90'']"
  "rev_id add_durable_task_attempts = ''2d6f8a1c4b70''" "rev_down add_durable_task_attempts = [''9c4e2a7b1d60'']"
  "rev_id add_attempt_processing_state = ''4e8b2c6d1f90''" "rev_down add_attempt_processing_state = [''2d6f8a1c4b70'']"
  "rev_id merge_workflow_heads = ''b8c7d6e5f4a3''"
  "rev_down merge_workflow_heads = [''7f3a2c1d9e80'', ''4e8b2c6d1f90'']"
  by (simp_all add: revision_ids)

lemma version_cases:
  assumes "r \<in> set versions"
  obtains "r = baseline" | "r = add_outbox_events" | "r = generalize_outbox_messages"
  | "r = normalize_node_execution_states" | "r = allow_null_node_outputs" | "r = add_task_processing"
  | "r = add_durable_task_attempts" | "r = add_attempt_processing_state" | "r = merge_workflow_heads"
  using assms by (auto simp: versions_def)

lemma historyD:
  assumes "history revs"
  shows "''571dc8014b2c'' \<in> revs \<Longrightarrow> ''39323f5e8e55'' \<in> revs" "''6c2e1f4a9b70'' \<in> revs \<Longrightarrow> ''571dc8014b2c'' \<in> revs"
    "''7f3a2c1d9e80'' \<in> revs \<Longrightarrow> ''6c2e1f4a9b70'' \<in> revs" "''8a1f4c2d7e90'' \<in> revs \<Longrightarrow> ''571dc8014b2c'' \<in> revs"
    "''9c4e2a7b1d60'' \<in> revs \<Longrightarrow> ''8a1f4c2d7e90'' \<in> revs" "''2d6f8a1c4b70'' \<in> revs \<Longrightarrow> ''9c4e2a7b1d60'' \<in> revs"
    "''4e8b2c6d1f90'' \<in> revs \<Longrightarrow> ''2d6f8a1c4b70'' \<in> revs"
  using assms by (simp_all add: history_def versions_def)

lemma rev_id_unique: "q \<in> set versions \<Longrightarrow> r \<in> set versions \<Longrightarrow> rev_id q = rev_id r \<Longrightarrow> q = r"
  by (elim version_cases) simp_all

lemma history_upgrade:
  assumes "history revs" and "upgrade_applies revs r"
  shows "history (insert (rev_id r) revs)"
proof -
  have "set (rev_down q) \<subseteq> insert (rev_id r) revs" if "q \<in> set versions" "rev_id q \<in> insert (rev_id r) revs" for q
    using that assms rev_id_unique [of q r] unfolding history_def upgrade_applies_def by blast
  then show ?thesis using assms unfolding history_def upgrade_applies_def by blast
qed

lemma history_downgrade: "history revs \<Longrightarrow> downgrade_applies revs r \<Longrightarrow> history (revs - {rev_id r})"
  unfolding history_def downgrade_applies_def by blast

text \<open>The same tables, as the revisions of the second branch see them.\<close>

lemma as_base: "core_tables out chk @ (''outbox_events'', outbox_table g) # rest = base_tables out chk g @ rest"
  by (simp add: base_tables_def)

lemma schema_at_outbox:
  assumes "history revs" and "''571dc8014b2c'' \<in> revs"
  shows "schema_at revs = core_tables (''8a1f4c2d7e90'' \<in> revs) (''7f3a2c1d9e80'' \<in> revs) @
      (''outbox_events'', outbox_table (''6c2e1f4a9b70'' \<in> revs)) #
      task_tables (''9c4e2a7b1d60'' \<in> revs) (''2d6f8a1c4b70'' \<in> revs) (''4e8b2c6d1f90'' \<in> revs)"
  using assms historyD(1) [OF assms(1)] by (simp add: schema_at_def)

lemma no_task_tables [simp]: "task_tables False False False = []"
  by (simp add: task_tables_def)

lemma upgrade_schema:
  assumes "history revs" and "upgrade_applies revs r"
  shows "operate_all (rev_upgrade r) (schema_at revs) = Inr (schema_at (insert (rev_id r) revs))"
proof -
  note H = historyD [OF assms(1)]
  from assms(2) have r: "r \<in> set versions" "rev_id r \<notin> revs" "set (rev_down r) \<subseteq> revs" by (auto simp: upgrade_applies_def)
  from r(1) show ?thesis
  proof (cases rule: version_cases)
    case 1
    with r H have "''571dc8014b2c'' \<notin> revs" "''8a1f4c2d7e90'' \<notin> revs" "''7f3a2c1d9e80'' \<notin> revs" by auto
    with 1 r show ?thesis by (simp add: schema_at_def up_baseline)
  next
    case 2
    with r H have "''6c2e1f4a9b70'' \<notin> revs" "''9c4e2a7b1d60'' \<notin> revs" "''2d6f8a1c4b70'' \<notin> revs" "''4e8b2c6d1f90'' \<notin> revs" by auto
    with 2 r show ?thesis by (simp add: schema_at_def up_outbox)
  next
    case 3
    with r H show ?thesis by (simp add: schema_at_def up_generalize)
  next
    case 4
    with r H show ?thesis by (simp add: schema_at_def up_normalize)
  next
    case 5
    with r H show ?thesis by (simp add: schema_at_def up_null_outputs)
  next
    case 6
    with r H have "''2d6f8a1c4b70'' \<notin> revs" "''4e8b2c6d1f90'' \<notin> revs" by auto
    with 6 r H show ?thesis by (simp add: schema_at_def as_base up_processing)
  next
    case 7
    with r H have "''4e8b2c6d1f90'' \<notin> revs" by auto
    with 7 r H show ?thesis by (simp add: schema_at_def as_base up_attempts)
  next
    case 8
    with r H show ?thesis by (simp add: schema_at_def as_base up_claims)
  next
    case 9
    then show ?thesis by (simp add: schema_at_def merge_workflow_heads_def)
  qed
qed

lemma downgrade_schema:
  assumes "history revs" and "downgrade_applies revs r"
  shows "operate_all (rev_downgrade r) (schema_at revs) = Inr (schema_at (revs - {rev_id r}))"
proof -
  note H = historyD [OF assms(1)]
  from assms(2) have r: "r \<in> set versions" "rev_id r \<in> revs" and
    last: "\<And>q. q \<in> set versions \<Longrightarrow> rev_id q \<in> revs \<Longrightarrow> rev_id r \<notin> set (rev_down q)" by (auto simp: downgrade_applies_def)
  note L = last [of add_outbox_events] last [of generalize_outbox_messages] last [of normalize_node_execution_states]
    last [of allow_null_node_outputs] last [of add_task_processing] last [of add_durable_task_attempts]
    last [of add_attempt_processing_state]
  have V: "set versions = {baseline, add_outbox_events, generalize_outbox_messages, normalize_node_execution_states,
     allow_null_node_outputs, add_task_processing, add_durable_task_attempts, add_attempt_processing_state,
     merge_workflow_heads}" by (simp add: versions_def)
  from r(1) show ?thesis
  proof (cases rule: version_cases)
    case 1
    with r L H have "''571dc8014b2c'' \<notin> revs" "''8a1f4c2d7e90'' \<notin> revs" "''7f3a2c1d9e80'' \<notin> revs" by (auto simp: V)
    with 1 r show ?thesis by (simp add: schema_at_def down_baseline)
  next
    case 2
    with r L H have "''6c2e1f4a9b70'' \<notin> revs" "''8a1f4c2d7e90'' \<notin> revs" "''9c4e2a7b1d60'' \<notin> revs" "''2d6f8a1c4b70'' \<notin> revs"
      "''4e8b2c6d1f90'' \<notin> revs" by (auto simp: V)
    with 2 r H show ?thesis by (simp add: schema_at_def down_outbox)
  next
    case 3
    with r H show ?thesis by (simp add: schema_at_def down_generalize)
  next
    case 4
    with r H show ?thesis by (simp add: schema_at_def down_normalize)
  next
    case 5
    with r H show ?thesis by (simp add: schema_at_def down_null_outputs)
  next
    case 6
    with r L H have "''2d6f8a1c4b70'' \<notin> revs" "''4e8b2c6d1f90'' \<notin> revs" by (auto simp: V)
    with 6 r H show ?thesis by (simp add: schema_at_def as_base down_processing)
  next
    case 7
    with r L H have "''4e8b2c6d1f90'' \<notin> revs" by (auto simp: V)
    with 7 r H show ?thesis by (simp add: schema_at_def as_base down_attempts)
  next
    case 8
    with r H show ?thesis by (simp add: schema_at_def as_base down_claims)
  next
    case 9
    then show ?thesis by (simp add: schema_at_def merge_workflow_heads_def)
  qed
qed

lemma erase_catalog [simp]:
  "erase_table workflows_table = workflows_table" "erase_table executions_table = executions_table"
  "erase_table (nodes_table out chk) = nodes_table out chk" "erase_table (outbox_table g) = outbox_table g"
  "erase_table processing_table = processing_table" "erase_table logical_tasks_table = logical_tasks_table"
  "erase_table (attempts_table c) = attempts_table c" "erase_table retries_table = retries_table"
  by (simp_all add: erase_table_def catalog_tables)

lemma erase_schema_at [simp]: "erase_rows (schema_at revs) = schema_at revs"
  by (simp add: schema_at_def core_tables_def task_tables_def)

text \<open>The schema of a database is that of its revisions, whatever rows it holds.\<close>

lemma migrated_schema: "migrated revs sch \<Longrightarrow> history revs \<and> erase_rows sch = schema_at revs"
proof (induction rule: migrated.induct)
  case empty_database
  show ?case by (simp add: history_def schema_at_def)
next
  case (upgraded revs sch r sch')
  then show ?case using history_upgrade upgrade_schema operate_all_erased by fastforce
next
  case (downgraded revs sch r sch')
  then show ?case using history_downgrade downgrade_schema operate_all_erased by fastforce
qed simp

section \<open>The models\<close>

text \<open>\<open>Base.metadata\<close>: the tables the mapped classes declare; \<open>index=True\<close> names its index after the column.\<close>

definition ix :: "string \<Rightarrow> string \<Rightarrow> string \<times> string list \<times> bool" where
  "ix t c = (''ix_'' @ t @ ''_'' @ c, [c], False)"

definition declared ::
    "string \<Rightarrow> column list \<Rightarrow> (string option \<times> table_constraint) list \<Rightarrow> (string \<times> string list \<times> bool) list \<Rightarrow> string \<times> table_def" where
  "declared t cols cons indexes =
     (t, \<lparr>tab_columns = cols, tab_constraints = set (map (\<lambda>c. (constraint_name t c, snd c)) cons),
          tab_indexes = set indexes, tab_rows = []\<rparr>)"

definition WorkflowRecord_table :: "string \<times> table_def" where
  "WorkflowRecord_table = declared ''workflows''
     [col ''workflow_id'' SqlUUID, col ''name'' (SqlString 255), col ''dag_definition'' SqlJSONB,
      default_col ''created_at'' SqlTimestamp ServerNow]
     [(None, PrimaryKeyConstraint [''workflow_id''])] []"

definition WorkflowExecutionRecord_table :: "string \<times> table_def" where
  "WorkflowExecutionRecord_table = declared ''workflow_executions''
     [col ''execution_id'' SqlUUID, col ''workflow_id'' SqlUUID, col ''status'' (SqlString 32), col ''input_data'' SqlJSONB,
      default_col ''created_at'' SqlTimestamp ServerNow, null_col ''started_at'' SqlTimestamp,
      null_col ''completed_at'' SqlTimestamp, default_col ''updated_at'' SqlTimestamp ServerNow]
     [(None, PrimaryKeyConstraint [''execution_id'']),
      (None, ForeignKeyConstraint [''workflow_id''] ''workflows'' [''workflow_id''] ''RESTRICT'')]
     [ix ''workflow_executions'' ''status'',
      (''ix_workflow_executions_execution_id_status'', [''execution_id'', ''status''], False)]"

definition NodeExecutionRecord_table :: "string \<times> table_def" where
  "NodeExecutionRecord_table = declared ''node_executions''
     [col ''workflow_execution_id'' SqlUUID, col ''node_id'' (SqlString 255), col ''status'' (SqlString 32),
      null_col ''output_data'' SqlJSONB, null_col ''error_message'' SqlText, null_col ''error_type'' (SqlString 255),
      default_col ''created_at'' SqlTimestamp ServerNow, default_col ''updated_at'' SqlTimestamp ServerNow,
      null_col ''started_at'' SqlTimestamp, null_col ''completed_at'' SqlTimestamp]
     [(Some ''ck_node_executions_status'', CheckIn ''status'' [''pending'', ''running'', ''completed'', ''failed'']),
      (None, PrimaryKeyConstraint [''workflow_execution_id'', ''node_id'']),
      cascade_to [''workflow_execution_id''] ''workflow_executions'' [''execution_id'']]
     [ix ''node_executions'' ''status'',
      (''ix_node_executions_execution_id_status'', [''workflow_execution_id'', ''status''], False)]"

definition OutboxEventRecord_table :: "string \<times> table_def" where
  "OutboxEventRecord_table = declared ''outbox_events''
     [col ''message_id'' SqlUUID, col ''message_type'' (SqlString 128), null_col ''aggregate_id'' SqlUUID,
      col ''target_stream'' (SqlString 128), col ''payload'' SqlJSONB, col ''status'' (SqlString 32),
      col ''publish_attempts'' SqlInteger, null_col ''last_error'' SqlText,
      default_col ''created_at'' SqlTimestamp ServerNow, null_col ''published_at'' SqlTimestamp]
     [(None, PrimaryKeyConstraint [''message_id''])]
     [ix ''outbox_events'' ''message_type'', ix ''outbox_events'' ''aggregate_id'', ix ''outbox_events'' ''status'']"

definition TaskProcessingRecord_table :: "string \<times> table_def" where
  "TaskProcessingRecord_table = declared ''task_processing''
     [col ''task_id'' (SqlString 255), col ''execution_id'' SqlUUID, col ''node_id'' (SqlString 255),
      default_col ''status'' (SqlString 32) (ServerText ''claimed''), null_col ''claimed_by'' (SqlString 255),
      default_col ''claimed_at'' SqlTimestamp ServerNow, null_col ''claim_expires_at'' SqlTimestamp,
      null_col ''result_data'' SqlJSONB, null_col ''error_message'' SqlText, null_col ''error_type'' (SqlString 255),
      null_col ''completion_event_id'' SqlUUID, null_col ''completion_published_at'' SqlTimestamp,
      null_col ''completed_at'' SqlTimestamp, default_col ''updated_at'' SqlTimestamp ServerNow]
     [(None, PrimaryKeyConstraint [''task_id'']), cascade_to [''execution_id''] ''workflow_executions'' [''execution_id'']]
     [ix ''task_processing'' ''status'',
      (''ix_task_processing_execution_id_node_id'', [''execution_id'', ''node_id''], False)]"

definition LogicalTaskRecord_table :: "string \<times> table_def" where
  "LogicalTaskRecord_table = declared ''logical_tasks''
     [col ''task_id'' (SqlString 255), col ''execution_id'' SqlUUID, col ''node_id'' (SqlString 255),
      col ''handler'' (SqlString 255), col ''handler_config'' SqlJSONB, col ''resolved_input'' SqlJSONB,
      col ''status'' (SqlString 32), null_col ''final_error_message'' SqlText, null_col ''final_error_type'' (SqlString 255),
      default_col ''created_at'' SqlTimestamp ServerNow, default_col ''updated_at'' SqlTimestamp ServerNow]
     [(None, PrimaryKeyConstraint [''task_id'']), cascade_to [''execution_id''] ''workflow_executions'' [''execution_id'']] []"

definition TaskAttemptRecord_table :: "string \<times> table_def" where
  "TaskAttemptRecord_table = declared ''task_attempts''
     [col ''attempt_id'' SqlUUID, col ''task_id'' (SqlString 255), col ''attempt_number'' SqlInteger,
      col ''status'' (SqlString 32), null_col ''failure_event_id'' SqlUUID, null_col ''completion_event_id'' SqlUUID,
      null_col ''error_message'' SqlText, null_col ''error_type'' (SqlString 255), null_col ''started_at'' SqlTimestamp,
      null_col ''failed_at'' SqlTimestamp, null_col ''scheduled_at'' SqlTimestamp, null_col ''completed_at'' SqlTimestamp,
      null_col ''claimed_by'' (SqlString 255), null_col ''claimed_at'' SqlTimestamp,
      null_col ''claim_expires_at'' SqlTimestamp, null_col ''result_data'' SqlJSONB,
      null_col ''completion_published_at'' SqlTimestamp, default_col ''created_at'' SqlTimestamp ServerNow,
      default_col ''updated_at'' SqlTimestamp ServerNow]
     [(Some ''uq_task_attempts_task_number'', UniqueConstraint [''task_id'', ''attempt_number'']),
      (Some ''uq_task_attempts_failure_event_id'', UniqueConstraint [''failure_event_id'']),
      (None, PrimaryKeyConstraint [''attempt_id'']), cascade_to [''task_id''] ''logical_tasks'' [''task_id'']]
     [(''ix_task_attempts_task_id_status'', [''task_id'', ''status''], False)]"

definition TaskRetryDispatchRecord_table :: "string \<times> table_def" where
  "TaskRetryDispatchRecord_table = declared ''task_retry_dispatches''
     [col ''attempt_id'' SqlUUID, col ''available_at'' SqlTimestamp, col ''status'' (SqlString 32),
      null_col ''published_at'' SqlTimestamp, default_col ''created_at'' SqlTimestamp ServerNow]
     [(None, PrimaryKeyConstraint [''attempt_id'']), cascade_to [''attempt_id''] ''task_attempts'' [''attempt_id'']]
     [(''ix_task_retry_dispatches_due'', [''status'', ''available_at''], False)]"

definition model_tables :: schema where
  "model_tables = [WorkflowRecord_table, WorkflowExecutionRecord_table, NodeExecutionRecord_table, OutboxEventRecord_table,
     TaskProcessingRecord_table, LogicalTaskRecord_table, TaskAttemptRecord_table, TaskRetryDispatchRecord_table]"

text \<open>A stored table serves a declared one: the columns agree in name, type and nullability and have the declared
  server defaults, the constraints are the same, and the declared indexes exist, under some name.\<close>

definition column_shape :: "column \<Rightarrow> string \<times> column_type \<times> bool" where
  "column_shape c = (col_name c, col_type c, col_nullable c)"

definition serves :: "table_def \<Rightarrow> table_def \<Rightarrow> bool" where
  "serves stored model \<longleftrightarrow>
     column_shape ` set (tab_columns stored) = column_shape ` set (tab_columns model) \<and>
     list_all (\<lambda>c. col_default c = None \<or> c \<in> set (tab_columns stored)) (tab_columns model) \<and>
     tab_constraints stored = tab_constraints model \<and>
     snd ` tab_indexes model \<subseteq> snd ` tab_indexes stored"

definition serves_models :: "schema \<Rightarrow> bool" where
  "serves_models sch \<longleftrightarrow>
     fst ` set sch = fst ` set model_tables \<and>
     list_all (\<lambda>(t, model). case map_of sch t of None \<Rightarrow> False | Some stored \<Rightarrow> serves stored model) model_tables"

lemmas model_defs = declared_def ix_def WorkflowRecord_table_def WorkflowExecutionRecord_table_def
  NodeExecutionRecord_table_def OutboxEventRecord_table_def TaskProcessingRecord_table_def LogicalTaskRecord_table_def
  TaskAttemptRecord_table_def TaskRetryDispatchRecord_table_def

lemma tables_serve:
  "serves workflows_table (snd WorkflowRecord_table)" "serves executions_table (snd WorkflowExecutionRecord_table)"
  "serves (nodes_table True True) (snd NodeExecutionRecord_table)" "serves (outbox_table True) (snd OutboxEventRecord_table)"
  "serves processing_table (snd TaskProcessingRecord_table)" "serves logical_tasks_table (snd LogicalTaskRecord_table)"
  "serves (attempts_table True) (snd TaskAttemptRecord_table)" "serves retries_table (snd TaskRetryDispatchRecord_table)"
  by (simp_all add: serves_def column_shape_def model_defs catalog_tables insert_commute)

lemma head_serves_models: "serves_models (schema_at (rev_id ` set versions))"
proof -
  have "schema_at (rev_id ` set versions) = base_tables True True True @ task_tables True True True"
    by (simp add: schema_at_def versions_def base_tables_def)
  then show ?thesis
    using tables_serve
    by (simp add: serves_models_def model_tables_def base_tables_def core_tables_def task_tables_def model_defs insert_commute)
qed

lemma upgrade_then_downgrade:
  assumes "history revs" and "upgrade_applies revs r"
  shows "downgrade_applies (insert (rev_id r) revs) r" and "insert (rev_id r) revs - {rev_id r} = revs"
proof -
  have r: "r \<in> set versions" "rev_id r \<notin> revs" using assms(2) by (auto simp: upgrade_applies_def)
  have "rev_id r \<notin> set (rev_down r)" using r(1) by (elim version_cases) simp_all
  moreover have "rev_id r \<notin> set (rev_down q)" if "q \<in> set versions" "rev_id q \<in> revs" for q
    using assms(1) r(2) that unfolding history_def by blast
  ultimately show "downgrade_applies (insert (rev_id r) revs) r"
    using r rev_id_unique unfolding downgrade_applies_def by blast
  show "insert (rev_id r) revs - {rev_id r} = revs" using r(2) by simp
qed

lemma downgrade_then_upgrade:
  assumes "history revs" and "downgrade_applies revs r"
  shows "upgrade_applies (revs - {rev_id r}) r" and "insert (rev_id r) (revs - {rev_id r}) = revs"
  using assms by (auto simp: upgrade_applies_def downgrade_applies_def history_def)

lemma serves_erase: "serves (erase_table tab) model = serves tab model"
  by (simp add: serves_def)

lemma serves_models_erase: "serves_models (erase_rows sch) = serves_models sch"
  by (simp add: serves_models_def serves_erase option.case_eq_if option.map_sel case_prod_beta)

lemma migrated_upgrade:
  "migrated revs (schema_at revs) \<Longrightarrow> upgrade_applies revs r \<Longrightarrow> insert (rev_id r) revs = revs' \<Longrightarrow> migrated revs' (schema_at revs')"
  using upgraded upgrade_schema migrated_schema by blast

lemma migrated_head: "migrated (rev_id ` set versions) (schema_at (rev_id ` set versions))"
proof -
  note step = migrated_upgrade [OF _ _ refl]
  have "migrated {} (schema_at {})" using empty_database by (simp add: schema_at_def)
  from step [OF this, of baseline] have "migrated {''39323f5e8e55''} (schema_at {''39323f5e8e55''})"
    by (simp add: upgrade_applies_def versions_def)
  from step [OF step [OF step [OF step [OF step [OF step [OF step [OF step [OF this,
        of add_outbox_events], of generalize_outbox_messages], of normalize_node_execution_states],
        of allow_null_node_outputs], of add_task_processing], of add_durable_task_attempts],
        of add_attempt_processing_state], of merge_workflow_heads]
  show ?thesis by (simp add: upgrade_applies_def versions_def insert_commute)
qed

subsection \<open>Rows in the way of a revision\<close>

text \<open>A node status that is neither legacy nor part of the lifecycle, a node output that is null, and an outbox message without an
  execution of its own.\<close>

definition foreign_status :: "schema \<Rightarrow> bool" where
  "foreign_status sch \<longleftrightarrow> (\<exists>v. Some v \<in> set (column_values sch ''node_executions'' ''status'') \<and>
     v \<notin> PStr ` {''pending'', ''running'', ''completed'', ''failed'', ''ready'', ''skipped''})"

definition missing_output :: "schema \<Rightarrow> bool" where
  "missing_output sch \<longleftrightarrow> None \<in> set (column_values sch ''node_executions'' ''output_data'')"

definition detached_message :: "schema \<Rightarrow> bool" where
  "detached_message sch \<longleftrightarrow> None \<in> set (column_values sch ''outbox_events'' ''aggregate_id'') \<or>
     (\<exists>v. Some v \<in> set (column_values sch ''outbox_events'' ''aggregate_id'') \<and>
        Some v \<notin> set (column_values sch ''workflow_executions'' ''execution_id''))"

lemma normalized_values:
  assumes "operate_all [UpdateColumn ''node_executions'' ''status'' ''pending'' (Some ''ready''),
       UpdateColumn ''node_executions'' ''status'' ''failed'' (Some ''skipped'')] sch = Inr sch'"
  shows "column_values sch' ''node_executions'' ''status'' =
    map (\<lambda>x. if x = Some (PStr ''ready'') then Some (PStr ''pending'') else if x = Some (PStr ''skipped'') then Some (PStr ''failed'') else x)
      (column_values sch ''node_executions'' ''status'')"
  using assms by (auto simp: rbind_Inr_iff simp del: operate.simps dest!: update_values)

lemma normalize_blocked:
  assumes "operate_all (rev_upgrade normalize_node_execution_states) (erase_rows sch) = Inr s"
  shows "operate_all (rev_upgrade normalize_node_execution_states) sch = Inl e \<longleftrightarrow>
    foreign_status sch \<and> e = CheckViolation ''ck_node_executions_status''"
proof -
  let ?up = "[UpdateColumn ''node_executions'' ''status'' ''pending'' (Some ''ready''),
       UpdateColumn ''node_executions'' ''status'' ''failed'' (Some ''skipped'')]"
  let ?ck = "CreateCheckConstraint ''ck_node_executions_status'' ''node_executions'' ''status''
         [''pending'', ''running'', ''completed'', ''failed'']"
  have ps: "rev_upgrade normalize_node_execution_states = ?up @ [?ck]" by (simp add: normalize_node_execution_states_def)
  from assms obtain s1 where "operate_all ?up (erase_rows sch) = Inr s1"
    unfolding ps operate_all_append by (auto simp: rbind_Inr_iff simp del: operate.simps operate_all.simps)
  from operate_all_safe [OF this] obtain sch1 where up: "operate_all ?up sch = Inr sch1"
    by (auto simp del: operate.simps operate_all.simps)
  note vals = normalized_values [OF up]
  have run: "operate_all (rev_upgrade normalize_node_execution_states) sch = operate ?ck sch1"
    unfolding ps operate_all_append up by (simp add: rbind_def del: operate.simps split: sum.split)
  have "operate_all (rev_upgrade normalize_node_execution_states) (erase_rows sch) = operate ?ck (erase_rows sch1)"
    unfolding ps operate_all_append operate_all_erased [OF up] by (simp add: rbind_def del: operate.simps split: sum.split)
  with assms operate_erased [of ?ck sch1] have only: "operate ?ck sch1 = Inl e \<Longrightarrow> e = CheckViolation ''ck_node_executions_status''" for e
    by (auto simp: erased_outcome_def simp del: operate.simps)
  have "\<exists>e. operate ?ck sch1 = Inl e" if "foreign_status sch"
  proof (cases "operate ?ck sch1")
    case (Inr sch2)
    from that obtain v where v: "Some v \<in> set (column_values sch ''node_executions'' ''status'')"
      "v \<notin> PStr ` {''pending'', ''running'', ''completed'', ''failed'', ''ready'', ''skipped''}" by (auto simp: foreign_status_def)
    then have "Some v \<in> set (column_values sch1 ''node_executions'' ''status'')" unfolding vals by (force simp: image_iff)
    from accepted_rows(2) [OF Inr this] v(2) show ?thesis by auto
  qed simp
  moreover have "foreign_status sch" if "operate ?ck sch1 = Inl (CheckViolation ''ck_node_executions_status'')"
    using violation_row(2) [OF that] unfolding vals by (auto simp: foreign_status_def split: if_splits)
  ultimately show ?thesis using only by (auto simp: run simp del: operate.simps)
qed

lemma null_outputs_blocked:
  assumes "operate_all (rev_downgrade allow_null_node_outputs) (erase_rows sch) = Inr s"
  shows "(\<exists>e. operate_all (rev_downgrade allow_null_node_outputs) sch = Inl e) \<longleftrightarrow> missing_output sch"
proof -
  let ?p = "SetNullable ''node_executions'' ''output_data'' False"
  have run: "operate_all (rev_downgrade allow_null_node_outputs) x = operate ?p x" for x
    by (simp add: allow_null_node_outputs_def rbind_def del: operate.simps split: sum.split)
  show ?thesis
    using assms operate_erased [of ?p sch] accepted_rows(1) [of "''node_executions''" "''output_data''" sch]
      violation_row(1) [of "''node_executions''" "''output_data''" sch]
    by (cases "operate ?p sch") (auto simp: run missing_output_def erased_outcome_def simp del: operate.simps)
qed

lemma generalize_downgrade_split:
  "rev_downgrade generalize_outbox_messages =
     [DropIndex ''ix_outbox_events_published_at'' ''outbox_events'',
      DropIndex ''ix_outbox_events_target_stream_status'' ''outbox_events'', DropColumn ''outbox_events'' ''target_stream''] @
     [SetNullable ''outbox_events'' ''aggregate_id'' False] @
     [RenameColumn ''outbox_events'' ''message_type'' ''event_type'', RenameColumn ''outbox_events'' ''message_id'' ''event_id''] @
     [CreateForeignKey ''outbox_events_aggregate_id_fkey'' ''outbox_events'' ''workflow_executions''
         [''aggregate_id''] [''execution_id''] ''CASCADE'']"
  by (simp add: generalize_outbox_messages_def)

lemma generalize_unblocked:
  assumes "operate_all (rev_downgrade generalize_outbox_messages) sch = Inr sch'"
  shows "\<not> detached_message sch"
proof -
  from assms obtain sch1 sch2 sch3 where
    1: "operate_all [DropIndex ''ix_outbox_events_published_at'' ''outbox_events'',
      DropIndex ''ix_outbox_events_target_stream_status'' ''outbox_events'', DropColumn ''outbox_events'' ''target_stream''] sch = Inr sch1"
    and 2: "operate (SetNullable ''outbox_events'' ''aggregate_id'' False) sch1 = Inr sch2"
    and 3: "operate_all [RenameColumn ''outbox_events'' ''message_type'' ''event_type'',
      RenameColumn ''outbox_events'' ''message_id'' ''event_id''] sch2 = Inr sch3"
    and 4: "operate (CreateForeignKey ''outbox_events_aggregate_id_fkey'' ''outbox_events'' ''workflow_executions''
         [''aggregate_id''] [''execution_id''] ''CASCADE'') sch3 = Inr sch'"
    unfolding generalize_downgrade_split operate_all_append by (auto simp: rbind_Inr_iff simp del: operate.simps)
  have same: "column_values sch3 t c = column_values sch t c" "column_values sch1 t c = column_values sch t c"
    if "(t, c) \<in> {(''outbox_events'', ''aggregate_id''), (''workflow_executions'', ''execution_id'')}" for t c
    using that operate_all_values [OF 1, of t c] operate_values [OF 2, of t c] operate_all_values [OF 3, of t c] by auto
  show ?thesis
    using accepted_rows(1) [OF 2] accepted_rows(3) [OF 4] by (auto simp: detached_message_def same)
qed

lemma generalize_blocked:
  assumes "operate_all (rev_downgrade generalize_outbox_messages) (erase_rows sch) = Inr s"
  shows "(\<exists>e. operate_all (rev_downgrade generalize_outbox_messages) sch = Inl e) \<longleftrightarrow> detached_message sch"
proof (cases "operate_all (rev_downgrade generalize_outbox_messages) sch")
  case (Inl e)
  from operate_all_blame [OF Inl assms] obtain qs p rs sch1 where
    split: "rev_downgrade generalize_outbox_messages = qs @ p # rs" and before: "operate_all qs sch = Inr sch1"
    and fails: "operate p sch1 = Inl e" and e: "e \<in> violations p" by blast
  have vals: "column_values sch1 t c = column_values sch t c"
    if "(t, c) \<in> {(''outbox_events'', ''aggregate_id''), (''workflow_executions'', ''execution_id'')}" for t c
    by (rule operate_all_values [OF before])
      (use split that in \<open>auto simp: generalize_outbox_messages_def Cons_eq_append_conv\<close>)
  from split e consider
      "p = SetNullable ''outbox_events'' ''aggregate_id'' False" "e = NotNullViolation ''aggregate_id''"
    | "p = CreateForeignKey ''outbox_events_aggregate_id_fkey'' ''outbox_events'' ''workflow_executions''
         [''aggregate_id''] [''execution_id''] ''CASCADE''" "e = ForeignKeyViolation ''outbox_events_aggregate_id_fkey''"
    by (auto simp: generalize_outbox_messages_def Cons_eq_append_conv)
  then have "detached_message sch"
  proof cases
    case 1
    then show ?thesis using violation_row(1) fails by (auto simp: detached_message_def vals dest!: violation_row(1) simp del: operate.simps)
  next
    case 2
    then show ?thesis using violation_row(3) fails by (auto simp: detached_message_def vals dest!: violation_row(3) simp del: operate.simps)
  qed
  with Inl show ?thesis by blast
next
  case (Inr sch')
  with generalize_unblocked show ?thesis by simp
qed

text \<open>The stream of a stored message is filled in before it becomes mandatory, and the unique index is built on a new table.\<close>

lemma generalize_runs:
  assumes "operate_all (rev_upgrade generalize_outbox_messages) (erase_rows sch) = Inr s"
  shows "\<exists>sch'. operate_all (rev_upgrade generalize_outbox_messages) sch = Inr sch'"
proof (cases "operate_all (rev_upgrade generalize_outbox_messages) sch")
  case (Inl e)
  let ?fill = "UpdateColumn ''outbox_events'' ''target_stream'' ''workflow.events'' None"
  from operate_all_blame [OF Inl assms] obtain qs p rs sch1 where
    split: "rev_upgrade generalize_outbox_messages = qs @ p # rs" and before: "operate_all qs sch = Inr sch1"
    and fails: "operate p sch1 = Inl e" and e: "e \<in> violations p" by blast
  from split e obtain ps where "qs = ps @ [?fill]" and p: "p = SetNullable ''outbox_events'' ''target_stream'' False"
    "e = NotNullViolation ''target_stream''"
    by (auto simp: generalize_outbox_messages_def Cons_eq_append_conv)
  with before obtain sch0 where "operate ?fill sch0 = Inr sch1"
    by (auto simp: operate_all_append rbind_Inr_iff simp del: operate.simps)
  from update_values [OF this] have "None \<notin> set (column_values sch1 ''outbox_events'' ''target_stream'')" by auto
  with violation_row(1) fails p show ?thesis by blast
qed simp

lemma attempts_run:
  assumes "operate_all (rev_upgrade add_durable_task_attempts) (erase_rows sch) = Inr s"
  shows "\<exists>sch'. operate_all (rev_upgrade add_durable_task_attempts) sch = Inr sch'"
proof (cases "operate_all (rev_upgrade add_durable_task_attempts) sch")
  case (Inl e)
  from operate_all_blame [OF Inl assms] obtain qs p rs sch1 where
    split: "rev_upgrade add_durable_task_attempts = qs @ p # rs" and before: "operate_all qs sch = Inr sch1"
    and fails: "operate p sch1 = Inl e" and e: "e \<in> violations p" by blast
  from split e obtain cols cons where qs: "qs = [CreateTable ''logical_tasks'' cols cons]"
    and p: "p = CreateIndex ''ix_logical_tasks_execution_id_node_id'' ''logical_tasks'' [''execution_id'', ''node_id''] True"
      "e = UniqueViolation ''ix_logical_tasks_execution_id_node_id''"
    by (auto simp: add_durable_task_attempts_def Cons_eq_append_conv)
  from before qs have "\<exists>tab. map_of sch1 ''logical_tasks'' = Some tab \<and> tab_rows tab = []"
    by (auto simp: create_table_def map_add_def rbind_Inr_iff split: if_splits simp flip: map_of_eq_None_iff)
  with fails p show ?thesis by (auto simp: create_index_def on_table_def unique_rows_def split: if_splits)
qed simp

lemma revisions_distinct [simp]:
  "generalize_outbox_messages \<noteq> normalize_node_execution_states" "add_durable_task_attempts \<noteq> normalize_node_execution_states"
  "generalize_outbox_messages \<noteq> allow_null_node_outputs"
  by (auto dest: arg_cong [of _ _ rev_id])

lemma upgrade_outcome:
  assumes "r \<in> set versions" and "operate_all (rev_upgrade r) (erase_rows sch) = Inr s"
  shows "if r = normalize_node_execution_states \<and> foreign_status sch
    then operate_all (rev_upgrade r) sch = Inl (CheckViolation ''ck_node_executions_status'')
    else \<exists>sch'. operate_all (rev_upgrade r) sch = Inr sch'"
proof (cases "r \<in> {generalize_outbox_messages, normalize_node_execution_states, add_durable_task_attempts}")
  case True
  then consider "r = generalize_outbox_messages" | "r = normalize_node_execution_states" | "r = add_durable_task_attempts" by blast
  then show ?thesis
  proof cases
    case 1
    with assms(2) generalize_runs show ?thesis by simp
  next
    case 2
    with assms(2) normalize_blocked [of sch s] show ?thesis by (cases "operate_all (rev_upgrade r) sch") auto
  next
    case 3
    with assms(2) attempts_run [of sch s] show ?thesis by (simp add: revisions_distinct [symmetric])
  qed
next
  case False
  have "list_all (\<lambda>p. violations p = {}) (rev_upgrade r)"
    using assms(1) False by (elim version_cases) (simp_all add: revision_ids)
  from operate_all_safe [OF assms(2) this] False show ?thesis by simp
qed

lemma downgrade_outcome:
  assumes "r \<in> set versions" and "operate_all (rev_downgrade r) (erase_rows sch) = Inr s"
  shows "if r = allow_null_node_outputs \<and> missing_output sch \<or> r = generalize_outbox_messages \<and> detached_message sch
    then \<exists>e. operate_all (rev_downgrade r) sch = Inl e else \<exists>sch'. operate_all (rev_downgrade r) sch = Inr sch'"
proof (cases "r \<in> {generalize_outbox_messages, allow_null_node_outputs}")
  case True
  then show ?thesis
    using assms(2) generalize_blocked [of sch s] null_outputs_blocked [of sch s] revisions_distinct(3)
    by (cases "operate_all (rev_downgrade r) sch") fastforce+
next
  case False
  have "list_all (\<lambda>p. violations p = {}) (rev_downgrade r)"
    using assms(1) False by (elim version_cases) (simp_all add: revision_ids)
  from operate_all_safe [OF assms(2) this] False show ?thesis by simp
qed

text \<open>C32: the migrations are consistent on databases with stored rows. However a database got to a set of applied
  revisions, by upgrades, downgrades and writes of the program, its tables, columns, constraints and indexes are the
  same. Every revision that can be applied there succeeds, and its downgrade restores that schema, unless it is the
  normalization of node statuses and some node has a status that is neither legacy nor part of the lifecycle: then it
  fails on the new check constraint. Every revision that can be taken back succeeds, and its upgrade restores the
  schema, unless it is the one that allowed null outputs and a stored output is null, or the one that generalized the
  outbox and some message names no stored execution: then it fails. With all revisions applied the database serves the
  persistence models: the tables and columns they declare with type, nullability and declared defaults, the same
  constraints, and an index for each declared index, where names of indexes, further indexes and further defaults may
  differ.\<close>

theorem migrations_consistent:
  assumes "migrated revs sch"
  shows "(\<forall>r. upgrade_applies revs r \<longrightarrow>
      (if r = normalize_node_execution_states \<and> foreign_status sch
       then operate_all (rev_upgrade r) sch = Inl (CheckViolation ''ck_node_executions_status'')
       else \<exists>sch'. operate_all (rev_upgrade r) sch = Inr sch' \<and>
         operate_all (rev_downgrade r) (erase_rows sch') = Inr (erase_rows sch))) \<and>
    (\<forall>r. downgrade_applies revs r \<longrightarrow>
      (if r = allow_null_node_outputs \<and> missing_output sch \<or> r = generalize_outbox_messages \<and> detached_message sch
       then \<exists>e. operate_all (rev_downgrade r) sch = Inl e
       else \<exists>sch'. operate_all (rev_downgrade r) sch = Inr sch' \<and>
         operate_all (rev_upgrade r) (erase_rows sch') = Inr (erase_rows sch))) \<and>
    (\<forall>sch'. migrated revs sch' \<longrightarrow> erase_rows sch' = erase_rows sch) \<and>
    (revs = rev_id ` set versions \<longrightarrow> serves_models sch)"
proof -
  have H: "history revs" and sch: "erase_rows sch = schema_at revs" using migrated_schema [OF assms] by simp_all
  have up: "operate_all (rev_downgrade r) (erase_rows sch') = Inr (erase_rows sch)"
    if "upgrade_applies revs r" "operate_all (rev_upgrade r) sch = Inr sch'" for r sch'
    using operate_all_erased [OF that(2)] upgrade_schema [OF H that(1)] upgrade_then_downgrade(2) [OF H that(1)]
      downgrade_schema [OF history_upgrade [OF H that(1)] upgrade_then_downgrade(1) [OF H that(1)]] by (simp add: sch)
  have down: "operate_all (rev_upgrade r) (erase_rows sch') = Inr (erase_rows sch)"
    if "downgrade_applies revs r" "operate_all (rev_downgrade r) sch = Inr sch'" for r sch'
    using operate_all_erased [OF that(2)] downgrade_schema [OF H that(1)] downgrade_then_upgrade(2) [OF H that(1)]
      upgrade_schema [OF history_downgrade [OF H that(1)] downgrade_then_upgrade(1) [OF H that(1)]] by (simp add: sch)
  have A: "if r = normalize_node_execution_states \<and> foreign_status sch
       then operate_all (rev_upgrade r) sch = Inl (CheckViolation ''ck_node_executions_status'')
       else \<exists>sch'. operate_all (rev_upgrade r) sch = Inr sch' \<and> operate_all (rev_downgrade r) (erase_rows sch') = Inr (erase_rows sch)"
    if "upgrade_applies revs r" for r
    using upgrade_outcome [of r sch] upgrade_schema [OF H that] up [OF that] that
    by (auto simp: sch upgrade_applies_def split: if_splits)
  have B: "if r = allow_null_node_outputs \<and> missing_output sch \<or> r = generalize_outbox_messages \<and> detached_message sch
       then \<exists>e. operate_all (rev_downgrade r) sch = Inl e
       else \<exists>sch'. operate_all (rev_downgrade r) sch = Inr sch' \<and> operate_all (rev_upgrade r) (erase_rows sch') = Inr (erase_rows sch)"
    if "downgrade_applies revs r" for r
    using downgrade_outcome [of r sch] downgrade_schema [OF H that] down [OF that] that
    by (auto simp: sch downgrade_applies_def split: if_splits)
  have C: "serves_models sch" if "revs = rev_id ` set versions"
    using head_serves_models serves_models_erase [of sch] sch that by simp
  show ?thesis by (intro conjI allI impI A B C) (simp_all add: migrated_schema sch)
qed

definition database_with_rows :: schema where
  "database_with_rows =
     [(''workflows'', workflows_table), (''workflow_executions'', executions_table),
      (''node_executions'', (nodes_table True False)\<lparr>tab_rows := [[(''node_id'', Some (PStr ''a'')), (''output_data'', None)]]\<rparr>),
      (''outbox_events'', outbox_table False)]"

lemma database_with_rows_migrated: "migrated {''39323f5e8e55'', ''571dc8014b2c'', ''8a1f4c2d7e90''} database_with_rows"
proof -
  note step = migrated_upgrade [OF _ _ refl]
  have "migrated {} (schema_at {})" using empty_database by (simp add: schema_at_def)
  from step [OF this, of baseline] have "migrated {''39323f5e8e55''} (schema_at {''39323f5e8e55''})"
    by (simp add: upgrade_applies_def versions_def)
  from step [OF step [OF this, of add_outbox_events], of allow_null_node_outputs]
  have "migrated {''39323f5e8e55'', ''571dc8014b2c'', ''8a1f4c2d7e90''} (schema_at {''39323f5e8e55'', ''571dc8014b2c'', ''8a1f4c2d7e90''})"
    by (simp add: upgrade_applies_def versions_def insert_commute)
  then show ?thesis
    by (rule written) (simp add: database_with_rows_def schema_at_def core_tables_def erase_table_def catalog_tables)
qed

theorem migrations_consistent_witness:
  "(\<exists>sch'. operate_all (rev_upgrade generalize_outbox_messages) database_with_rows = Inr sch') \<and>
   (\<exists>e. operate_all (rev_downgrade allow_null_node_outputs) database_with_rows = Inl e) \<and>
   serves_models (schema_at (rev_id ` set versions))"
proof -
  have up: "upgrade_applies {''39323f5e8e55'', ''571dc8014b2c'', ''8a1f4c2d7e90''} generalize_outbox_messages"
    by (simp add: upgrade_applies_def versions_def)
  have down: "downgrade_applies {''39323f5e8e55'', ''571dc8014b2c'', ''8a1f4c2d7e90''} allow_null_node_outputs"
    by (simp add: downgrade_applies_def versions_def)
  have null: "missing_output database_with_rows"
    by (simp add: missing_output_def column_values_def database_with_rows_def cell_def)
  note rows = migrations_consistent [OF database_with_rows_migrated]
  have "\<exists>sch'. operate_all (rev_upgrade generalize_outbox_messages) database_with_rows = Inr sch'"
    using conjunct1 [OF rows, rule_format, OF up] by auto
  moreover have "\<exists>e. operate_all (rev_downgrade allow_null_node_outputs) database_with_rows = Inl e"
    using conjunct1 [OF conjunct2 [OF rows], rule_format, OF down] null by simp
  ultimately show ?thesis using migrations_consistent [OF migrated_head] by simp
qed

section \<open>Normalized statuses\<close>

text \<open>The status of a row after the two updates of the revision.\<close>

definition normalized :: "row \<Rightarrow> row" where
  "normalized r =
     (if cell r ''status'' = Some (PStr ''ready'') then AList.update ''status'' (Some (PStr ''pending'')) r
      else if cell r ''status'' = Some (PStr ''skipped'') then AList.update ''status'' (Some (PStr ''failed'')) r else r)"

lemma cell_update [simp]: "cell (AList.update c v r) c' = (if c' = c then v else cell r c')"
  by (simp add: cell_def update_conv')

lemma normalized_updates:
  "(if cell r1 ''status'' = Some (PStr ''skipped'') then AList.update ''status'' (Some (PStr ''failed'')) r1 else r1) = normalized r"
  if "r1 = (if cell r ''status'' = Some (PStr ''ready'') then AList.update ''status'' (Some (PStr ''pending'')) r else r)"
  using that by (simp add: normalized_def)

definition lifecycle_status :: "row \<Rightarrow> bool" where
  "lifecycle_status r \<longleftrightarrow> cell r ''status'' = None \<or>
     cell r ''status'' \<in> Some ` PStr ` set [''pending'', ''running'', ''completed'', ''failed'']"

lemma normalize_run:
  assumes "map_of sch ''node_executions'' = Some tab" and "''status'' \<in> col_name ` set (tab_columns tab)"
    and "''ck_node_executions_status'' \<notin> fst ` tab_constraints tab"
  shows "\<exists>sch'. map_of sch' ''node_executions'' = Some (tab\<lparr>tab_rows := map normalized (tab_rows tab),
       tab_constraints := insert (''ck_node_executions_status'',
         CheckIn ''status'' [''pending'', ''running'', ''completed'', ''failed'']) (tab_constraints tab)\<rparr>) \<and>
     operate_all (rev_upgrade normalize_node_execution_states) sch =
       (if list_all lifecycle_status (map normalized (tab_rows tab)) then Inr sch' else Inl (CheckViolation ''ck_node_executions_status''))"
  by (rule exI [of _ "AList.update ''node_executions'' (tab\<lparr>tab_rows := map normalized (tab_rows tab),
       tab_constraints := insert (''ck_node_executions_status'',
         CheckIn ''status'' [''pending'', ''running'', ''completed'', ''failed'']) (tab_constraints tab)\<rparr>) sch"])
    (simp add: assms normalize_node_execution_states_def update_column_def create_check_constraint_def add_constraint_def
      has_columns_def on_table_def update_conv' lifecycle_status_def [abs_def] normalized_updates comp_def)

lemma lifecycle_status_value:
  "lifecycle_status r \<Longrightarrow> cell r ''status'' = None \<or> (\<exists>s. cell r ''status'' = Some (PStr (node_status_value s)))"
  unfolding lifecycle_status_def
  by (auto intro: exI [of _ PENDING] exI [of _ RUNNING] exI [of _ COMPLETED] exI [of _ FAILED])

lemma not_normalized:
  "\<not> lifecycle_status (normalized r) \<Longrightarrow> \<exists>v. cell r ''status'' = Some v \<and>
     v \<notin> PStr ` {''pending'', ''running'', ''completed'', ''failed'', ''ready'', ''skipped''}"
  by (cases "cell r ''status''") (auto simp: lifecycle_status_def normalized_def split: if_splits)

text \<open>Whatever rows are stored, the normalization of node statuses either fails, because some row has a status that
  is neither legacy nor part of the lifecycle, or leaves every row with a status the program can read.\<close>

theorem normalization_outcome:
  assumes "map_of sch ''node_executions'' = Some tab" and "''status'' \<in> col_name ` set (tab_columns tab)"
    and "''ck_node_executions_status'' \<notin> fst ` tab_constraints tab"
  shows "case operate_all (rev_upgrade normalize_node_execution_states) sch of
      Inr sch' \<Rightarrow> (\<exists>tab'. map_of sch' ''node_executions'' = Some tab' \<and> tab_rows tab' = map normalized (tab_rows tab) \<and>
        (\<forall>r \<in> set (tab_rows tab'). cell r ''status'' = None \<or> (\<exists>s. cell r ''status'' = Some (PStr (node_status_value s)))))
    | Inl e \<Rightarrow> e = CheckViolation ''ck_node_executions_status'' \<and>
        (\<exists>r \<in> set (tab_rows tab). \<exists>v. cell r ''status'' = Some v \<and>
           v \<notin> PStr ` {''pending'', ''running'', ''completed'', ''failed'', ''ready'', ''skipped''})"
proof -
  from normalize_run [OF assms] obtain sch' where s: "map_of sch' ''node_executions'' = Some (tab\<lparr>tab_rows := map normalized (tab_rows tab),
       tab_constraints := insert (''ck_node_executions_status'',
         CheckIn ''status'' [''pending'', ''running'', ''completed'', ''failed'']) (tab_constraints tab)\<rparr>)"
    and run: "operate_all (rev_upgrade normalize_node_execution_states) sch =
       (if list_all lifecycle_status (map normalized (tab_rows tab)) then Inr sch' else Inl (CheckViolation ''ck_node_executions_status''))"
    by blast
  show ?thesis
  proof (cases "list_all lifecycle_status (map normalized (tab_rows tab))")
    case True
    then show ?thesis using s lifecycle_status_value by (auto simp: run list_all_iff)
  next
    case False
    then obtain r where "r \<in> set (tab_rows tab)" "\<not> lifecycle_status (normalized r)" by (auto simp: list_all_iff)
    then show ?thesis using not_normalized [of r] False by (simp only: run if_False sum.case) blast
  qed
qed

end
