(* ===== verification/Unit_Of_Work.thy ===== *)
theory Unit_Of_Work
  imports Tables
begin

text \<open>
  The unit of work as an object (\<open>SqlAlchemyUnitOfWork\<close> in \<open>app/infrastructure/persistence/unit_of_work.py\<close>): its
  repositories can be used only while one of its transactions is open, a transaction commits or rolls back the session
  it opened, and database errors leave it as \<open>WorkflowPersistenceError\<close>. The services are modelled by
  \<open>run_transaction\<close> of theory \<open>Tables\<close>; the object is shown to implement it. Cancellation of a coroutine is not modelled.
\<close>

section \<open>Sessions\<close>

text \<open>An exception inside a transaction: one of SQLAlchemy, or another one.\<close>

datatype failure = SQLAlchemyError string | Raised error

text \<open>The committed data, and for every session the state its open transaction sees, if it has begun one. Sessions are
  numbered in the order they are opened.\<close>

record 'd server =
  srv_data :: 'd
  srv_work :: "nat \<Rightarrow> 'd option"
  srv_next :: nat

definition open_session :: "'d server \<Rightarrow> nat \<times> 'd server" where
  "open_session srv = (srv_next srv, srv\<lparr>srv_next := srv_next srv + 1\<rparr>)"

definition session_state :: "nat \<Rightarrow> 'd server \<Rightarrow> 'd" where
  "session_state sid srv = (case srv_work srv sid of None \<Rightarrow> srv_data srv | Some d \<Rightarrow> d)"

text \<open>A statement begins a transaction when none is open. The answer of the database to a commit is an argument.\<close>

definition session_execute :: "nat \<Rightarrow> ('d \<Rightarrow> (failure + 'r) \<times> 'd) \<Rightarrow> 'd server \<Rightarrow> (failure + 'r) \<times> 'd server" where
  "session_execute sid stmt srv =
     (case stmt (session_state sid srv) of (r, d) \<Rightarrow> (r, srv\<lparr>srv_work := (srv_work srv)(sid \<mapsto> d)\<rparr>))"

definition session_commit :: "('d \<Rightarrow> failure + unit) \<Rightarrow> nat \<Rightarrow> 'd server \<Rightarrow> (failure + unit) \<times> 'd server" where
  "session_commit answer sid srv =
     (case srv_work srv sid of
        None \<Rightarrow> (Inr (), srv)
      | Some d \<Rightarrow>
          (case answer d of
             Inl f \<Rightarrow> (Inl f, srv)
           | Inr _ \<Rightarrow> (Inr (), srv\<lparr>srv_data := d, srv_work := (srv_work srv)(sid := None)\<rparr>)))"

definition session_rollback :: "nat \<Rightarrow> 'd server \<Rightarrow> 'd server" where
  "session_rollback sid srv = srv\<lparr>srv_work := (srv_work srv)(sid := None)\<rparr>"

text \<open>The exit of \<open>async with session_factory()\<close> ends a transaction that is still open.\<close>

definition session_close :: "nat \<Rightarrow> 'd server \<Rightarrow> 'd server" where
  "session_close sid srv = srv\<lparr>srv_work := (srv_work srv)(sid := None)\<rparr>"

section \<open>The object\<close>

text \<open>A repository is the sentinel \<open>_UnavailableRepository\<close> or one over a session.\<close>

datatype repository = UnavailableRepository | SessionRepository nat

record unit_of_work =
  uow_session :: "nat option"
  uow_workflows :: repository
  uow_workflow_executions :: repository
  uow_node_executions :: repository
  uow_outbox_events :: repository
  uow_task_processing :: repository
  uow_attempt_processing :: repository
  uow_task_retries :: repository

definition new_unit_of_work :: unit_of_work where
  "new_unit_of_work =
     \<lparr>uow_session = None, uow_workflows = UnavailableRepository, uow_workflow_executions = UnavailableRepository,
      uow_node_executions = UnavailableRepository, uow_outbox_events = UnavailableRepository,
      uow_task_processing = UnavailableRepository, uow_attempt_processing = UnavailableRepository,
      uow_task_retries = UnavailableRepository\<rparr>"

text \<open>The head of \<open>transaction\<close>, and its \<open>finally\<close> block.\<close>

definition bind_repositories :: "nat \<Rightarrow> unit_of_work \<Rightarrow> unit_of_work" where
  "bind_repositories sid uow =
     uow\<lparr>uow_session := Some sid, uow_workflows := SessionRepository sid, uow_workflow_executions := SessionRepository sid,
         uow_node_executions := SessionRepository sid, uow_outbox_events := SessionRepository sid,
         uow_task_processing := SessionRepository sid, uow_attempt_processing := SessionRepository sid,
         uow_task_retries := SessionRepository sid\<rparr>"

definition reset_repositories :: "unit_of_work \<Rightarrow> unit_of_work" where
  "reset_repositories uow =
     uow\<lparr>uow_session := None, uow_workflows := UnavailableRepository, uow_workflow_executions := UnavailableRepository,
         uow_node_executions := UnavailableRepository, uow_outbox_events := UnavailableRepository,
         uow_task_processing := UnavailableRepository, uow_attempt_processing := UnavailableRepository,
         uow_task_retries := UnavailableRepository\<rparr>"

definition unavailable :: error where
  "unavailable = RuntimeError (''Repositories are available only inside '' @ quoted ''async with uow.transaction()'' @ ''.'')"

text \<open>The attributes of the object that hold repositories.\<close>

datatype repository_name =
    WORKFLOWS | WORKFLOW_EXECUTIONS | NODE_EXECUTIONS | OUTBOX_EVENTS | TASK_PROCESSING | ATTEMPT_PROCESSING | TASK_RETRIES

fun repository_of :: "unit_of_work \<Rightarrow> repository_name \<Rightarrow> repository" where
  "repository_of uow WORKFLOWS = uow_workflows uow"
| "repository_of uow WORKFLOW_EXECUTIONS = uow_workflow_executions uow"
| "repository_of uow NODE_EXECUTIONS = uow_node_executions uow"
| "repository_of uow OUTBOX_EVENTS = uow_outbox_events uow"
| "repository_of uow TASK_PROCESSING = uow_task_processing uow"
| "repository_of uow ATTEMPT_PROCESSING = uow_attempt_processing uow"
| "repository_of uow TASK_RETRIES = uow_task_retries uow"

text \<open>A method of a repository: a statement on the session the repository was made with.\<close>

definition repository_call ::
    "unit_of_work \<Rightarrow> repository_name \<Rightarrow> ('d \<Rightarrow> (failure + 'r) \<times> 'd) \<Rightarrow> 'd server \<Rightarrow> (failure + 'r) \<times> 'd server" where
  "repository_call uow name stmt srv =
     (case repository_of uow name of
        UnavailableRepository \<Rightarrow> (Inl (Raised unavailable), srv)
      | SessionRepository sid \<Rightarrow> session_execute sid stmt srv)"

text \<open>The body of an \<open>async with uow.transaction()\<close>: calls of repositories, each with what follows its result; an exception
  leaves the body.\<close>

datatype ('d, 'r, 'a) body = Return 'a | Raise error | Call repository_name "'d \<Rightarrow> (failure + 'r) \<times> 'd" "'r \<Rightarrow> ('d, 'r, 'a) body"

primrec run_body :: "('d, 'r, 'a) body \<Rightarrow> unit_of_work \<Rightarrow> 'd server \<Rightarrow> (failure + 'a) \<times> 'd server" where
  "run_body (Return x) uow srv = (Inr x, srv)"
| "run_body (Raise e) uow srv = (Inl (Raised e), srv)"
| "run_body (Call name stmt rest) uow srv =
     (case repository_call uow name stmt srv of
        (Inl f, srv') \<Rightarrow> (Inl f, srv')
      | (Inr x, srv') \<Rightarrow> run_body (rest x) uow srv')"

text \<open>What the \<open>except\<close> clauses raise.\<close>

fun surfaced :: "failure \<Rightarrow> error" where
  "surfaced (SQLAlchemyError m) = WorkflowPersistenceError ''Unable to persist workflow data.''"
| "surfaced (Raised e) = e"

definition transaction ::
    "('d \<Rightarrow> failure + unit) \<Rightarrow> ('d, 'r, 'a) body \<Rightarrow> unit_of_work \<times> 'd server \<Rightarrow> (error + 'a) \<times> unit_of_work \<times> 'd server" where
  "transaction answer body = (\<lambda>(uow, srv).
     case open_session srv of (sid, srv0) \<Rightarrow>
     let uow1 = bind_repositories sid uow;
         (r, srv1) =
          (case run_body body uow1 srv0 of
             (Inl f, srv') \<Rightarrow> (Inl (surfaced f), session_rollback sid srv')
           | (Inr x, srv') \<Rightarrow>
               (case session_commit answer sid srv' of
                  (Inl f, srv'') \<Rightarrow> (Inl (surfaced f), session_rollback sid srv'')
                | (Inr _, srv'') \<Rightarrow> (Inr x, srv'')))
     in (r, reset_repositories uow1, session_close sid srv1))"

section \<open>Bodies and transactions\<close>

text \<open>The transaction of theory \<open>Tables\<close> that a body stands for, whatever repositories it uses.\<close>

primrec body_tx :: "('d, 'r, 'a) body \<Rightarrow> ('d, 'a) tx" where
  "body_tx (Return x) = tx_return x"
| "body_tx (Raise e) = tx_raise e"
| "body_tx (Call name stmt rest) = (\<lambda>d. case stmt d of (Inl f, d') \<Rightarrow> Inl (surfaced f) | (Inr x, d') \<Rightarrow> body_tx (rest x) d')"

lemma repository_of_simps [simp]:
  "repository_of (bind_repositories sid uow) name = SessionRepository sid"
  "repository_of (reset_repositories uow) name = UnavailableRepository"
  by (cases name; simp add: bind_repositories_def reset_repositories_def)+

text \<open>Nothing but the transaction of the session changes.\<close>

definition only_session :: "nat \<Rightarrow> 'd server \<Rightarrow> 'd server \<Rightarrow> bool" where
  "only_session sid srv srv' \<longleftrightarrow> srv_data srv' = srv_data srv \<and> srv_next srv' = srv_next srv \<and>
     (srv_work srv')(sid := None) = (srv_work srv)(sid := None)"

lemma only_session_execute:
  "session_execute sid stmt srv = (r, srv') \<Longrightarrow> only_session sid srv srv'"
  by (auto simp: session_execute_def only_session_def split: prod.splits)

text \<open>On bound repositories a body does to its session what its transaction does to a database.\<close>

lemma run_body_session:
  "case run_body body (bind_repositories sid uow) srv of
     (Inl f, srv') \<Rightarrow> body_tx body (session_state sid srv) = Inl (surfaced f) \<and> only_session sid srv srv'
   | (Inr x, srv') \<Rightarrow> body_tx body (session_state sid srv) = Inr (x, session_state sid srv') \<and> only_session sid srv srv'"
proof (induction body arbitrary: srv)
  case (Call name stmt rest)
  obtain r srv1 where c: "session_execute sid stmt srv = (r, srv1)" by fastforce
  have only: "only_session sid srv srv1" by (rule only_session_execute [OF c])
  have s: "stmt (session_state sid srv) = (r, session_state sid srv1)"
    using c by (auto simp: session_execute_def session_state_def split: prod.splits)
  show ?case
  proof (cases r)
    case (Inl f)
    with c s only show ?thesis by (simp add: repository_call_def)
  next
    case (Inr x)
    have "only_session sid srv srv2" if "only_session sid srv1 srv2" for srv2
      using only that by (simp add: only_session_def)
    with Call.IH [of "rest x" srv1] Inr c s show ?thesis
      by (auto simp: repository_call_def split: prod.splits sum.splits)
  qed
qed (simp_all add: only_session_def)

text \<open>C21: the unit of work implements the transactions of the services. From any state of the object, a body that uses
  any of the seven repositories has the outcome and the effect on the committed data of the transaction it stands for:
  an exception of the body leaves the data as it was, with \<open>WorkflowPersistenceError\<close> for every database error, and a
  commit that the database refuses does too, so that changed data is committed only with its consent. Afterwards no transaction of the session is open, those of other sessions
  are untouched, and every call of every repository of the object raises until its next transaction.\<close>

theorem unit_of_work_implements_transaction:
  assumes "srv_work srv (srv_next srv) = None" and "transaction answer body (uow, srv) = (r, uow', srv')"
  shows "((r, srv_data srv') = run_transaction (body_tx body) (srv_data srv) \<and>
        (\<forall>x d f. body_tx body (srv_data srv) = Inr (x, d) \<and> answer d = Inl f \<longrightarrow> d = srv_data srv) \<or>
      (\<exists>x d f. body_tx body (srv_data srv) = Inr (x, d) \<and> answer d = Inl f \<and> r = Inl (surfaced f) \<and> srv_data srv' = srv_data srv)) \<and>
    srv_work srv' = srv_work srv \<and> uow' = new_unit_of_work \<and>
    (\<forall>name stmt srv2. repository_call uow' name stmt srv2 = (Inl (Raised unavailable), srv2))"
proof -
  let ?sid = "srv_next srv" and ?srv0 = "srv\<lparr>srv_next := srv_next srv + 1\<rparr>"
  obtain q srv1 where run: "run_body body (bind_repositories ?sid uow) ?srv0 = (q, srv1)" by fastforce
  have start: "session_state ?sid ?srv0 = srv_data srv" using assms(1) by (simp add: session_state_def)
  have idle: "(srv_work srv)(?sid := None) = srv_work srv" using assms(1) by (simp add: fun_upd_idem)
  have uow: "uow' = reset_repositories (bind_repositories ?sid uow)"
    using assms(2) unfolding transaction_def by (auto simp: open_session_def Let_def split: prod.splits)
  then have closed: "uow' = new_unit_of_work" "repository_call uow' name stmt srv2 = (Inl (Raised unavailable), srv2)"
    for name and stmt :: "'d \<Rightarrow> (failure + 'e) \<times> 'd" and srv2
    by (simp_all add: repository_call_def) (simp add: reset_repositories_def bind_repositories_def new_unit_of_work_def)
  have body: "case q of Inl f \<Rightarrow> body_tx body (srv_data srv) = Inl (surfaced f)
      | Inr x \<Rightarrow> body_tx body (srv_data srv) = Inr (x, session_state ?sid srv1)" and only: "only_session ?sid ?srv0 srv1"
    using run_body_session [where body = body and sid = ?sid and uow = uow and srv = ?srv0] unfolding run start
    by (auto split: sum.splits)
  from only have data: "srv_data srv1 = srv_data srv" "(srv_work srv1)(?sid := None) = srv_work srv"
    by (simp_all add: only_session_def idle)
  have "((r, srv_data srv') = run_transaction (body_tx body) (srv_data srv) \<and>
        (\<forall>x d f. body_tx body (srv_data srv) = Inr (x, d) \<and> answer d = Inl f \<longrightarrow> d = srv_data srv) \<or>
      (\<exists>x d f. body_tx body (srv_data srv) = Inr (x, d) \<and> answer d = Inl f \<and> r = Inl (surfaced f) \<and> srv_data srv' = srv_data srv)) \<and> srv_work srv' = srv_work srv"
  proof (cases q)
    case (Inl f)
    with assms(2) run have "r = Inl (surfaced f)" "srv' = session_close ?sid (session_rollback ?sid srv1)"
      by (simp_all add: transaction_def open_session_def)
    with body Inl data show ?thesis by (simp add: session_close_def session_rollback_def idle)
  next
    case (Inr x)
    note tx = body [unfolded Inr sum.case]
    show ?thesis
    proof (cases "srv_work srv1 ?sid")
      case None
      with assms(2) run Inr have "r = Inr x" "srv' = session_close ?sid srv1"
        by (simp_all add: transaction_def open_session_def session_commit_def)
      with tx None data show ?thesis by (simp add: session_close_def session_state_def)
    next
      case (Some d)
      then have st: "session_state ?sid srv1 = d" by (simp add: session_state_def)
      show ?thesis
        using assms(2) run Inr Some tx data unfolding st
        by (cases "answer d")
          (auto simp: transaction_def open_session_def session_commit_def session_close_def session_rollback_def idle)
    qed
  qed
  with closed show ?thesis by blast
qed

text \<open>A body with two calls on different repositories, the second of which violates the key the first wrote.\<close>

definition insert_statement :: "nat \<Rightarrow> nat list \<Rightarrow> (failure + unit) \<times> nat list" where
  "insert_statement n d = (if n \<in> set d then (Inl (SQLAlchemyError ''IntegrityError''), d) else (Inr (), d @ [n]))"

definition duplicate_body :: "(nat list, unit, unit) body" where
  "duplicate_body = Call WORKFLOWS (insert_statement 1) (\<lambda>_. Call TASK_RETRIES (insert_statement 1) Return)"

theorem unit_of_work_implements_transaction_witness:
  "\<exists>srv'. transaction (\<lambda>_. Inr ()) duplicate_body (new_unit_of_work, \<lparr>srv_data = [2], srv_work = (\<lambda>_. None), srv_next = 0\<rparr>) =
     (Inl (WorkflowPersistenceError ''Unable to persist workflow data.''), new_unit_of_work, srv') \<and> srv_data srv' = [2]"
proof -
  let ?srv = "\<lparr>srv_data = [2::nat], srv_work = (\<lambda>_. None), srv_next = 0\<rparr>"
  obtain r uow' srv' where run: "transaction (\<lambda>_. Inr ()) duplicate_body (new_unit_of_work, ?srv) = (r, uow', srv')"
    by (rule prod_cases3)
  have tx: "body_tx duplicate_body [2] = Inl (WorkflowPersistenceError ''Unable to persist workflow data.'')"
    by (simp add: duplicate_body_def insert_statement_def)
  from unit_of_work_implements_transaction [OF _ run] tx run show ?thesis by (auto simp: run_transaction_def)
qed

end
