(* ===== verification/Connections.thy ===== *)
theory Connections
  imports Validation
begin

text \<open>
  Where the processes get their connections from: the cached Redis clients (\<open>app/messaging/redis/client.py\<close>), the
  settings of the database engine (\<open>app/db/session.py\<close>) and of the migrations (\<open>alembic/env.py\<close>). The constructors of
  the redis package and the closing of a connection are arguments.
\<close>

section \<open>The Redis clients\<close>

text \<open>The options a client is built with; the retry is \<open>Retry(ExponentialBackoff(base, cap), retries)\<close>.\<close>

record redis_options =
  rop_decode_responses :: bool
  rop_backoff_base :: int
  rop_backoff_cap :: int
  rop_retries :: int
  rop_retry_on_error :: "string list"
  rop_socket_connect_timeout :: int
  rop_socket_timeout :: int
  rop_health_check_interval :: int

definition client_options :: redis_options where
  "client_options =
     \<lparr>rop_decode_responses = True, rop_backoff_base = 1, rop_backoff_cap = 10, rop_retries = 5,
      rop_retry_on_error = [''ConnectionError'', ''TimeoutError''], rop_socket_connect_timeout = 5,
      rop_socket_timeout = 5, rop_health_check_interval = 30\<rparr>"

text \<open>The module's two cached clients.\<close>

record 'c client_module =
  cm_redis_client :: "'c option"
  cm_async_redis_client :: "'c option"

definition get_redis_url :: "environment \<Rightarrow> error + string" where
  "get_redis_url env =
     (case env ''REDIS_URL'' of
        None \<Rightarrow> Inl (RuntimeError ''REDIS_URL environment variable is required'')
      | Some redis_url \<Rightarrow>
          if redis_url = [] then Inl (RuntimeError ''REDIS_URL environment variable is required'') else Inr redis_url)"

text \<open>\<open>from_url\<close> with the options above.\<close>

definition make_client :: "environment \<Rightarrow> (string \<Rightarrow> redis_options \<Rightarrow> error + 'c) \<Rightarrow> error + 'c" where
  "make_client env from_url = rbind (get_redis_url env) (\<lambda>url. from_url url client_options)"

definition get_redis_client ::
    "environment \<Rightarrow> (string \<Rightarrow> redis_options \<Rightarrow> error + 'c) \<Rightarrow> 'c client_module \<Rightarrow> (error + 'c) \<times> 'c client_module" where
  "get_redis_client env from_url m =
     (case cm_redis_client m of
        Some client \<Rightarrow> (Inr client, m)
      | None \<Rightarrow>
          (case make_client env from_url of
             Inl e \<Rightarrow> (Inl e, m)
           | Inr client \<Rightarrow> (Inr client, m\<lparr>cm_redis_client := Some client\<rparr>)))"

definition close_redis_client :: "('c \<Rightarrow> error + unit) \<Rightarrow> 'c client_module \<Rightarrow> (error + unit) \<times> 'c client_module" where
  "close_redis_client close m =
     (case cm_redis_client m of
        None \<Rightarrow> (Inr (), m)
      | Some client \<Rightarrow> (case close client of Inl e \<Rightarrow> (Inl e, m) | Inr _ \<Rightarrow> (Inr (), m\<lparr>cm_redis_client := None\<rparr>)))"

definition ping_redis ::
    "environment \<Rightarrow> (string \<Rightarrow> redis_options \<Rightarrow> error + 'c) \<Rightarrow> ('c \<Rightarrow> error + bool) \<Rightarrow> 'c client_module \<Rightarrow>
     (error + bool) \<times> 'c client_module" where
  "ping_redis env from_url ping m = (case get_redis_client env from_url m of (r, m') \<Rightarrow> (rbind r ping, m'))"

definition get_async_redis_client ::
    "environment \<Rightarrow> (string \<Rightarrow> redis_options \<Rightarrow> error + 'c) \<Rightarrow> 'c client_module \<Rightarrow> (error + 'c) \<times> 'c client_module" where
  "get_async_redis_client env from_url m =
     (case cm_async_redis_client m of
        Some client \<Rightarrow> (Inr client, m)
      | None \<Rightarrow>
          (case make_client env from_url of
             Inl e \<Rightarrow> (Inl e, m)
           | Inr client \<Rightarrow> (Inr client, m\<lparr>cm_async_redis_client := Some client\<rparr>)))"

definition close_async_redis_client :: "('c \<Rightarrow> error + unit) \<Rightarrow> 'c client_module \<Rightarrow> (error + unit) \<times> 'c client_module" where
  "close_async_redis_client close m =
     (case cm_async_redis_client m of
        None \<Rightarrow> (Inr (), m)
      | Some client \<Rightarrow> (case close client of Inl e \<Rightarrow> (Inl e, m) | Inr _ \<Rightarrow> (Inr (), m\<lparr>cm_async_redis_client := None\<rparr>)))"

definition ping_async_redis ::
    "environment \<Rightarrow> (string \<Rightarrow> redis_options \<Rightarrow> error + 'c) \<Rightarrow> ('c \<Rightarrow> error + bool) \<Rightarrow> 'c client_module \<Rightarrow>
     (error + bool) \<times> 'c client_module" where
  "ping_async_redis env from_url ping m = (case get_async_redis_client env from_url m of (r, m') \<Rightarrow> (rbind r ping, m'))"

subsection \<open>The contract of a cached client\<close>

text \<open>Both caches keep one contract: \<open>cached\<close> is the client held, \<open>get\<close> creates and holds one when there is none,
  \<open>shut\<close> drops it once it is closed.\<close>

locale cached_client =
  fixes cached :: "'m \<Rightarrow> 'c option" and hold :: "'c \<Rightarrow> 'm \<Rightarrow> 'm" and release :: "'m \<Rightarrow> 'm"
    and get :: "environment \<Rightarrow> (string \<Rightarrow> redis_options \<Rightarrow> error + 'c) \<Rightarrow> 'm \<Rightarrow> (error + 'c) \<times> 'm"
    and shut :: "('c \<Rightarrow> error + unit) \<Rightarrow> 'm \<Rightarrow> (error + unit) \<times> 'm"
  assumes cached_hold: "cached (hold c m) = Some c" and cached_release: "cached (release m) = None"
    and get_held: "cached m = Some c \<Longrightarrow> get env from_url m = (Inr c, m)"
    and get_none: "cached m = None \<Longrightarrow> get env from_url m =
      (case make_client env from_url of Inl e \<Rightarrow> (Inl e, m) | Inr c \<Rightarrow> (Inr c, hold c m))"
    and shut_held: "cached m = Some c \<Longrightarrow> shut close m = (case close c of Inl e \<Rightarrow> (Inl e, m) | Inr _ \<Rightarrow> (Inr (), release m))"
    and shut_none: "cached m = None \<Longrightarrow> shut close m = (Inr (), m)"
begin

lemma get_cached: "get env from_url m = (Inr c, m') \<Longrightarrow> cached m' = Some c"
  by (cases "cached m") (auto simp: get_held get_none cached_hold split: sum.splits)

lemma get_failed: "get env from_url m = (Inl e, m') \<Longrightarrow> m' = m \<and> cached m = None \<and> make_client env from_url = Inl e"
  by (cases "cached m") (auto simp: get_held get_none split: sum.splits)

lemma get_again: "get env from_url m = (Inr c, m') \<Longrightarrow> get env' from_url' m' = (Inr c, m')"
  by (rule get_held [OF get_cached])

lemma shut_outcome: "shut close m = (r, m') \<Longrightarrow> if r = Inr () then cached m' = None else m' = m"
  by (cases "cached m") (auto simp: shut_held shut_none cached_release split: sum.splits)

lemma get_after_shut:
  "shut close m = (Inr (), m') \<Longrightarrow> make_client env from_url = Inr c \<Longrightarrow> fst (get env from_url m') = Inr c"
  using shut_outcome [of close m "Inr ()" m'] by (simp add: get_none)

end

interpretation sync_client: cached_client cm_redis_client "\<lambda>c. cm_redis_client_update (\<lambda>_. Some c)"
    "cm_redis_client_update (\<lambda>_. None)" get_redis_client close_redis_client
  by unfold_locales (simp_all add: get_redis_client_def close_redis_client_def split: sum.split)

interpretation async_client: cached_client cm_async_redis_client "\<lambda>c. cm_async_redis_client_update (\<lambda>_. Some c)"
    "cm_async_redis_client_update (\<lambda>_. None)" get_async_redis_client close_async_redis_client
  by unfold_locales (simp_all add: get_async_redis_client_def close_async_redis_client_def split: sum.split)

section \<open>The database\<close>

text \<open>What importing \<open>session.py\<close> decides: the address, and a pool that tests its connections or, in integration
  tests, none.\<close>

datatype pooling = NullPool | PrePing

definition database_settings :: "environment \<Rightarrow> error + string \<times> pooling" where
  "database_settings env =
     (case env ''DATABASE_URL'' of
        None \<Rightarrow> Inl (RuntimeError ''DATABASE_URL environment variable is required'')
      | Some database_url \<Rightarrow>
          if database_url = [] then Inl (RuntimeError ''DATABASE_URL environment variable is required'')
          else if env ''INTEGRATION_TEST'' = Some ''1'' then Inr (database_url, NullPool)
          else Inr (database_url, PrePing))"

text \<open>\<open>alembic/env.py\<close>: the address, and how the migrations are run with it. Offline, the statements are written
  out with literal values; online, they run on one connection without a pool.\<close>

datatype migration_run = Offline string | Online string

definition nonempty_variable :: "environment \<Rightarrow> string \<Rightarrow> string option" where
  "nonempty_variable env name = (case env name of Some v \<Rightarrow> if v = [] then None else Some v | None \<Rightarrow> None)"

definition migration_database_url :: "environment \<Rightarrow> error + string" where
  "migration_database_url env =
     (case nonempty_variable env ''ALEMBIC_DATABASE_URL'' of
        Some url \<Rightarrow> Inr url
      | None \<Rightarrow>
          (case nonempty_variable env ''DATABASE_URL'' of
             Some url \<Rightarrow> Inr url
           | None \<Rightarrow> Inl (RuntimeError ''DATABASE_URL environment variable is required for Alembic migrations'')))"

definition run_migrations :: "environment \<Rightarrow> bool \<Rightarrow> error + migration_run" where
  "run_migrations env offline = rbind (migration_database_url env) (\<lambda>url. Inr (if offline then Offline url else Online url))"

text \<open>A client is created at most once until it is closed: every call after a successful one returns the same client,
  whatever the environment is by then, and a failed creation or a failed close leaves the cache as it was.\<close>

theorem redis_client_created_once:
  assumes "get_async_redis_client env from_url m = (r, m')"
  shows "(case r of
      Inr c \<Rightarrow> get_async_redis_client env' from_url' m' = (Inr c, m')
    | Inl e \<Rightarrow> m' = m \<and> make_client env from_url = Inl e) \<and>
    (close_async_redis_client close m' = (q, m'') \<longrightarrow> (if q = Inr () then cm_async_redis_client m'' = None else m'' = m'))"
  using async_client.get_again [of env from_url m] async_client.get_failed [of env from_url m] async_client.shut_outcome [of close m'] assms
  by (cases r) auto

text \<open>The migrations run on the database of the services unless they were given one of their own.\<close>

theorem migrations_share_database:
  assumes "database_settings env = Inr (url, pool)" and "nonempty_variable env ''ALEMBIC_DATABASE_URL'' = None"
  shows "run_migrations env False = Inr (Online url)"
  using assms
  by (auto simp: database_settings_def run_migrations_def migration_database_url_def nonempty_variable_def split: option.splits if_splits)

end
