(* ===== verification/Log_Format.thy ===== *)
theory Log_Format
  imports Messages
begin

text \<open>
  The log lines of a worker (\<open>app/worker/logging.py\<close>): a record is written as one JSON object with its contextual
  fields. The clock's text, the message text and the formatted exception are arguments.
\<close>

text \<open>The part of a \<open>LogRecord\<close> that is read: \<open>lr_attributes\<close> is its \<open>__dict__\<close>.\<close>

record log_record =
  lr_levelname :: string
  lr_name :: string
  lr_message :: string
  lr_attributes :: "(string \<times> pyval) list"
  lr_exception :: "string option"

text \<open>The attributes of \<open>logging.makeLogRecord({})\<close>.\<close>

definition LOG_RECORD_FIELDS :: "string list" where
  "LOG_RECORD_FIELDS =
     [''name'', ''msg'', ''args'', ''levelname'', ''levelno'', ''pathname'', ''filename'', ''module'', ''exc_info'', ''exc_text'',
      ''stack_info'', ''lineno'', ''funcName'', ''created'', ''msecs'', ''relativeCreated'', ''thread'', ''threadName'',
      ''processName'', ''process'', ''taskName'']"

text \<open>\<open>default=str\<close>: an object that JSON does not know is written as its text.\<close>

fun with_default_str :: "pyval \<Rightarrow> pyval" where
  "with_default_str (POther t s) = PStr s"
| "with_default_str (PList xs) = PList (map with_default_str xs)"
| "with_default_str (PDict d) = PDict (map (\<lambda>(k, v). (k, with_default_str v)) d)"
| "with_default_str v = v"

definition contextual_fields :: "log_record \<Rightarrow> (string \<times> pyval) list" where
  "contextual_fields r = filter (\<lambda>(name, value). name \<notin> set LOG_RECORD_FIELDS) (lr_attributes r)"

definition log_payload :: "string \<Rightarrow> log_record \<Rightarrow> (string \<times> pyval) list" where
  "log_payload timestamp r =
     (let payload = foldl (\<lambda>d (name, value). dict_set d name value)
            [(''timestamp'', PStr timestamp), (''level'', PStr (lr_levelname r)), (''logger'', PStr (lr_name r)),
             (''message'', PStr (lr_message r))] (contextual_fields r) in
      case lr_exception r of None \<Rightarrow> payload | Some text \<Rightarrow> dict_set payload ''exception'' (PStr text))"

definition format_record :: "float_text \<Rightarrow> string \<Rightarrow> log_record \<Rightarrow> error + string" where
  "format_record fr timestamp r =
     dumps fr (with_default_str (PDict (map (\<lambda>(name, value). (PStr name, value)) (log_payload timestamp r))))"

section \<open>Every log line is a JSON object\<close>

text \<open>Values whose mappings have text keys, each once.\<close>

fun loggable :: "pyval \<Rightarrow> bool" where
  "loggable (PList xs) = list_all loggable xs"
| "loggable (PDict d) = (distinct (map fst d) \<and> list_all (\<lambda>(k, v). is_str k \<and> loggable v) d)"
| "loggable v = True"

lemma with_default_keys: "map fst (map (\<lambda>(k, v). (k, with_default_str v)) d) = map fst d"
  by (induction d) auto

lemma loggable_json: "loggable v \<Longrightarrow> is_json_value (with_default_str v) \<and> wf_value (with_default_str v)"
proof (induction v rule: loggable.induct)
  case (1 xs)
  then show ?case by (simp add: list_all_iff)
next
  case (2 d)
  have "is_str k \<and> is_json_value (with_default_str v) \<and> wf_value (with_default_str v)" if kv: "(k, v) \<in> set d" for k v
    using "2.IH" [OF kv refl] "2.prems" kv by (auto simp: list_all_iff)
  moreover have "wf_value k" if "is_str k" for k using that by (cases k) simp_all
  ultimately show ?case
    using "2.prems" unfolding with_default_str.simps is_json_value.simps wf_value.simps with_default_keys
    by (auto simp: list_all_iff)
qed simp_all

abbreviation dict_update :: "(string \<times> pyval) list \<Rightarrow> (string \<times> pyval) list \<Rightarrow> (string \<times> pyval) list" where
  "dict_update \<equiv> foldl (\<lambda>d (name, value). dict_set d name value)"

lemma values_dict_set: "snd ` set (dict_set d k v) \<subseteq> insert v (snd ` set d)"
  by (induction d k v rule: dict_set.induct) auto

lemma distinct_dict_update: "distinct (map fst d) \<Longrightarrow> distinct (map fst (dict_update d es))"
  by (induction es arbitrary: d) (auto simp: distinct_dict_set)

lemma values_dict_update: "snd ` set (dict_update d es) \<subseteq> snd ` set d \<union> snd ` set es"
proof (induction es arbitrary: d)
  case (Cons e es)
  show ?case using Cons.IH [of "dict_set d (fst e) (snd e)"] values_dict_set [of d "fst e" "snd e"] by (cases e) auto
qed simp

lemma dict_update_other: "k \<notin> fst ` set es \<Longrightarrow> map_of (dict_update d es) k = map_of d k"
  by (induction es arbitrary: d) auto

lemma map_of_text_keys: "map_of (map (\<lambda>(name, value). (PStr name, f value)) d) (PStr k) = map_option f (map_of d k)"
  by (induction d) auto

lemma with_default_payload:
  "with_default_str (PDict (map (\<lambda>(name, value). (PStr name, value)) p)) =
     PDict (map (\<lambda>(name, value). (PStr name, with_default_str value)) p)"
  by (induction p) auto

text \<open>Every log line is a JSON object: when the contextual fields are values whose mappings have text keys, formatting
  does not raise, the line reads back as the payload with its objects as texts, and it has the message of the
  record unless a contextual field of that name replaced it.\<close>

theorem log_line_readable:
  assumes "float_codec fr fp" and "\<forall>(name, value) \<in> set (lr_attributes r). loggable value"
  shows "\<exists>line payload. format_record fr timestamp r = Inr line \<and> loads fp line = Some (PDict payload) \<and>
    (''message'' \<notin> fst ` set (lr_attributes r) \<longrightarrow> dict_get payload ''message'' = PStr (lr_message r))"
proof -
  let ?header = "[(''timestamp'', PStr timestamp), (''level'', PStr (lr_levelname r)), (''logger'', PStr (lr_name r)),
             (''message'', PStr (lr_message r))]"
  let ?p = "log_payload timestamp r" and ?q = "map (\<lambda>(name, value). (PStr name, with_default_str value)) (log_payload timestamp r)"
  define d where "d = dict_update ?header (contextual_fields r)"
  have p: "?p = (case lr_exception r of None \<Rightarrow> d | Some text \<Rightarrow> dict_set d ''exception'' (PStr text))"
    unfolding log_payload_def d_def Let_def ..
  have "distinct (map fst d)" unfolding d_def by (rule distinct_dict_update) simp
  then have dist: "distinct (map fst ?p)" by (simp add: p distinct_dict_set split: option.split)
  have sub: "snd ` set d \<subseteq> snd ` set ?header \<union> snd ` set (lr_attributes r)"
    unfolding d_def using values_dict_update [of ?header "contextual_fields r"] by (auto simp: contextual_fields_def)
  have attrs: "loggable x" if "x \<in> snd ` set (lr_attributes r)" for x using that assms(2) by auto
  have "loggable x" if "x \<in> snd ` set d" for x using subsetD [OF sub that] attrs [of x] by auto
  then have vals: "loggable x" if "x \<in> snd ` set ?p" for x
    using that subsetD [OF values_dict_set, of x d "''exception''"] by (cases "lr_exception r") (fastforce simp: p)+
  have "loggable (PDict (map (\<lambda>(name, value). (PStr name, value)) ?p))"
    using dist vals by (auto simp: list_all_iff distinct_map inj_on_def case_prod_beta)
  from loggable_json [OF this] have obj: "json_object ?q" unfolding with_default_payload json_object_def .
  obtain line where line: "dumps fr (PDict ?q) = Inr line" "loads fp line = Some (PDict (canon_object ?q))"
    by (rule loads_dumps_object [OF assms(1) obj])
  have "dict_get (canon_object ?q) ''message'' = PStr (lr_message r)" if "''message'' \<notin> fst ` set (lr_attributes r)"
  proof -
    have "map_of d ''message'' = Some (PStr (lr_message r))"
      unfolding d_def by (subst dict_update_other) (use that in \<open>auto simp: contextual_fields_def\<close>)
    then have "map_of ?p ''message'' = Some (PStr (lr_message r))" by (simp add: p split: option.split)
    then have "map_of ?q (PStr ''message'') = Some (PStr (lr_message r))" by (simp add: map_of_text_keys)
    moreover have "distinct (map fst ?q)" using obj by (simp add: json_object_def)
    from dict_lookup_canon [OF this, of "PStr ''message''"] have "map_of (canon_object ?q) (PStr ''message'') = map_option canon (map_of ?q (PStr ''message''))"
      unfolding canon_object_def .
    ultimately show ?thesis by (simp only: dict_get_def dict_lookup_def) simp
  qed
  moreover have "format_record fr timestamp r = Inr line"
    using line(1) unfolding format_record_def with_default_payload .
  ultimately show ?thesis using line(2) by blast
qed

end
