(* ===== verification/Spec2Isabelle.thy ===== *)
theory Spec2Isabelle
  imports System Stream_Setup Migrations Unit_Of_Work Connections Log_Format
begin

text \<open>
  A verification development of an event-driven workflow engine (\<open>src/app\<close>). Definitions are translated
  from the Python source; names of functions and classes are kept, methods take their object as an
  argument, \<open>self\<close>-less helpers keep their name without the leading underscore.

  \<^bold>\<open>The program.\<close> A client submits a workflow definition, a list of nodes with a handler, dependencies and a
  configuration with templates, through the HTTP API, and triggers the execution that was created
  (\<open>app/api\<close>, \<open>app/services\<close>). State is kept in PostgreSQL; a message for another process is written to an
  outbox table in the same transaction as the state change it announces. The orchestrator
  (\<open>app/orchestrator\<close>) repeats one round: publish the pending outbox rows to Redis streams, delete old
  published rows, consume trigger events, consume completion events, publish due retries. For a trigger
  or a completion it asks which nodes have become ready and dispatches each in a transaction that claims the
  node, resolves its templates, registers the task with its first attempt and writes the task message. A
  worker (\<open>app/worker\<close>) consumes task messages, claims the attempt under a lease it renews, runs the
  handler, records the result, publishes the completion event, marks the attempt completed and acknowledges
  the message. A completion event records success or failure of the attempt, schedules a retry or finishes
  the node, fails the nodes that depend on a failed one, and finalizes the execution.

  \<^bold>\<open>Theories and sources.\<close>
  \<^item> \<open>Prelude\<close>, \<open>Py_Text\<close>, \<open>Py_Values\<close>: results as sums, list and map lemmas, the Python text and value operations
    the program uses (\<open>strip\<close>, \<open>repr\<close>, \<open>int\<close>, \<open>UUID\<close>, truth, equality, dictionaries). Strings are code points
    below 256.
  \<^item> \<open>States\<close>, \<open>Domain_Models\<close>: \<open>app/domain/state\<close>, \<open>models\<close>, \<open>errors\<close>. \<open>Dag\<close>: \<open>app/domain/dag\<close>.
    \<open>Validation\<close>, \<open>Cycle_Rule\<close>, \<open>Definition_Service\<close>: \<open>app/domain/validation\<close> and
    \<open>workflow_definition_service.py\<close>. \<open>Template_Parser\<close>, \<open>Template_Resolver\<close>: \<open>app/domain/templates\<close>,
    \<open>app/services/templates\<close>.
  \<^item> \<open>Json_Codec\<close>, \<open>Messages\<close>, \<open>Streams\<close>, \<open>Outbox\<close>: \<open>app/messaging\<close>. A Redis client is a record of functions on an
    arbitrary broker state, so that every answer and every error of Redis is covered.
  \<^item> \<open>Tables\<close>, \<open>Persistence\<close>, \<open>Retry\<close>, \<open>Processing\<close>: \<open>app/infrastructure/persistence\<close>. A table is a list of rows with
    a key, a statement a function of the database, a transaction commits as a whole or leaves the database
    as it was. The locale of \<open>Tables\<close> states what keyed tables promise and is interpreted for every table;
    the locale \<open>claim_repository\<close> of \<open>Processing\<close> states the contract of a lease and is interpreted by both claim
    repositories.
  \<^item> \<open>Scheduling\<close>, \<open>Completion\<close>: \<open>app/services\<close>. \<open>Orchestrator\<close>: \<open>app/orchestrator\<close>. \<open>Handlers\<close>, \<open>Worker\<close>,
    \<open>Worker_Runtime\<close>: \<open>app/worker\<close>. \<open>Api\<close>: \<open>app/api\<close>.
  \<^item> \<open>Catalog\<close>, \<open>Migrations\<close>: \<open>alembic/versions\<close> and the tables declared by the persistence models. The catalog
    operations follow the documented behaviour of the statements alembic issues. \<open>Barriers\<close>:
    \<open>app/messaging/redis/barriers.py\<close>. \<open>Stream_Setup\<close>: \<open>scripts/init-redis-streams.py\<close>.
  \<^item> \<open>Unit_Of_Work\<close>: \<open>app/infrastructure/persistence/unit_of_work.py\<close> as an object with seven repositories
    over a server of sessions. \<open>Connections\<close>:
    \<open>app/messaging/redis/client.py\<close>, \<open>app/db/session.py\<close> and \<open>alembic/env.py\<close>; the locale \<open>cached_client\<close> is interpreted
    by both Redis clients. \<open>Log_Format\<close>: \<open>app/worker/logging.py\<close>.

  \<^bold>\<open>Specification and refinement.\<close> \<open>Schedule\<close> is an abstract machine for one execution: the status of the
  execution and of its nodes, with one transition each for the trigger, the start, the completion and the
  failure of a node. \<open>Effects\<close> characterises what every transaction does to the statuses, to the outbox and
  to the keys. \<open>Engine\<close> is the system over any Redis: its steps are the committed transactions of the API, the orchestrator
  and the workers in any interleaving, with arbitrary clock readings and identifiers, arbitrary answers of
  Redis, and messages handled any number of times or never. It allows more than the processes do: any
  completion event may be processed at any time. Below, every step is shown to refine the abstract machine
  (\<open>engine_refines_schedule\<close>), and dependency safety, the lifecycle of statuses, the consistency of results,
  progress, the bound on changes, single dispatch, single application of a completion event and the bound
  on attempts follow in every reachable state. \<open>Engine_Run\<close> holds a concrete run that the witnesses use.

  \<^bold>\<open>Lemma groups.\<close>
  \<^item> \<open>Dag\<close>: readiness and failure propagation equal their declarative definitions, and a valid graph that is
    not finished always has a ready or running node. \<open>Cycle_Rule\<close>, \<open>Definition_Service\<close>: the iterative cycle
    search terminates and reports exactly the cyclic graphs; the rules accept exactly the well-formed
    definitions, and the payloads on which validation raises are characterised.
  \<^item> \<open>Template_Parser\<close>, \<open>Template_Resolver\<close>: print and parse are inverse, resolution reads only declared
    dependencies and the input. \<open>Json_Codec\<close>, \<open>Messages\<close>: decoding inverts encoding.
  \<^item> \<open>Retry\<close>, \<open>Processing\<close>, \<open>Outbox\<close>: the retry decision on every branch, leases exclude other workers, no
    outbox message is lost whatever Redis answers, the oldest pending messages are sent first, cleanup deletes the oldest
    expired rows. \<open>Interference\<close>: what the transactions of workers and orchestrator keep of an attempt, stated once in the
    locale \<open>kept_relation\<close>; a result is recorded once and replayed until a failure of that attempt is recorded.
  \<^item> \<open>Service_Guarantees\<close>, \<open>Api\<close>: each service and endpoint on every branch. \<open>Worker_Guarantees\<close>, \<open>Delivery\<close>: a
    message is acknowledged only after its work is done, recorded results are published again.
    \<open>Worker_Runtime\<close>: the work in flight stays within the configured concurrency, and a worker that winds down takes
    no new message; the shutdown may return while cancelled tasks are still in flight (\<open>stop_returns_early\<close>).
  \<^item> \<open>Migrations\<close>: the two branches of the history commute, upgrades and downgrades undo each other on the
    schema whatever rows are stored, the rows on which a revision fails are characterised, and the migrated schema serves
    the declared models; the normalization of statuses succeeds exactly on legacy and lifecycle statuses. \<open>Stream_Setup\<close>: the script creates the groups the processes read with, however often it
    is run. \<open>Barriers\<close>: a participant passes only after its release.
  \<^item> \<open>Unit_Of_Work\<close>: the object implements the transactions \<open>run_transaction\<close> that the services are modelled with.
    \<open>Connections\<close>: a client is created once until it is closed, and migrations run on the database of the services.
    \<open>Log_Format\<close>: every log line is a JSON object that reads back.
  \<^item> \<open>Simulation\<close>, \<open>System\<close>: a program logic for the processes, which run one after the other. Every run of an endpoint, of a round of the
    orchestrator or of the processing of a message, also one that ends in an exception, is a sequence of engine
    steps, so that the states the deployed system reaches are states of the engine
    (\<open>processes_refine_engine\<close>).

  \<^bold>\<open>Parameters and assumptions.\<close> \<open>uuid5\<close>, \<open>uuid4\<close>, the clock, binary64 formatting, parsing and arithmetic, SHA-256,
  \<open>random.Random\<close>, the Redis client, pydantic's reading of an accepted definition and custom handlers are
  arguments. What the theorems need of them are named predicates (\<open>platform_ok\<close>, \<open>accepts_to_log\<close>,
  \<open>tracks_acks\<close>, \<open>quiet_handler\<close> and the like), each shown satisfiable by a witness. A transaction reads the
  clock once (\<open>now()\<close> of PostgreSQL is constant in a transaction; the Python clock is read at its start);
  transactions are atomic and the row lock that makes two dispatches of one execution sequential is modelled
  by running them one after the other. Foreign keys and check constraints are not enforced by the table
  operations, so that nothing relies on them.

  \<^bold>\<open>Termination and fuel.\<close> Recursive functions are total, with a measure where the recursion is not
  structural: the depth-first search of the cycle rule, the failure loop (each node is blocked once), the
  JSON scanner (the text shrinks). The orchestrator's endless loop is \<open>orchestrator_rounds\<close>, a given number of
  rounds; the worker's event loop is a step relation over the phases of \<open>run\<close>. The waiting loop of the barrier runs over the
  clock readings before its deadline.

  \<^bold>\<open>Not modelled.\<close> Log calls and output on the terminal inside the other components, routing, request parsing
  and the generated documentation of the web framework, what SQLAlchemy, the redis package and alembic do
  with the settings they are handed, the waiting of an orchestrator between two rounds (a signal ends its loop
  after some round), and the protocol classes of \<open>app/domain/repositories\<close>, whose bodies are empty.
\<close>

section \<open>The engine refines the scheduling machine\<close>

text \<open>C1: every step of the engine is, for every stored execution, a transition of the abstract
  scheduling machine of its stored graph or leaves its statuses alone; the graph is never changed, and
  an execution that appears is in the machine's initial state.\<close>

theorem engine_refines_schedule:
  assumes "platform_ok P" and "engine_reachable P s" and "engine_step P s s'"
  shows "(\<forall>e w st. exec_view (eng_db s) e = Some (w, st) \<longrightarrow> (\<exists>g st'. valid_graph g \<and>
        dag_view (eng_db s) w = Some g \<and> dag_view (eng_db s') w = Some g \<and> exec_view (eng_db s') e = Some (w, st') \<and>
        ((st', node_statuses (eng_db s') e) = (st, node_statuses (eng_db s) e) \<or>
         sched_step g (st, node_statuses (eng_db s) e) (st', node_statuses (eng_db s') e)))) \<and>
    (\<forall>e w st. exec_view (eng_db s) e = None \<longrightarrow> exec_view (eng_db s') e = Some (w, st) \<longrightarrow>
        (\<exists>g. valid_graph g \<and> dag_view (eng_db s') w = Some g \<and> (st, node_statuses (eng_db s') e) = initial_sched g))"
proof -
  have inv: "engine_inv P s" by (rule engine_reachable_inv [OF assms(1,2)])
  have ok: "sched_ok (eng_db s)" by (rule engine_invD(1) [OF inv])
  have step: "db_step (eng_db s) (eng_db s')" using engine_step_inv [OF assms(1) inv assms(3)] by simp
  show ?thesis
  proof (intro conjI allI impI)
    fix e w st assume e: "exec_view (eng_db s) e = Some (w, st)"
    obtain g where g: "dag_view (eng_db s) w = Some g" "valid_graph g" by (rule sched_okE [OF ok e])
    obtain st' where "exec_view (eng_db s') e = Some (w, st')"
      "(sched_step g)\<^sup>=\<^sup>= (sched_of (eng_db s) e st) (sched_of (eng_db s') e st')"
      using step e g(1) unfolding db_step_def by meson
    moreover have "dag_view (eng_db s') w = Some g" using step g(1) by (simp add: db_step_def)
    ultimately show "\<exists>g st'. valid_graph g \<and>
        dag_view (eng_db s) w = Some g \<and> dag_view (eng_db s') w = Some g \<and> exec_view (eng_db s') e = Some (w, st') \<and>
        ((st', node_statuses (eng_db s') e) = (st, node_statuses (eng_db s) e) \<or>
         sched_step g (st, node_statuses (eng_db s) e) (st', node_statuses (eng_db s') e))"
      using g by (intro exI [of _ g] exI [of _ st']) auto
  next
    fix e w st assume e: "exec_view (eng_db s) e = None" "exec_view (eng_db s') e = Some (w, st)"
    have "absent_execution (eng_db s') e \<or> fresh_execution (eng_db s') e"
      using step sched_okD(2) [OF ok e(1)] unfolding db_step_def by blast
    then show "\<exists>g. valid_graph g \<and> dag_view (eng_db s') w = Some g \<and> (st, node_statuses (eng_db s') e) = initial_sched g"
      using e(2) by (auto simp: absent_execution_def fresh_execution_def)
  qed
qed

theorem engine_refines_schedule_witness:
  "\<exists>g st'. exec_view db_triggered 1 = Some (1, st') \<and>
     sched_step g (WPENDING, node_statuses db_submitted 1) (st', node_statuses db_triggered 1)"
proof -
  have v: "exec_view (eng_db engine_submitted) 1 = Some (1, WPENDING)" "exec_view db_triggered 1 = Some (1, WRUNNING)"
    by (simp_all add: engine_submitted_def) code_simp+
  have db: "eng_db engine_triggered = db_triggered" "eng_db engine_submitted = db_submitted"
    by (simp_all add: engine_triggered_def engine_submitted_def)
  from engine_refines_schedule [OF sample_platform_ok reach_submitted step_triggered] v(1)
  obtain g st' where "exec_view db_triggered 1 = Some (1, st')"
    "(st', node_statuses db_triggered 1) = (WPENDING, node_statuses db_submitted 1) \<or>
     sched_step g (WPENDING, node_statuses db_submitted 1) (st', node_statuses db_triggered 1)"
    unfolding db by blast
  with v(2) show ?thesis by auto
qed

text \<open>C3: a node of an execution runs or has completed only when every node it depends on has completed,
  and a node with a failed dependency has failed; in every reachable state, whatever is interleaved,
  redelivered or lost.\<close>

theorem dependency_safety:
  assumes "platform_ok P" and "engine_reachable P s"
    and "exec_view (eng_db s) e = Some (w, st)" and "dag_view (eng_db s) w = Some g"
    and "n \<in> set (nodes g)" and "d \<in> set (wn_dependencies n)"
  shows "(node_view (eng_db s) (e, wn_id n) \<in> {Some RUNNING, Some COMPLETED} \<longrightarrow> node_view (eng_db s) (e, d) = Some COMPLETED) \<and>
    (node_view (eng_db s) (e, d) = Some FAILED \<longrightarrow> node_view (eng_db s) (e, wn_id n) = Some FAILED)"
proof -
  obtain g' where "dag_view (eng_db s) w = Some g'" "sched_inv g' (sched_of (eng_db s) e st)"
    by (rule engine_reachable_sched [OF assms(1-3)])
  then have "sched_inv g (sched_of (eng_db s) e st)" using assms(4) by simp
  note D = sched_invD(3,4) [OF this]
  show ?thesis
  proof (intro conjI impI)
    assume "node_view (eng_db s) (e, wn_id n) \<in> {Some RUNNING, Some COMPLETED}"
    then show "node_view (eng_db s) (e, d) = Some COMPLETED" using D(1) [OF assms(5) _ assms(6)] by blast
  qed (rule D(2) [OF assms(5,6)])
qed

theorem dependency_safety_witness:
  "\<exists>s. engine_reachable sample_platform s \<and> node_view (eng_db s) (1, ''b'') = Some RUNNING \<and>
     node_view (eng_db s) (1, ''a'') = Some COMPLETED"
proof -
  obtain s where s: "engine_reachable sample_platform s" "db_executions (eng_db s) = [sample_execution]"
    "db_nodes (eng_db s) = [done_a, ran_b]" "db_workflows (eng_db s) = db_workflows db_completed_a"
    using reach_dispatched_b by blast
  have e: "exec_view (eng_db s) 1 = Some (1, WRUNNING)"
    by (simp add: view_code s sample_execution_def new_workflow_execution_def)
  have g: "dag_view (eng_db s) 1 = Some \<lparr>nodes = [node_a, node_b]\<rparr>"
    by (simp add: view_code s db_completed_a_def run_db_def)
  have b: "node_view (eng_db s) (1, ''b'') = Some RUNNING"
    by (simp add: view_code s keys_run ran_b_def new_node_execution_def)
  have n: "node_b \<in> set (nodes \<lparr>nodes = [node_a, node_b]\<rparr>)" "''a'' \<in> set (wn_dependencies node_b)" "wn_id node_b = ''b''"
    by (simp_all add: node_b_def)
  from dependency_safety [OF sample_platform_ok s(1) e g n(1,2)] b n(3) s(1) show ?thesis by auto
qed

section \<open>Statuses\<close>

lemma sched_step_lifecycle:
  assumes "sched_step g (s, st) (s', st')"
  shows "s' = s \<or> s' \<in> set (WORKFLOW_TRANSITIONS s)"
    and "st i = Some a \<Longrightarrow> \<exists>b. st' i = Some b \<and> (b = a \<or> b \<in> set (NODE_TRANSITIONS a))"
proof -
  show "s' = s \<or> s' \<in> set (WORKFLOW_TRANSITIONS s)"
    using assms by (auto elim!: sched_stepE simp: settle_def split: if_splits)
  show "\<exists>b. st' i = Some b \<and> (b = a \<or> b \<in> set (NODE_TRANSITIONS a))" if "st i = Some a"
    using assms that by (auto elim!: sched_stepE simp: fail_node_def split: if_splits)
qed

text \<open>C4: no step of the engine takes a status outside the declared lifecycle maps: an execution and
  each of its nodes keep their status or move along \<open>WORKFLOW_TRANSITIONS\<close> and \<open>NODE_TRANSITIONS\<close>, and none
  disappears; although the services write statuses by conditional updates and never call
  \<open>transition_to\<close>.\<close>

theorem statuses_follow_lifecycle:
  assumes "platform_ok P" and "engine_reachable P s" and "engine_step P s s'"
    and "exec_view (eng_db s) e = Some (w, st)"
  shows "(\<exists>st'. exec_view (eng_db s') e = Some (w, st') \<and> (st' = st \<or> st' \<in> set (WORKFLOW_TRANSITIONS st))) \<and>
    (\<forall>i a. node_view (eng_db s) (e, i) = Some a \<longrightarrow>
       (\<exists>b. node_view (eng_db s') (e, i) = Some b \<and> (b = a \<or> b \<in> set (NODE_TRANSITIONS a))))"
proof -
  have inv: "engine_inv P s" by (rule engine_reachable_inv [OF assms(1,2)])
  have step: "db_step (eng_db s) (eng_db s')" using engine_step_inv [OF assms(1) inv assms(3)] by simp
  obtain g where g: "dag_view (eng_db s) w = Some g" by (rule sched_okE [OF engine_invD(1) [OF inv] assms(4)])
  obtain st' where st': "exec_view (eng_db s') e = Some (w, st')"
    "(sched_step g)\<^sup>=\<^sup>= (sched_of (eng_db s) e st) (sched_of (eng_db s') e st')"
    using step assms(4) g unfolding db_step_def by meson
  show ?thesis
  proof (cases "sched_of (eng_db s') e st' = sched_of (eng_db s) e st")
    case True
    then have "st' = st" "\<And>i. node_view (eng_db s') (e, i) = node_view (eng_db s) (e, i)" by (auto dest: fun_cong)
    with st'(1) show ?thesis by auto
  next
    case False
    with st'(2) have "sched_step g (sched_of (eng_db s) e st) (sched_of (eng_db s') e st')" by auto
    from sched_step_lifecycle [OF this] st'(1) show ?thesis by auto
  qed
qed

theorem statuses_follow_lifecycle_witness:
  "\<exists>b. node_view db_dispatched (1, ''a'') = Some b \<and> (b = PENDING \<or> b \<in> set (NODE_TRANSITIONS PENDING))"
proof -
  have e: "exec_view (eng_db engine_called) 1 = Some (1, WRUNNING)" "node_view (eng_db engine_called) (1, ''a'') = Some PENDING"
    by (simp_all add: called_sel view_code db_published_def run_db_def new_workflow_execution_def new_node_execution_def)
  from statuses_follow_lifecycle [OF sample_platform_ok reach_called step_dispatched e(1)] e(2)
  have "\<exists>b. node_view (eng_db engine_dispatched) (1, ''a'') = Some b \<and> (b = PENDING \<or> b \<in> set (NODE_TRANSITIONS PENDING))"
    by blast
  then show ?thesis by (simp add: engine_dispatched_def)
qed

text \<open>The answer of the results service on the rows of an execution.\<close>

lemma results_of_completed:
  assumes "we_status ex = WCOMPLETED" and "\<And>n. n \<in> set ns \<Longrightarrow> ne_status n = COMPLETED" and "distinct (map ne_node_id ns)"
  shows "\<exists>rs. res_results (results_of \<lparr>es_execution = ex, es_node_executions = ns\<rparr>) = Some rs \<and>
    res_message (results_of \<lparr>es_execution = ex, es_node_executions = ns\<rparr>) = None \<and> distinct (map nres_node_id rs) \<and>
    nres_node_id ` set rs = ne_node_id ` set ns \<and> (\<forall>r \<in> set rs. nres_status r = COMPLETED)"
proof -
  have "filter (\<lambda>n. ne_status n = COMPLETED) ns = ns" using assms(2) by (simp add: filter_id_conv del: filter_filter)
  moreover have "\<not> list_ex (\<lambda>n. ne_status n = FAILED) ns" using assms(2) by (auto simp: list_ex_iff)
  ultimately have x: "results_of \<lparr>es_execution = ex, es_node_executions = ns\<rparr> =
      \<lparr>res_execution = ex, res_message = None, res_results = Some (map node_result ns)\<rparr>"
    using assms(1) by (simp add: results_of_def del: filter_filter)
  have ids: "map nres_node_id (map node_result ns) = map ne_node_id ns" by (simp add: node_result_def)
  with assms(2,3) show ?thesis
    unfolding x by (intro exI [of _ "map node_result ns"]) (simp add: ids [unfolded map_map] node_result_def image_image)
qed

lemma results_of_withheld:
  "we_status ex \<noteq> WCOMPLETED \<Longrightarrow> res_results (results_of \<lparr>es_execution = ex, es_node_executions = ns\<rparr>) = None \<and>
    res_message (results_of \<lparr>es_execution = ex, es_node_executions = ns\<rparr>) \<noteq> None"
  by (cases "we_status ex") (simp_all add: results_of_def withheld_def)

text \<open>An execution all of whose nodes have completed has completed itself.\<close>

lemma completed_when_all:
  assumes "valid_graph g" and inv: "sched_inv g (s, st)"
    and ne: "graph_ids g \<noteq> {}" and all: "\<forall>i \<in> graph_ids g. st i = Some COMPLETED"
  shows "s = WCOMPLETED"
proof (cases s)
  case WPENDING
  with sched_invD(2) [OF inv] ne all show ?thesis by fastforce
next
  case WRUNNING
  have "nodes g \<noteq> []" using ne by (auto simp: graph_ids_def)
  then have "(\<exists>i. st i = Some RUNNING) \<or> (\<exists>n \<in> set (nodes g). ready st n)" using sched_progress assms(1) inv WRUNNING by blast
  moreover have "st i \<noteq> Some RUNNING" for i using all sched_invD(1) [OF inv] by (cases "i \<in> graph_ids g") auto
  moreover have "\<not> ready st n" if "n \<in> set (nodes g)" for n
    using that all by (auto simp: ready_def status_of_def graph_ids_def)
  ultimately show ?thesis by blast
next
  case WFAILED
  with sched_invD(5) [OF inv] obtain i where "st i = Some FAILED" by auto
  with all sched_invD(1) [OF inv] show ?thesis by (cases "i \<in> graph_ids g") auto
qed

text \<open>C5: what the status of an execution says about its nodes, in every reachable state: pending means
  that no node has started, failed is exactly that some node has failed, whatever the others do, and completed is
  exactly that there are nodes and all have completed. The results service answers accordingly: with the completed
  nodes, each once, exactly when the execution has completed, and with a message otherwise; the answer
  for inconsistent state is never given.\<close>

theorem execution_results_consistent:
  assumes "platform_ok P" and "engine_reachable P s"
    and "exec_view (eng_db s) e = Some (w, st)" and "dag_view (eng_db s) w = Some g"
  shows "(st = WPENDING \<longrightarrow> (\<forall>i \<in> graph_ids g. node_view (eng_db s) (e, i) = Some PENDING)) \<and>
    (st = WFAILED \<longleftrightarrow> (\<exists>i. node_view (eng_db s) (e, i) = Some FAILED)) \<and>
    (st = WCOMPLETED \<longleftrightarrow> graph_ids g \<noteq> {} \<and> (\<forall>i \<in> graph_ids g. node_view (eng_db s) (e, i) = Some COMPLETED)) \<and>
    (\<exists>x. get_results e (eng_db s) = (Inr (Some x), eng_db s) \<and>
       (if st = WCOMPLETED
        then \<exists>rs. res_results x = Some rs \<and> res_message x = None \<and> distinct (map nres_node_id rs) \<and>
          nres_node_id ` set rs = graph_ids g \<and> (\<forall>r \<in> set rs. nres_status r = COMPLETED)
        else res_results x = None \<and> res_message x \<noteq> None))"
proof -
  let ?d = "eng_db s" and ?ns = "nodes_of (eng_db s) e"
  obtain g' where "dag_view ?d w = Some g'" "sched_inv g' (sched_of ?d e st)" by (rule engine_reachable_sched [OF assms(1-3)])
  then have "sched_inv g (sched_of ?d e st)" using assms(4) by simp
  note D = sched_invD [OF this]
  have ok: "sched_ok ?d" by (rule engine_invD(1) [OF engine_reachable_inv [OF assms(1,2)]])
  note keys = sched_okD(1) [OF ok]
  from assms(3) obtain ex where ex: "executions_t.row ?d e = Some ex" "we_status ex = st" by (auto simp: exec_view_def)
  let ?x = "results_of \<lparr>es_execution = ex, es_node_executions = ?ns\<rparr>"
  have run: "get_results e ?d = (Inr (Some ?x), ?d)"
    by (simp add: get_results_def get_status_def run_transaction_def get_execution_eq [OF keys] ex get_nodes_eq)
  have mem: "i \<in> ne_node_id ` set ?ns \<longleftrightarrow> i \<in> graph_ids g" for i
  proof -
    have "i \<in> ne_node_id ` set ?ns \<longleftrightarrow> (\<exists>x. node_view ?d (e, i) = Some x)" by (auto simp: node_view_iff [OF keys])
    then show ?thesis using D(1) by (auto simp: dom_def)
  qed
  have all: "ne_status n = COMPLETED" if n: "n \<in> set ?ns" and c: "st = WCOMPLETED" for n
  proof -
    have "node_view ?d (e, ne_node_id n) = Some (ne_status n)" using n by (auto simp: node_view_iff [OF keys])
    moreover have "ne_node_id n \<in> graph_ids g" using n mem by blast
    ultimately show ?thesis using D(6) [OF c] by auto
  qed
  have ids: "ne_node_id ` set ?ns = graph_ids g" using mem by blast
  note completed = results_of_completed [of ex ?ns, unfolded ids ex(2), OF _ all distinct_nodes_of [OF keys]]
  note other = results_of_withheld [of ex ?ns, unfolded ex(2)]
  show ?thesis
  proof (intro conjI)
    show "st = WPENDING \<longrightarrow> (\<forall>i \<in> graph_ids g. node_view ?d (e, i) = Some PENDING)" using D(2) by blast
    show "st = WFAILED \<longleftrightarrow> (\<exists>i. node_view ?d (e, i) = Some FAILED)" by (rule D(5))
    show "st = WCOMPLETED \<longleftrightarrow> graph_ids g \<noteq> {} \<and> (\<forall>i \<in> graph_ids g. node_view ?d (e, i) = Some COMPLETED)"
      using D(6,8) completed_when_all [of g st "node_statuses ?d e"] sched_ok_graph [OF ok assms(3,4)] by blast
  qed (rule exI [of _ ?x], rule conjI [OF run], use completed other in presburger)
qed

theorem execution_results_consistent_witness:
  "\<exists>x. get_results 1 db_completed_a = (Inr (Some x), db_completed_a) \<and> res_results x = None"
proof -
  have db: "eng_db engine_completed_a = db_completed_a" by (simp add: engine_completed_a_def)
  have e: "exec_view (eng_db engine_completed_a) 1 = Some (1, WRUNNING)"
    "dag_view (eng_db engine_completed_a) 1 = Some \<lparr>nodes = [node_a, node_b]\<rparr>"
    by (simp_all add: db view_code db_completed_a_def run_db_def new_workflow_execution_def)
  from execution_results_consistent [OF sample_platform_ok reach_completed_a e] show ?thesis unfolding db by auto
qed

section \<open>Progress and termination\<close>

text \<open>C7: a running execution with nodes is never stuck in a reachable state: some node is running, or the
  readiness service returns a node to dispatch.\<close>

theorem running_execution_progresses:
  assumes "platform_ok P" and "engine_reachable P s"
    and "exec_view (eng_db s) e = Some (w, WRUNNING)" and "dag_view (eng_db s) w = Some g" and "nodes g \<noteq> []"
  shows "(\<exists>i. node_view (eng_db s) (e, i) = Some RUNNING) \<or>
    (\<exists>x. readiness_evaluate e (eng_db s) = (Inr x, eng_db s) \<and> ready_node_ids x \<noteq> [])"
proof -
  let ?d = "eng_db s"
  have ok: "sched_ok ?d" by (rule engine_invD(1) [OF engine_reachable_inv [OF assms(1,2)]])
  note keys = sched_okD(1) [OF ok]
  have g: "valid_graph g" "sched_inv g (WRUNNING, node_statuses ?d e)" using sched_ok_graph [OF ok assms(3,4)] by auto
  obtain ex where ex: "executions_t.row ?d e = Some ex" "we_workflow_id ex = w" using assms(3) by (auto simp: exec_view_def)
  obtain q where q: "workflows_t.row ?d w = Some q" "wr_dag_definition q = g" using assms(4) by (auto simp: dag_view_def)
  have "readiness_evaluate e ?d = (Inr \<lparr>rdy_execution_id = e,
      ready_node_ids = map wn_id (filter (ready (node_statuses ?d e)) (nodes g))\<rparr>, ?d)"
    using ex q by (simp add: readiness_evaluate_def run_transaction_def require_execution [OF keys]
        readiness_effect [OF keys] evaluate_ready_eq)
  moreover have "filter (ready (node_statuses ?d e)) (nodes g) \<noteq> []" if "\<nexists>i. node_view ?d (e, i) = Some RUNNING"
    using sched_progress [OF g assms(5)] that by (auto simp: filter_empty_conv)
  ultimately show ?thesis by auto
qed

theorem running_execution_progresses_witness:
  "(\<exists>i. node_view db_triggered (1, i) = Some RUNNING) \<or>
   (\<exists>x. readiness_evaluate 1 db_triggered = (Inr x, db_triggered) \<and> ready_node_ids x \<noteq> [])"
proof -
  have db: "eng_db engine_triggered = db_triggered" by (simp add: engine_triggered_def)
  have e: "exec_view (eng_db engine_triggered) 1 = Some (1, WRUNNING)"
    "dag_view (eng_db engine_triggered) 1 = Some \<lparr>nodes = [node_a, node_b]\<rparr>"
    by (simp_all add: db view_code db_triggered_def run_db_def new_workflow_execution_def)
  from running_execution_progresses [OF sample_platform_ok reach_triggered e] show ?thesis unfolding db by simp
qed

text \<open>The number of steps of a run that change the statuses of an execution.\<close>

fun status_changes :: "uuid \<Rightarrow> db list \<Rightarrow> nat" where
  "status_changes e (d # d' # ds) =
     (if exec_view d' e = exec_view d e \<and> node_statuses d' e = node_statuses d e then 0 else 1) +
     status_changes e (d' # ds)"
| "status_changes e ds = 0"

lemma sched_weight_le: "sched_weight g (s, st) \<le> 2 * length (nodes g) + 1"
proof -
  have "node_weight x \<le> 2" for x by (auto simp: node_weight_def split: option.split NodeExecutionStatus.split)
  then have "(\<Sum>i \<in> graph_ids g. node_weight (st i)) \<le> 2 * card (graph_ids g)"
    using sum_bounded_above [of "graph_ids g" "\<lambda>i. node_weight (st i)" 2] by simp
  moreover have "card (graph_ids g) \<le> length (nodes g)"
    unfolding graph_ids_def using card_image_le [of "set (nodes g)" wn_id] card_length [of "nodes g"] by simp
  ultimately show ?thesis by (simp add: sched_weight_def)
qed

lemma status_changes_weight:
  assumes P: "platform_ok P" and "engine_inv P s" and "exec_view (eng_db s) e = Some (w, st)"
    and "dag_view (eng_db s) w = Some g" and "successively (engine_step P) (s # ss)"
  shows "status_changes e (map eng_db (s # ss)) \<le> sched_weight g (sched_of (eng_db s) e st)"
  using assms(2-5)
proof (induction ss arbitrary: s st)
  case (Cons s' ss)
  then have es: "engine_step P s s'" "successively (engine_step P) (s' # ss)" by simp_all
  note inv = engine_step_inv [OF P Cons.prems(1) es(1)]
  have step: "db_step (eng_db s) (eng_db s')" and inv': "engine_inv P s'" using inv by simp_all
  obtain st' where st': "exec_view (eng_db s') e = Some (w, st')"
    "(sched_step g)\<^sup>=\<^sup>= (sched_of (eng_db s) e st) (sched_of (eng_db s') e st')"
    using step Cons.prems(2,3) unfolding db_step_def by meson
  have g': "dag_view (eng_db s') w = Some g" using step Cons.prems(3) by (simp add: db_step_def)
  note IH = Cons.IH [OF inv' st'(1) g' es(2)]
  show ?case
  proof (cases "sched_of (eng_db s') e st' = sched_of (eng_db s) e st")
    case True
    then have "st' = st" "node_statuses (eng_db s') e = node_statuses (eng_db s) e" by simp_all
    with IH st'(1) Cons.prems(2) show ?thesis by simp
  next
    case False
    with st'(2) have "sched_step g (sched_of (eng_db s) e st) (sched_of (eng_db s') e st')" by auto
    moreover have "sched_inv g (sched_of (eng_db s) e st)"
      using sched_ok_graph [OF engine_invD(1) [OF Cons.prems(1)] Cons.prems(2,3)] by simp
    ultimately have "sched_weight g (sched_of (eng_db s') e st') < sched_weight g (sched_of (eng_db s) e st)"
      by (rule sched_step_weight)
    with IH show ?thesis by simp
  qed
qed simp

text \<open>C8: however long the engine runs, the statuses of an execution change at most \<open>2 n + 1\<close> times, where
  \<open>n\<close> is the number of nodes of its definition: no retry, redelivery or repeated dispatch makes it run
  around.\<close>

theorem execution_changes_bounded:
  assumes "platform_ok P" and "engine_reachable P s" and "successively (engine_step P) (s # ss)"
    and "exec_view (eng_db s) e = Some (w, st)" and "dag_view (eng_db s) w = Some g"
  shows "status_changes e (map eng_db (s # ss)) \<le> 2 * length (nodes g) + 1"
  using status_changes_weight [OF assms(1) engine_reachable_inv [OF assms(1,2)] assms(4,5,3)]
    sched_weight_le [of g st "node_statuses (eng_db s) e"] by (rule le_trans)

theorem execution_changes_bounded_witness:
  "status_changes 1 [db_submitted, db_triggered] \<le> 5"
proof -
  have db: "eng_db engine_submitted = db_submitted" "eng_db engine_triggered = db_triggered"
    by (simp_all add: engine_submitted_def engine_triggered_def)
  have e: "exec_view (eng_db engine_submitted) 1 = Some (1, WPENDING)"
    "dag_view (eng_db engine_submitted) 1 = Some \<lparr>nodes = [node_a, node_b]\<rparr>"
    by (simp_all add: db view_code db_submitted_def run_db_def new_workflow_execution_def)
  have "successively (engine_step sample_platform) [engine_submitted, engine_triggered]" by (simp add: step_triggered)
  from execution_changes_bounded [OF sample_platform_ok reach_submitted this e] show ?thesis by (simp add: db)
qed

text \<open>Without nodes there is nothing whose end could finalize the execution.\<close>

lemma empty_not_terminal:
  assumes "sched_inv g (st, f)" and "nodes g = []"
  shows "st = WPENDING \<or> st = WRUNNING"
proof -
  note D = sched_invD [OF assms(1)]
  have ids: "graph_ids g = {}" using assms(2) by (simp add: graph_ids_def)
  then have "\<nexists>i. f i = Some FAILED" using D(1) by (auto simp: dom_def)
  with ids show ?thesis using D(5,8) by (cases st) blast+
qed

lemma empty_keeps_running:
  assumes P: "platform_ok P" and inv: "engine_inv P s" and run: "(engine_step P)\<^sup>*\<^sup>* s s'"
    and e: "exec_view (eng_db s) e = Some (w, WRUNNING)" and g: "dag_view (eng_db s) w = Some g" and none: "nodes g = []"
  shows "exec_view (eng_db s') e = Some (w, WRUNNING)"
proof -
  have "engine_inv P s' \<and> exec_view (eng_db s') e = Some (w, WRUNNING) \<and> dag_view (eng_db s') w = Some g"
    using run
  proof induction
    case base
    show ?case using inv e g by simp
  next
    case (step y z)
    then have y: "engine_inv P y" "exec_view (eng_db y) e = Some (w, WRUNNING)" "dag_view (eng_db y) w = Some g" by simp_all
    have z: "db_step (eng_db y) (eng_db z)" "engine_inv P z" using engine_step_inv [OF P y(1) step(2)] by simp_all
    have gz: "dag_view (eng_db z) w = Some g" using z(1) y(3) unfolding db_step_def by blast
    obtain st where st: "exec_view (eng_db z) e = Some (w, st)" using z(1) y(2,3) unfolding db_step_def by meson
    have "triggered_in (eng_db z) e"
      using triggered_in_step [OF engine_invD(1) [OF y(1)] z(1)] y(2) by (simp add: triggered_in_def)
    then have "st \<noteq> WPENDING" using st by (simp add: triggered_in_def)
    moreover have "st = WPENDING \<or> st = WRUNNING"
      using sched_ok_graph [OF engine_invD(1) [OF z(2)] st gz] empty_not_terminal none by blast
    ultimately show ?case using z(2) gz st by simp
  qed
  then show ?thesis by simp
qed

text \<open>C15: a definition without nodes, which the default rules accept, can be triggered, but its execution
  never finishes: once a trigger has succeeded it is running in every state the engine reaches from there.\<close>

theorem empty_definition_never_finishes:
  assumes "platform_ok P" and "engine_reachable P s"
    and "exec_view (eng_db s) e = Some (w, st)" and "dag_view (eng_db s) w = Some g" and "nodes g = []"
    and "trigger fresh now e inp (eng_db s) = (Inr r, d1)" and "(engine_step P)\<^sup>*\<^sup>* (s\<lparr>eng_db := d1\<rparr>) s'"
  shows "exec_view (eng_db s') e = Some (w, WRUNNING)"
proof -
  have inv: "engine_inv P s" by (rule engine_reachable_inv [OF assms(1,2)])
  have tx: "trigger_tx fresh now e inp (eng_db s) = Inr (r, d1)" using assms(6) by (simp add: trigger_def run_transaction_Inr)
  obtain w' where "exec_view (eng_db s) e = Some (w', WPENDING)" "exec_view d1 = (exec_view (eng_db s))(e \<mapsto> (w', WRUNNING))"
    "dag_view d1 = dag_view (eng_db s)"
    by (rule trigger_effect [OF sched_okD(1) [OF engine_invD(1) [OF inv]] tx])
  then have d1: "exec_view d1 e = Some (w, WRUNNING)" "dag_view d1 w = Some g" using assms(3,4) by simp_all
  have "engine_inv P (s\<lparr>eng_db := d1\<rparr>)" using engine_step_inv [OF assms(1) inv eng_trigger [OF assms(6)]] by simp
  from empty_keeps_running [OF assms(1) this assms(7)] d1 assms(5) show ?thesis by simp
qed

definition empty_definition :: pydict where
  "empty_definition = [(PStr ''name'', PStr ''empty''), (PStr ''dag'', PDict [(PStr ''nodes'', PList [])])]"

theorem empty_definition_never_finishes_witness:
  "\<exists>s r d1. engine_reachable sample_platform s \<and> exec_view (eng_db s) 1 = Some (1, WPENDING) \<and>
     trigger 9 5 1 None (eng_db s) = (Inr r, d1) \<and> exec_view d1 1 = Some (1, WRUNNING)"
proof -
  let ?w = "\<lparr>wr_workflow_id = 1, wr_name = ''empty'', wr_dag_definition = \<lparr>nodes = []\<rparr>, wr_created_at = 0\<rparr>"
  let ?d = "empty_db\<lparr>db_workflows := [?w], db_executions := [new_workflow_execution 1 1 0]\<rparr>"
  have db: "eng_db (initial_engine sample_platform) = empty_db" by (simp add: initial_engine_def)
  have "submit (default_validator (p_env sample_platform) (p_fr sample_platform)) (p_model sample_platform)
     empty_definition 1 0 empty_db = (Inr \<lparr>ws_execution_id = 1, ws_name = ''empty'', ws_created_at = 0\<rparr>, ?d)"
    by code_simp
  from eng_submit [OF this [folded db]]
  have r: "engine_reachable sample_platform ((initial_engine sample_platform)\<lparr>eng_db := ?d\<rparr>)" unfolding db by (rule r_into_rtranclp)
  have e: "exec_view ?d 1 = Some (1, WPENDING)" "dag_view ?d 1 = Some \<lparr>nodes = []\<rparr>"
    by (simp_all add: view_code new_workflow_execution_def)
  have "isl (fst (trigger 9 5 1 None ?d)) = False" by code_simp
  then obtain x d1 where t: "trigger 9 5 1 None ?d = (Inr x, d1)" by (metis isl_def prod.collapse sum.exhaust)
  from empty_definition_never_finishes [OF sample_platform_ok r, where fresh = 9 and now = 5 and inp = None, simplified,
      OF e(1) e(2) _ t rtranclp.rtrancl_refl]
  have "exec_view d1 1 = Some (1, WRUNNING)" by simp
  with r e(1) t show ?thesis
    by (intro exI [of _ "(initial_engine sample_platform)\<lparr>eng_db := ?d\<rparr>"] exI [of _ x] exI [of _ d1]) simp
qed

section \<open>At most once\<close>

lemma node_pending_back:
  assumes P: "platform_ok P" and "engine_inv P s" and "(engine_step P)\<^sup>*\<^sup>* s s'"
    and "exec_view (eng_db s) e = Some (w, st)" and "node_view (eng_db s) (e, i) = Some a" and "a \<noteq> PENDING"
  shows "\<exists>b. node_view (eng_db s') (e, i) = Some b \<and> b \<noteq> PENDING"
proof -
  have "engine_inv P s' \<and> (\<exists>st. exec_view (eng_db s') e = Some (w, st)) \<and> (\<exists>b. node_view (eng_db s') (e, i) = Some b \<and> b \<noteq> PENDING)"
    using assms(3)
  proof induction
    case base
    then show ?case using assms by blast
  next
    case (step y z)
    then obtain st b where y: "engine_inv P y" "exec_view (eng_db y) e = Some (w, st)" "node_view (eng_db y) (e, i) = Some b" "b \<noteq> PENDING"
      by blast
    have inv: "db_step (eng_db y) (eng_db z)" "engine_inv P z" using engine_step_inv [OF P y(1) step(2)] by simp_all
    obtain g where g: "dag_view (eng_db y) w = Some g" by (rule sched_okE [OF engine_invD(1) [OF y(1)] y(2)])
    obtain st' where st': "exec_view (eng_db z) e = Some (w, st')"
      "(sched_step g)\<^sup>=\<^sup>= (sched_of (eng_db y) e st) (sched_of (eng_db z) e st')"
      using inv(1) y(2) g unfolding db_step_def by meson
    have "\<exists>b. node_view (eng_db z) (e, i) = Some b \<and> b \<noteq> PENDING"
    proof (cases "node_statuses (eng_db z) e = node_statuses (eng_db y) e")
      case True
      then show ?thesis using y(3,4) by (metis fun_cong)
    next
      case False
      with st'(2) have "sched_step g (sched_of (eng_db y) e st) (sched_of (eng_db z) e st')" by auto
      from sched_step_lifecycle(2) [OF this y(3)] y(4) show ?thesis
        using node_life.initial_source [of b] by metis
    qed
    with inv(2) st'(1) show ?case by blast
  qed
  then show ?thesis by blast
qed

lemma dispatched_running:
  assumes keys: "core_keys d" and run: "dispatch fr u5 fresh now ex n d = (Inr r, d')" and out: "dr_outcome r = DISPATCHED"
  shows "node_view d (we_execution_id ex, wn_id n) = Some PENDING" "node_view d' (we_execution_id ex, wn_id n) = Some RUNNING"
proof -
  have tx: "dispatch_tx fr u5 fresh now ex n d = Inr (r, d')" using run by (simp add: dispatch_def run_transaction_Inr)
  have nofail: "\<forall>dep \<in> set (wn_dependencies n). node_view d (we_execution_id ex, dep) \<noteq> Some FAILED"
    using keys tx by (cases rule: dispatch_cases) (use out in auto)
  show "node_view d (we_execution_id ex, wn_id n) = Some PENDING" "node_view d' (we_execution_id ex, wn_id n) = Some RUNNING"
    using keys tx nofail by (cases rule: dispatch_effect; use out in auto)+
qed

text \<open>C6: a node of an execution is dispatched at most once: after a dispatch was answered \<open>DISPATCHED\<close>, no
  later dispatch of that node is, whatever the engine does in between.\<close>

theorem node_dispatched_once:
  assumes "platform_ok P" and "engine_reachable P s" and "(ex, n) \<in> eng_calls s"
    and "dispatch (p_fr P) (p_u5 P) fresh now ex n (eng_db s) = (Inr r, d1)" and "dr_outcome r = DISPATCHED"
    and "(engine_step P)\<^sup>*\<^sup>* (s\<lparr>eng_db := d1\<rparr>) s'"
    and "dispatch (p_fr P) (p_u5 P) fresh' now' ex' n' (eng_db s') = (Inr r', d2)"
    and "we_execution_id ex' = we_execution_id ex" and "wn_id n' = wn_id n"
  shows "dr_outcome r' \<noteq> DISPATCHED"
proof
  assume again: "dr_outcome r' = DISPATCHED"
  let ?s1 = "s\<lparr>eng_db := d1\<rparr>"
  have step: "engine_step P s ?s1" by (rule eng_dispatch [OF assms(3,4)])
  have inv: "engine_inv P s" by (rule engine_reachable_inv [OF assms(1,2)])
  have inv1: "engine_inv P ?s1" and db: "db_step (eng_db s) d1" using engine_step_inv [OF assms(1) inv step] by simp_all
  have keys: "core_keys (eng_db s)" by (rule sched_okD(1) [OF engine_invD(1) [OF inv]])
  have run: "node_view d1 (we_execution_id ex, wn_id n) = Some RUNNING" by (rule dispatched_running(2) [OF keys assms(4,5)])
  have "triggered_in d1 (we_execution_id ex)"
    using may_start_triggered [OF may_start_step [OF db engine_invD(6) [OF inv assms(3)]]] .
  then obtain w st where e: "exec_view (eng_db ?s1) (we_execution_id ex) = Some (w, st)" by (auto simp: triggered_in_def)
  have inv': "engine_inv P s'" using assms(6) inv1 by induction (auto dest: engine_step_inv [OF assms(1)])
  have "\<exists>b. node_view (eng_db s') (we_execution_id ex, wn_id n) = Some b \<and> b \<noteq> PENDING"
    using node_pending_back [OF assms(1) inv1 assms(6) e] run by simp
  moreover have "node_view (eng_db s') (we_execution_id ex', wn_id n') = Some PENDING"
    by (rule dispatched_running(1) [OF sched_okD(1) [OF engine_invD(1) [OF inv']] assms(7) again])
  ultimately show False using assms(8,9) by auto
qed

theorem node_dispatched_once_witness:
  "(case dispatch (p_fr sample_platform) (p_u5 sample_platform) 12 0 sample_execution node_a db_dispatched of
      (Inr r', d2) \<Rightarrow> dr_outcome r' | (Inl _, d2) \<Rightarrow> ALREADY_STARTED) \<noteq> DISPATCHED"
proof (cases "dispatch (p_fr sample_platform) (p_u5 sample_platform) 12 0 sample_execution node_a db_dispatched")
  case (Pair r d2)
  show ?thesis
  proof (cases r)
    case (Inl e)
    with Pair show ?thesis by simp
  next
    case (Inr r')
    with Pair have again: "dispatch (p_fr sample_platform) (p_u5 sample_platform) 12 0 sample_execution node_a db_dispatched = (Inr r', d2)"
      by simp
    have call: "(sample_execution, node_a) \<in> eng_calls engine_called" by (simp add: called_sel)
    have d: "dr_outcome (dispatch_result 1 ''a'' task_a DISPATCHED None) = DISPATCHED" by (simp add: dispatch_result_def)
    have "dispatch (p_fr sample_platform) (p_u5 sample_platform) 12 0 sample_execution node_a
        (eng_db (engine_called\<lparr>eng_db := db_dispatched\<rparr>)) = (Inr r', d2)" using again by simp
    from node_dispatched_once [OF sample_platform_ok reach_called call dispatched_a [folded called_sel(1)] d
        rtranclp.rtrancl_refl this refl refl]
    show ?thesis using again by simp
  qed
qed

text \<open>C10: no task ever has more attempts than the retry policy allows, in any reachable state.\<close>

theorem attempts_bounded_by_policy:
  assumes "platform_ok P" and "engine_reachable P s"
  shows "int (length (filter (\<lambda>a. ta_task_id a = t) (db_attempts (eng_db s)))) \<le> rp_max_attempts (p_policy P)"
proof -
  have "task_inv (rp_max_attempts (p_policy P)) (eng_db s)" by (rule engine_invD(2) [OF engine_reachable_inv [OF assms]])
  then show ?thesis
    using attempts_within_count [of "eng_db s" "rp_max_attempts (p_policy P)" t] assms(1)
    by (simp add: task_inv_def platform_ok_def)
qed

theorem attempts_bounded_by_policy_witness:
  "int (length (filter (\<lambda>a. ta_task_id a = task_a) (db_attempts db_dispatched))) \<le> 3"
  using attempts_bounded_by_policy [OF sample_platform_ok reach_dispatched, of task_a]
  by (simp add: engine_dispatched_def sample_platform_def default_retry_policy_def)

text \<open>C9: a completion event is applied once. After it was processed in a reachable state with any outcome,
  processing it again, at any later time, answers \<open>DUPLICATE\<close> with no node to dispatch and leaves the
  database as it is. (A consumer that stops between the transaction and the dispatch of the returned nodes
  therefore never gets these nodes again.)\<close>

theorem completion_event_applied_once:
  assumes "platform_ok P" and "engine_reachable P s"
    and "process (p_fl P) (p_u5 P) (p_policy P) fresh now ev (eng_db s) = (Inr x, d')"
  shows "process (p_fl P) (p_u5 P) (p_policy P) fresh' now' ev d' = (Inr (completion_decision ev DUPLICATE []), d')"
proof -
  have inv: "engine_inv P s" by (rule engine_reachable_inv [OF assms(1,2)])
  have ok: "sched_ok (eng_db s)" by (rule engine_invD(1) [OF inv])
  have "retry_inv (eng_db s)" using engine_invD(2) [OF inv] by (simp add: task_inv_def)
  then show ?thesis
    using process_again [OF sched_okD(1) [OF ok] _ _ assms(3)] sched_ok_graph [OF ok] by blast
qed

theorem completion_event_applied_once_witness:
  "process (p_fl sample_platform) (p_u5 sample_platform) (p_policy sample_platform) 32 5 event_a db_completed_a =
     (Inr (completion_decision event_a DUPLICATE []), db_completed_a)"
proof -
  have db: "eng_db engine_dispatched = db_dispatched" by (simp add: engine_dispatched_def)
  show ?thesis
    by (rule completion_event_applied_once [OF sample_platform_ok reach_dispatched processed_a [folded db]])
qed

end
